(* ===== verification/Py_Prelude.thy ===== *)
theory Py_Prelude
  imports Complex_Main
begin

text \<open>
  What the Python source uses of its language and of numpy, shared by every component:
  exceptions as values, the state-and-exception type of operations on a mutable world
  (with \<open>raise\<close>, \<open>try/except\<close> and \<open>try/finally\<close>), rounding as Python's \<open>round\<close> does it,
  the numpy element-wise operations (shape errors included), and the generic lemmas and
  named collections the component theories share. Floating-point numbers are real numbers
  throughout the development.
\<close>

section \<open>Exceptions as values\<close>

datatype py_error =
    ValueError
  | RuntimeError
  | TypeError
  | KeyError
  | ZeroDivisionError
  | FileNotFoundError
  | NotImplementedError
  | LeaseError
  | HostLockError
  | ServoLoopActive
  | ChunkStoppedError
  | RemoteRobotError
  | OSError
  | IndexError
  | AttributeError
  | ImportError

type_synonym 'a result = "py_error + 'a"

definition bindR :: "'a result \<Rightarrow> ('a \<Rightarrow> 'b result) \<Rightarrow> 'b result" where
  "bindR m f = (case m of Inl e \<Rightarrow> Inl e | Inr x \<Rightarrow> f x)"

definition is_ok :: "'a result \<Rightarrow> bool" where
  "is_ok m = (case m of Inl _ \<Rightarrow> False | Inr _ \<Rightarrow> True)"

fun mapR :: "('a \<Rightarrow> 'b result) \<Rightarrow> 'a list \<Rightarrow> 'b list result" where
  "mapR f [] = Inr []"
| "mapR f (x # xs) = bindR (f x) (\<lambda>y. bindR (mapR f xs) (\<lambda>ys. Inr (y # ys)))"

lemma bindR_simps [simp]:
  "bindR (Inl e) f = Inl e"
  "bindR (Inr x) f = f x"
  by (simp_all add: bindR_def)

lemma is_ok_simps [simp]:
  "is_ok (Inl e) = False"
  "is_ok (Inr x) = True"
  by (simp_all add: is_ok_def)

lemma bindR_eq_Inr:
  "bindR m f = Inr y \<longleftrightarrow> (\<exists>x. m = Inr x \<and> f x = Inr y)"
  by (cases m) simp_all

lemma mapR_map_Inr:
  assumes "\<And>x. x \<in> set xs \<Longrightarrow> f (g x) = Inr x"
  shows "mapR f (map g xs) = Inr xs"
  using assms by (induction xs) simp_all

lemma mapR_map_Inr':
  assumes "\<And>x. x \<in> set xs \<Longrightarrow> f (g x) = Inr (h x)"
  shows "mapR f (map g xs) = Inr (map h xs)"
  using assms by (induction xs) simp_all

section \<open>Operations on a mutable world that may raise\<close>

text \<open>
  An operation takes the world it mutates and returns the value or the exception together
  with the world it leaves: an exception does not undo the effects before it.
\<close>

type_synonym ('s, 'a) sem = "'s \<Rightarrow> 'a result \<times> 's"

definition retS :: "'a \<Rightarrow> ('s, 'a) sem" where
  "retS x s = (Inr x, s)"

definition raiseS :: "py_error \<Rightarrow> ('s, 'a) sem" where
  "raiseS e s = (Inl e, s)"

definition bindS :: "('s, 'a) sem \<Rightarrow> ('a \<Rightarrow> ('s, 'b) sem) \<Rightarrow> ('s, 'b) sem" where
  "bindS m f s = (case m s of (Inl e, s') \<Rightarrow> (Inl e, s') | (Inr x, s') \<Rightarrow> f x s')"

definition thenS :: "('s, 'a) sem \<Rightarrow> ('s, 'b) sem \<Rightarrow> ('s, 'b) sem" where
  "thenS m k = bindS m (\<lambda>_. k)"

definition getS :: "('s \<Rightarrow> 'a) \<Rightarrow> ('s, 'a) sem" where
  "getS f s = (Inr (f s), s)"

definition modS :: "('s \<Rightarrow> 's) \<Rightarrow> ('s, unit) sem" where
  "modS f s = (Inr (), f s)"

definition liftS :: "'a result \<Rightarrow> ('s, 'a) sem" where
  "liftS r s = (r, s)"

text \<open>\<open>try: m  except Exception as e: h(e)\<close>\<close>

definition catchS :: "('s, 'a) sem \<Rightarrow> (py_error \<Rightarrow> ('s, 'a) sem) \<Rightarrow> ('s, 'a) sem" where
  "catchS m h s = (case m s of (Inl e, s') \<Rightarrow> h e s' | (Inr x, s') \<Rightarrow> (Inr x, s'))"

text \<open>
  \<open>try: m  finally: k\<close>: the finaliser runs after a result and after an exception; an
  exception of its own replaces the outcome of \<open>m\<close>.
\<close>

definition finallyS :: "('s, 'a) sem \<Rightarrow> ('a result \<Rightarrow> ('s, 'a result) sem) \<Rightarrow> ('s, 'a) sem" where
  "finallyS m k s =
     (case m s of (r, s') \<Rightarrow>
       (case k r s' of (Inl e, s'') \<Rightarrow> (Inl e, s'') | (Inr r', s'') \<Rightarrow> (r', s'')))"

named_theorems sem_simps \<open>unfolding rules for the state-and-exception operations\<close>

lemma sem_base [sem_simps]:
  "retS x s = (Inr x, s)"
  "raiseS e s = (Inl e, s)"
  "getS f s = (Inr (f s), s)"
  "modS g s = (Inr (), g s)"
  "liftS r s = (r, s)"
  by (simp_all add: retS_def raiseS_def getS_def modS_def liftS_def)

lemma thenS_eq [sem_simps]:
  "thenS m k s = (case m s of (Inl e, s') \<Rightarrow> (Inl e, s') | (Inr x, s') \<Rightarrow> k s')"
  by (simp add: thenS_def bindS_def)

lemma bindS_Inr: "m s = (Inr x, s') \<Longrightarrow> bindS m f s = f x s'"
  by (simp add: bindS_def)

lemma bindS_Inl: "m s = (Inl e, s') \<Longrightarrow> bindS m f s = (Inl e, s')"
  by (simp add: bindS_def)

lemma bindS_assoc: "bindS (bindS m f) g = bindS m (\<lambda>x. bindS (f x) g)"
  by (rule ext) (simp add: bindS_def split: prod.splits sum.splits)

lemma bindS_return: "bindS m retS = m" "bindS (retS x) f = f x"
  by (rule ext, simp add: bindS_def retS_def split: prod.splits sum.splits)+

text \<open>
  A world invariant that every step of an operation keeps, whatever the outcome: the rules
  that carry invariants through the combinators above.
\<close>

definition keepsS :: "('s \<Rightarrow> bool) \<Rightarrow> ('s, 'a) sem \<Rightarrow> bool" where
  "keepsS I m \<longleftrightarrow> (\<forall>s. I s \<longrightarrow> I (snd (m s)))"

lemma keepsS_I: "(\<And>s. I s \<Longrightarrow> I (snd (m s))) \<Longrightarrow> keepsS I m"
  by (simp add: keepsS_def)

lemma keepsS_D: "keepsS I m \<Longrightarrow> I s \<Longrightarrow> I (snd (m s))"
  by (simp add: keepsS_def)

lemma keepsS_base [intro]:
  "keepsS I (retS x)" "keepsS I (raiseS e)" "keepsS I (getS f)" "keepsS I (liftS r)"
  by (simp_all add: keepsS_def sem_simps)

lemma keepsS_bind [intro]:
  "keepsS I m \<Longrightarrow> (\<And>x. keepsS I (f x)) \<Longrightarrow> keepsS I (bindS m f)"
  by (fastforce simp: keepsS_def bindS_def split: prod.splits sum.splits)

lemma keepsS_then [intro]:
  "keepsS I m \<Longrightarrow> keepsS I k \<Longrightarrow> keepsS I (thenS m k)"
  by (simp add: thenS_def keepsS_bind)

lemma keepsS_catch [intro]:
  "keepsS I m \<Longrightarrow> (\<And>e. keepsS I (h e)) \<Longrightarrow> keepsS I (catchS m h)"
  by (fastforce simp: keepsS_def catchS_def split: prod.splits sum.splits)

lemma keepsS_finally [intro]:
  "keepsS I m \<Longrightarrow> (\<And>r. keepsS I (k r)) \<Longrightarrow> keepsS I (finallyS m k)"
  unfolding keepsS_def finallyS_def
  by (auto split: prod.splits sum.splits) (metis snd_conv)+

text \<open>
  Weakest preconditions: what must hold before an operation for \<open>Q\<close> to hold of a result and \<open>E\<close>
  of an exception, each with the world left behind. The rules run through the combinators.
\<close>

definition wpS :: "('s, 'a) sem \<Rightarrow> ('a \<Rightarrow> 's \<Rightarrow> bool) \<Rightarrow> (py_error \<Rightarrow> 's \<Rightarrow> bool) \<Rightarrow> 's \<Rightarrow> bool" where
  "wpS m Q E s = (case m s of (Inr x, s') \<Rightarrow> Q x s' | (Inl e, s') \<Rightarrow> E e s')"

named_theorems wp_simps \<open>weakest-precondition rules\<close>

lemma wpS_base [wp_simps]:
  "wpS (retS x) Q E s = Q x s"
  "wpS (raiseS e) Q E s = E e s"
  "wpS (getS f) Q E s = Q (f s) s"
  "wpS (liftS v) Q E s = (case v of Inr x \<Rightarrow> Q x s | Inl e \<Rightarrow> E e s)"
  by (simp_all add: wpS_def sem_simps)

lemma wpS_modS [wp_simps]: "wpS (modS g) Q E s = Q () (g s)"
  by (simp add: wpS_def sem_simps)

lemma wpS_bind [wp_simps]: "wpS (bindS m f) Q E s = wpS m (\<lambda>x. wpS (f x) Q E) E s"
  by (simp add: wpS_def bindS_def split: prod.splits sum.splits)

lemma wpS_then [wp_simps]: "wpS (thenS m k) Q E s = wpS m (\<lambda>_. wpS k Q E) E s"
  by (simp add: thenS_def wpS_bind)

lemma wpS_catch [wp_simps]: "wpS (catchS m h) Q E s = wpS m Q (\<lambda>e. wpS (h e) Q E) s"
  by (simp add: wpS_def catchS_def split: prod.splits sum.splits)

lemma wpS_finally [wp_simps]:
  "wpS (finallyS m k) Q E s =
     wpS m (\<lambda>x. wpS (k (Inr x)) (\<lambda>r s'. case r of Inr y \<Rightarrow> Q y s' | Inl e \<Rightarrow> E e s') E)
           (\<lambda>e. wpS (k (Inl e)) (\<lambda>r s'. case r of Inr y \<Rightarrow> Q y s' | Inl e' \<Rightarrow> E e' s') E) s"
  by (simp add: wpS_def finallyS_def split: prod.splits sum.splits)

lemma wpS_if [wp_simps]: "wpS (if b then m else k) Q E s = (if b then wpS m Q E s else wpS k Q E s)"
  by simp

lemma wpS_mono:
  assumes "wpS m Q E s" "\<And>x s'. Q x s' \<Longrightarrow> Q' x s'" "\<And>e s'. E e s' \<Longrightarrow> E' e s'"
  shows "wpS m Q' E' s"
  using assms by (auto simp: wpS_def split: prod.splits sum.splits)

lemma wpS_bindI: "wpS m P E s \<Longrightarrow> (\<And>x s'. P x s' \<Longrightarrow> wpS (f x) Q E s') \<Longrightarrow> wpS (bindS m f) Q E s"
  unfolding wpS_bind by (erule wpS_mono)

lemma wpS_thenI: "wpS m P E s \<Longrightarrow> (\<And>x s'. P x s' \<Longrightarrow> wpS k Q E s') \<Longrightarrow> wpS (thenS m k) Q E s"
  unfolding wpS_then by (erule wpS_mono)

lemma wpS_I: "(\<And>x s'. m s = (Inr x, s') \<Longrightarrow> Q x s') \<Longrightarrow> (\<And>e s'. m s = (Inl e, s') \<Longrightarrow> E e s') \<Longrightarrow> wpS m Q E s"
  by (auto simp: wpS_def split: prod.splits sum.splits)

lemma wpS_any: "(\<And>x w. Q x w) \<Longrightarrow> (\<And>e w. E e w) \<Longrightarrow> wpS m Q E w"
  by (simp add: wpS_def split: prod.splits sum.splits)

lemma wpS_ok: "m s = (Inr x, s') \<Longrightarrow> wpS m Q E s = Q x s'"
  and wpS_err: "m s = (Inl e, s') \<Longrightarrow> wpS m Q E s = E e s'"
  by (simp_all add: wpS_def)

lemma wpS_Inr: "wpS m Q E s \<Longrightarrow> m s = (Inr x, s') \<Longrightarrow> Q x s'"
  by (simp add: wpS_def)

lemma wpS_Inl: "wpS m Q E s \<Longrightarrow> m s = (Inl e, s') \<Longrightarrow> E e s'"
  by (simp add: wpS_def)

lemma wpS_conj: "wpS m (\<lambda>x s. Q x s \<and> Q' x s) (\<lambda>e s. E e s \<and> E' e s) s = (wpS m Q E s \<and> wpS m Q' E' s)"
  by (auto simp: wpS_def split: prod.splits sum.splits)

text \<open>Two worlds side by side: operations on one do not touch the other.\<close>

definition on1 :: "('a, 'x) sem \<Rightarrow> ('a \<times> 'p, 'x) sem" where
  "on1 m v = (case m (fst v) of (x, a) \<Rightarrow> (x, (a, snd v)))"

definition on2 :: "('p, 'x) sem \<Rightarrow> ('a \<times> 'p, 'x) sem" where
  "on2 m v = (case m (snd v) of (x, q) \<Rightarrow> (x, (fst v, q)))"

lemma wpS_on1 [wp_simps]: "wpS (on1 m) Q E v = wpS m (\<lambda>x a. Q x (a, snd v)) (\<lambda>e a. E e (a, snd v)) (fst v)"
  by (simp add: wpS_def on1_def split: prod.splits sum.splits)

lemma wpS_on2I: "(\<And>x q. Q x (fst v, q)) \<Longrightarrow> (\<And>e q. E e (fst v, q)) \<Longrightarrow> wpS (on2 m) Q E v"
  by (simp add: wpS_def on2_def split: prod.splits sum.splits)

section \<open>Numbers\<close>

text \<open>Python's \<open>round\<close>: to the nearest integer, ties to the even one.\<close>

definition py_round :: "real \<Rightarrow> int" where
  "py_round x =
     (let f = \<lfloor>x\<rfloor>; d = x - of_int f
      in if d < 1/2 then f else if 1/2 < d then f + 1 else if even f then f else f + 1)"

lemma py_round_of_int [simp]: "py_round (of_int n) = n"
  by (simp add: py_round_def Let_def)

lemma py_round_of_nat [simp]: "py_round (of_nat n) = int n"
  using py_round_of_int [of "int n"] by simp

lemma py_round_numeral [simp]: "py_round (numeral n) = numeral n"
  using py_round_of_int [of "numeral n"] by simp

lemma py_round_error: "\<bar>of_int (py_round x) - x\<bar> \<le> 1/2"
  unfolding py_round_def Let_def
  by (simp add: abs_le_iff)

text \<open>\<open>np.clip\<close>: \<open>minimum(maximum(x, lo), hi)\<close>; the upper bound wins when they cross.\<close>

definition np_clip :: "real \<Rightarrow> real \<Rightarrow> real \<Rightarrow> real" where
  "np_clip x lo hi = min (max x lo) hi"

lemma np_clip_bounds: "lo \<le> hi \<Longrightarrow> lo \<le> np_clip x lo hi \<and> np_clip x lo hi \<le> hi"
  by (simp add: np_clip_def)

lemma np_clip_id: "lo \<le> x \<Longrightarrow> x \<le> hi \<Longrightarrow> np_clip x lo hi = x"
  by (simp add: np_clip_def)

text \<open>\<open>np.isclose(a, b)\<close> with numpy's default tolerances.\<close>

definition np_isclose :: "real \<Rightarrow> real \<Rightarrow> bool" where
  "np_isclose a b = (\<bar>a - b\<bar> \<le> 1 / 10 ^ 8 + 1 / 10 ^ 5 * \<bar>b\<bar>)"

lemma np_isclose_refl [simp]: "np_isclose a a"
  by (simp add: np_isclose_def)

section \<open>One-dimensional numpy arrays\<close>

text \<open>
  Element-wise binary operations follow numpy's broadcasting rule: equal shapes, or one side
  of length one; anything else raises \<open>ValueError\<close>.
\<close>

definition np_map2 :: "(real \<Rightarrow> real \<Rightarrow> 'a) \<Rightarrow> real list \<Rightarrow> real list \<Rightarrow> 'a list result" where
  "np_map2 f xs ys =
     (if length xs = length ys then Inr (map2 f xs ys)
      else if length xs = 1 then Inr (map (f (hd xs)) ys)
      else if length ys = 1 then Inr (map (\<lambda>x. f x (hd ys)) xs)
      else Inl ValueError)"

lemma np_map2_eq_length [simp]:
  "length xs = length ys \<Longrightarrow> np_map2 f xs ys = Inr (map2 f xs ys)"
  by (simp add: np_map2_def)

lemma map2_nth_I:
  assumes "length xs = length ys" and "\<And>i. i < length xs \<Longrightarrow> P (f (xs ! i) (ys ! i))"
  shows "\<forall>z \<in> set (map2 f xs ys). P z"
  using assms by (auto simp: set_zip)

text \<open>\<open>np.any(np.abs(xs) > caps)\<close>\<close>

definition np_any_abs_gt :: "real list \<Rightarrow> real list \<Rightarrow> bool result" where
  "np_any_abs_gt xs caps = bindR (np_map2 (\<lambda>x c. c < \<bar>x\<bar>) xs caps) (\<lambda>bs. Inr (True \<in> set bs))"

lemma np_any_abs_gt_False:
  assumes "length xs = length caps" "np_any_abs_gt xs caps = Inr False" "i < length xs"
  shows "\<bar>xs ! i\<bar> \<le> caps ! i"
proof (rule ccontr)
  assume "\<not> \<bar>xs ! i\<bar> \<le> caps ! i"
  with assms have "True \<in> set (map2 (\<lambda>x c. c < \<bar>x\<bar>) xs caps)"
    by (force simp: set_zip)
  with assms show False
    by (simp add: np_any_abs_gt_def)
qed

lemma np_any_abs_gt_True:
  assumes "length xs = length caps" "np_any_abs_gt xs caps = Inr True"
  shows "\<exists>i < length xs. caps ! i < \<bar>xs ! i\<bar>"
  using assms by (auto simp: np_any_abs_gt_def set_zip)

text \<open>\<open>np.max(np.abs(xs))\<close>, which raises on an empty array.\<close>

definition np_max_abs :: "real list \<Rightarrow> real result" where
  "np_max_abs xs = (case xs of [] \<Rightarrow> Inl ValueError | x # r \<Rightarrow> Inr (fold max (map abs r) \<bar>x\<bar>))"

lemma fold_max_ge: "(a::real) \<le> fold max xs a \<and> (\<forall>x \<in> set xs. x \<le> fold max xs a)"
proof (induction xs arbitrary: a)
  case (Cons x xs)
  from Cons [of "max x a"] show ?case by auto
qed simp

lemma np_max_abs_ge:
  assumes "np_max_abs xs = Inr m" "i < length xs"
  shows "\<bar>xs ! i\<bar> \<le> m"
proof -
  obtain x r where xs: "xs = x # r" using assms(2) by (cases xs) auto
  have "\<bar>xs ! i\<bar> = \<bar>x\<bar> \<or> \<bar>xs ! i\<bar> \<in> set (map abs r)"
    using assms(2) xs by (cases i) auto
  with assms(1) xs fold_max_ge [of "\<bar>x\<bar>" "map abs r"] show ?thesis
    by (auto simp: np_max_abs_def)
qed

section \<open>Dictionaries read with a default\<close>

definition get_default :: "('k \<times> 'v) list \<Rightarrow> 'k \<Rightarrow> 'v \<Rightarrow> 'v" where
  "get_default d k v = (case map_of d k of None \<Rightarrow> v | Some x \<Rightarrow> x)"

end
