(* ===== verification/Vectors.thy ===== *)
theory Vectors
  imports Py_Prelude
begin

text \<open>
  The fixed-size numpy arrays of the geometry code: 3-vectors (positions, translations,
  rotation vectors) and 4-vectors (quaternions, w first), as real normed vector spaces, so
  that \<open>np.linalg.norm(a - b)\<close> is \<open>norm (a - b)\<close> and the library's norm lemmas apply.
  Also the segment lemmas behind every clip of the safety filter.
\<close>

datatype vec3 = Vec3 (vx: real) (vy: real) (vz: real)

datatype quat = Quat (qw: real) (qx: real) (qy: real) (qz: real)

lemma vec3_eq_iff: "u = v \<longleftrightarrow> vx u = vx v \<and> vy u = vy v \<and> vz u = vz v"
  by (cases u; cases v) simp

lemma quat_eq_iff: "p = q \<longleftrightarrow> qw p = qw q \<and> qx p = qx q \<and> qy p = qy q \<and> qz p = qz q"
  by (cases p; cases q) simp

section \<open>Four-dimensional Cauchy-Schwarz and triangle inequality\<close>

lemma cauchy_schwarz4:
  fixes a b c d e f g h :: real
  shows "(a*e + b*f + c*g + d*h)\<^sup>2 \<le> (a\<^sup>2 + b\<^sup>2 + c\<^sup>2 + d\<^sup>2) * (e\<^sup>2 + f\<^sup>2 + g\<^sup>2 + h\<^sup>2)"
proof -
  have "(a\<^sup>2 + b\<^sup>2 + c\<^sup>2 + d\<^sup>2) * (e\<^sup>2 + f\<^sup>2 + g\<^sup>2 + h\<^sup>2) - (a*e + b*f + c*g + d*h)\<^sup>2
      = (a*f - b*e)\<^sup>2 + (a*g - c*e)\<^sup>2 + (a*h - d*e)\<^sup>2
        + (b*g - c*f)\<^sup>2 + (b*h - d*f)\<^sup>2 + (c*h - d*g)\<^sup>2"
    by (simp add: power2_eq_square algebra_simps)
  also have "\<dots> \<ge> 0" by (intro add_nonneg_nonneg zero_le_power2)
  finally show ?thesis by simp
qed

lemma cauchy_schwarz4_sqrt:
  fixes a b c d e f g h :: real
  shows "\<bar>a*e + b*f + c*g + d*h\<bar> \<le> sqrt (a\<^sup>2 + b\<^sup>2 + c\<^sup>2 + d\<^sup>2) * sqrt (e\<^sup>2 + f\<^sup>2 + g\<^sup>2 + h\<^sup>2)"
  using real_sqrt_le_mono [OF cauchy_schwarz4 [of a e b f c g d h]]
  by (simp add: real_sqrt_mult)

lemma triangle4:
  fixes a b c d e f g h :: real
  shows "sqrt ((a+e)\<^sup>2 + (b+f)\<^sup>2 + (c+g)\<^sup>2 + (d+h)\<^sup>2)
           \<le> sqrt (a\<^sup>2 + b\<^sup>2 + c\<^sup>2 + d\<^sup>2) + sqrt (e\<^sup>2 + f\<^sup>2 + g\<^sup>2 + h\<^sup>2)"
proof (rule real_le_lsqrt)
  let ?p = "a\<^sup>2 + b\<^sup>2 + c\<^sup>2 + d\<^sup>2" and ?q = "e\<^sup>2 + f\<^sup>2 + g\<^sup>2 + h\<^sup>2"
  show "0 \<le> sqrt ?p + sqrt ?q" by simp
  have pq: "(sqrt ?p)\<^sup>2 = ?p" "(sqrt ?q)\<^sup>2 = ?q" by simp_all
  have "a*e + b*f + c*g + d*h \<le> sqrt ?p * sqrt ?q"
    using cauchy_schwarz4_sqrt [of a e b f c g d h] by linarith
  then show "(a+e)\<^sup>2 + (b+f)\<^sup>2 + (c+g)\<^sup>2 + (d+h)\<^sup>2 \<le> (sqrt ?p + sqrt ?q)\<^sup>2"
    unfolding power2_sum pq by (simp add: algebra_simps)
qed

section \<open>The normed vector space instances\<close>

instantiation vec3 :: real_normed_vector
begin

definition zero_vec3_def: "0 = Vec3 0 0 0"
definition plus_vec3_def: "u + v = Vec3 (vx u + vx v) (vy u + vy v) (vz u + vz v)"
definition minus_vec3_def: "u - v = Vec3 (vx u - vx v) (vy u - vy v) (vz u - vz v)"
definition uminus_vec3_def: "- u = Vec3 (- vx u) (- vy u) (- vz u)"
definition scaleR_vec3_def: "r *\<^sub>R u = Vec3 (r * vx u) (r * vy u) (r * vz u)"
definition norm_vec3_def: "norm u = sqrt ((vx u)\<^sup>2 + (vy u)\<^sup>2 + (vz u)\<^sup>2)"
definition dist_vec3_def: "dist u v = norm (u - v)" for u v :: vec3
definition sgn_vec3_def: "sgn u = inverse (norm u) *\<^sub>R u" for u :: vec3
definition uniformity_vec3_def:
  "(uniformity :: (vec3 \<times> vec3) filter) = (INF e\<in>{0<..}. principal {(u, v). dist u v < e})"
definition open_vec3_def:
  "open (S :: vec3 set) = (\<forall>u\<in>S. eventually (\<lambda>(w, v). w = u \<longrightarrow> v \<in> S) uniformity)"

instance
proof
  fix a b :: real and u v w :: vec3 and S :: "vec3 set"
  note defs = zero_vec3_def plus_vec3_def minus_vec3_def uminus_vec3_def scaleR_vec3_def
  show "u + v + w = u + (v + w)" "u + v = v + u" "0 + u = u" "- u + u = 0" "u - v = u + - v"
    "1 *\<^sub>R u = u"
    by (simp_all add: defs vec3_eq_iff)
  show "a *\<^sub>R (u + v) = a *\<^sub>R u + a *\<^sub>R v" "(a + b) *\<^sub>R u = a *\<^sub>R u + b *\<^sub>R u"
    "a *\<^sub>R b *\<^sub>R u = (a * b) *\<^sub>R u"
    by (simp_all add: defs vec3_eq_iff algebra_simps)
  show "(norm u = 0) = (u = 0)"
    by (simp add: norm_vec3_def zero_vec3_def vec3_eq_iff add_nonneg_eq_0_iff)
  show "norm (u + v) \<le> norm u + norm v"
    using triangle4 [of "vx u" "vx v" "vy u" "vy v" "vz u" "vz v" 0 0]
    by (simp add: norm_vec3_def plus_vec3_def)
  have "norm (a *\<^sub>R u) = sqrt (a\<^sup>2 * ((vx u)\<^sup>2 + (vy u)\<^sup>2 + (vz u)\<^sup>2))"
    by (simp add: norm_vec3_def scaleR_vec3_def power_mult_distrib distrib_left)
  then show "norm (a *\<^sub>R u) = \<bar>a\<bar> * norm u"
    by (simp add: norm_vec3_def real_sqrt_mult)
qed (fact dist_vec3_def sgn_vec3_def uniformity_vec3_def open_vec3_def)+

end

instantiation quat :: real_normed_vector
begin

definition zero_quat_def: "0 = Quat 0 0 0 0"
definition plus_quat_def: "p + q = Quat (qw p + qw q) (qx p + qx q) (qy p + qy q) (qz p + qz q)"
definition minus_quat_def: "p - q = Quat (qw p - qw q) (qx p - qx q) (qy p - qy q) (qz p - qz q)"
definition uminus_quat_def: "- q = Quat (- qw q) (- qx q) (- qy q) (- qz q)"
definition scaleR_quat_def: "r *\<^sub>R q = Quat (r * qw q) (r * qx q) (r * qy q) (r * qz q)"
definition norm_quat_def: "norm q = sqrt ((qw q)\<^sup>2 + (qx q)\<^sup>2 + (qy q)\<^sup>2 + (qz q)\<^sup>2)"
definition dist_quat_def: "dist p q = norm (p - q)" for p q :: quat
definition sgn_quat_def: "sgn q = inverse (norm q) *\<^sub>R q" for q :: quat
definition uniformity_quat_def:
  "(uniformity :: (quat \<times> quat) filter) = (INF e\<in>{0<..}. principal {(p, q). dist p q < e})"
definition open_quat_def:
  "open (S :: quat set) = (\<forall>p\<in>S. eventually (\<lambda>(r, q). r = p \<longrightarrow> q \<in> S) uniformity)"

instance
proof
  fix a b :: real and p q r :: quat and S :: "quat set"
  note defs = zero_quat_def plus_quat_def minus_quat_def uminus_quat_def scaleR_quat_def
  show "p + q + r = p + (q + r)" "p + q = q + p" "0 + p = p" "- p + p = 0" "p - q = p + - q"
    "1 *\<^sub>R p = p"
    by (simp_all add: defs quat_eq_iff)
  show "a *\<^sub>R (p + q) = a *\<^sub>R p + a *\<^sub>R q" "(a + b) *\<^sub>R p = a *\<^sub>R p + b *\<^sub>R p"
    "a *\<^sub>R b *\<^sub>R p = (a * b) *\<^sub>R p"
    by (simp_all add: defs quat_eq_iff algebra_simps)
  show "(norm p = 0) = (p = 0)"
    by (simp add: norm_quat_def zero_quat_def quat_eq_iff add_nonneg_eq_0_iff)
  show "norm (p + q) \<le> norm p + norm q"
    using triangle4 [of "qw p" "qw q" "qx p" "qx q" "qy p" "qy q" "qz p" "qz q"]
    by (simp add: norm_quat_def plus_quat_def)
  have "norm (a *\<^sub>R p) = sqrt (a\<^sup>2 * ((qw p)\<^sup>2 + (qx p)\<^sup>2 + (qy p)\<^sup>2 + (qz p)\<^sup>2))"
    by (simp add: norm_quat_def scaleR_quat_def power_mult_distrib distrib_left)
  then show "norm (a *\<^sub>R p) = \<bar>a\<bar> * norm p"
    by (simp add: norm_quat_def real_sqrt_mult)
qed (fact dist_quat_def sgn_quat_def uniformity_quat_def open_quat_def)+

end

section \<open>Coordinates\<close>

lemma vec3_sel [simp]:
  "vx 0 = 0" "vy 0 = 0" "vz 0 = 0"
  "vx (u + v) = vx u + vx v" "vy (u + v) = vy u + vy v" "vz (u + v) = vz u + vz v"
  "vx (u - v) = vx u - vx v" "vy (u - v) = vy u - vy v" "vz (u - v) = vz u - vz v"
  "vx (- u) = - vx u" "vy (- u) = - vy u" "vz (- u) = - vz u"
  "vx (r *\<^sub>R u) = r * vx u" "vy (r *\<^sub>R u) = r * vy u" "vz (r *\<^sub>R u) = r * vz u"
  by (simp_all add: zero_vec3_def plus_vec3_def minus_vec3_def uminus_vec3_def scaleR_vec3_def)

lemma quat_sel [simp]:
  "qw 0 = 0" "qx 0 = 0" "qy 0 = 0" "qz 0 = 0"
  "qw (p + q) = qw p + qw q" "qx (p + q) = qx p + qx q"
  "qy (p + q) = qy p + qy q" "qz (p + q) = qz p + qz q"
  "qw (p - q) = qw p - qw q" "qx (p - q) = qx p - qx q"
  "qy (p - q) = qy p - qy q" "qz (p - q) = qz p - qz q"
  "qw (- q) = - qw q" "qx (- q) = - qx q" "qy (- q) = - qy q" "qz (- q) = - qz q"
  "qw (r *\<^sub>R q) = r * qw q" "qx (r *\<^sub>R q) = r * qx q"
  "qy (r *\<^sub>R q) = r * qy q" "qz (r *\<^sub>R q) = r * qz q"
  by (simp_all add: zero_quat_def plus_quat_def minus_quat_def uminus_quat_def scaleR_quat_def)

lemma vec3_norm_sq: "(norm u)\<^sup>2 = (vx u)\<^sup>2 + (vy u)\<^sup>2 + (vz u)\<^sup>2" for u :: vec3
  by (simp add: norm_vec3_def)

lemma quat_norm_sq: "(norm q)\<^sup>2 = (qw q)\<^sup>2 + (qx q)\<^sup>2 + (qy q)\<^sup>2 + (qz q)\<^sup>2" for q :: quat
  by (simp add: norm_quat_def)

text \<open>Norms of axis-aligned vectors evaluate, which the concrete instances use.\<close>

lemma norm_axis [simp]:
  "norm (Vec3 x 0 0) = \<bar>x\<bar>" "norm (Vec3 0 y 0) = \<bar>y\<bar>" "norm (Vec3 0 0 z) = \<bar>z\<bar>"
  "norm (Quat w 0 0 0) = \<bar>w\<bar>"
  by (simp_all add: norm_vec3_def norm_quat_def)

lemma Vec3_arith:
  "Vec3 a b c + Vec3 d e f = Vec3 (a + d) (b + e) (c + f)"
  "Vec3 a b c - Vec3 d e f = Vec3 (a - d) (b - e) (c - f)"
  "- Vec3 a b c = Vec3 (- a) (- b) (- c)"
  "r *\<^sub>R Vec3 a b c = Vec3 (r * a) (r * b) (r * c)"
  by (simp_all add: vec3_eq_iff)

lemma Quat_arith:
  "Quat a b c d + Quat e f g h = Quat (a + e) (b + f) (c + g) (d + h)"
  "Quat a b c d - Quat e f g h = Quat (a - e) (b - f) (c - g) (d - h)"
  "- Quat a b c d = Quat (- a) (- b) (- c) (- d)"
  "r *\<^sub>R Quat a b c d = Quat (r * a) (r * b) (r * c) (r * d)"
  by (simp_all add: quat_eq_iff)

section \<open>Shortening a step\<close>

text \<open>
  Every limit of the filter replaces a step \<open>p\<close> from \<open>ref\<close> by \<open>ref + s (p - ref)\<close> with
  \<open>s\<close> in \<open>[0, 1]\<close>: the step gets shorter, and the point stays in any box that holds both
  ends.
\<close>

lemma shorten_norm:
  fixes p r :: "'a::real_normed_vector"
  assumes "0 \<le> s" "s \<le> 1"
  shows "norm ((r + s *\<^sub>R (p - r)) - r) \<le> norm (p - r)"
  using assms by (simp add: mult_left_le_one_le)

lemma shorten_to:
  fixes p r :: "'a::real_normed_vector"
  assumes "0 \<le> m" "0 < e"
  shows "norm ((r + (m / max (norm (p - r)) e) *\<^sub>R (p - r)) - r) \<le> m"
proof -
  have "m / max (norm (p - r)) e * norm (p - r) \<le> m / max (norm (p - r)) e * max (norm (p - r)) e"
    using assms by (intro mult_left_mono) (auto simp: max_def)
  also have "\<dots> = m" using assms by (auto simp: max_def)
  finally show ?thesis using assms by (simp add: max_def)
qed

lemma shorten_factor:
  assumes "0 \<le> (m::real)" "m < n" "0 < e"
  shows "0 \<le> m / max n e \<and> m / max n e \<le> 1"
  using assms by (auto simp: max_def field_simps)

lemma segment_bounds:
  fixes a b lo hi s :: real
  assumes "lo \<le> a" "a \<le> hi" "lo \<le> b" "b \<le> hi" "0 \<le> s" "s \<le> 1"
  shows "lo \<le> a + s * (b - a) \<and> a + s * (b - a) \<le> hi"
proof -
  have eq: "a + s * (b - a) = (1 - s) * a + s * b" by (simp add: algebra_simps)
  have "(1 - s) * lo + s * lo \<le> (1 - s) * a + s * b"
    using assms by (intro add_mono mult_left_mono) auto
  moreover have "(1 - s) * a + s * b \<le> (1 - s) * hi + s * hi"
    using assms by (intro add_mono mult_left_mono) auto
  ultimately show ?thesis unfolding eq by (simp add: algebra_simps)
qed

end
