(* ===== verification/Transforms.thy ===== *)
theory Transforms
  imports Vectors
begin

text \<open>
  \<^verbatim>\<open>transforms.py\<close>: the quaternion and SE(3) helpers. Quaternions are \<open>(w, x, y, z)\<close>; a pose
  is a position with an orientation (the source's 7-vector). The lemmas: the Hamilton product
  is multiplicative on norms, normalisation gives a unit quaternion with \<open>w \<ge> 0\<close>, rotation
  is an isometry, the rotation-vector maps are inverse to each other below \<open>\<pi>\<close>, and
  interpolation moves by (at most \<open>1/0.9995\<close> of) the requested fraction of the angle.
\<close>

section \<open>Definitions\<close>

record pose =
  pos :: vec3
  rot :: quat

definition EPS :: real where
  "EPS = 1 / 10 ^ 9"

definition quat_id :: quat where
  "quat_id = Quat 1 0 0 0"

definition quat_normalize :: "quat \<Rightarrow> quat" where
  "quat_normalize q =
     (let n = norm q in
      if n < EPS then quat_id
      else let u = (1 / n) *\<^sub>R q in if qw u < 0 then - u else u)"

fun quat_mul :: "quat \<Rightarrow> quat \<Rightarrow> quat" where
  "quat_mul (Quat aw ax ay az) (Quat bw bx by bz) =
     Quat (aw * bw - ax * bx - ay * by - az * bz)
          (aw * bx + ax * bw + ay * bz - az * by)
          (aw * by - ax * bz + ay * bw + az * bx)
          (aw * bz + ax * by - ay * bx + az * bw)"

fun quat_conj :: "quat \<Rightarrow> quat" where
  "quat_conj (Quat w x y z) = Quat w (- x) (- y) (- z)"

definition quat_dot :: "quat \<Rightarrow> quat \<Rightarrow> real" where
  "quat_dot p q = qw p * qw q + qx p * qx q + qy p * qy q + qz p * qz q"

definition quat_angle :: "quat \<Rightarrow> quat \<Rightarrow> real" where
  "quat_angle a b =
     (let d = \<bar>quat_dot (quat_normalize a) (quat_normalize b)\<bar>
      in 2 * arccos (min 1 (max (- 1) d)))"

definition slerp_raw :: "quat \<Rightarrow> quat \<Rightarrow> real \<Rightarrow> quat" where
  "slerp_raw a b t =
     (let dt = quat_dot a b;
          c = (if dt < 0 then - b else b);
          d = (if dt < 0 then - dt else dt)
      in if 9995 / 10000 < d then quat_normalize (a + t *\<^sub>R (c - a))
         else let theta0 = arccos (min 1 (max (- 1) d));
                  sin0 = sin theta0;
                  theta = theta0 * t;
                  s0 = sin (theta0 - theta) / sin0;
                  s1 = sin theta / sin0
              in quat_normalize (s0 *\<^sub>R a + s1 *\<^sub>R c))"

definition quat_slerp :: "quat \<Rightarrow> quat \<Rightarrow> real \<Rightarrow> quat" where
  "quat_slerp a b t = slerp_raw (quat_normalize a) (quat_normalize b) t"

definition quat_to_rotvec :: "quat \<Rightarrow> vec3" where
  "quat_to_rotvec q0 =
     (let q = quat_normalize q0;
          w = min 1 (max (- 1) (qw q));
          angle = 2 * arccos w;
          s = sqrt (max 0 (1 - w * w))
      in if s < EPS then 0
         else angle *\<^sub>R ((1 / s) *\<^sub>R Vec3 (qx q) (qy q) (qz q)))"

definition rotvec_to_quat :: "vec3 \<Rightarrow> quat" where
  "rotvec_to_quat rv =
     (let angle = norm rv in
      if angle < EPS then quat_id
      else let axis = (1 / angle) *\<^sub>R rv; h = angle / 2
           in Quat (cos h) (sin h * vx axis) (sin h * vy axis) (sin h * vz axis))"

definition quat_rotate :: "quat \<Rightarrow> vec3 \<Rightarrow> vec3" where
  "quat_rotate q0 v =
     (let q = quat_normalize q0;
          r = quat_mul (quat_mul q (Quat 0 (vx v) (vy v) (vz v))) (quat_conj q)
      in Vec3 (qx r) (qy r) (qz r))"

definition top_down_quat :: "real \<Rightarrow> quat \<Rightarrow> quat" where
  "top_down_quat yaw base_quat =
     (let half = 1/2 * yaw
      in quat_normalize (quat_mul (Quat (cos half) 0 0 (sin half)) base_quat))"

text \<open>A 3x3 matrix is its three rows; \<open>mat_to_quat\<close> is Shepperd's method.\<close>

record mat3 =
  row0 :: vec3
  row1 :: vec3
  row2 :: vec3

definition mat_to_quat :: "mat3 \<Rightarrow> quat" where
  "mat_to_quat R =
     (let r00 = vx (row0 R); r01 = vy (row0 R); r02 = vz (row0 R);
          r10 = vx (row1 R); r11 = vy (row1 R); r12 = vz (row1 R);
          r20 = vx (row2 R); r21 = vy (row2 R); r22 = vz (row2 R);
          t = r00 + r11 + r22
      in quat_normalize
         (if 0 < t then
            let s = sqrt (t + 1) * 2
            in Quat (1/4 * s) ((r21 - r12) / s) ((r02 - r20) / s) ((r10 - r01) / s)
          else if r11 < r00 \<and> r22 < r00 then
            let s = sqrt (1 + r00 - r11 - r22) * 2
            in Quat ((r21 - r12) / s) (1/4 * s) ((r01 + r10) / s) ((r02 + r20) / s)
          else if r22 < r11 then
            let s = sqrt (1 + r11 - r00 - r22) * 2
            in Quat ((r02 - r20) / s) ((r01 + r10) / s) (1/4 * s) ((r12 + r21) / s)
          else
            let s = sqrt (1 + r22 - r00 - r11) * 2
            in Quat ((r10 - r01) / s) ((r02 + r20) / s) ((r12 + r21) / s) (1/4 * s)))"

text \<open>
  A 6-vector delta: translation and rotation vector. \<open>integrate_pose\<close> rejects any frame
  name but \<open>base\<close> and \<open>tcp\<close>.
\<close>

record delta6 =
  d_lin :: vec3
  d_rot :: vec3

definition integrate_pose :: "pose \<Rightarrow> delta6 \<Rightarrow> string \<Rightarrow> pose result" where
  "integrate_pose p d frame =
     bindR (if frame = ''tcp'' then Inr (quat_rotate (rot p) (d_lin d))
            else if frame \<noteq> ''base'' then Inl ValueError
            else Inr (d_lin d))
       (\<lambda>d_trans. Inr \<lparr>pos = pos p + d_trans,
                       rot = quat_normalize (quat_mul (rot p) (rotvec_to_quat (d_rot d)))\<rparr>)"

section \<open>Products, conjugates and norms\<close>

lemma quat_mul_sel [simp]:
  "qw (quat_mul a b) = qw a * qw b - qx a * qx b - qy a * qy b - qz a * qz b"
  "qx (quat_mul a b) = qw a * qx b + qx a * qw b + qy a * qz b - qz a * qy b"
  "qy (quat_mul a b) = qw a * qy b - qx a * qz b + qy a * qw b + qz a * qx b"
  "qz (quat_mul a b) = qw a * qz b + qx a * qy b - qy a * qx b + qz a * qw b"
  by (cases a; cases b; simp)+

lemma quat_conj_sel [simp]:
  "qw (quat_conj q) = qw q" "qx (quat_conj q) = - qx q"
  "qy (quat_conj q) = - qy q" "qz (quat_conj q) = - qz q"
  by (cases q; simp)+

lemma norm_quat_mul: "norm (quat_mul a b) = norm a * norm b"
  unfolding norm_quat_def real_sqrt_mult [symmetric]
  by (rule arg_cong [where f = sqrt]) (simp add: power2_eq_square algebra_simps)

lemma norm_quat_conj [simp]: "norm (quat_conj q) = norm q"
  by (simp add: norm_quat_def)

lemma quat_mul_assoc: "quat_mul (quat_mul a b) c = quat_mul a (quat_mul b c)"
  by (simp add: quat_eq_iff algebra_simps)

lemma quat_mul_id [simp]: "quat_mul quat_id q = q" "quat_mul q quat_id = q"
  by (simp_all add: quat_eq_iff quat_id_def)

lemma quat_mul_conj: "quat_mul q (quat_conj q) = (norm q)\<^sup>2 *\<^sub>R quat_id"
  unfolding quat_norm_sq by (simp add: quat_eq_iff quat_id_def power2_eq_square algebra_simps)

lemma norm_quat_id [simp]: "norm quat_id = 1"
  by (simp add: quat_id_def)

lemma quat_dot_commute: "quat_dot a b = quat_dot b a"
  by (simp add: quat_dot_def mult.commute)

lemma quat_dot_minus [simp]:
  "quat_dot (- a) b = - quat_dot a b" "quat_dot a (- b) = - quat_dot a b"
  by (simp_all add: quat_dot_def)

lemma quat_dot_self: "quat_dot a a = (norm a)\<^sup>2"
  unfolding quat_norm_sq by (simp add: quat_dot_def power2_eq_square)

lemma quat_dot_lin:
  "quat_dot a (s *\<^sub>R b + t *\<^sub>R c) = s * quat_dot a b + t * quat_dot a c"
  "quat_dot a (b - c) = quat_dot a b - quat_dot a c"
  "quat_dot a (b + c) = quat_dot a b + quat_dot a c"
  "quat_dot a (t *\<^sub>R b) = t * quat_dot a b"
  by (simp_all add: quat_dot_def algebra_simps)

lemma quat_dot_scale: "quat_dot (s *\<^sub>R a) (t *\<^sub>R b) = s * t * quat_dot a b"
  by (simp add: quat_dot_def algebra_simps)

lemma quat_dot_abs_le: "\<bar>quat_dot a b\<bar> \<le> norm a * norm b"
  unfolding quat_dot_def norm_quat_def by (rule cauchy_schwarz4_sqrt)

lemma norm_lin_comb_sq:
  "(norm (s *\<^sub>R a + t *\<^sub>R b))\<^sup>2
     = s\<^sup>2 * (norm a)\<^sup>2 + 2 * s * t * quat_dot a b + t\<^sup>2 * (norm b)\<^sup>2" for a b :: quat
  unfolding quat_norm_sq quat_dot_def by (simp add: power2_eq_square algebra_simps)

section \<open>Normalisation\<close>

lemma EPS_pos [simp]: "0 < EPS" "EPS < 1" "\<not> 1 < EPS" "\<not> EPS \<le> 0"
  by (simp_all add: EPS_def)

lemma norm_quat_normalize [simp]: "norm (quat_normalize q) = 1"
proof (cases "norm q < EPS")
  case False
  then have "0 < norm q" using EPS_pos by linarith
  with False show ?thesis by (simp add: quat_normalize_def Let_def)
qed (simp add: quat_normalize_def)

lemma qw_quat_normalize [simp]: "0 \<le> qw (quat_normalize q)"
  by (simp add: quat_normalize_def Let_def quat_id_def)

lemma quat_normalize_unit:
  "norm q = 1 \<Longrightarrow> quat_normalize q = (if qw q < 0 then - q else q)"
  by (simp add: quat_normalize_def Let_def)

lemma quat_normalize_idem [simp]: "quat_normalize (quat_normalize q) = quat_normalize q"
  using quat_normalize_unit [OF norm_quat_normalize, of q] qw_quat_normalize [of q] by simp

lemma quat_normalize_scale:
  assumes "norm q = 1" "EPS \<le> n"
  shows "quat_normalize (n *\<^sub>R q) = quat_normalize q"
proof -
  have n: "0 < n" "\<not> n < EPS" using assms EPS_pos(1) by linarith+
  then have "(1 / norm (n *\<^sub>R q)) *\<^sub>R (n *\<^sub>R q) = q" "norm (n *\<^sub>R q) = n"
    using assms by simp_all
  with n assms show ?thesis by (simp add: quat_normalize_def Let_def)
qed

lemma quat_normalize_id [simp]: "quat_normalize quat_id = quat_id"
  by (simp add: quat_normalize_unit) (simp add: quat_id_def)

lemma abs_dot_normalize [simp]:
  assumes "norm b = 1"
  shows "\<bar>quat_dot a (quat_normalize b)\<bar> = \<bar>quat_dot a b\<bar>"
  using assms by (simp add: quat_normalize_unit)

lemma dot_unit_bounds: "\<bar>quat_dot (quat_normalize a) (quat_normalize b)\<bar> \<le> 1"
  using quat_dot_abs_le [of "quat_normalize a" "quat_normalize b"] by simp

section \<open>The angle between orientations\<close>

lemma quat_angle_eq:
  "quat_angle a b = 2 * arccos \<bar>quat_dot (quat_normalize a) (quat_normalize b)\<bar>"
proof -
  have "min 1 (max (- 1) \<bar>quat_dot (quat_normalize a) (quat_normalize b)\<bar>)
          = \<bar>quat_dot (quat_normalize a) (quat_normalize b)\<bar>"
    using dot_unit_bounds [of a b] by (auto simp: min_def max_def)
  then show ?thesis by (simp add: quat_angle_def Let_def)
qed

lemma quat_angle_commute: "quat_angle a b = quat_angle b a"
  by (simp add: quat_angle_eq quat_dot_commute)

lemma quat_angle_normalize [simp]:
  "quat_angle (quat_normalize a) b = quat_angle a b"
  "quat_angle a (quat_normalize b) = quat_angle a b"
  by (simp_all add: quat_angle_eq)

lemma quat_angle_self [simp]: "quat_angle a a = 0"
  by (simp add: quat_angle_eq quat_dot_self)

lemma quat_angle_range: "0 \<le> quat_angle a b \<and> quat_angle a b \<le> pi"
proof -
  let ?d = "\<bar>quat_dot (quat_normalize a) (quat_normalize b)\<bar>"
  have d: "0 \<le> ?d" "?d \<le> 1" using dot_unit_bounds [of a b] by auto
  have "arccos ?d \<le> pi / 2" using arccos_le_pi2 [of ?d] d by simp
  moreover have "0 \<le> arccos ?d" using arccos_lbound [of ?d] d by simp
  ultimately show ?thesis by (simp add: quat_angle_eq)
qed

section \<open>Rotation\<close>

text \<open>Rotating a vector keeps its length; the identity rotates nothing.\<close>

lemma quat_rotate_norm: "norm (quat_rotate q v) = norm v"
proof -
  let ?u = "quat_normalize q" and ?v = "Quat 0 (vx v) (vy v) (vz v)"
  let ?r = "quat_mul (quat_mul ?u ?v) (quat_conj ?u)"
  have w: "qw ?r = 0" by (simp add: algebra_simps)
  have "norm ?r = norm v"
    unfolding norm_quat_mul norm_quat_conj norm_quat_normalize
    by (simp add: norm_quat_def norm_vec3_def)
  with w show ?thesis
    by (simp add: quat_rotate_def Let_def norm_quat_def norm_vec3_def)
qed

lemma quat_rotate_id [simp]: "quat_rotate quat_id v = v"
  by (simp add: quat_rotate_def Let_def vec3_eq_iff) (simp add: quat_id_def)

lemma quat_rotate_add: "quat_rotate q (u + v) = quat_rotate q u + quat_rotate q v"
  by (simp add: quat_rotate_def Let_def vec3_eq_iff algebra_simps)

lemma quat_rotate_scale: "quat_rotate q (r *\<^sub>R v) = r *\<^sub>R quat_rotate q v"
  by (simp add: quat_rotate_def Let_def vec3_eq_iff algebra_simps)

lemma quat_rotate_diff: "quat_rotate q (u - v) = quat_rotate q u - quat_rotate q v"
  by (simp add: quat_rotate_def Let_def vec3_eq_iff algebra_simps)

section \<open>Interpolation moves by the requested fraction of the angle\<close>

lemma tan_ge_self:
  assumes "0 \<le> (x::real)" "x < pi / 2"
  shows "x \<le> tan x"
proof (cases "x = 0")
  case False
  with assms have x: "0 < x" by simp
  have "\<exists>z. 0 < z \<and> z < x \<and> tan x - tan 0 = (x - 0) * inverse ((cos z)\<^sup>2)"
  proof (rule MVT2 [OF x])
    fix z :: real
    assume z: "0 \<le> z" "z \<le> x"
    then have "cos z \<noteq> 0"
      using assms cos_gt_zero_pi [of z] by auto
    then show "(tan has_real_derivative inverse ((cos z)\<^sup>2)) (at z)"
      by (rule DERIV_tan)
  qed
  then obtain z where z: "0 < z" "z < x" "tan x = x * inverse ((cos z)\<^sup>2)" by auto
  have "0 < cos z" using z assms cos_gt_zero_pi [of z] by auto
  then have "1 \<le> inverse ((cos z)\<^sup>2)"
    using cos_le_one [of z] by (simp add: one_le_inverse power_le_one)
  then have "x * 1 \<le> x * inverse ((cos z)\<^sup>2)"
    using x by (intro mult_left_mono) auto
  then show ?thesis using z by simp
qed simp

lemma quat_angle_scaled:
  assumes "EPS \<le> norm u" "EPS \<le> norm v"
  shows "quat_angle u v = 2 * arccos (\<bar>quat_dot u v\<bar> / (norm u * norm v))"
proof -
  have n: "0 < norm u" "0 < norm v" using assms EPS_pos(1) by linarith+
  have nz: "quat_normalize q = (1 / norm q) *\<^sub>R q \<or> quat_normalize q = - ((1 / norm q) *\<^sub>R q)"
    if "EPS \<le> norm q" for q
    using that by (simp add: quat_normalize_def Let_def)
  have d: "quat_dot ((1 / norm u) *\<^sub>R u) ((1 / norm v) *\<^sub>R v) = quat_dot u v / (norm u * norm v)"
    by (simp add: quat_dot_scale)
  have "\<bar>quat_dot (quat_normalize u) (quat_normalize v)\<bar> = \<bar>quat_dot u v\<bar> / (norm u * norm v)"
    using nz [OF assms(1)] nz [OF assms(2)] d n by (auto simp: abs_mult)
  then show ?thesis by (simp add: quat_angle_eq)
qed

lemma quat_angle_unit_cos:
  assumes "norm u = 1" "norm v = 1" "quat_dot u v = cos d" "0 \<le> d" "d \<le> pi / 2"
  shows "quat_angle u v = 2 * d"
proof -
  have "0 \<le> cos d" using assms by (intro cos_ge_zero) auto
  then show ?thesis
    using assms arccos_cos [of d] by (simp add: quat_angle_scaled less_imp_le)
qed

text \<open>A wedge of legs \<open>x\<close> and \<open>y\<close>: the half-angle is at most its tangent \<open>y / x\<close>.\<close>

lemma quat_angle_wedge:
  assumes n: "EPS \<le> norm u" "EPS \<le> norm v"
    and x: "quat_dot u v = x" "0 < x" and y: "0 \<le> y"
    and sq: "(norm u * norm v)\<^sup>2 = x\<^sup>2 + y\<^sup>2"
  shows "quat_angle u v \<le> 2 * (y / x)"
proof -
  define m where "m = norm u * norm v"
  have "0 < norm u" "0 < norm v" using n EPS_pos(1) by linarith+
  then have m: "0 < m" unfolding m_def by (rule mult_pos_pos)
  have sq: "m\<^sup>2 = x\<^sup>2 + y\<^sup>2" using sq by (simp only: m_def)
  have "x \<le> m" by (rule power2_le_imp_le) (use sq m in auto)
  then have c: "0 < x / m" "x / m \<le> 1" using m x by simp_all
  define psi where "psi = arccos (x / m)"
  have psi: "0 \<le> psi" "psi < pi / 2" and cospsi: "cos psi = x / m"
    using c arccos_lbound [of "x / m"] arccos_less_arccos [of 0 "x / m"]
    by (auto simp: psi_def)
  have "1 - (x / m)\<^sup>2 = (m\<^sup>2 - x\<^sup>2) / m\<^sup>2"
    using m by (simp add: power_divide diff_divide_distrib)
  then have "1 - (x / m)\<^sup>2 = (y / m)\<^sup>2" by (simp add: sq power_divide)
  then have "sin psi = y / m"
    using c y m sin_arccos [of "x / m"] by (simp add: psi_def)
  then have "tan psi = y / x"
    using cospsi m by (simp add: tan_def)
  then have "psi \<le> y / x" using tan_ge_self [OF psi] by simp
  moreover have "quat_angle u v = 2 * psi"
    using quat_angle_scaled [OF n] x by (simp add: psi_def m_def)
  ultimately show ?thesis by simp
qed

text \<open>The two branches of \<open>quat_slerp\<close>, before the final normalisation.\<close>

lemma slerp_arc:
  fixes a c :: quat and th s t :: real
  defines "r \<equiv> \<lambda>x. (sin (th - th * x) / sin th) *\<^sub>R a + (sin (th * x) / sin th) *\<^sub>R c"
  assumes unit: "norm a = 1" "norm c = 1" and dot: "quat_dot a c = cos th" and th: "sin th \<noteq> 0"
  shows "quat_dot (r s) (r t) = cos (th * t - th * s)"
proof -
  let ?S = "sin th" and ?C = "cos th"
  have aa: "quat_dot a a = 1" "quat_dot c c = 1" using unit by (simp_all add: quat_dot_self)
  have sc: "?C * ?C = 1 - ?S * ?S" using sin_cos_squared_add [of th] by (simp add: power2_eq_square)
  have exp: "quat_dot (p *\<^sub>R a + q *\<^sub>R c) (p' *\<^sub>R a + q' *\<^sub>R c)
      = p * p' + (p * q' + q * p') * ?C + q * q'" for p q p' q'
  proof -
    have "quat_dot (p *\<^sub>R a + q *\<^sub>R c) (p' *\<^sub>R a + q' *\<^sub>R c)
        = p * p' * quat_dot a a + (p * q' + q * p') * quat_dot a c + q * q' * quat_dot c c"
      by (simp add: quat_dot_def algebra_simps)
    then show ?thesis using aa dot by simp
  qed
  define s1 k1 s2 k2 where sk: "s1 = sin (th * s)" "k1 = cos (th * s)" "s2 = sin (th * t)" "k2 = cos (th * t)"
  have "?S * ?S * quat_dot (r s) (r t)
      = sin (th - th * s) * sin (th - th * t)
        + (sin (th - th * s) * s2 + s1 * sin (th - th * t)) * ?C + s1 * s2"
    unfolding r_def exp sk using th by (simp add: field_simps)
  also have "\<dots> = (?S * k1 - ?C * s1) * (?S * k2 - ?C * s2)
        + ((?S * k1 - ?C * s1) * s2 + s1 * (?S * k2 - ?C * s2)) * ?C + s1 * s2"
    by (simp add: sin_diff sk)
  also have "\<dots> = ?S * ?S * k1 * k2 + s1 * s2 * (1 - ?C * ?C)"
    by (simp add: algebra_simps)
  also have "\<dots> = ?S * ?S * (k2 * k1 + s2 * s1)"
    unfolding sc by (simp add: algebra_simps)
  also have "k2 * k1 + s2 * s1 = cos (th * t - th * s)"
    by (simp add: cos_diff sk)
  finally show ?thesis using th by simp
qed

lemma nlerp_wedge:
  fixes a c :: quat and d s t :: real
  defines "r \<equiv> \<lambda>x. a + x *\<^sub>R (c - a)"
  assumes unit: "norm a = 1" "norm c = 1" and dot: "quat_dot a c = d"
  shows "quat_dot (r s) (r t) = (1 - s) * (1 - t) + (s * (1 - t) + t * (1 - s)) * d + s * t"
    and "(norm (r s) * norm (r t))\<^sup>2
           = (quat_dot (r s) (r t))\<^sup>2 + ((t - s)\<^sup>2 * (1 - d\<^sup>2))"
proof -
  have aa: "quat_dot a a = 1" "quat_dot c c = 1" using unit by (simp_all add: quat_dot_self)
  have gen: "quat_dot (r x) (r y)
      = (1 - x) * (1 - y) + (x * (1 - y) + y * (1 - x)) * d + x * y" for x y
  proof -
    have "quat_dot (r x) (r y) = (1 - x) * (1 - y) * quat_dot a a
        + (x * (1 - y) + y * (1 - x)) * quat_dot a c + x * y * quat_dot c c"
      by (simp add: r_def quat_dot_def algebra_simps)
    then show ?thesis using aa dot by simp
  qed
  then show "quat_dot (r s) (r t) = (1 - s) * (1 - t) + (s * (1 - t) + t * (1 - s)) * d + s * t" .
  have "(norm (r s) * norm (r t))\<^sup>2 = quat_dot (r s) (r s) * quat_dot (r t) (r t)"
    by (simp add: power_mult_distrib quat_dot_self)
  then show "(norm (r s) * norm (r t))\<^sup>2
      = (quat_dot (r s) (r t))\<^sup>2 + ((t - s)\<^sup>2 * (1 - d\<^sup>2))"
    unfolding gen by (simp add: power2_eq_square algebra_simps)
qed

text \<open>The straight branch: nearby quaternions only get closer along the segment between them.\<close>

lemma nlerp_lower:
  assumes unit: "norm a = 1" "norm c = 1" and d1: "quat_dot a c \<le> 1"
    and xy: "0 \<le> x" "x \<le> 1" "0 \<le> y" "y \<le> 1"
  shows "quat_dot a c \<le> quat_dot (a + x *\<^sub>R (c - a)) (a + y *\<^sub>R (c - a))"
proof -
  have "quat_dot (a + x *\<^sub>R (c - a)) (a + y *\<^sub>R (c - a)) - quat_dot a c
      = ((1 - x) * (1 - y) + x * y) * (1 - quat_dot a c)"
    unfolding nlerp_wedge(1) [OF unit refl] by (simp add: algebra_simps)
  moreover have "0 \<le> ((1 - x) * (1 - y) + x * y) * (1 - quat_dot a c)" using xy d1 by simp
  ultimately show ?thesis by linarith
qed

lemma nlerp_norm:
  assumes unit: "norm a = 1" "norm c = 1" and d: "9995/10000 < quat_dot a c" "quat_dot a c \<le> 1"
    and x: "0 \<le> x" "x \<le> 1"
  shows "EPS \<le> norm (a + x *\<^sub>R (c - a))"
proof -
  have "(9995/10000)\<^sup>2 \<le> (quat_dot a c)\<^sup>2" using d by (intro power_mono) auto
  also have "\<dots> \<le> quat_dot a c" using d by (simp add: power2_eq_square mult_left_le)
  also have "\<dots> \<le> (norm (a + x *\<^sub>R (c - a)))\<^sup>2"
    using nlerp_lower [OF unit d(2) x x] by (simp add: quat_dot_self)
  finally have "9995/10000 \<le> norm (a + x *\<^sub>R (c - a))" by (rule power2_le_imp_le) simp
  then show ?thesis by (simp add: EPS_def)
qed

lemma nlerp_step:
  assumes unit: "norm a = 1" "norm c = 1" and st: "0 \<le> s" "s \<le> t" "t \<le> 1"
    and d: "9995/10000 < quat_dot a c" "quat_dot a c \<le> 1"
    and th: "0 \<le> th" "th \<le> pi / 2" "cos th = quat_dot a c"
  shows "quat_angle (a + s *\<^sub>R (c - a)) (a + t *\<^sub>R (c - a)) \<le> 2 * ((t - s) * th / (9995/10000))"
proof -
  let ?r = "\<lambda>x. a + x *\<^sub>R (c - a)"
  define x where "x = quat_dot (?r s) (?r t)"
  have "quat_dot a c \<le> x" unfolding x_def using st by (intro nlerp_lower [OF unit d(2)]) auto
  then have x0: "9995/10000 < x" using d by linarith
  have sin2: "1 - (quat_dot a c)\<^sup>2 = (sin th)\<^sup>2" using th(3) by (simp add: sin_squared_eq)
  have sinth: "0 \<le> sin th" "sin th \<le> th" using th sin_ge_zero [of th] sin_x_le_x [of th] by auto
  have "quat_angle (?r s) (?r t) \<le> 2 * (((t - s) * sin th) / x)"
  proof (rule quat_angle_wedge)
    show "EPS \<le> norm (?r s)" "EPS \<le> norm (?r t)" using st by (auto intro!: nlerp_norm [OF unit d])
    show "quat_dot (?r s) (?r t) = x" by (simp add: x_def)
    show "0 < x" using x0 by simp
    show "0 \<le> (t - s) * sin th" using st sinth by simp
    show "(norm (?r s) * norm (?r t))\<^sup>2 = x\<^sup>2 + ((t - s) * sin th)\<^sup>2"
      unfolding x_def nlerp_wedge(2) [OF unit refl] sin2 by (simp add: power_mult_distrib)
  qed
  also have "((t - s) * sin th) / x \<le> (t - s) * th / (9995/10000)"
    using st sinth x0 by (intro frac_le mult_left_mono) auto
  finally show ?thesis by simp
qed

text \<open>The great-circle branch turns at a constant rate.\<close>

lemma slerp_arc_step:
  fixes a c :: quat and th s t :: real
  defines "r \<equiv> \<lambda>x. (sin (th - th * x) / sin th) *\<^sub>R a + (sin (th * x) / sin th) *\<^sub>R c"
  assumes unit: "norm a = 1" "norm c = 1" and st: "0 \<le> s" "s \<le> t" "t \<le> 1"
    and th: "0 < th" "th \<le> pi / 2" "cos th = quat_dot a c"
  shows "quat_angle (r s) (r t) = 2 * (th * t - th * s)"
proof -
  have sin0: "0 < sin th" using th sin_gt_zero [of th] by simp
  have dot: "quat_dot (r x) (r y) = cos (th * y - th * x)" for x y
    unfolding r_def using unit th sin0 by (intro slerp_arc) auto
  have n1: "norm (r x) = 1" for x
  proof -
    have "(norm (r x))\<^sup>2 = 1" using dot [of x x] by (simp add: quat_dot_self)
    then have "norm (r x) = 1 \<or> norm (r x) = - 1" by (simp only: power2_eq_1_iff)
    with norm_ge_zero [of "r x"] show ?thesis by linarith
  qed
  have "th * (t - s) \<le> th * 1" using st th by (intro mult_left_mono) auto
  then show ?thesis
    using st th by (intro quat_angle_unit_cos n1 dot) (auto simp: algebra_simps mult_left_mono)
qed

lemma slerp_raw_step:
  assumes unit: "norm a = 1" "norm b = 1" and st: "0 \<le> s" "s \<le> t" "t \<le> 1"
  shows "quat_angle (slerp_raw a b s) (slerp_raw a b t) \<le> (t - s) * quat_angle a b / (9995/10000)"
proof -
  define c where "c = (if quat_dot a b < 0 then - b else b)"
  define d where "d = quat_dot a c"
  have unc: "norm c = 1" using unit by (simp add: c_def)
  have d0: "0 \<le> d" and d1: "d \<le> 1" and dabs: "d = \<bar>quat_dot a b\<bar>"
    using quat_dot_abs_le [of a c] unit unc by (auto simp: d_def c_def)
  define th where "th = arccos d"
  have th: "0 \<le> th" "th \<le> pi / 2" and costh: "cos th = d"
    using d0 d1 arccos_lbound [of d] arccos_le_pi2 [of d] by (auto simp: th_def)
  have ang: "quat_angle a b = 2 * th"
    using quat_angle_scaled [of a b] unit dabs by (simp add: th_def less_imp_le)
  have dif: "(if quat_dot a b < 0 then - quat_dot a b else quat_dot a b) = d"
    using dabs by auto
  have raw: "slerp_raw a b x
      = (if 9995/10000 < d then quat_normalize (a + x *\<^sub>R (c - a))
         else quat_normalize ((sin (th - th * x) / sin th) *\<^sub>R a + (sin (th * x) / sin th) *\<^sub>R c))" for x
    using d0 d1 unfolding slerp_raw_def Let_def dif c_def [symmetric]
    by (simp add: th_def min_def max_def)
  show ?thesis
  proof (cases "9995/10000 < d")
    case True
    then show ?thesis
      using nlerp_step [OF unit(1) unc st _ _ th] d1 costh by (simp add: raw ang d_def)
  next
    case False
    have th0: "0 < th" using False arccos_less_arccos [of d 1] d0 d1 by (simp add: th_def)
    have "quat_angle (slerp_raw a b s) (slerp_raw a b t) = (t - s) * quat_angle a b"
      using slerp_arc_step [OF unit(1) unc st th0 th(2)] costh False
      by (simp add: raw ang d_def algebra_simps)
    moreover have "0 \<le> (t - s) * quat_angle a b" using st quat_angle_range [of a b] by simp
    ultimately show ?thesis by simp
  qed
qed

text \<open>How much faster than requested the fast interpolation branch can turn.\<close>

definition SLERP_SLACK :: real where
  "SLERP_SLACK = 9995 / 10000"

lemma SLERP_SLACK_pos [simp]: "0 < SLERP_SLACK" "SLERP_SLACK \<le> 1" "0 \<le> SLERP_SLACK"
  by (simp_all add: SLERP_SLACK_def)

lemma quat_slerp_step:
  assumes "0 \<le> s" "s \<le> t" "t \<le> 1"
  shows "quat_angle (quat_slerp a b s) (quat_slerp a b t) \<le> (t - s) * quat_angle a b / SLERP_SLACK"
  using slerp_raw_step [of "quat_normalize a" "quat_normalize b" s t] assms
  by (simp add: quat_slerp_def SLERP_SLACK_def)

lemma slerp_raw_0:
  assumes "norm a = 1"
  shows "slerp_raw a b 0 = quat_normalize a"
proof -
  have "sin (arccos d) \<noteq> 0" if "0 \<le> d" "d \<le> 9995/10000" for d :: real
    using sin_arccos_nonzero [of d] that by auto
  then show ?thesis
    by (auto simp: slerp_raw_def Let_def min_def max_def)
qed

lemma quat_slerp_0: "quat_slerp a b 0 = quat_normalize a"
  by (simp add: quat_slerp_def slerp_raw_0)

lemma quat_slerp_from:
  assumes "0 \<le> t" "t \<le> 1"
  shows "quat_angle a (quat_slerp a b t) \<le> t * quat_angle a b / SLERP_SLACK"
  using quat_slerp_step [of 0 t a b] assms by (simp add: quat_slerp_0)

lemma norm_quat_slerp [simp]: "norm (quat_slerp a b t) = 1"
  by (simp add: quat_slerp_def slerp_raw_def Let_def)

lemma qw_quat_slerp [simp]: "0 \<le> qw (quat_slerp a b t)"
  by (simp add: quat_slerp_def slerp_raw_def Let_def)

lemma quat_slerp_self: "quat_slerp a a t = quat_normalize a"
  by (simp add: quat_slerp_def slerp_raw_def Let_def quat_dot_self)

section \<open>Rotation vectors and quaternions are inverse below a half turn\<close>

lemma sin_ge_half:
  assumes "0 \<le> (h::real)" "h \<le> 2/3"
  shows "h / 2 \<le> sin h"
proof (cases "h = 0")
  case False
  with assms have h: "0 < h" by simp
  have "\<exists>z. 0 < z \<and> z < h \<and> sin h - sin 0 = (h - 0) * cos z"
    by (rule MVT2 [OF h]) (auto intro: derivative_eq_intros)
  then obtain z where z: "0 < z" "z < h" "sin h = h * cos z" by auto
  have "cos (pi / 3) \<le> cos z"
    using z assms pi_ge_two by (subst cos_mono_le_eq) auto
  then have "h * (1 / 2) \<le> h * cos z"
    using h by (intro mult_left_mono) (auto simp: cos_60)
  then show ?thesis using z by simp
qed simp

lemma sin_ge_EPS:
  assumes "2 * EPS \<le> h" "h < pi / 2"
  shows "EPS \<le> sin h"
proof (cases "h \<le> 2/3")
  case True
  have "0 \<le> h" using assms EPS_pos(1) by linarith
  then show ?thesis using sin_ge_half [OF _ True] assms by simp
next
  case False
  then have "sin (2/3) \<le> sin h" using assms pi_ge_two by (intro sin_monotone_2pi_le) auto
  then show ?thesis using sin_ge_half [of "2/3"] by (simp add: EPS_def)
qed

lemma norm_rotvec_to_quat [simp]: "norm (rotvec_to_quat v) = 1"
proof (cases "norm v < EPS")
  case False
  then have v: "0 < norm v" using EPS_pos(1) by linarith
  define u where "u = (1 / norm v) *\<^sub>R v"
  have "norm u = 1" using v by (simp add: u_def)
  then have "(vx u)\<^sup>2 + (vy u)\<^sup>2 + (vz u)\<^sup>2 = 1" using vec3_norm_sq [of u] by simp
  then have "(cos h)\<^sup>2 + ((sin h * vx u)\<^sup>2 + (sin h * vy u)\<^sup>2 + (sin h * vz u)\<^sup>2) = 1" for h
    by (simp add: power_mult_distrib flip: distrib_left)
  then show ?thesis using False
    by (simp add: rotvec_to_quat_def Let_def norm_quat_def u_def [symmetric] add.assoc)
qed (simp add: rotvec_to_quat_def)

lemma rotvec_roundtrip:
  assumes "4 * EPS \<le> norm v" "norm v < pi"
  shows "quat_to_rotvec (rotvec_to_quat v) = v"
proof -
  define h where "h = norm v / 2"
  define u where "u = (1 / norm v) *\<^sub>R v"
  have v: "0 < norm v" "\<not> norm v < EPS" using assms EPS_pos(1) by linarith+
  have h: "0 < h" "h < pi / 2" "2 * EPS \<le> h" using assms v by (auto simp: h_def)
  have q: "rotvec_to_quat v = Quat (cos h) (sin h * vx u) (sin h * vy u) (sin h * vz u)"
    using v by (simp add: rotvec_to_quat_def Let_def h_def u_def)
  have sh: "EPS \<le> sin h" "0 < sin h" using sin_ge_EPS [of h] h EPS_pos(1) by linarith+
  have ch: "0 < cos h" using h by (intro cos_gt_zero_pi) auto
  have norm_q: "quat_normalize (rotvec_to_quat v) = rotvec_to_quat v"
    using quat_normalize_unit [OF norm_rotvec_to_quat, of v] ch by (simp add: q)
  have w: "min 1 (max (- 1) (cos h)) = cos h"
    using cos_le_one [of h] ch by linarith
  have "1 - cos h * cos h = (sin h)\<^sup>2"
    using sin_squared_eq [of h] by (simp add: power2_eq_square)
  then have s: "sqrt (max 0 (1 - cos h * cos h)) = sin h" using sh by simp
  have "arccos (cos h) = h" using h by (intro arccos_cos) auto
  moreover have "2 * h = norm v" by (simp add: h_def)
  ultimately have ang: "2 * arccos (cos h) = norm v" by simp
  have "(1 / sin h) *\<^sub>R Vec3 (sin h * vx u) (sin h * vy u) (sin h * vz u) = u"
    using sh by (simp add: vec3_eq_iff)
  moreover have "norm v *\<^sub>R u = v" using v by (simp add: u_def)
  ultimately show ?thesis
    using sh unfolding quat_to_rotvec_def Let_def norm_q
    by (simp add: q w s ang)
qed

section \<open>Integrating deltas\<close>

definition pose_wf :: "pose \<Rightarrow> bool" where
  "pose_wf p \<longleftrightarrow> norm (rot p) = 1 \<and> 0 \<le> qw (rot p)"

lemma integrate_pose_wf: "integrate_pose p d f = Inr p' \<Longrightarrow> pose_wf p'"
  by (auto simp: integrate_pose_def bindR_eq_Inr pose_wf_def split: if_splits)

lemma integrate_pose_frames:
  "integrate_pose p d ''base'' = Inr \<lparr>pos = pos p + d_lin d,
     rot = quat_normalize (quat_mul (rot p) (rotvec_to_quat (d_rot d)))\<rparr>"
  "integrate_pose p d ''tcp'' = Inr \<lparr>pos = pos p + quat_rotate (rot p) (d_lin d),
     rot = quat_normalize (quat_mul (rot p) (rotvec_to_quat (d_rot d)))\<rparr>"
  "f \<noteq> ''base'' \<Longrightarrow> f \<noteq> ''tcp'' \<Longrightarrow> integrate_pose p d f = Inl ValueError"
  by (simp_all add: integrate_pose_def)

lemma integrate_pose_step:
  assumes "integrate_pose p d f = Inr p'"
  shows "norm (pos p' - pos p) = norm (d_lin d)"
  using assms by (auto simp: integrate_pose_def bindR_eq_Inr quat_rotate_norm split: if_splits)

end
