(* ===== verification/Robot_Types.thy ===== *)
theory Robot_Types
  imports Transforms
begin

text \<open>
  \<^verbatim>\<open>types.py\<close>: the enumerations with their wire values, the robot snapshot, the impedance and
  force-control parameters and the gripper command with its two learning-layer encodings.
\<close>

section \<open>Enumerations\<close>

datatype control_mode =
    IDLE
  | NRT_JOINT_POSITION
  | NRT_JOINT_IMPEDANCE
  | NRT_CARTESIAN_MOTION_FORCE
  | NRT_PRIMITIVE
  | RT_JOINT_POSITION
  | RT_JOINT_IMPEDANCE
  | RT_CARTESIAN_MOTION_FORCE
  | RT_JOINT_TORQUE

fun mode_value :: "control_mode \<Rightarrow> string" where
  "mode_value IDLE = ''idle''"
| "mode_value NRT_JOINT_POSITION = ''nrt_joint_position''"
| "mode_value NRT_JOINT_IMPEDANCE = ''nrt_joint_impedance''"
| "mode_value NRT_CARTESIAN_MOTION_FORCE = ''nrt_cartesian_motion_force''"
| "mode_value NRT_PRIMITIVE = ''nrt_primitive''"
| "mode_value RT_JOINT_POSITION = ''rt_joint_position''"
| "mode_value RT_JOINT_IMPEDANCE = ''rt_joint_impedance''"
| "mode_value RT_CARTESIAN_MOTION_FORCE = ''rt_cartesian_motion_force''"
| "mode_value RT_JOINT_TORQUE = ''rt_joint_torque''"

definition all_modes :: "control_mode list" where
  "all_modes = [IDLE, NRT_JOINT_POSITION, NRT_JOINT_IMPEDANCE, NRT_CARTESIAN_MOTION_FORCE,
     NRT_PRIMITIVE, RT_JOINT_POSITION, RT_JOINT_IMPEDANCE, RT_CARTESIAN_MOTION_FORCE,
     RT_JOINT_TORQUE]"

definition starts_with :: "string \<Rightarrow> string \<Rightarrow> bool" where
  "starts_with pre s = (take (length pre) s = pre)"

fun str_contains :: "string \<Rightarrow> string \<Rightarrow> bool" where
  "str_contains pat [] = (pat = [])"
| "str_contains pat (c # s) = (starts_with pat (c # s) \<or> str_contains pat s)"

text \<open>The two properties are computed from the wire value, as the source does.\<close>

definition is_realtime :: "control_mode \<Rightarrow> bool" where
  "is_realtime m = starts_with ''rt_'' (mode_value m)"

definition is_cartesian :: "control_mode \<Rightarrow> bool" where
  "is_cartesian m = str_contains ''cartesian'' (mode_value m)"

lemma is_realtime_simps [simp]:
  "is_realtime m \<longleftrightarrow> m \<in> {RT_JOINT_POSITION, RT_JOINT_IMPEDANCE, RT_CARTESIAN_MOTION_FORCE, RT_JOINT_TORQUE}"
  by (cases m) (simp_all add: is_realtime_def starts_with_def)

lemma is_cartesian_simps [simp]:
  "is_cartesian m \<longleftrightarrow> m = NRT_CARTESIAN_MOTION_FORCE \<or> m = RT_CARTESIAN_MOTION_FORCE"
  by (cases m) (simp_all add: is_cartesian_def starts_with_def)

datatype safety_status = OK | CLIPPED | HOLDING | STOPPED | FAULT

fun status_value :: "safety_status \<Rightarrow> string" where
  "status_value OK = ''ok''"
| "status_value CLIPPED = ''clipped''"
| "status_value HOLDING = ''holding''"
| "status_value STOPPED = ''stopped''"
| "status_value FAULT = ''fault''"

definition all_statuses :: "safety_status list" where
  "all_statuses = [OK, CLIPPED, HOLDING, STOPPED, FAULT]"

datatype stop_reason =
    NONE | USER | STALE_COMMAND | STALE_STATE | WORKSPACE | JOINT_LIMIT | TCP_SPEED
  | POSE_JUMP | CONTACT_WRENCH | LEASE | MODE | BACKEND_FAULT

fun reason_value :: "stop_reason \<Rightarrow> string" where
  "reason_value NONE = ''none''"
| "reason_value USER = ''user''"
| "reason_value STALE_COMMAND = ''stale_command''"
| "reason_value STALE_STATE = ''stale_state''"
| "reason_value WORKSPACE = ''workspace_limit''"
| "reason_value JOINT_LIMIT = ''joint_limit''"
| "reason_value TCP_SPEED = ''tcp_speed_limit''"
| "reason_value POSE_JUMP = ''pose_jump_limit''"
| "reason_value CONTACT_WRENCH = ''contact_wrench''"
| "reason_value LEASE = ''lease_violation''"
| "reason_value MODE = ''mode_incompatible''"
| "reason_value BACKEND_FAULT = ''backend_fault''"

definition all_reasons :: "stop_reason list" where
  "all_reasons = [NONE, USER, STALE_COMMAND, STALE_STATE, WORKSPACE, JOINT_LIMIT, TCP_SPEED,
     POSE_JUMP, CONTACT_WRENCH, LEASE, MODE, BACKEND_FAULT]"

text \<open>
  Calling an enumeration on a wire value (\<open>ControlMode("idle")\<close>): the member with that value,
  or \<open>ValueError\<close>.
\<close>

definition enum_of :: "('a \<Rightarrow> string) \<Rightarrow> 'a list \<Rightarrow> string \<Rightarrow> 'a result" where
  "enum_of val members s =
     (case find (\<lambda>m. val m = s) members of None \<Rightarrow> Inl ValueError | Some m \<Rightarrow> Inr m)"

lemma enum_of_val:
  assumes "inj val" "m \<in> set members"
  shows "enum_of val members (val m) = Inr m"
proof -
  have "find (\<lambda>x. val x = val m) members = Some m"
    using assms by (induction members) (auto dest: injD)
  then show ?thesis by (simp add: enum_of_def)
qed

lemma inj_mode_value: "inj mode_value"
proof (rule injI)
  fix a b assume "mode_value a = mode_value b"
  then show "a = b" by (cases a; cases b; simp)
qed

lemma inj_status_value: "inj status_value"
proof (rule injI)
  fix a b assume "status_value a = status_value b"
  then show "a = b" by (cases a; cases b; simp)
qed

lemma inj_reason_value: "inj reason_value"
proof (rule injI)
  fix a b assume "reason_value a = reason_value b"
  then show "a = b" by (cases a; cases b; simp)
qed

lemma enum_roundtrips [simp]:
  "enum_of mode_value all_modes (mode_value m) = Inr m"
  "enum_of status_value all_statuses (status_value s) = Inr s"
  "enum_of reason_value all_reasons (reason_value r) = Inr r"
proof -
  have "m \<in> set all_modes" by (cases m) (simp_all add: all_modes_def)
  then show "enum_of mode_value all_modes (mode_value m) = Inr m"
    by (rule enum_of_val [OF inj_mode_value])
  have "s \<in> set all_statuses" by (cases s) (simp_all add: all_statuses_def)
  then show "enum_of status_value all_statuses (status_value s) = Inr s"
    by (rule enum_of_val [OF inj_status_value])
  have "r \<in> set all_reasons" by (cases r) (simp_all add: all_reasons_def)
  then show "enum_of reason_value all_reasons (reason_value r) = Inr r"
    by (rule enum_of_val [OF inj_reason_value])
qed

section \<open>The robot snapshot\<close>

record robot_state =
  st_stamp :: real
  st_q :: "real list"
  st_dq :: "real list"
  st_tau :: "real list"
  st_tcp_pose :: pose
  st_tcp_vel :: "real list"
  st_wrench :: "real list"
  st_gripper_width :: real
  st_gripper_force :: real
  st_gripper_is_moving :: bool
  st_control_mode :: control_mode
  st_safety_status :: safety_status
  st_stop_reason :: stop_reason
  st_active_owner :: string
  st_command_latency_ms :: real
  st_loop_period_ms :: real
  st_loop_jitter_us :: real
  st_missed_cycles :: int

definition default_state :: robot_state where
  "default_state = \<lparr>st_stamp = 0, st_q = replicate 7 0, st_dq = replicate 7 0,
     st_tau = replicate 7 0, st_tcp_pose = \<lparr>pos = Vec3 0 0 0, rot = Quat 1 0 0 0\<rparr>,
     st_tcp_vel = replicate 6 0, st_wrench = replicate 6 0, st_gripper_width = 0,
     st_gripper_force = 0, st_gripper_is_moving = False, st_control_mode = IDLE,
     st_safety_status = OK, st_stop_reason = NONE, st_active_owner = '''',
     st_command_latency_ms = 0, st_loop_period_ms = 0, st_loop_jitter_us = 0,
     st_missed_cycles = 0\<rparr>"

definition tcp_position :: "robot_state \<Rightarrow> vec3" where
  "tcp_position s = pos (st_tcp_pose s)"

section \<open>Parameters and commands\<close>

record impedance_params =
  ip_stiffness :: "real list"
  ip_damping_ratio :: "real list"

definition default_impedance :: impedance_params where
  "default_impedance = \<lparr>ip_stiffness = [800, 800, 800, 40, 40, 40],
     ip_damping_ratio = [7/10, 7/10, 7/10, 7/10, 7/10, 7/10]\<rparr>"

record joint_impedance_params =
  jip_stiffness :: "real list"
  jip_damping_ratio :: "real list"

definition default_joint_impedance :: joint_impedance_params where
  "default_joint_impedance = \<lparr>jip_stiffness = [3000, 3000, 800, 800, 200, 200, 200],
     jip_damping_ratio = replicate 7 (7/10)\<rparr>"

record force_control_params =
  fc_enabled_axes :: "bool list"
  fc_target_wrench :: "real list"
  fc_frame :: string

record gripper_command =
  g_width :: real
  g_force :: real
  g_velocity :: real
  g_grasp :: bool

definition default_gripper :: gripper_command where
  "default_gripper = \<lparr>g_width = 0, g_force = 20, g_velocity = 1/10, g_grasp = False\<rparr>"

definition from_normalized :: "real \<Rightarrow> real \<Rightarrow> real \<Rightarrow> real \<Rightarrow> real \<Rightarrow> gripper_command" where
  "from_normalized opening stroke min_width force velocity =
     (let o' = np_clip opening 0 1
      in \<lparr>g_width = min_width + o' * stroke, g_force = force, g_velocity = velocity, g_grasp = False\<rparr>)"

definition from_signed_action :: "real \<Rightarrow> real \<Rightarrow> real \<Rightarrow> real \<Rightarrow> real \<Rightarrow> gripper_command" where
  "from_signed_action action stroke min_width force velocity =
     (let a = np_clip action (- 1) 1;
          cmd = from_normalized ((a + 1) / 2) stroke min_width force velocity
      in cmd\<lparr>g_grasp := a < 0\<rparr>)"

text \<open>The encodings stay within the stroke, grow with the action, and agree with each other.\<close>

lemma from_normalized_range:
  "0 \<le> stroke \<Longrightarrow> min_width \<le> g_width (from_normalized w stroke min_width f v) \<and>
     g_width (from_normalized w stroke min_width f v) \<le> min_width + stroke"
  by (simp add: from_normalized_def Let_def np_clip_def mult_left_le_one_le)

lemma from_normalized_mono:
  "0 \<le> stroke \<Longrightarrow> w \<le> w' \<Longrightarrow>
     g_width (from_normalized w stroke m f v) \<le> g_width (from_normalized w' stroke m f v)"
  by (simp add: from_normalized_def Let_def np_clip_def mult_right_mono)

lemma from_signed_action_width:
  "g_width (from_signed_action a stroke m f v)
     = g_width (from_normalized ((np_clip a (- 1) 1 + 1) / 2) stroke m f v)"
  by (simp add: from_signed_action_def Let_def)

lemma from_signed_action_grasp: "g_grasp (from_signed_action a stroke m f v) \<longleftrightarrow> a < 0"
  by (auto simp: from_signed_action_def Let_def np_clip_def)

lemma from_signed_action_ends:
  "g_width (from_signed_action 1 stroke m f v) = m + stroke"
  "g_width (from_signed_action (- 1) stroke m f v) = m"
  by (simp_all add: from_signed_action_def from_normalized_def Let_def np_clip_def)

end
