(* ===== verification/Py_Text.thy ===== *)
theory Py_Text
  imports Py_Prelude
begin

text \<open>
  What the source uses of Python's strings: \<open>strip\<close>, \<open>split\<close>, \<open>partition\<close>, \<open>splitlines\<close>, and the
  texts \<open>int\<close> and \<open>float\<close> read. A character is a Latin-1 code point. The texts of \<open>nan\<close> and of the
  infinities are no real numbers and read as no number.
\<close>

section \<open>Characters\<close>

definition py_space :: "char \<Rightarrow> bool" where
  "py_space c \<longleftrightarrow> (of_char c :: nat) \<in> {9, 10, 11, 12, 13, 28, 29, 30, 31, 32, 133, 160}"

definition line_break :: "char \<Rightarrow> bool" where
  "line_break c \<longleftrightarrow> (of_char c :: nat) \<in> {10, 11, 12, 13, 28, 29, 30, 133}"

definition is_digit :: "char \<Rightarrow> bool" where
  "is_digit c \<longleftrightarrow> 48 \<le> (of_char c :: nat) \<and> (of_char c :: nat) \<le> 57"

definition digit :: "char \<Rightarrow> nat" where
  "digit c = of_char c - 48"

section \<open>Trimming and splitting\<close>

definition lstrip :: "string \<Rightarrow> string" where
  "lstrip = dropWhile py_space"

definition strip_chars :: "(char \<Rightarrow> bool) \<Rightarrow> string \<Rightarrow> string" where
  "strip_chars P s = rev (dropWhile P (rev (dropWhile P s)))"

definition strip :: "string \<Rightarrow> string" where
  "strip = strip_chars py_space"

fun split_on :: "char \<Rightarrow> string \<Rightarrow> string list" where
  "split_on d [] = [[]]"
| "split_on d (c # cs) =
     (if c = d then [] # split_on d cs
      else case split_on d cs of w # ws \<Rightarrow> (c # w) # ws | [] \<Rightarrow> [[c]])"

text \<open>\<open>s.partition(d)[0]\<close> and \<open>s.partition(d)[2]\<close>\<close>

definition before :: "char \<Rightarrow> string \<Rightarrow> string" where
  "before d = takeWhile (\<lambda>c. c \<noteq> d)"

definition after :: "char \<Rightarrow> string \<Rightarrow> string" where
  "after d s = tl (dropWhile (\<lambda>c. c \<noteq> d) s)"

definition after_break :: "char \<Rightarrow> string \<Rightarrow> string" where
  "after_break c cs = (if of_char c = (13::nat) \<and> cs \<noteq> [] \<and> of_char (hd cs) = (10::nat) then tl cs else cs)"

text \<open>A line break ends a line; \<open>cur\<close> is the line so far, backwards.\<close>

function lines_from :: "string \<Rightarrow> string \<Rightarrow> string list" where
  "lines_from cur [] = (if cur = [] then [] else [rev cur])"
| "lines_from cur (c # cs) =
     (if line_break c then rev cur # lines_from [] (after_break c cs) else lines_from (c # cur) cs)"
  by pat_completeness auto

termination
  by (relation "measure (\<lambda>(cur, s). length s)") (auto simp: after_break_def)

definition splitlines :: "string \<Rightarrow> string list" where
  "splitlines = lines_from []"

lemma strip_chars_length: "length (strip_chars P s) \<le> length s"
  using length_dropWhile_le [of P "rev (dropWhile P s)"] length_dropWhile_le [of P s]
  by (simp add: strip_chars_def)

lemma strip_length: "length (strip s) \<le> length s"
  by (simp add: strip_def strip_chars_length)

lemma split_on_length: "w \<in> set (split_on d s) \<Longrightarrow> length w \<le> length s"
proof (induction s arbitrary: w)
  case (Cons c cs)
  show ?case
  proof (cases "split_on d cs")
    case Nil
    then show ?thesis using Cons by (auto split: if_splits)
  next
    case (Cons v vs)
    then have "length v \<le> length cs" "\<forall>x \<in> set vs. length x \<le> length cs" using Cons.IH by auto
    then show ?thesis using Cons Cons.prems by (auto split: if_splits)
  qed
qed simp

lemma strip_chars_id:
  assumes s: "s \<noteq> []" "\<not> P (hd s)" "\<not> P (last s)"
  shows "strip_chars P s = s"
proof -
  have "dropWhile P s = s" "dropWhile P (rev s) = rev s"
    using s by (simp_all add: dropWhile_eq_self_iff hd_rev)
  then show ?thesis by (simp add: strip_chars_def)
qed

lemma strip_chars_pad: "list_all P ws \<Longrightarrow> strip_chars P (ws @ s) = strip_chars P s"
  by (induction ws) (auto simp: strip_chars_def)

lemma strip_ends:
  assumes "strip s = s" "s \<noteq> []"
  shows "\<not> py_space (hd s)" "\<not> py_space (last s)"
proof -
  have s: "rev (dropWhile py_space (rev (dropWhile py_space s))) = s"
    using assms(1) by (simp add: strip_def strip_chars_def)
  then have len: "dropWhile py_space s = s"
    by (metis dropWhile_eq_self_iff hd_Cons_tl length_rev nle_le length_dropWhile_le dropWhile_eq_Nil_conv
        takeWhile_dropWhile_id append_eq_append_conv append_Nil le_antisym)
  then show "\<not> py_space (hd s)" using assms(2) by (simp add: dropWhile_eq_self_iff)
  have "dropWhile py_space (rev s) = rev s" using s len by (metis rev_rev_ident)
  then show "\<not> py_space (last s)" using assms(2) by (simp add: dropWhile_eq_self_iff hd_rev)
qed

lemma lines_from_line: "list_all (\<lambda>c. \<not> line_break c) l \<Longrightarrow> lines_from cur (l @ s) = lines_from (rev l @ cur) s"
  by (induction l arbitrary: cur) auto

text \<open>Lines written one per line feed read back.\<close>

definition unlines :: "string list \<Rightarrow> string" where
  "unlines ls = concat (map (\<lambda>l. l @ [CHR 0x0A]) ls)"

lemma splitlines_unlines:
  "list_all (list_all (\<lambda>c. \<not> line_break c)) ls \<Longrightarrow> splitlines (unlines ls) = ls"
  by (induction ls) (auto simp: splitlines_def unlines_def lines_from_line line_break_def after_break_def)

section \<open>Numbers\<close>

text \<open>Digits with single underscores between them.\<close>

fun digit_run :: "int \<Rightarrow> string \<Rightarrow> int option" where
  "digit_run acc [] = Some acc"
| "digit_run acc (c # cs) =
     (if is_digit c then digit_run (10 * acc + int (digit c)) cs
      else if c = CHR ''_'' \<and> cs \<noteq> [] \<and> is_digit (hd cs) then digit_run acc cs else None)"

definition digit_part :: "string \<Rightarrow> int option" where
  "digit_part s = (if s \<noteq> [] \<and> is_digit (hd s) then digit_run 0 s else None)"

definition signed :: "(string \<Rightarrow> 'a option) \<Rightarrow> string \<Rightarrow> ('a::uminus) option" where
  "signed f s =
     (case s of
        c # r \<Rightarrow> (if c = CHR ''-'' then map_option uminus (f r) else if c = CHR ''+'' then f r else f s)
      | [] \<Rightarrow> f s)"

definition py_int :: "string \<Rightarrow> int option" where
  "py_int s = signed digit_part (strip s)"

text \<open>\<open>12\<close>, \<open>12.5\<close>, \<open>12.\<close>, \<open>.5\<close>; then \<open>e\<close> and a signed exponent.\<close>

definition point_float :: "string \<Rightarrow> real option" where
  "point_float s =
     (if CHR ''.'' \<in> set s
      then let ip = before (CHR ''.'') s; fp = after (CHR ''.'') s
           in if ip = [] \<and> fp = [] then None
              else case (if ip = [] then Some 0 else digit_part ip, if fp = [] then Some 0 else digit_part fp) of
                     (Some a, Some b) \<Rightarrow> Some (of_int a + of_int b / 10 ^ length (filter is_digit fp))
                   | _ \<Rightarrow> None
      else map_option of_int (digit_part s))"

definition is_exp :: "char \<Rightarrow> bool" where
  "is_exp c \<longleftrightarrow> c = CHR ''e'' \<or> c = CHR ''E''"

definition exp_float :: "string \<Rightarrow> real option" where
  "exp_float s =
     (let m = takeWhile (\<lambda>c. \<not> is_exp c) s; r = dropWhile (\<lambda>c. \<not> is_exp c) s
      in if r = [] then point_float m
         else case (point_float m, signed digit_part (tl r)) of
                (Some x, Some e) \<Rightarrow> Some (x * 10 powi e)
              | _ \<Rightarrow> None)"

definition py_float :: "string \<Rightarrow> real option" where
  "py_float s = signed exp_float (strip s)"

text \<open>\<open>str(n)\<close>\<close>

fun show_nat :: "nat \<Rightarrow> string" where
  "show_nat n = (if n < 10 then [char_of (48 + n)] else show_nat (n div 10) @ [char_of (48 + n mod 10)])"

declare show_nat.simps [simp del]

definition show_int :: "int \<Rightarrow> string" where
  "show_int n = (if n < 0 then CHR ''-'' # show_nat (nat (- n)) else show_nat (nat n))"

lemma digit_char: "n < 10 \<Longrightarrow> is_digit (char_of (48 + n)) \<and> digit (char_of (48 + n)) = n"
  by (simp add: is_digit_def digit_def)

lemma digit_run_snoc:
  "is_digit c \<Longrightarrow> list_all is_digit s \<Longrightarrow>
     digit_run acc (s @ [c]) = map_option (\<lambda>a. 10 * a + int (digit c)) (digit_run acc s)"
  by (induction s arbitrary: acc) auto

lemma show_nat_digits: "list_all is_digit (show_nat n) \<and> show_nat n \<noteq> [] \<and> digit_run 0 (show_nat n) = Some (int n)"
proof (induction n rule: show_nat.induct)
  case (1 n)
  show ?case
  proof (cases "n < 10")
    case True
    then show ?thesis by (subst (1 2 3) show_nat.simps) (simp add: digit_char)
  next
    case False
    have "10 * (int n div 10) + int n mod 10 = int n" by simp
    then show ?thesis using 1 [OF False] False digit_char [of "n mod 10"]
      by (subst (1 2 3) show_nat.simps) (simp add: digit_run_snoc zdiv_int zmod_int)
  qed
qed

lemma digit_no_space: "is_digit c \<Longrightarrow> \<not> py_space c \<and> c \<noteq> CHR ''-'' \<and> c \<noteq> CHR ''+''"
  by (auto simp: is_digit_def py_space_def)

lemma show_int_ends:
  "show_int n \<noteq> []" "\<not> py_space (hd (show_int n))" "\<not> py_space (last (show_int n))"
proof -
  have d: "show_nat m \<noteq> []" "is_digit (hd (show_nat m))" "is_digit (last (show_nat m))" for m
    using show_nat_digits [of m] by (auto simp: list_all_iff)
  show "show_int n \<noteq> []" "\<not> py_space (hd (show_int n))" "\<not> py_space (last (show_int n))"
    using d digit_no_space by (auto simp: show_int_def py_space_def)
qed

lemma py_int_show: "py_int (show_int n) = Some n"
proof -
  have "digit_part (show_nat m) = Some (int m)" for m
    using show_nat_digits [of m] by (auto simp: digit_part_def list_all_iff)
  moreover have "signed digit_part (show_nat m) = digit_part (show_nat m)" for m
    using show_nat_digits [of m] digit_no_space by (cases "show_nat m") (auto simp: signed_def)
  moreover have "strip (show_int n) = show_int n"
    using show_int_ends unfolding strip_def by (intro strip_chars_id)
  ultimately show ?thesis by (simp add: py_int_def show_int_def) (simp add: signed_def)
qed

end
