(* ===== verification/Json.thy ===== *)
theory Json
  imports Py_Text
begin

text \<open>
  The values that cross the wire and fill the \<open>log\<close> dictionaries: what \<open>json.dumps\<close> accepts
  and \<open>json.loads\<close> returns. Dictionaries are association lists in insertion order; the
  standard library's text encoding of a value is not modelled. The accessors are the ways
  the source reads a decoded value: \<open>d[k]\<close>, \<open>d.get(k, default)\<close>, \<open>float(x)\<close>, \<open>bool(x)\<close>,
  \<open>np.asarray(x, float)\<close>.
\<close>

datatype json =
    JNull
  | JBool bool
  | JInt int
  | JNum real
  | JStr string
  | JList "json list"
  | JObj "(string \<times> json) list"

fun jget :: "json \<Rightarrow> string \<Rightarrow> json result" where
  "jget (JObj d) k = (case map_of d k of None \<Rightarrow> Inl KeyError | Some v \<Rightarrow> Inr v)"
| "jget _ k = Inl TypeError"

text \<open>\<open>d.get(k)\<close> on a dictionary: a missing key reads as \<open>None\<close>.\<close>

fun jopt :: "json \<Rightarrow> string \<Rightarrow> json" where
  "jopt (JObj d) k = get_default d k JNull"
| "jopt _ k = JNull"

definition jget_or :: "json \<Rightarrow> string \<Rightarrow> json \<Rightarrow> json" where
  "jget_or j k v = (case j of JObj d \<Rightarrow> get_default d k v | _ \<Rightarrow> v)"

fun jfloat :: "json \<Rightarrow> real result" where
  "jfloat (JNum x) = Inr x"
| "jfloat (JInt n) = Inr (of_int n)"
| "jfloat (JBool b) = Inr (if b then 1 else 0)"
| "jfloat (JStr s) = (case py_float s of Some x \<Rightarrow> Inr x | None \<Rightarrow> Inl ValueError)"
| "jfloat _ = Inl TypeError"

text \<open>\<open>k in d\<close> and \<open>d.get(k, default)\<close> on a value that should be a dictionary.\<close>

fun jhas :: "json \<Rightarrow> string \<Rightarrow> bool result" where
  "jhas (JObj d) k = Inr (k \<in> fst ` set d)"
| "jhas _ k = Inl TypeError"

fun jget_dflt :: "json \<Rightarrow> string \<Rightarrow> json \<Rightarrow> json result" where
  "jget_dflt (JObj d) k v = Inr (get_default d k v)"
| "jget_dflt _ k v = Inl AttributeError"

text \<open>\<open>str.lower\<close> on ASCII text.\<close>

definition str_lower :: "string \<Rightarrow> string" where
  "str_lower = map (\<lambda>c. let n = of_char c :: nat in
     if 65 \<le> n \<and> n \<le> 90 then char_of (n + 32) else c)"

text \<open>\<open>int(x)\<close> truncates a float towards zero.\<close>

fun jint :: "json \<Rightarrow> int result" where
  "jint (JInt n) = Inr n"
| "jint (JNum x) = Inr (if 0 \<le> x then \<lfloor>x\<rfloor> else \<lceil>x\<rceil>)"
| "jint (JBool b) = Inr (if b then 1 else 0)"
| "jint (JStr s) = (case py_int s of Some n \<Rightarrow> Inr n | None \<Rightarrow> Inl ValueError)"
| "jint _ = Inl TypeError"

text \<open>Truth value of a decoded value.\<close>

fun jtruthy :: "json \<Rightarrow> bool" where
  "jtruthy JNull = False"
| "jtruthy (JBool b) = b"
| "jtruthy (JInt n) = (n \<noteq> 0)"
| "jtruthy (JNum x) = (x \<noteq> 0)"
| "jtruthy (JStr s) = (s \<noteq> [])"
| "jtruthy (JList xs) = (xs \<noteq> [])"
| "jtruthy (JObj d) = (d \<noteq> [])"

fun jstr :: "json \<Rightarrow> string result" where
  "jstr (JStr s) = Inr s"
| "jstr _ = Inl TypeError"

fun jlist :: "json \<Rightarrow> json list result" where
  "jlist (JList xs) = Inr xs"
| "jlist _ = Inl TypeError"

text \<open>\<open>np.asarray(x, float)\<close> for a one-dimensional array, and \<open>a.tolist()\<close>.\<close>

definition jfloats :: "json \<Rightarrow> real list result" where
  "jfloats j = bindR (jlist j) (mapR jfloat)"

definition of_floats :: "real list \<Rightarrow> json" where
  "of_floats xs = JList (map JNum xs)"

definition jbools :: "json \<Rightarrow> bool list result" where
  "jbools j = bindR (jlist j) (mapR (\<lambda>x. Inr (jtruthy x)))"

definition of_bools :: "bool list \<Rightarrow> json" where
  "of_bools bs = JList (map JBool bs)"

definition of_opt :: "('a \<Rightarrow> json) \<Rightarrow> 'a option \<Rightarrow> json" where
  "of_opt f x = (case x of None \<Rightarrow> JNull | Some y \<Rightarrow> f y)"

definition to_opt :: "(json \<Rightarrow> 'a result) \<Rightarrow> json \<Rightarrow> 'a option result" where
  "to_opt f j = (if j = JNull then Inr None else bindR (f j) (\<lambda>x. Inr (Some x)))"

lemma get_default_Cons [simp]:
  "get_default ((k, v) # d) k' w = (if k = k' then v else get_default d k' w)"
  "get_default [] k' w = w"
  by (simp_all add: get_default_def)

lemma jfloats_of_floats [simp]: "jfloats (of_floats xs) = Inr xs"
  by (simp add: jfloats_def of_floats_def mapR_map_Inr)

lemma jbools_of_bools [simp]: "jbools (of_bools bs) = Inr bs"
  by (simp add: jbools_def of_bools_def mapR_map_Inr)

lemma of_floats_neq_JNull [simp]: "of_floats xs \<noteq> JNull" "JNull \<noteq> of_floats xs"
  by (simp_all add: of_floats_def)

lemma to_opt_of_opt:
  assumes "\<And>y. x = Some y \<Longrightarrow> f (g y) = Inr y \<and> g y \<noteq> JNull"
  shows "to_opt f (of_opt g x) = Inr x"
  using assms by (cases x) (auto simp: to_opt_def of_opt_def)

text \<open>
  Reading a field: \<open>dec(d[k])\<close>, \<open>dec(d.get(k, default))\<close>, and
  \<open>None if d.get(k) is None else dec(d[k])\<close>.
\<close>

definition jfield :: "json \<Rightarrow> string \<Rightarrow> (json \<Rightarrow> 'a result) \<Rightarrow> 'a result" where
  "jfield d k dec = bindR (jget d k) dec"

definition jfield_or :: "json \<Rightarrow> string \<Rightarrow> json \<Rightarrow> (json \<Rightarrow> 'a result) \<Rightarrow> 'a result" where
  "jfield_or d k v dec = bindR (jget_dflt d k v) dec"

definition jfield_opt :: "json \<Rightarrow> string \<Rightarrow> (json \<Rightarrow> 'a result) \<Rightarrow> 'a option result" where
  "jfield_opt d k dec = bindR (jget_dflt d k JNull) (to_opt dec)"

text \<open>Values the source stores as they come, at the types it annotates; \<open>bool(x)\<close>.\<close>

fun jint_only :: "json \<Rightarrow> int result" where
  "jint_only (JInt n) = Inr n"
| "jint_only _ = Inl TypeError"

fun jobj :: "json \<Rightarrow> (string \<times> json) list result" where
  "jobj (JObj d) = Inr d"
| "jobj _ = Inl TypeError"

definition jbool :: "json \<Rightarrow> bool result" where
  "jbool j = Inr (jtruthy j)"

lemma jfield_obj [simp]:
  "jfield (JObj d) k dec = (case map_of d k of None \<Rightarrow> Inl KeyError | Some v \<Rightarrow> dec v)"
  "jfield_or (JObj d) k v dec = dec (get_default d k v)"
  "jfield_opt (JObj d) k dec = to_opt dec (get_default d k JNull)"
  by (simp_all add: jfield_def jfield_or_def jfield_opt_def split: option.split)

lemma to_opt_simps [simp]:
  "to_opt f JNull = Inr None"
  "to_opt f (of_opt g None) = Inr None"
  "to_opt f (of_opt JNum (Some x)) = bindR (f (JNum x)) (\<lambda>y. Inr (Some y))"
  by (simp_all add: to_opt_def of_opt_def)

lemma to_opt_plain [simp]:
  "to_opt jfloats (of_opt of_floats xs) = Inr xs"
  "to_opt jint_only (of_opt JInt n) = Inr n"
  "to_opt jfloat (of_opt JNum x) = Inr x"
  by (rule to_opt_of_opt, simp)+

lemma jbool_JBool [simp]: "jbool (JBool b) = Inr b"
  by (simp add: jbool_def)

end
