(* ===== verification/Action_Chunk.thy ===== *)
theory Action_Chunk
  imports Robot_Types Json
begin

text \<open>
  \<^verbatim>\<open>action_chunk.py\<close>: the action contract. The constructors with their validation
  (\<open>__post_init__\<close>), the planner-array ingestion, the execution horizon and the resolution
  of relative chunks. The lemmas: constructed waypoints and chunks satisfy \<open>wp_wf\<close> and
  \<open>chunk_wf\<close>; preparing a well-formed chunk for execution never raises, gives an absolute
  well-formed chunk of exactly \<open>horizon_exec\<close> waypoints, and is idempotent.
\<close>

section \<open>Waypoints\<close>

record waypoint =
  wp_position :: vec3
  wp_quaternion :: "quat option"
  wp_gripper :: "gripper_command option"
  wp_n_frames :: "int option"
  wp_duration :: "real option"
  wp_frame :: string

definition wp_post_init :: "waypoint \<Rightarrow> waypoint result" where
  "wp_post_init w =
     bindR (case wp_quaternion w of
              None \<Rightarrow> Inr w
            | Some q \<Rightarrow> (if norm q < EPS then Inl ValueError
                          else Inr (w\<lparr>wp_quaternion := Some ((1 / norm q) *\<^sub>R q)\<rparr>)))
       (\<lambda>w. if wp_n_frames w = None \<and> wp_duration w = None then Inl ValueError
            else case wp_n_frames w of
                   Some n \<Rightarrow> (if n \<le> 0 then Inl ValueError else Inr w)
                 | None \<Rightarrow> Inr w)"

text \<open>The array arguments of the constructor: \<open>reshape(3)\<close> and \<open>reshape(4)\<close>.\<close>

fun to_vec3 :: "real list \<Rightarrow> vec3 result" where
  "to_vec3 [x, y, z] = Inr (Vec3 x y z)"
| "to_vec3 _ = Inl ValueError"

fun to_quat :: "real list \<Rightarrow> quat result" where
  "to_quat [w, x, y, z] = Inr (Quat w x y z)"
| "to_quat _ = Inl ValueError"

definition of_vec3 :: "vec3 \<Rightarrow> real list" where
  "of_vec3 v = [vx v, vy v, vz v]"

definition of_quat :: "quat \<Rightarrow> real list" where
  "of_quat q = [qw q, qx q, qy q, qz q]"

fun to_pose :: "real list \<Rightarrow> pose result" where
  "to_pose [x, y, z, a, b, c, d] = Inr \<lparr>pos = Vec3 x y z, rot = Quat a b c d\<rparr>"
| "to_pose _ = Inl ValueError"

definition of_pose :: "pose \<Rightarrow> real list" where
  "of_pose p = of_vec3 (pos p) @ of_quat (rot p)"

lemma shape_roundtrips [simp]:
  "to_vec3 (of_vec3 v) = Inr v" "to_quat (of_quat q) = Inr q" "to_pose (of_pose p) = Inr p"
  by (simp_all add: of_vec3_def of_quat_def of_pose_def)

definition mk_waypoint ::
  "real list \<Rightarrow> real list option \<Rightarrow> gripper_command option \<Rightarrow> int option \<Rightarrow> real option \<Rightarrow> string
   \<Rightarrow> waypoint result" where
  "mk_waypoint position quaternion gripper n_frames duration frame =
     bindR (to_vec3 position) (\<lambda>p.
     bindR (case quaternion of None \<Rightarrow> Inr None | Some q \<Rightarrow> bindR (to_quat q) (\<lambda>q'. Inr (Some q'))) (\<lambda>q.
     wp_post_init \<lparr>wp_position = p, wp_quaternion = q, wp_gripper = gripper,
        wp_n_frames = n_frames, wp_duration = duration, wp_frame = frame\<rparr>))"

text \<open>
  \<open>resolve_duration\<close>: an explicit duration wins over a frame count. After construction one of
  them is present; the last case is \<open>float(None)\<close>.
\<close>

definition resolve_duration :: "waypoint \<Rightarrow> real \<Rightarrow> real result" where
  "resolve_duration w control_hz =
     (case wp_duration w of
        Some d \<Rightarrow> Inr d
      | None \<Rightarrow> (case wp_n_frames w of
                    Some n \<Rightarrow> (if control_hz = 0 then Inl ZeroDivisionError
                                else Inr (of_int n / control_hz))
                  | None \<Rightarrow> Inl TypeError))"

definition wp_wf :: "waypoint \<Rightarrow> bool" where
  "wp_wf w \<longleftrightarrow> (\<forall>q. wp_quaternion w = Some q \<longrightarrow> norm q = 1)
     \<and> (wp_n_frames w \<noteq> None \<or> wp_duration w \<noteq> None)
     \<and> (\<forall>n. wp_n_frames w = Some n \<longrightarrow> 0 < n)"

lemma wp_post_init_wf:
  assumes "wp_post_init w = Inr w'"
  shows "wp_wf w'"
proof -
  obtain w1 where w1: "(case wp_quaternion w of None \<Rightarrow> Inr w
        | Some q \<Rightarrow> (if norm q < EPS then Inl ValueError
                      else Inr (w\<lparr>wp_quaternion := Some ((1 / norm q) *\<^sub>R q)\<rparr>))) = Inr w1"
    and g: "(if wp_n_frames w1 = None \<and> wp_duration w1 = None then Inl ValueError
            else case wp_n_frames w1 of
                   Some n \<Rightarrow> (if n \<le> 0 then Inl ValueError else Inr w1)
                 | None \<Rightarrow> Inr w1) = Inr w'"
    using assms by (auto simp: wp_post_init_def bindR_eq_Inr)
  have "norm q = 1" if "wp_quaternion w1 = Some q" for q
    using w1 that EPS_pos(1) by (auto split: option.splits if_splits)
  with g show ?thesis
    by (cases "wp_n_frames w1") (auto simp: wp_wf_def split: if_splits)
qed

lemma wp_post_init_id: "wp_wf w \<Longrightarrow> wp_post_init w = Inr w"
  by (auto simp: wp_post_init_def wp_wf_def split: option.splits)

lemma mk_waypoint_wf: "mk_waypoint p q g n d f = Inr w \<Longrightarrow> wp_wf w"
  by (auto simp: mk_waypoint_def bindR_eq_Inr intro: wp_post_init_wf)

lemma resolve_duration_ok: "wp_wf w \<Longrightarrow> 0 < hz \<Longrightarrow> \<exists>d. resolve_duration w hz = Inr d"
  by (auto simp: resolve_duration_def wp_wf_def split: option.splits)

section \<open>Cartesian chunks\<close>

datatype chunk_representation = ABSOLUTE | RELATIVE_TO_START

fun representation_value :: "chunk_representation \<Rightarrow> string" where
  "representation_value ABSOLUTE = ''absolute''"
| "representation_value RELATIVE_TO_START = ''relative_to_start''"

record chunk =
  ck_waypoints :: "waypoint list"
  ck_impedance :: impedance_params
  ck_force_control :: "force_control_params option"
  ck_max_tcp_linear_speed :: real
  ck_max_tcp_angular_speed :: real
  ck_max_tcp_linear_acc :: real
  ck_max_tcp_angular_acc :: real
  ck_max_contact_wrench :: "real list option"
  ck_contact_wrench_allowance :: "real list option"
  ck_grip_tracking_gate_m :: "real option"
  ck_safety_profile :: string
  ck_frame :: string
  ck_representation :: chunk_representation
  ck_n_execute :: "int option"

definition chunk_of :: "waypoint list \<Rightarrow> chunk" where
  "chunk_of wps = \<lparr>ck_waypoints = wps, ck_impedance = default_impedance,
     ck_force_control = None, ck_max_tcp_linear_speed = 25/100, ck_max_tcp_angular_speed = 60/100,
     ck_max_tcp_linear_acc = 1, ck_max_tcp_angular_acc = 2, ck_max_contact_wrench = None,
     ck_contact_wrench_allowance = None, ck_grip_tracking_gate_m = None,
     ck_safety_profile = '''', ck_frame = ''base'', ck_representation = ABSOLUTE,
     ck_n_execute = None\<rparr>"

definition reshape6 :: "real list option \<Rightarrow> bool" where
  "reshape6 x = (case x of None \<Rightarrow> True | Some xs \<Rightarrow> length xs = 6)"

definition chunk_post_init :: "chunk \<Rightarrow> chunk result" where
  "chunk_post_init c =
     (if ck_waypoints c = [] then Inl ValueError
      else if \<not> reshape6 (ck_max_contact_wrench c) then Inl ValueError
      else if \<not> reshape6 (ck_contact_wrench_allowance c) then Inl ValueError
      else if (case ck_contact_wrench_allowance c of None \<Rightarrow> False
               | Some a \<Rightarrow> list_ex (\<lambda>x. x < 0) a) then Inl ValueError
      else if (case ck_grip_tracking_gate_m c of None \<Rightarrow> False | Some g \<Rightarrow> g \<le> 0) then Inl ValueError
      else Inr c)"

definition chunk_wf :: "chunk \<Rightarrow> bool" where
  "chunk_wf c \<longleftrightarrow> ck_waypoints c \<noteq> [] \<and> list_all wp_wf (ck_waypoints c)
     \<and> (\<forall>w. ck_max_contact_wrench c = Some w \<longrightarrow> length w = 6)
     \<and> (\<forall>w. ck_contact_wrench_allowance c = Some w \<longrightarrow> length w = 6 \<and> list_all (\<lambda>x. 0 \<le> x) w)
     \<and> (\<forall>g. ck_grip_tracking_gate_m c = Some g \<longrightarrow> 0 < g)"

lemma list_ex_neg_iff: "list_ex (\<lambda>x. x < 0) xs \<longleftrightarrow> \<not> list_all (\<lambda>x. (0::real) \<le> x) xs"
  by (induction xs) auto

lemma chunk_post_init_iff:
  "list_all wp_wf (ck_waypoints c) \<Longrightarrow> chunk_post_init c = Inr c' \<longleftrightarrow> c' = c \<and> chunk_wf c"
  by (auto simp: chunk_post_init_def chunk_wf_def reshape6_def list_ex_neg_iff not_le
           split: option.splits if_splits)

lemma chunk_post_init_ok: "chunk_wf c \<Longrightarrow> chunk_post_init c = Inr c"
  using chunk_post_init_iff [of c c] by (simp add: chunk_wf_def)

definition horizon_pred :: "chunk \<Rightarrow> nat" where
  "horizon_pred c = length (ck_waypoints c)"

definition horizon_exec :: "chunk \<Rightarrow> int" where
  "horizon_exec c =
     (let n = (case ck_n_execute c of Some n \<Rightarrow> n | None \<Rightarrow> int (length (ck_waypoints c)))
      in max 1 (min n (int (length (ck_waypoints c)))))"

fun sum_durations :: "waypoint list \<Rightarrow> real \<Rightarrow> real result" where
  "sum_durations [] hz = Inr 0"
| "sum_durations (w # ws) hz =
     bindR (resolve_duration w hz) (\<lambda>d. bindR (sum_durations ws hz) (\<lambda>s. Inr (d + s)))"

definition total_duration :: "chunk \<Rightarrow> real \<Rightarrow> real result" where
  "total_duration c hz = sum_durations (ck_waypoints c) hz"

text \<open>Each relative waypoint is composed onto the start pose and constructed anew.\<close>

definition resolve_waypoint :: "pose \<Rightarrow> waypoint \<Rightarrow> waypoint result" where
  "resolve_waypoint sp w =
     wp_post_init (w\<lparr>wp_position := pos sp + quat_rotate (rot sp) (wp_position w),
       wp_quaternion := Some (case wp_quaternion w of
                                 None \<Rightarrow> rot sp
                               | Some q \<Rightarrow> quat_normalize (quat_mul (rot sp) q))\<rparr>)"

definition resolve_to_absolute :: "chunk \<Rightarrow> pose \<Rightarrow> chunk result" where
  "resolve_to_absolute c sp =
     (if ck_representation c = ABSOLUTE then Inr c
      else bindR (mapR (resolve_waypoint sp) (ck_waypoints c)) (\<lambda>wps.
           chunk_post_init (c\<lparr>ck_waypoints := wps, ck_representation := ABSOLUTE\<rparr>)))"

definition for_execution :: "chunk \<Rightarrow> pose \<Rightarrow> chunk result" where
  "for_execution c sp =
     bindR (resolve_to_absolute c sp) (\<lambda>c'.
       (let he = horizon_exec c in
        if int (length (ck_waypoints c')) \<le> he then Inr c'
        else chunk_post_init (c'\<lparr>ck_waypoints := take (nat he) (ck_waypoints c'), ck_n_execute := None\<rparr>)))"

lemma horizon_exec_bounds:
  "ck_waypoints c \<noteq> [] \<Longrightarrow> 1 \<le> horizon_exec c \<and> horizon_exec c \<le> int (length (ck_waypoints c))"
  by (cases "ck_waypoints c") (simp_all add: horizon_exec_def Let_def)

lemma resolve_waypoint_ok:
  assumes "wp_wf w" "norm (rot sp) = 1"
  shows "\<exists>w'. resolve_waypoint sp w = Inr w' \<and> wp_wf w'"
proof -
  have "wp_wf (w\<lparr>wp_position := pos sp + quat_rotate (rot sp) (wp_position w),
       wp_quaternion := Some (case wp_quaternion w of None \<Rightarrow> rot sp
          | Some q \<Rightarrow> quat_normalize (quat_mul (rot sp) q))\<rparr>)"
    using assms by (auto simp: wp_wf_def split: option.splits)
  then show ?thesis by (auto simp: resolve_waypoint_def wp_post_init_id)
qed

lemma mapR_ok:
  assumes "\<And>x. x \<in> set xs \<Longrightarrow> \<exists>y. f x = Inr y \<and> P y"
  shows "\<exists>ys. mapR f xs = Inr ys \<and> list_all P ys \<and> length ys = length xs"
  using assms by (induction xs) (simp, fastforce)

lemma resolve_to_absolute_ok:
  assumes wf: "chunk_wf c" and sp: "norm (rot sp) = 1"
  shows "\<exists>c'. resolve_to_absolute c sp = Inr c' \<and> chunk_wf c' \<and> ck_representation c' = ABSOLUTE
     \<and> length (ck_waypoints c') = length (ck_waypoints c) \<and> ck_n_execute c' = ck_n_execute c"
proof (cases "ck_representation c = ABSOLUTE")
  case True
  then show ?thesis using wf by (simp add: resolve_to_absolute_def)
next
  case False
  obtain wps where wps: "mapR (resolve_waypoint sp) (ck_waypoints c) = Inr wps"
      "list_all wp_wf wps" "length wps = length (ck_waypoints c)"
    using mapR_ok [of "ck_waypoints c" "resolve_waypoint sp" wp_wf] resolve_waypoint_ok [OF _ sp] wf
    by (auto simp: chunk_wf_def list_all_iff)
  have "chunk_wf (c\<lparr>ck_waypoints := wps, ck_representation := ABSOLUTE\<rparr>)"
    using wf wps by (auto simp: chunk_wf_def)
  then show ?thesis
    using False wps by (simp add: resolve_to_absolute_def chunk_post_init_ok)
qed

lemma for_execution_ok:
  assumes wf: "chunk_wf c" and sp: "norm (rot sp) = 1"
  shows "\<exists>c'. for_execution c sp = Inr c' \<and> chunk_wf c' \<and> ck_representation c' = ABSOLUTE
     \<and> int (length (ck_waypoints c')) = horizon_exec c \<and> for_execution c' sp = Inr c'"
proof -
  obtain a where a: "resolve_to_absolute c sp = Inr a" "chunk_wf a" "ck_representation a = ABSOLUTE"
      "length (ck_waypoints a) = length (ck_waypoints c)" "ck_n_execute a = ck_n_execute c"
    using resolve_to_absolute_ok [OF wf sp] by blast
  have he: "1 \<le> horizon_exec c" "horizon_exec c \<le> int (length (ck_waypoints c))"
      "horizon_exec a = horizon_exec c"
    using horizon_exec_bounds [of c] wf by (auto simp: chunk_wf_def) (simp add: horizon_exec_def a(4,5) split: option.splits)
  show ?thesis
  proof (cases "int (length (ck_waypoints a)) \<le> horizon_exec c")
    case True
    then show ?thesis
      using a he by (simp add: for_execution_def resolve_to_absolute_def Let_def)
  next
    case False
    define b where "b = a\<lparr>ck_waypoints := take (nat (horizon_exec c)) (ck_waypoints a), ck_n_execute := None\<rparr>"
    have len: "int (length (ck_waypoints b)) = horizon_exec c"
      using he a False by (simp add: b_def)
    have wfb: "chunk_wf b"
      using a he by (auto simp: chunk_wf_def b_def list_all_iff dest: in_set_takeD)
    have heb: "horizon_exec b = horizon_exec c"
      using len he by (simp add: horizon_exec_def [of b]) (simp add: b_def)
    have "for_execution c sp = Inr b"
      using a False wfb by (simp add: for_execution_def Let_def b_def chunk_post_init_ok)
    moreover have "for_execution b sp = Inr b"
      using a len heb by (simp add: for_execution_def resolve_to_absolute_def Let_def) (simp add: b_def)
    ultimately show ?thesis using wfb len a by (auto simp: b_def)
  qed
qed

section \<open>Planner arrays\<close>

definition frame_timing :: "real option \<Rightarrow> real \<Rightarrow> int option \<times> real option" where
  "frame_timing frames_hz n =
     (case frames_hz of
        Some hz \<Rightarrow> (None, Some (of_int (max 1 (py_round n)) / hz))
      | None \<Rightarrow> (Some (max 1 (py_round n)), None))"

definition from_rows ::
  "(real list \<Rightarrow> real list \<times> real list option \<times> real \<times> real) \<Rightarrow> real list list
   \<Rightarrow> real \<Rightarrow> real \<Rightarrow> real option \<Rightarrow> chunk \<Rightarrow> chunk result" where
  "from_rows row_of u gripper_force gripper_span frames_hz kwargs =
     bindR (mapR (\<lambda>row. (case row_of row of (position, quaternion, w, n) \<Rightarrow>
              (let grip = from_normalized w gripper_span 0 gripper_force (1/10);
                   timing = frame_timing frames_hz n
               in mk_waypoint position quaternion (Some grip) (fst timing) (snd timing) ''base''))) u)
       (\<lambda>wpts. chunk_post_init (kwargs\<lparr>ck_waypoints := wpts\<rparr>))"

definition bad_hz :: "real option \<Rightarrow> bool" where
  "bad_hz frames_hz = (case frames_hz of None \<Rightarrow> False | Some hz \<Rightarrow> hz \<le> 0)"

definition shape_ok :: "real list list \<Rightarrow> nat \<Rightarrow> bool" where
  "shape_ok u cols = (u \<noteq> [] \<and> list_all (\<lambda>row. length row = cols) u)"

definition from_waypoint_array ::
  "real list list \<Rightarrow> real \<Rightarrow> real \<Rightarrow> bool \<Rightarrow> real option \<Rightarrow> chunk \<Rightarrow> chunk result" where
  "from_waypoint_array u gripper_force gripper_span hold_orientation frames_hz kwargs =
     (if bad_hz frames_hz then Inl ValueError
      else if \<not> shape_ok u 5 then Inl ValueError
      else if \<not> hold_orientation then Inl ValueError
      else from_rows (\<lambda>row. (take 3 row, None, row ! 3, row ! 4)) u
             gripper_force gripper_span frames_hz kwargs)"

definition from_pose_array ::
  "real list list \<Rightarrow> real \<Rightarrow> real \<Rightarrow> real option \<Rightarrow> chunk \<Rightarrow> chunk result" where
  "from_pose_array u gripper_force gripper_span frames_hz kwargs =
     (if bad_hz frames_hz then Inl ValueError
      else if \<not> shape_ok u 9 then Inl ValueError
      else from_rows (\<lambda>row. (take 3 row, Some (take 4 (drop 3 row)), row ! 7, row ! 8)) u
             gripper_force gripper_span frames_hz kwargs)"

definition from_topdown_array ::
  "real list list \<Rightarrow> quat \<Rightarrow> real \<Rightarrow> real \<Rightarrow> real option \<Rightarrow> chunk \<Rightarrow> chunk result" where
  "from_topdown_array u down_quat gripper_span gripper_force frames_hz kwargs =
     (if bad_hz frames_hz then Inl ValueError
      else if \<not> shape_ok u 6 then Inl ValueError
      else from_rows (\<lambda>row. (take 3 row, Some (of_quat (top_down_quat (row ! 3) down_quat)),
                                 row ! 4, row ! 5)) u
             gripper_force gripper_span frames_hz kwargs)"

section \<open>Deltas and joint chunks\<close>

record cartesian_delta =
  cd_delta :: delta6
  cd_gripper :: "gripper_command option"
  cd_duration :: real
  cd_frame :: string

fun to_delta6 :: "real list \<Rightarrow> delta6 result" where
  "to_delta6 [a, b, c, d, e, f] = Inr \<lparr>d_lin = Vec3 a b c, d_rot = Vec3 d e f\<rparr>"
| "to_delta6 _ = Inl ValueError"

record joint_waypoint =
  jw_positions :: "real list"
  jw_n_frames :: "int option"
  jw_duration :: "real option"

definition jw_post_init :: "joint_waypoint \<Rightarrow> joint_waypoint result" where
  "jw_post_init w =
     (if jw_n_frames w = None \<and> jw_duration w = None then Inl ValueError else Inr w)"

definition jw_resolve_duration :: "joint_waypoint \<Rightarrow> real \<Rightarrow> real result" where
  "jw_resolve_duration w control_hz =
     (case jw_duration w of
        Some d \<Rightarrow> Inr d
      | None \<Rightarrow> (case jw_n_frames w of
                    Some n \<Rightarrow> (if control_hz = 0 then Inl ZeroDivisionError
                                else Inr (of_int n / control_hz))
                  | None \<Rightarrow> Inl TypeError))"

record joint_chunk =
  jc_waypoints :: "joint_waypoint list"
  jc_max_joint_speed_scale :: real
  jc_safety_profile :: string

definition jc_post_init :: "joint_chunk \<Rightarrow> joint_chunk result" where
  "jc_post_init c = (if jc_waypoints c = [] then Inl ValueError else Inr c)"

section \<open>The execution report\<close>

record exec_result =
  er_success :: bool
  er_clipped :: bool
  er_stop_reason :: string
  er_executed_duration :: real
  er_path_tracking_error :: real
  er_max_tcp_speed :: real
  er_max_joint_speed :: real
  er_max_wrench :: real
  er_gripper_width_final :: real
  er_final_state :: "robot_state option"
  er_log :: "(string \<times> json) list"

definition fresh_result :: exec_result where
  "fresh_result = \<lparr>er_success = True, er_clipped = False, er_stop_reason = ''none'',
     er_executed_duration = 0, er_path_tracking_error = 0, er_max_tcp_speed = 0,
     er_max_joint_speed = 0, er_max_wrench = 0, er_gripper_width_final = 0,
     er_final_state = None, er_log = []\<rparr>"

text \<open>\<open>result.log[k] = v\<close>\<close>

definition log_put :: "string \<Rightarrow> json \<Rightarrow> exec_result \<Rightarrow> exec_result" where
  "log_put k v r =
     (if k \<in> fst ` set (er_log r)
      then r\<lparr>er_log := map (\<lambda>(k', v'). (k', if k' = k then v else v')) (er_log r)\<rparr>
      else r\<lparr>er_log := er_log r @ [(k, v)]\<rparr>)"

lemma log_put_sel [simp]:
  "er_success (log_put k v r) = er_success r"
  "er_clipped (log_put k v r) = er_clipped r"
  "er_stop_reason (log_put k v r) = er_stop_reason r"
  "er_final_state (log_put k v r) = er_final_state r"
  by (simp_all add: log_put_def)

end
