(* ===== verification/Interpolation.thy ===== *)
theory Interpolation
  imports Action_Chunk
begin

text \<open>
  \<^verbatim>\<open>interpolation.py\<close>: chunks expanded to one setpoint per control tick. The generator is the
  list of what it yields, an item \<open>Inl e\<close> standing for an exception raised while iterating.
  The lemmas: the cosine ease is monotone from 0 to 1 and its largest forward difference is at
  most \<open>(\<pi>/2) / n\<close>, so a segment of \<open>segment_ticks\<close> ticks never moves faster than its speed
  cap, reaches its waypoint exactly, and is never faster than requested.
\<close>

section \<open>The Cartesian interpolator\<close>

definition BLEND_PEAK :: real where
  "BLEND_PEAK = pi / 2"

definition cosine_blend :: "real \<Rightarrow> real" where
  "cosine_blend s = 1/2 - 1/2 * cos (pi * np_clip s 0 1)"

record cart_interp =
  ci_chunk :: chunk
  ci_hz :: real
  ci_dt :: real
  ci_start_pose :: pose
  ci_max_linear_speed :: "real option"
  ci_max_angular_speed :: "real option"

definition mk_cart_interp ::
  "chunk \<Rightarrow> pose \<Rightarrow> real \<Rightarrow> real option \<Rightarrow> real option \<Rightarrow> cart_interp result" where
  "mk_cart_interp c start hz max_lin max_ang =
     (if hz = 0 then Inl ZeroDivisionError
      else Inr \<lparr>ci_chunk = c, ci_hz = hz, ci_dt = 1 / hz, ci_start_pose = start,
                ci_max_linear_speed = max_lin, ci_max_angular_speed = max_ang\<rparr>)"

text \<open>\<open>if cap and cap > 0: n = max(n, ceil(peak * len / (cap * dt)))\<close>\<close>

definition stretch_ticks :: "real option \<Rightarrow> real \<Rightarrow> real \<Rightarrow> int \<Rightarrow> int" where
  "stretch_ticks cap dt len n =
     (case cap of
        Some v \<Rightarrow> (if 0 < v then max n \<lceil>BLEND_PEAK * len / (v * dt)\<rceil> else n)
      | None \<Rightarrow> n)"

definition segment_ticks ::
  "cart_interp \<Rightarrow> vec3 \<Rightarrow> vec3 \<Rightarrow> quat \<Rightarrow> quat \<Rightarrow> waypoint \<Rightarrow> int result" where
  "segment_ticks ci prev_pos tgt_pos prev_quat tgt_quat wp =
     bindR (resolve_duration wp (ci_hz ci)) (\<lambda>d.
       (let n = max 1 (py_round (d * ci_hz ci));
            n = stretch_ticks (ci_max_linear_speed ci) (ci_dt ci) (norm (tgt_pos - prev_pos)) n;
            n = stretch_ticks (ci_max_angular_speed ci) (ci_dt ci) (quat_angle prev_quat tgt_quat) n
        in Inr (max 1 n)))"

text \<open>
  A yielded item, with the interpolator's \<open>current_segment\<close> and \<open>current_segment_ticks\<close> as the
  executor reads them after the item.
\<close>

record setpoint =
  sp_pose :: pose
  sp_grip :: "gripper_command option"
  sp_segment :: nat
  sp_segment_ticks :: int

definition blend_pose :: "vec3 \<Rightarrow> vec3 \<Rightarrow> quat \<Rightarrow> quat \<Rightarrow> nat \<Rightarrow> nat \<Rightarrow> pose" where
  "blend_pose prev_pos tgt_pos prev_quat tgt_quat n k =
     (let s = cosine_blend (real k / real n)
      in \<lparr>pos = prev_pos + s *\<^sub>R (tgt_pos - prev_pos), rot = quat_slerp prev_quat tgt_quat s\<rparr>)"

definition segment_setpoints ::
  "nat \<Rightarrow> vec3 \<Rightarrow> vec3 \<Rightarrow> quat \<Rightarrow> quat \<Rightarrow> waypoint \<Rightarrow> nat \<Rightarrow> setpoint list" where
  "segment_setpoints seg prev_pos tgt_pos prev_quat tgt_quat wp n =
     map (\<lambda>k. \<lparr>sp_pose = blend_pose prev_pos tgt_pos prev_quat tgt_quat n k,
               sp_grip = (if k = 1 then wp_gripper wp else None),
               sp_segment = seg, sp_segment_ticks = int n\<rparr>) [1..<Suc n]"

fun interp_from ::
  "cart_interp \<Rightarrow> nat \<Rightarrow> vec3 \<Rightarrow> quat \<Rightarrow> waypoint list \<Rightarrow> setpoint result list" where
  "interp_from ci seg prev_pos prev_quat [] = []"
| "interp_from ci seg prev_pos prev_quat (wp # wps) =
     (let tgt_pos = wp_position wp;
          tgt_quat = (case wp_quaternion wp of None \<Rightarrow> prev_quat | Some q \<Rightarrow> q)
      in case segment_ticks ci prev_pos tgt_pos prev_quat tgt_quat wp of
           Inl e \<Rightarrow> [Inl e]
         | Inr n \<Rightarrow> map Inr (segment_setpoints seg prev_pos tgt_pos prev_quat tgt_quat wp (nat n))
                      @ interp_from ci (Suc seg) tgt_pos tgt_quat wps)"

definition interp_iter :: "cart_interp \<Rightarrow> setpoint result list" where
  "interp_iter ci =
     interp_from ci 0 (pos (ci_start_pose ci)) (rot (ci_start_pose ci)) (ck_waypoints (ci_chunk ci))"

section \<open>The joint interpolator and the delta target\<close>

definition joint_ticks :: "joint_waypoint \<Rightarrow> real \<Rightarrow> real option \<Rightarrow> real list \<Rightarrow> int result" where
  "joint_ticks wp hz max_joint_speed prev =
     bindR (jw_resolve_duration wp hz) (\<lambda>d.
       (let n = max 1 (py_round (d * hz))
        in case max_joint_speed of
             Some v \<Rightarrow>
               (if 0 < v then
                  bindR (np_map2 (-) (jw_positions wp) prev) (\<lambda>diff.
                  bindR (np_max_abs diff) (\<lambda>dq.
                    Inr (max 1 (max n \<lceil>BLEND_PEAK * dq / (v * (1 / hz))\<rceil>))))
                else Inr (max 1 n))
           | None \<Rightarrow> Inr (max 1 n)))"

definition joint_point :: "real list \<Rightarrow> real list \<Rightarrow> nat \<Rightarrow> nat \<Rightarrow> real list result" where
  "joint_point prev tgt n k =
     (let s = cosine_blend (real k / real n)
      in np_map2 (\<lambda>p t. p + s * (t - p)) prev tgt)"

fun joint_from :: "real \<Rightarrow> real option \<Rightarrow> real list \<Rightarrow> joint_waypoint list \<Rightarrow> real list result list" where
  "joint_from hz vmax prev [] = []"
| "joint_from hz vmax prev (wp # wps) =
     (case joint_ticks wp hz vmax prev of
        Inl e \<Rightarrow> [Inl e]
      | Inr n \<Rightarrow> map (joint_point prev (jw_positions wp) (nat n)) [1..<Suc (nat n)]
                   @ joint_from hz vmax (jw_positions wp) wps)"

definition joint_iter :: "joint_chunk \<Rightarrow> real list \<Rightarrow> real \<Rightarrow> real option \<Rightarrow> real list result list" where
  "joint_iter c start_q hz vmax =
     (if hz = 0 then [Inl ZeroDivisionError] else joint_from hz vmax start_q (jc_waypoints c))"

definition delta_to_target_pose :: "cartesian_delta \<Rightarrow> pose \<Rightarrow> pose result" where
  "delta_to_target_pose d current = integrate_pose current (cd_delta d) (cd_frame d)"

section \<open>The cosine ease\<close>

lemma BLEND_PEAK_pos [simp]: "0 < BLEND_PEAK"
  by (simp add: BLEND_PEAK_def)

lemma blend_ends [simp]: "cosine_blend 0 = 0" "cosine_blend 1 = 1"
  by (simp_all add: cosine_blend_def np_clip_def)

lemma blend_range: "0 \<le> cosine_blend s \<and> cosine_blend s \<le> 1"
  using cos_le_one [of "pi * np_clip s 0 1"] cos_ge_minus_one [of "pi * np_clip s 0 1"]
  unfolding cosine_blend_def by (intro conjI; linarith)

lemma blend_frac:
  assumes "k \<le> n" "0 < n"
  shows "cosine_blend (real k / real n) = 1/2 - 1/2 * cos (pi * (real k / real n))"
proof -
  have "0 \<le> real k / real n" "real k / real n \<le> 1" using assms by simp_all
  then show ?thesis by (simp add: cosine_blend_def np_clip_id)
qed

lemma blend_step:
  assumes "1 \<le> k" "k \<le> n"
  shows "0 \<le> cosine_blend (real k / real n) - cosine_blend (real (k - 1) / real n)"
    and "cosine_blend (real k / real n) - cosine_blend (real (k - 1) / real n) \<le> BLEND_PEAK / real n"
proof -
  have n: "0 < n" using assms by simp
  define z w where "z = pi * (real k / real n)" and "w = pi * (real (k - 1) / real n)"
  have zw: "0 \<le> w" "w \<le> z" "z \<le> pi" "(z - w) / 2 = BLEND_PEAK / real n"
    using assms n by (auto simp: z_def w_def BLEND_PEAK_def field_simps of_nat_diff)
  have eq: "cosine_blend (real k / real n) - cosine_blend (real (k - 1) / real n)
      = (cos w - cos z) / 2"
    using blend_frac [of k n] blend_frac [of "k - 1" n] assms n by (simp add: z_def w_def )
  have "cos z \<le> cos w" using zw by (intro cos_monotone_0_pi_le) auto
  then show "0 \<le> cosine_blend (real k / real n) - cosine_blend (real (k - 1) / real n)"
    unfolding eq by simp
  have half: "0 \<le> (z - w) / 2" using zw(2) by (intro divide_nonneg_pos) simp_all
  have "(cos w - cos z) / 2 = sin ((w + z) / 2) * sin ((z - w) / 2)"
    by (simp add: cos_diff_cos)
  also have "\<dots> \<le> 1 * sin ((z - w) / 2)"
    using zw half by (intro mult_right_mono sin_ge_zero) auto
  also have "\<dots> \<le> (z - w) / 2" using sin_x_le_x [OF half] by simp
  finally show "cosine_blend (real k / real n) - cosine_blend (real (k - 1) / real n)
      \<le> BLEND_PEAK / real n"
    by (simp only: eq zw(4))
qed

lemma blend_mono:
  assumes "j \<le> k" "k \<le> n"
  shows "cosine_blend (real j / real n) \<le> cosine_blend (real k / real n)"
  using assms
proof (induction k)
  case (Suc k)
  then show ?case
    using blend_step(1) [of "Suc k" n] by (cases "j = Suc k") auto
qed simp

section \<open>Segments honour their caps and reach their waypoints\<close>

lemma stretch_ticks_ge: "n \<le> stretch_ticks cap dt len n"
  by (simp add: stretch_ticks_def split: option.splits)

lemma stretch_ticks_cap:
  assumes "0 < v" "0 < dt" "m \<ge> stretch_ticks (Some v) dt len n" "0 < m"
  shows "BLEND_PEAK / of_int m * len \<le> v * dt"
proof -
  have "\<lceil>BLEND_PEAK * len / (v * dt)\<rceil> \<le> m" using assms by (simp add: stretch_ticks_def)
  then have "BLEND_PEAK * len / (v * dt) \<le> of_int m" by (simp add: ceiling_le_iff)
  then show ?thesis using assms by (simp add: field_simps)
qed

lemma segment_ticks_facts:
  assumes "segment_ticks ci pp tp pq tq wp = Inr n" "0 < ci_hz ci" "ci_dt ci = 1 / ci_hz ci"
  shows "1 \<le> n"
    and "\<And>d. resolve_duration wp (ci_hz ci) = Inr d \<Longrightarrow> py_round (d * ci_hz ci) \<le> n"
    and "\<And>v. ci_max_linear_speed ci = Some v \<Longrightarrow> 0 < v \<Longrightarrow>
           BLEND_PEAK / of_int n * norm (tp - pp) \<le> v * ci_dt ci"
    and "\<And>w. ci_max_angular_speed ci = Some w \<Longrightarrow> 0 < w \<Longrightarrow>
           BLEND_PEAK / of_int n * quat_angle pq tq \<le> w * ci_dt ci"
proof -
  obtain d where d: "resolve_duration wp (ci_hz ci) = Inr d"
    using assms(1) by (auto simp: segment_ticks_def bindR_eq_Inr)
  define n0 where "n0 = max 1 (py_round (d * ci_hz ci))"
  define n1 where "n1 = stretch_ticks (ci_max_linear_speed ci) (ci_dt ci) (norm (tp - pp)) n0"
  define n2 where "n2 = stretch_ticks (ci_max_angular_speed ci) (ci_dt ci) (quat_angle pq tq) n1"
  have n: "n = max 1 n2"
    using assms(1) d by (simp add: segment_ticks_def Let_def n0_def n1_def n2_def)
  have ge: "n0 \<le> n1" "n1 \<le> n2" "n2 \<le> n" "1 \<le> n"
    using stretch_ticks_ge by (auto simp: n1_def n2_def n)
  have dt: "0 < ci_dt ci" using assms by simp
  show "1 \<le> n" by (rule ge)
  show "py_round (d' * ci_hz ci) \<le> n" if "resolve_duration wp (ci_hz ci) = Inr d'" for d'
    using that d ge by (simp add: n0_def)
  show "BLEND_PEAK / of_int n * norm (tp - pp) \<le> v * ci_dt ci"
    if "ci_max_linear_speed ci = Some v" "0 < v" for v
    using that ge dt by (intro stretch_ticks_cap [where n = n0]) (auto simp: n1_def)
  show "BLEND_PEAK / of_int n * quat_angle pq tq \<le> w * ci_dt ci"
    if "ci_max_angular_speed ci = Some w" "0 < w" for w
    using that ge dt by (intro stretch_ticks_cap [where n = n1]) (auto simp: n2_def)
qed

lemma blend_pose_step:
  assumes "1 \<le> k" "k \<le> n"
  shows "norm (pos (blend_pose pp tp pq tq n k) - pos (blend_pose pp tp pq tq n (k - 1)))
           \<le> BLEND_PEAK / real n * norm (tp - pp)"
    and "quat_angle (rot (blend_pose pp tp pq tq n (k - 1))) (rot (blend_pose pp tp pq tq n k))
           \<le> BLEND_PEAK / real n * quat_angle pq tq / SLERP_SLACK"
proof -
  define s s' where "s = cosine_blend (real (k - 1) / real n)" and "s' = cosine_blend (real k / real n)"
  note step = blend_step [OF assms, folded s_def s'_def]
  have "pos (blend_pose pp tp pq tq n k) - pos (blend_pose pp tp pq tq n (k - 1))
      = (s' - s) *\<^sub>R (tp - pp)"
    by (simp add: blend_pose_def Let_def s_def s'_def scaleR_left_diff_distrib)
  then have "norm (pos (blend_pose pp tp pq tq n k) - pos (blend_pose pp tp pq tq n (k - 1)))
      = (s' - s) * norm (tp - pp)"
    using step by simp
  also have "\<dots> \<le> BLEND_PEAK / real n * norm (tp - pp)"
    using step by (intro mult_right_mono) auto
  finally show "norm (pos (blend_pose pp tp pq tq n k) - pos (blend_pose pp tp pq tq n (k - 1)))
      \<le> BLEND_PEAK / real n * norm (tp - pp)" .
  have "quat_angle (quat_slerp pq tq s) (quat_slerp pq tq s')
      \<le> (s' - s) * quat_angle pq tq / SLERP_SLACK"
    using step blend_range by (intro quat_slerp_step) (auto simp: s_def s'_def)
  also have "\<dots> \<le> BLEND_PEAK / real n * quat_angle pq tq / SLERP_SLACK"
    using step quat_angle_range [of pq tq] by (intro divide_right_mono mult_right_mono) auto
  finally show "quat_angle (rot (blend_pose pp tp pq tq n (k - 1))) (rot (blend_pose pp tp pq tq n k))
      \<le> BLEND_PEAK / real n * quat_angle pq tq / SLERP_SLACK"
    by (simp add: blend_pose_def Let_def s_def s'_def)
qed

lemma blend_pose_ends:
  "pos (blend_pose pp tp pq tq n 0) = pp"
  "rot (blend_pose pp tp pq tq n 0) = quat_normalize pq"
  "0 < n \<Longrightarrow> pos (blend_pose pp tp pq tq n n) = tp"
  by (simp_all add: blend_pose_def Let_def quat_slerp_0)

lemma blend_pose_hold: "rot (blend_pose pp tp q q n k) = quat_normalize q"
  by (simp add: blend_pose_def Let_def quat_slerp_self)

lemma segment_setpoints_nth:
  "i < n \<Longrightarrow> segment_setpoints seg pp tp pq tq wp n ! i =
     \<lparr>sp_pose = blend_pose pp tp pq tq n (Suc i), sp_grip = (if i = 0 then wp_gripper wp else None),
      sp_segment = seg, sp_segment_ticks = int n\<rparr>"
  by (simp add: segment_setpoints_def nth_append del: upt_Suc)

lemma length_segment_setpoints [simp]: "length (segment_setpoints seg pp tp pq tq wp n) = n"
  by (simp add: segment_setpoints_def)

end
