(* ===== verification/Safety_Filter.thy ===== *)
theory Safety_Filter
  imports Interpolation
begin

text \<open>
  \<^verbatim>\<open>safety.py\<close>: the safety profile (its nested dictionary layout and the client-side preflight)
  and the per-setpoint filter. The filter is the state \<open>safety_filter\<close> and one definition per
  numbered step of \<open>filter_cartesian\<close>, composed in the source's order.
\<close>

section \<open>Profiles\<close>

text \<open>
  A workspace axis is the pair its annotation declares; numbers of a configuration are read as
  floats where the source stores them unread.
\<close>

record safety_profile =
  p_name :: string
  p_ws_x :: "real \<times> real"
  p_ws_y :: "real \<times> real"
  p_ws_z :: "real \<times> real"
  p_workspace_action :: string
  p_max_linear_speed :: real
  p_max_angular_speed :: real
  p_max_pose_jump_linear :: real
  p_max_pose_jump_angular :: real
  p_max_linear_accel :: "real option"
  p_joint_margin_rad :: real
  p_max_joint_speed_scale :: real
  p_joint_lower :: "real list"
  p_joint_upper :: "real list"
  p_max_contact_wrench :: "real list"
  p_max_wrench_allowance :: "real list"
  p_command_timeout_ms :: real
  p_state_timeout_ms :: real
  p_stop_on_stale_command :: bool
  p_stop_on_state_stale :: bool
  p_hold_timeout_ms :: "real option"

definition default_profile :: safety_profile where
  "default_profile = \<lparr>p_name = ''tabletop_safe'',
     p_ws_x = (25/100, 75/100), p_ws_y = (- 45/100, 45/100), p_ws_z = (6/100, 70/100),
     p_workspace_action = ''clip'',
     p_max_linear_speed = 25/100, p_max_angular_speed = 60/100,
     p_max_pose_jump_linear = 3/100, p_max_pose_jump_angular = 15/100,
     p_max_linear_accel = None,
     p_joint_margin_rad = 8/100, p_max_joint_speed_scale = 30/100,
     p_joint_lower = [- 279/100, - 227/100, - 297/100, - 187/100, - 297/100, - 174/100, - 297/100],
     p_joint_upper = [279/100, 227/100, 297/100, 187/100, 297/100, 445/100, 297/100],
     p_max_contact_wrench = [40, 40, 40, 5, 5, 5], p_max_wrench_allowance = [0, 0, 0, 0, 0, 0],
     p_command_timeout_ms = 100, p_state_timeout_ms = 20, p_stop_on_stale_command = True,
     p_stop_on_state_stale = False, p_hold_timeout_ms = None\<rparr>"

fun jpair :: "json \<Rightarrow> (real \<times> real) result" where
  "jpair (JList [a, b]) = bindR (jfloat a) (\<lambda>x. bindR (jfloat b) (\<lambda>y. Inr (x, y)))"
| "jpair _ = Inl TypeError"

definition of_pair :: "real \<times> real \<Rightarrow> json" where
  "of_pair ab = JList [JNum (fst ab), JNum (snd ab)]"

text \<open>\<open>if k in d: v = read(d[k])\<close>, and \<open>d.get(k, v)\<close> read as a float.\<close>

definition read_if :: "json \<Rightarrow> string \<Rightarrow> (json \<Rightarrow> 'a result) \<Rightarrow> 'a \<Rightarrow> 'a result" where
  "read_if d k rd v = bindR (jhas d k) (\<lambda>b. if b then bindR (jget d k) rd else Inr v)"

definition get_float :: "json \<Rightarrow> string \<Rightarrow> real \<Rightarrow> real result" where
  "get_float d k v = bindR (jget_dflt d k (JNum v)) jfloat"

definition get_float_opt :: "json \<Rightarrow> string \<Rightarrow> real option \<Rightarrow> real option result" where
  "get_float_opt d k v = bindR (jget_dflt d k (of_opt JNum v)) (to_opt jfloat)"

definition get_flag :: "json \<Rightarrow> string \<Rightarrow> bool \<Rightarrow> bool result" where
  "get_flag d k v = bindR (jget_dflt d k (JBool v)) (\<lambda>j. Inr (jtruthy j))"

text \<open>\<open>str(x).lower()\<close> checked against the two actions; no other JSON value prints as one.\<close>

definition read_action :: "json \<Rightarrow> string result" where
  "read_action j =
     (case j of
        JStr s \<Rightarrow> (if str_lower s = ''clip'' \<or> str_lower s = ''reject'' then Inr (str_lower s)
                   else Inl ValueError)
      | _ \<Rightarrow> Inl ValueError)"

definition profile_from_dict :: "json \<Rightarrow> safety_profile result" where
  "profile_from_dict d =
     (let p = default_profile in
      bindR (bindR (jget_dflt d ''name'' (JStr ''unnamed'')) jstr) (\<lambda>name.
      bindR (jget_dflt d ''workspace'' (JObj [])) (\<lambda>ws.
      bindR (read_if ws ''x'' jpair (p_ws_x p)) (\<lambda>x.
      bindR (read_if ws ''y'' jpair (p_ws_y p)) (\<lambda>y.
      bindR (read_if ws ''z'' jpair (p_ws_z p)) (\<lambda>z.
      bindR (read_if ws ''action'' read_action (p_workspace_action p)) (\<lambda>action.
      bindR (jget_dflt d ''tcp_limits'' (JObj [])) (\<lambda>tl'.
      bindR (get_float tl' ''max_linear_speed'' (p_max_linear_speed p)) (\<lambda>mls.
      bindR (get_float tl' ''max_angular_speed'' (p_max_angular_speed p)) (\<lambda>mas.
      bindR (get_float tl' ''max_pose_jump_linear'' (p_max_pose_jump_linear p)) (\<lambda>jlin.
      bindR (get_float tl' ''max_pose_jump_angular'' (p_max_pose_jump_angular p)) (\<lambda>jang.
      bindR (get_float_opt tl' ''max_linear_accel'' (p_max_linear_accel p)) (\<lambda>acc.
      bindR (jget_dflt d ''joint_limits'' (JObj [])) (\<lambda>jl.
      bindR (get_float jl ''margin_rad'' (p_joint_margin_rad p)) (\<lambda>margin.
      bindR (get_float jl ''max_joint_speed_scale'' (p_max_joint_speed_scale p)) (\<lambda>mjs.
      bindR (read_if jl ''lower'' jfloats (p_joint_lower p)) (\<lambda>lower.
      bindR (read_if jl ''upper'' jfloats (p_joint_upper p)) (\<lambda>upper.
      bindR (jget_dflt d ''contact'' (JObj [])) (\<lambda>ct.
      bindR (read_if ct ''max_wrench'' jfloats (p_max_contact_wrench p)) (\<lambda>mw.
      bindR (read_if ct ''max_allowance'' jfloats (p_max_wrench_allowance p)) (\<lambda>ma.
      bindR (jget_dflt d ''watchdog'' (JObj [])) (\<lambda>wd.
      bindR (get_float wd ''command_timeout_ms'' (p_command_timeout_ms p)) (\<lambda>cto.
      bindR (get_float wd ''state_timeout_ms'' (p_state_timeout_ms p)) (\<lambda>sto.
      bindR (get_flag wd ''stop_on_stale_command'' (p_stop_on_stale_command p)) (\<lambda>ssc.
      bindR (get_flag wd ''stop_on_state_stale'' (p_stop_on_state_stale p)) (\<lambda>sss.
      bindR (get_float_opt wd ''hold_timeout_ms'' (p_hold_timeout_ms p)) (\<lambda>hto.
      Inr \<lparr>p_name = name, p_ws_x = x, p_ws_y = y, p_ws_z = z, p_workspace_action = action,
           p_max_linear_speed = mls, p_max_angular_speed = mas, p_max_pose_jump_linear = jlin,
           p_max_pose_jump_angular = jang, p_max_linear_accel = acc, p_joint_margin_rad = margin,
           p_max_joint_speed_scale = mjs, p_joint_lower = lower, p_joint_upper = upper,
           p_max_contact_wrench = mw, p_max_wrench_allowance = ma, p_command_timeout_ms = cto,
           p_state_timeout_ms = sto, p_stop_on_stale_command = ssc,
           p_stop_on_state_stale = sss, p_hold_timeout_ms = hto\<rparr>)))))))))))))))))))))))))))"

definition to_config_dict :: "safety_profile \<Rightarrow> json" where
  "to_config_dict p = JObj
     [(''name'', JStr (p_name p)),
      (''workspace'', JObj
         [(''x'', of_pair (p_ws_x p)), (''y'', of_pair (p_ws_y p)), (''z'', of_pair (p_ws_z p)),
          (''action'', JStr (p_workspace_action p))]),
      (''tcp_limits'', JObj
         [(''max_linear_speed'', JNum (p_max_linear_speed p)),
          (''max_angular_speed'', JNum (p_max_angular_speed p)),
          (''max_pose_jump_linear'', JNum (p_max_pose_jump_linear p)),
          (''max_pose_jump_angular'', JNum (p_max_pose_jump_angular p)),
          (''max_linear_accel'', of_opt JNum (p_max_linear_accel p))]),
      (''joint_limits'', JObj
         [(''margin_rad'', JNum (p_joint_margin_rad p)),
          (''max_joint_speed_scale'', JNum (p_max_joint_speed_scale p)),
          (''lower'', of_floats (p_joint_lower p)), (''upper'', of_floats (p_joint_upper p))]),
      (''contact'', JObj
         [(''max_wrench'', of_floats (p_max_contact_wrench p)),
          (''max_allowance'', of_floats (p_max_wrench_allowance p))]),
      (''watchdog'', JObj
         [(''command_timeout_ms'', JNum (p_command_timeout_ms p)),
          (''state_timeout_ms'', JNum (p_state_timeout_ms p)),
          (''stop_on_stale_command'', JBool (p_stop_on_stale_command p)),
          (''stop_on_state_stale'', JBool (p_stop_on_state_stale p)),
          (''hold_timeout_ms'', of_opt JNum (p_hold_timeout_ms p))])]"

section \<open>The client-side preflight\<close>

text \<open>
  One constructor per kind of report, carrying the numbers the source formats into its text
  (the time-stretched duration last).
\<close>

datatype problem =
    OutsideWorkspace nat vec3
  | LinearSpeed nat real real real
  | AngularSpeed nat real real real

definition ws_lo :: "safety_profile \<Rightarrow> vec3" where
  "ws_lo p = Vec3 (fst (p_ws_x p)) (fst (p_ws_y p)) (fst (p_ws_z p))"

definition ws_hi :: "safety_profile \<Rightarrow> vec3" where
  "ws_hi p = Vec3 (snd (p_ws_x p)) (snd (p_ws_y p)) (snd (p_ws_z p))"

definition out_of_box :: "safety_profile \<Rightarrow> vec3 \<Rightarrow> bool" where
  "out_of_box p v =
     ((vx v < vx (ws_lo p) \<or> vy v < vy (ws_lo p) \<or> vz v < vz (ws_lo p))
      \<or> (vx (ws_hi p) < vx v \<or> vy (ws_hi p) < vy v \<or> vz (ws_hi p) < vz v))"

text \<open>The chunk's cap tightens the profile's when it is positive.\<close>

definition tighten :: "real \<Rightarrow> real \<Rightarrow> real" where
  "tighten cap chunk_cap = (if 0 < chunk_cap then min cap chunk_cap else cap)"

text \<open>
  A speed report of a segment: formatting the stretched duration divides by the cap, which
  raises on a zero cap.
\<close>

definition speed_report ::
  "(real \<Rightarrow> real \<Rightarrow> real \<Rightarrow> problem) \<Rightarrow> real \<Rightarrow> real \<Rightarrow> real \<Rightarrow> problem list result" where
  "speed_report mk amount dur cap =
     (if BLEND_PEAK * amount / dur > cap then
        (if cap = 0 then Inl ZeroDivisionError
         else Inr [mk (BLEND_PEAK * amount / dur) cap (BLEND_PEAK * amount / cap)])
      else Inr [])"

definition segment_reports ::
  "real \<Rightarrow> real \<Rightarrow> nat \<Rightarrow> vec3 option \<Rightarrow> quat option \<Rightarrow> waypoint \<Rightarrow> problem list result" where
  "segment_reports lin_cap ang_cap i prev prev_quat w =
     (case (prev, wp_duration w) of
        (Some pp, Some dur) \<Rightarrow>
          (if 0 < dur then
             bindR (speed_report (LinearSpeed i) (norm (wp_position w - pp)) dur lin_cap) (\<lambda>l.
             bindR (case (prev_quat, wp_quaternion w) of
                      (Some pq, Some q) \<Rightarrow> speed_report (AngularSpeed i) (quat_angle pq q) dur ang_cap
                    | _ \<Rightarrow> Inr [])
               (\<lambda>a. Inr (l @ a)))
           else Inr [])
      | _ \<Rightarrow> Inr [])"

fun validate_from ::
  "safety_profile \<Rightarrow> real \<Rightarrow> real \<Rightarrow> nat \<Rightarrow> vec3 option \<Rightarrow> quat option \<Rightarrow> waypoint list
   \<Rightarrow> problem list result" where
  "validate_from p lin_cap ang_cap i prev prev_quat [] = Inr []"
| "validate_from p lin_cap ang_cap i prev prev_quat (w # ws) =
     bindR (segment_reports lin_cap ang_cap i prev prev_quat w) (\<lambda>seg.
     bindR (validate_from p lin_cap ang_cap (Suc i) (Some (wp_position w))
              (case wp_quaternion w of None \<Rightarrow> prev_quat | Some q \<Rightarrow> Some q) ws) (\<lambda>rest.
     Inr ((if out_of_box p (wp_position w) then [OutsideWorkspace i (wp_position w)] else [])
          @ seg @ rest)))"

definition validate_chunk :: "safety_profile \<Rightarrow> chunk \<Rightarrow> problem list result" where
  "validate_chunk p c =
     validate_from p (tighten (p_max_linear_speed p) (ck_max_tcp_linear_speed c))
       (tighten (p_max_angular_speed p) (ck_max_tcp_angular_speed c)) 0 None None (ck_waypoints c)"

section \<open>The filter\<close>

record safety_result =
  sr_ok :: bool
  sr_pose :: "pose option"
  sr_q :: "real list option"
  sr_clipped :: bool
  sr_reason :: stop_reason
  sr_clip_reasons :: "stop_reason list"

definition sr_reject :: "stop_reason \<Rightarrow> safety_result" where
  "sr_reject r = \<lparr>sr_ok = False, sr_pose = None, sr_q = None, sr_clipped = False,
     sr_reason = r, sr_clip_reasons = []\<rparr>"

definition sr_accept :: safety_result where
  "sr_accept = \<lparr>sr_ok = True, sr_pose = None, sr_q = None, sr_clipped = False,
     sr_reason = NONE, sr_clip_reasons = []\<rparr>"

definition primary_clip_reason :: "safety_result \<Rightarrow> stop_reason" where
  "primary_clip_reason r = (case sr_clip_reasons r of [] \<Rightarrow> NONE | x # _ \<Rightarrow> x)"

record safety_filter =
  f_p :: safety_profile
  f_dt :: real
  f_prev_pose :: "pose option"
  f_prev_q :: "real list option"
  f_prev_lin_vel :: "vec3 option"

definition mk_filter :: "safety_profile \<Rightarrow> real \<Rightarrow> safety_filter" where
  "mk_filter p dt = \<lparr>f_p = p, f_dt = dt, f_prev_pose = None, f_prev_q = None, f_prev_lin_vel = None\<rparr>"

definition reset :: "robot_state option \<Rightarrow> pose option \<Rightarrow> real list option \<Rightarrow> safety_filter \<Rightarrow> safety_filter" where
  "reset st p q f =
     (let f = (case st of
                 Some s \<Rightarrow> f\<lparr>f_prev_pose := Some (st_tcp_pose s), f_prev_q := Some (st_q s)\<rparr>
               | None \<Rightarrow> f);
          f = (case p of Some p' \<Rightarrow> f\<lparr>f_prev_pose := Some p'\<rparr> | None \<Rightarrow> f);
          f = (case q of Some q' \<Rightarrow> f\<lparr>f_prev_q := Some q'\<rparr> | None \<Rightarrow> f)
      in f\<lparr>f_prev_lin_vel := Some 0\<rparr>)"

definition set_profile :: "safety_profile \<Rightarrow> safety_filter \<Rightarrow> safety_filter" where
  "set_profile p f = f\<lparr>f_p := p\<rparr>"

text \<open>
  The local variables of \<open>filter_cartesian\<close>: the target being adjusted, the \<open>clipped\<close> flag and
  the reasons so far.
\<close>

record adjust =
  a_pose :: pose
  a_clipped :: bool
  a_reasons :: "stop_reason list"

definition adjusted :: "stop_reason \<Rightarrow> pose \<Rightarrow> adjust \<Rightarrow> adjust" where
  "adjusted r p a = a\<lparr>a_pose := p, a_clipped := True, a_reasons := a_reasons a @ [r]\<rparr>"

text \<open>Step 2, the workspace box: \<open>None\<close> is the rejection.\<close>

definition clip_box :: "safety_profile \<Rightarrow> vec3 \<Rightarrow> vec3" where
  "clip_box p v = Vec3 (np_clip (vx v) (vx (ws_lo p)) (vx (ws_hi p)))
                       (np_clip (vy v) (vy (ws_lo p)) (vy (ws_hi p)))
                       (np_clip (vz v) (vz (ws_lo p)) (vz (ws_hi p)))"

definition vec_allclose :: "vec3 \<Rightarrow> vec3 \<Rightarrow> bool" where
  "vec_allclose u v = (np_isclose (vx u) (vx v) \<and> np_isclose (vy u) (vy v) \<and> np_isclose (vz u) (vz v))"

definition limit_workspace :: "safety_profile \<Rightarrow> adjust \<Rightarrow> adjust option" where
  "limit_workspace p a =
     (let v = pos (a_pose a); c = clip_box p v
      in if \<not> vec_allclose c v
         then if p_workspace_action p = ''reject'' then None
              else Some (adjusted WORKSPACE ((a_pose a)\<lparr>pos := c\<rparr>) a)
         else Some a)"

text \<open>Step 3, the per-tick jump caps.\<close>

definition limit_jump_linear :: "safety_profile \<Rightarrow> pose \<Rightarrow> adjust \<Rightarrow> adjust" where
  "limit_jump_linear p ref a =
     (let v = pos (a_pose a);
          lin_step = norm (v - pos ref);
          scale = p_max_pose_jump_linear p / max lin_step EPS
      in if p_max_pose_jump_linear p < lin_step
         then adjusted POSE_JUMP ((a_pose a)\<lparr>pos := pos ref + scale *\<^sub>R (v - pos ref)\<rparr>) a
         else a)"

definition limit_jump_angular :: "safety_profile \<Rightarrow> pose \<Rightarrow> adjust \<Rightarrow> adjust" where
  "limit_jump_angular p ref a =
     (let q = rot (a_pose a);
          ang_step = quat_angle (rot ref) q;
          t = p_max_pose_jump_angular p / max ang_step EPS
      in if p_max_pose_jump_angular p < ang_step
         then adjusted POSE_JUMP ((a_pose a)\<lparr>rot := quat_slerp (rot ref) q t\<rparr>) a
         else a)"

text \<open>Steps 4 and 4b, the per-tick speed caps.\<close>

definition limit_speed_linear :: "safety_profile \<Rightarrow> real \<Rightarrow> pose \<Rightarrow> adjust \<Rightarrow> adjust" where
  "limit_speed_linear p dt ref a =
     (let v = pos (a_pose a);
          lin_step = norm (v - pos ref);
          scale = p_max_linear_speed p * dt / max lin_step EPS
      in if p_max_linear_speed p < lin_step / max dt EPS
         then adjusted TCP_SPEED ((a_pose a)\<lparr>pos := pos ref + scale *\<^sub>R (v - pos ref)\<rparr>) a
         else a)"

definition limit_speed_angular :: "safety_profile \<Rightarrow> real \<Rightarrow> pose \<Rightarrow> adjust \<Rightarrow> adjust" where
  "limit_speed_angular p dt ref a =
     (let q = rot (a_pose a);
          ang_step = quat_angle (rot ref) q;
          t = p_max_angular_speed p * dt / max ang_step EPS
      in if p_max_angular_speed p < ang_step / max dt EPS
         then adjusted TCP_SPEED ((a_pose a)\<lparr>rot := quat_slerp (rot ref) q t\<rparr>) a
         else a)"

text \<open>Step 4c, the acceleration cap, with the commanded velocity it leaves for the next tick.\<close>

definition limit_accel ::
  "safety_profile \<Rightarrow> real \<Rightarrow> vec3 option \<Rightarrow> pose \<Rightarrow> adjust \<Rightarrow> adjust \<times> vec3" where
  "limit_accel p dt prev_vel ref a =
     (let v_new = (1 / max dt EPS) *\<^sub>R (pos (a_pose a) - pos ref)
      in case p_max_linear_accel p of
           None \<Rightarrow> (a, v_new)
         | Some acc \<Rightarrow>
             (let v_prev = (case prev_vel of None \<Rightarrow> 0 | Some v \<Rightarrow> v);
                  dv = v_new - v_prev;
                  dv_norm = norm dv;
                  max_dv = acc * dt
              in if max_dv < dv_norm
                 then let v' = v_prev + (max_dv / max dv_norm EPS) *\<^sub>R dv
                      in (adjusted TCP_SPEED ((a_pose a)\<lparr>pos := pos ref + dt *\<^sub>R v'\<rparr>) a, v')
                 else (a, v_new)))"

definition limit_motion ::
  "safety_profile \<Rightarrow> real \<Rightarrow> pose \<Rightarrow> adjust \<Rightarrow> adjust" where
  "limit_motion p dt ref a =
     limit_speed_angular p dt ref (limit_speed_linear p dt ref
       (limit_jump_angular p ref (limit_jump_linear p ref a)))"

text \<open>Steps 3 to 4c from the reference setpoint, and the new previous command.\<close>

definition anchor :: "safety_filter \<Rightarrow> robot_state \<Rightarrow> pose" where
  "anchor f st = (case f_prev_pose f of Some pp \<Rightarrow> pp | None \<Rightarrow> st_tcp_pose st)"

definition commit_motion :: "robot_state \<Rightarrow> adjust \<Rightarrow> safety_filter \<Rightarrow> safety_result \<times> safety_filter" where
  "commit_motion st a f =
     (let ref = anchor f st
      in case limit_accel (f_p f) (f_dt f) (f_prev_lin_vel f) ref (limit_motion (f_p f) (f_dt f) ref a) of
           (b, v) \<Rightarrow>
             (\<lparr>sr_ok = True, sr_pose = Some (a_pose b), sr_q = None, sr_clipped = a_clipped b,
               sr_reason = NONE, sr_clip_reasons = a_reasons b\<rparr>,
              f\<lparr>f_prev_lin_vel := Some v, f_prev_pose := Some (a_pose b)\<rparr>))"

definition fresh_adjust :: "pose \<Rightarrow> adjust" where
  "fresh_adjust target = \<lparr>a_pose = target, a_clipped = False, a_reasons = []\<rparr>"

definition filter_cartesian ::
  "pose \<Rightarrow> robot_state \<Rightarrow> real list option \<Rightarrow> (safety_filter, safety_result) sem" where
  "filter_cartesian target st max_contact_wrench f =
     (case np_any_abs_gt (st_wrench st)
             (case max_contact_wrench of None \<Rightarrow> p_max_contact_wrench (f_p f) | Some w \<Rightarrow> w) of
        Inl e \<Rightarrow> (Inl e, f)
      | Inr over \<Rightarrow>
          if over then (Inr (sr_reject CONTACT_WRENCH), f)
          else case limit_workspace (f_p f) (fresh_adjust target) of
                 None \<Rightarrow> (Inr (sr_reject WORKSPACE), f)
               | Some a \<Rightarrow> (case commit_motion st a f of (r, f') \<Rightarrow> (Inr r, f')))"

text \<open>\<open>np.clip\<close> and \<open>np.allclose\<close> on arrays.\<close>

definition np_clip_arr :: "real list \<Rightarrow> real list \<Rightarrow> real list \<Rightarrow> real list result" where
  "np_clip_arr xs lo hi = bindR (np_map2 max xs lo) (\<lambda>ys. np_map2 min ys hi)"

definition np_allclose :: "real list \<Rightarrow> real list \<Rightarrow> bool result" where
  "np_allclose xs ys = bindR (np_map2 np_isclose xs ys) (\<lambda>bs. Inr (list_all id bs))"

definition joint_clip :: "safety_profile \<Rightarrow> real list \<Rightarrow> (real list \<times> stop_reason list) result" where
  "joint_clip p target_q =
     bindR (np_clip_arr target_q (map (\<lambda>x. x + p_joint_margin_rad p) (p_joint_lower p))
                                 (map (\<lambda>x. x - p_joint_margin_rad p) (p_joint_upper p))) (\<lambda>clipped_q.
     bindR (np_allclose clipped_q target_q) (\<lambda>close.
     Inr (if close then (target_q, []) else (clipped_q, [JOINT_LIMIT]))))"

definition max_joint_step :: "safety_filter \<Rightarrow> real" where
  "max_joint_step f = 2 * p_max_joint_speed_scale (f_p f) * f_dt f"

definition joint_cap ::
  "real \<Rightarrow> real list \<Rightarrow> real list \<times> stop_reason list \<Rightarrow> (real list \<times> stop_reason list) result" where
  "joint_cap max_step ref_q tr =
     bindR (np_map2 (-) (fst tr) ref_q) (\<lambda>step.
       if list_ex (\<lambda>s. max_step < \<bar>s\<bar>) step
       then bindR (np_map2 (+) ref_q (map (\<lambda>s. if max_step < \<bar>s\<bar> then sgn s * max_step else s) step))
              (\<lambda>q. Inr (q, snd tr @ [JOINT_LIMIT]))
       else Inr tr)"

definition filter_joint :: "real list \<Rightarrow> robot_state \<Rightarrow> (safety_filter, safety_result) sem" where
  "filter_joint target_q st f =
     (case bindR (joint_clip (f_p f) target_q)
             (joint_cap (max_joint_step f) (case f_prev_q f of Some q \<Rightarrow> q | None \<Rightarrow> st_q st)) of
        Inl e \<Rightarrow> (Inl e, f)
      | Inr (q, reasons) \<Rightarrow>
          (Inr \<lparr>sr_ok = True, sr_pose = None, sr_q = Some q, sr_clipped = (reasons \<noteq> []),
                sr_reason = NONE, sr_clip_reasons = reasons\<rparr>,
           f\<lparr>f_prev_q := Some q\<rparr>))"

definition check_command_age :: "safety_filter \<Rightarrow> real \<Rightarrow> safety_result" where
  "check_command_age f age_ms =
     (if p_stop_on_stale_command (f_p f) \<and> p_command_timeout_ms (f_p f) < age_ms
      then sr_reject STALE_COMMAND else sr_accept)"

definition check_state_age :: "safety_filter \<Rightarrow> real \<Rightarrow> safety_result" where
  "check_state_age f age_ms =
     (if p_stop_on_state_stale (f_p f) \<and> p_state_timeout_ms (f_p f) < age_ms
      then sr_reject STALE_STATE else sr_accept)"

end
