(* ===== verification/Backend.thy ===== *)
theory Backend
  imports Safety_Filter
begin

text \<open>
  \<^verbatim>\<open>backends/base.py\<close>: the backend interface as a record of operations on the backend's own
  state, and what the layers above rely on as the locale \<open>robot_backend\<close>; \<^verbatim>\<open>backends/fake.py\<close>:
  the kinematic simulator, the model's own provider of the interface. \<open>traced\<close> wraps any backend
  so that its state also carries the commands it was given, in order: the properties of the
  layers above are about that trace.
\<close>

section \<open>The interface\<close>

record mode_opts =
  mo_impedance :: "impedance_params option"
  mo_joint_impedance :: "joint_impedance_params option"
  mo_force_control :: "force_control_params option"
  mo_nullspace_q :: "real list option"
  mo_max_contact_wrench :: "real list option"

definition no_opts :: mode_opts where
  "no_opts = \<lparr>mo_impedance = None, mo_joint_impedance = None, mo_force_control = None,
     mo_nullspace_q = None, mo_max_contact_wrench = None\<rparr>"

record 'b backend =
  bk_connect :: "('b, unit) sem"
  bk_disconnect :: "('b, unit) sem"
  bk_is_connected :: "'b \<Rightarrow> bool"
  bk_read_state :: "('b, robot_state) sem"
  bk_set_mode :: "control_mode \<Rightarrow> mode_opts \<Rightarrow> ('b, unit) sem"
  bk_stream_cartesian :: "pose \<Rightarrow> real list option \<Rightarrow> ('b, unit) sem"
  bk_stream_joint :: "real list \<Rightarrow> ('b, unit) sem"
  bk_move_gripper :: "gripper_command \<Rightarrow> ('b, unit) sem"
  bk_stop :: "('b, unit) sem"
  bk_zero_ft_sensor :: "('b, unit) sem"
  bk_set_contact_wrench_limit :: "real list \<Rightarrow> ('b, unit) sem"
  bk_in_fault :: "('b, bool) sem"
  bk_home :: "real list option \<Rightarrow> ('b, unit) sem"

text \<open>The methods with a default in the base class.\<close>

definition base_zero_ft_sensor :: "('b, unit) sem" where
  "base_zero_ft_sensor = retS ()"

definition base_set_contact_wrench_limit :: "real list \<Rightarrow> ('b, unit) sem" where
  "base_set_contact_wrench_limit wrench = retS ()"

definition base_in_fault :: "('b, bool) sem" where
  "base_in_fault = retS False"

definition base_home :: "real list option \<Rightarrow> ('b, unit) sem" where
  "base_home q_home = raiseS NotImplementedError"

section \<open>The kinematic simulator\<close>

record fake =
  fk_n_joints :: nat
  fk_connected :: bool
  fk_mode :: control_mode
  fk_alpha :: real
  fk_pose :: pose
  fk_q :: "real list"
  fk_gripper_width :: real
  fk_gripper_force :: real
  fk_gripper_moving :: bool
  fk_impedance :: impedance_params
  fk_max_wrench :: "real list"
  fk_fault :: bool
  fk_cartesian_log :: "pose list"
  fk_joint_log :: "real list list"
  fk_gripper_log :: "gripper_command list"
  fk_mode_log :: "control_mode list"
  fk_clock :: real

text \<open>\<open>fk_clock\<close> is what \<open>time.time()\<close> returns; it is not part of the object.\<close>

definition fake_q_home :: "real list" where
  "fake_q_home = [0, - 7/10, 0, 16/10, 0, 9/10, 0]"

definition mk_fake :: "nat \<Rightarrow> pose option \<Rightarrow> real list option \<Rightarrow> real \<Rightarrow> fake" where
  "mk_fake n start_pose start_q alpha = \<lparr>fk_n_joints = n, fk_connected = False, fk_mode = IDLE,
     fk_alpha = alpha,
     fk_pose = (case start_pose of Some p \<Rightarrow> p
                | None \<Rightarrow> \<lparr>pos = Vec3 (45/100) 0 (30/100), rot = Quat 1 0 0 0\<rparr>),
     fk_q = (case start_q of Some q \<Rightarrow> q | None \<Rightarrow> fake_q_home),
     fk_gripper_width = 8/100, fk_gripper_force = 0, fk_gripper_moving = False,
     fk_impedance = default_impedance, fk_max_wrench = [40, 40, 40, 5, 5, 5], fk_fault = False,
     fk_cartesian_log = [], fk_joint_log = [], fk_gripper_log = [], fk_mode_log = [],
     fk_clock = 0\<rparr>"

definition fake_read_state :: "(fake, robot_state) sem" where
  "fake_read_state = getS (\<lambda>b.
     \<lparr>st_stamp = fk_clock b, st_q = fk_q b, st_dq = replicate (fk_n_joints b) 0,
      st_tau = replicate (fk_n_joints b) 0, st_tcp_pose = fk_pose b, st_tcp_vel = replicate 6 0,
      st_wrench = replicate 6 0, st_gripper_width = fk_gripper_width b,
      st_gripper_force = fk_gripper_force b, st_gripper_is_moving = fk_gripper_moving b,
      st_control_mode = fk_mode b, st_safety_status = (if fk_fault b then FAULT else OK),
      st_stop_reason = (if fk_fault b then BACKEND_FAULT else NONE), st_active_owner = '''',
      st_command_latency_ms = 0, st_loop_period_ms = 0, st_loop_jitter_us = 0,
      st_missed_cycles = 0\<rparr>)"

definition fake_set_mode :: "control_mode \<Rightarrow> mode_opts \<Rightarrow> (fake, unit) sem" where
  "fake_set_mode m opts = modS (\<lambda>b.
     (let b = b\<lparr>fk_mode := m, fk_mode_log := fk_mode_log b @ [m]\<rparr>;
          b = (case mo_impedance opts of Some i \<Rightarrow> b\<lparr>fk_impedance := i\<rparr> | None \<Rightarrow> b)
      in case mo_max_contact_wrench opts of Some w \<Rightarrow> b\<lparr>fk_max_wrench := w\<rparr> | None \<Rightarrow> b))"

definition fake_stream_cartesian :: "pose \<Rightarrow> real list option \<Rightarrow> (fake, unit) sem" where
  "fake_stream_cartesian p wrench =
     bindS (getS fk_mode) (\<lambda>m.
       if \<not> is_cartesian m then raiseS RuntimeError
       else modS (\<lambda>b. (let a = fk_alpha b in
              b\<lparr>fk_cartesian_log := fk_cartesian_log b @ [p],
                fk_pose := \<lparr>pos = (1 - a) *\<^sub>R pos (fk_pose b) + a *\<^sub>R pos p,
                            rot = quat_slerp (rot (fk_pose b)) (quat_normalize (rot p)) a\<rparr>\<rparr>)))"

definition fake_stream_joint :: "real list \<Rightarrow> (fake, unit) sem" where
  "fake_stream_joint q =
     bindS (getS fk_mode) (\<lambda>m.
       if is_cartesian m \<or> m = IDLE then raiseS RuntimeError
       else thenS (modS (\<lambda>b. b\<lparr>fk_joint_log := fk_joint_log b @ [q]\<rparr>))
              (bindS (getS (\<lambda>b. np_map2 (\<lambda>x y. (1 - fk_alpha b) * x + fk_alpha b * y) (fk_q b) q))
                 (\<lambda>r. bindS (liftS r) (\<lambda>q'. modS (\<lambda>b. b\<lparr>fk_q := q'\<rparr>)))))"

definition fake_move_gripper :: "gripper_command \<Rightarrow> (fake, unit) sem" where
  "fake_move_gripper cmd = modS (\<lambda>b.
     b\<lparr>fk_gripper_log := fk_gripper_log b @ [cmd],
       fk_gripper_width := np_clip (g_width cmd) 0 (10/100),
       fk_gripper_force := (if g_grasp cmd then g_force cmd else 0),
       fk_gripper_moving := False\<rparr>)"

definition fake_home :: "real list option \<Rightarrow> (fake, unit) sem" where
  "fake_home q_home = modS (\<lambda>b.
     b\<lparr>fk_q := (case q_home of Some q \<Rightarrow> q | None \<Rightarrow> fake_q_home),
       fk_mode := NRT_PRIMITIVE, fk_mode_log := fk_mode_log b @ [NRT_PRIMITIVE]\<rparr>)"

definition fake_backend :: "fake backend" where
  "fake_backend = \<lparr>bk_connect = modS (\<lambda>b. b\<lparr>fk_connected := True\<rparr>),
     bk_disconnect = modS (\<lambda>b. b\<lparr>fk_connected := False\<rparr>),
     bk_is_connected = fk_connected, bk_read_state = fake_read_state, bk_set_mode = fake_set_mode,
     bk_stream_cartesian = fake_stream_cartesian, bk_stream_joint = fake_stream_joint,
     bk_move_gripper = fake_move_gripper, bk_stop = modS (\<lambda>b. b\<lparr>fk_mode := IDLE\<rparr>),
     bk_zero_ft_sensor = base_zero_ft_sensor,
     bk_set_contact_wrench_limit = (\<lambda>w. modS (\<lambda>b. b\<lparr>fk_max_wrench := w\<rparr>)),
     bk_in_fault = getS fk_fault, bk_home = fake_home\<rparr>"

section \<open>What the layers above rely on\<close>

text \<open>
  A backend in a usable state reads its state without changing mode and reports the mode it is
  in, six wrench components and a unit quaternion; setting a mode with options it accepts enters it; Cartesian
  streaming works in the Cartesian motion modes and is refused outside them; stopping leaves the
  motion modes.
\<close>

locale robot_backend =
  fixes B :: "'b backend" and usable :: "'b \<Rightarrow> bool" and mode :: "'b \<Rightarrow> control_mode"
    and accepts :: "control_mode \<Rightarrow> mode_opts \<Rightarrow> bool"
  assumes read: "usable b \<Longrightarrow> \<exists>s b'. bk_read_state B b = (Inr s, b') \<and> usable b' \<and> mode b' = mode b
          \<and> st_control_mode s = mode b \<and> length (st_wrench s) = 6 \<and> norm (rot (st_tcp_pose s)) = 1"
    and set_mode: "usable b \<Longrightarrow> accepts m opts \<Longrightarrow> \<exists>b'. bk_set_mode B m opts b = (Inr (), b') \<and> usable b' \<and> mode b' = m"
    and stream: "usable b \<Longrightarrow> is_cartesian (mode b) \<Longrightarrow> (\<And>u. w = Some u \<Longrightarrow> length u = 6) \<Longrightarrow>
          \<exists>b'. bk_stream_cartesian B p w b = (Inr (), b') \<and> usable b' \<and> mode b' = mode b"
    and stream_refused: "usable b \<Longrightarrow> \<not> is_cartesian (mode b) \<Longrightarrow>
          \<exists>e b'. bk_stream_cartesian B p w b = (Inl e, b') \<and> usable b' \<and> mode b' = mode b"
    and gripper: "usable b \<Longrightarrow> \<exists>b'. bk_move_gripper B g b = (Inr (), b') \<and> usable b' \<and> mode b' = mode b"
    and stop: "usable b \<Longrightarrow> \<exists>b'. bk_stop B b = (Inr (), b') \<and> usable b' \<and> \<not> is_cartesian (mode b')"
    and limit: "usable b \<Longrightarrow> length v = 6 \<Longrightarrow>
          \<exists>b'. bk_set_contact_wrench_limit B v b = (Inr (), b') \<and> usable b' \<and> mode b' = mode b"
    and fault: "usable b \<Longrightarrow> \<exists>x b'. bk_in_fault B b = (Inr x, b') \<and> usable b' \<and> mode b' = mode b"
begin

text \<open>The laws as weakest preconditions.\<close>

lemma read_wp:
  "usable b \<Longrightarrow> (\<And>s b'. usable b' \<Longrightarrow> mode b' = mode b \<Longrightarrow> st_control_mode s = mode b \<Longrightarrow> length (st_wrench s) = 6
     \<Longrightarrow> norm (rot (st_tcp_pose s)) = 1 \<Longrightarrow> Q s b') \<Longrightarrow> wpS (bk_read_state B) Q E b"
  by (drule read) (clarsimp simp: wpS_def)

lemma set_mode_wp:
  "usable b \<Longrightarrow> accepts m opts \<Longrightarrow> (\<And>b'. usable b' \<Longrightarrow> mode b' = m \<Longrightarrow> Q () b') \<Longrightarrow> wpS (bk_set_mode B m opts) Q E b"
  by (drule (1) set_mode) (clarsimp simp: wpS_def)

lemma stream_wp:
  "usable b \<Longrightarrow> is_cartesian (mode b) \<Longrightarrow> (\<And>u. w = Some u \<Longrightarrow> length u = 6)
     \<Longrightarrow> (\<And>b'. usable b' \<Longrightarrow> mode b' = mode b \<Longrightarrow> Q () b') \<Longrightarrow> wpS (bk_stream_cartesian B p w) Q E b"
  using stream [of b w p] by (clarsimp simp: wpS_def)

lemma gripper_wp:
  "usable b \<Longrightarrow> (\<And>b'. usable b' \<Longrightarrow> mode b' = mode b \<Longrightarrow> Q () b') \<Longrightarrow> wpS (bk_move_gripper B g) Q E b"
  by (drule gripper [where g = g]) (clarsimp simp: wpS_def)

lemma stop_wp:
  "usable b \<Longrightarrow> (\<And>b'. usable b' \<Longrightarrow> \<not> is_cartesian (mode b') \<Longrightarrow> Q () b') \<Longrightarrow> wpS (bk_stop B) Q E b"
  by (drule stop) (clarsimp simp: wpS_def)

lemma limit_wp:
  "usable b \<Longrightarrow> length v = 6 \<Longrightarrow> (\<And>b'. usable b' \<Longrightarrow> mode b' = mode b \<Longrightarrow> Q () b')
     \<Longrightarrow> wpS (bk_set_contact_wrench_limit B v) Q E b"
  by (drule (1) limit) (clarsimp simp: wpS_def)

lemma fault_wp:
  "usable b \<Longrightarrow> (\<And>x b'. usable b' \<Longrightarrow> mode b' = mode b \<Longrightarrow> Q x b') \<Longrightarrow> wpS (bk_in_fault B) Q E b"
  by (drule fault) (clarsimp simp: wpS_def)

end

interpretation fake: robot_backend fake_backend "\<lambda>b. norm (rot (fk_pose b)) = 1" fk_mode "\<lambda>_ _. True"
  by unfold_locales
    (auto simp: fake_backend_def fake_read_state_def fake_set_mode_def fake_stream_cartesian_def
      fake_move_gripper_def bindS_def sem_simps Let_def split: option.splits)

section \<open>Recording what a backend is given and reports\<close>

datatype command =
    CRead robot_state
  | CSetMode control_mode mode_opts
  | CStream pose "real list option"
  | CJoint "real list"
  | CGripper gripper_command
  | CStop
  | CLimit "real list"
  | CHome "real list option"
  | CZeroFT

type_synonym 'b trace = "'b \<times> command list"

text \<open>
  A command is recorded when it is given, whether or not the backend then raises; a state when it
  is reported.
\<close>

definition record_cmd :: "command \<Rightarrow> ('b, 'a) sem \<Rightarrow> ('b trace, 'a) sem" where
  "record_cmd c m bl = (case m (fst bl) of (r, b') \<Rightarrow> (r, (b', snd bl @ [c])))"

definition record_read :: "('b, robot_state) sem \<Rightarrow> ('b trace, robot_state) sem" where
  "record_read m bl =
     (case m (fst bl) of
        (Inr s, b') \<Rightarrow> (Inr s, (b', snd bl @ [CRead s]))
      | (Inl e, b') \<Rightarrow> (Inl e, (b', snd bl)))"

definition unrecorded :: "('b, 'a) sem \<Rightarrow> ('b trace, 'a) sem" where
  "unrecorded m bl = (case m (fst bl) of (r, b') \<Rightarrow> (r, (b', snd bl)))"

definition traced :: "'b backend \<Rightarrow> 'b trace backend" where
  "traced B = \<lparr>bk_connect = unrecorded (bk_connect B), bk_disconnect = unrecorded (bk_disconnect B),
     bk_is_connected = (\<lambda>bl. bk_is_connected B (fst bl)), bk_read_state = record_read (bk_read_state B),
     bk_set_mode = (\<lambda>m opts. record_cmd (CSetMode m opts) (bk_set_mode B m opts)),
     bk_stream_cartesian = (\<lambda>p w. record_cmd (CStream p w) (bk_stream_cartesian B p w)),
     bk_stream_joint = (\<lambda>q. record_cmd (CJoint q) (bk_stream_joint B q)),
     bk_move_gripper = (\<lambda>g. record_cmd (CGripper g) (bk_move_gripper B g)),
     bk_stop = record_cmd CStop (bk_stop B),
     bk_zero_ft_sensor = record_cmd CZeroFT (bk_zero_ft_sensor B),
     bk_set_contact_wrench_limit = (\<lambda>w. record_cmd (CLimit w) (bk_set_contact_wrench_limit B w)),
     bk_in_fault = unrecorded (bk_in_fault B),
     bk_home = (\<lambda>q. record_cmd (CHome q) (bk_home B q))\<rparr>"

lemma wp_record:
  assumes "\<And>x b'. Q x (b', snd bl @ [c])" "\<And>e b'. E e (b', snd bl @ [c])"
  shows "wpS (record_cmd c m) Q E bl"
  using assms by (auto simp: wpS_def record_cmd_def split: prod.splits sum.splits)

lemma wp_unrecorded:
  assumes "\<And>x b'. Q x (b', snd bl)" "\<And>e b'. E e (b', snd bl)"
  shows "wpS (unrecorded m) Q E bl"
  using assms by (auto simp: wpS_def unrecorded_def split: prod.splits sum.splits)

text \<open>A traced backend keeps the contract.\<close>

context robot_backend
begin

lemma traced_backend: "robot_backend (traced B) (\<lambda>bl. usable (fst bl)) (\<lambda>bl. mode (fst bl)) accepts"
proof
  fix b :: "'b trace" and m opts p g and w :: "real list option" and v :: "real list"
  assume u: "usable (fst b)"
  show "\<exists>s b'. bk_read_state (traced B) b = (Inr s, b') \<and> usable (fst b') \<and> mode (fst b') = mode (fst b)
          \<and> st_control_mode s = mode (fst b) \<and> length (st_wrench s) = 6 \<and> norm (rot (st_tcp_pose s)) = 1"
    using read [OF u] by (auto simp: traced_def record_read_def)
  show "\<exists>b'. bk_set_mode (traced B) m opts b = (Inr (), b') \<and> usable (fst b') \<and> mode (fst b') = m" if "accepts m opts"
    using set_mode [OF u that] by (auto simp: traced_def record_cmd_def)
  show "\<exists>b'. bk_stream_cartesian (traced B) p w b = (Inr (), b') \<and> usable (fst b') \<and> mode (fst b') = mode (fst b)"
    if "is_cartesian (mode (fst b))" "\<And>u. w = Some u \<Longrightarrow> length u = 6"
    using stream [OF u that(1), of w p] that(2) by (auto simp: traced_def record_cmd_def)
  show "\<exists>e b'. bk_stream_cartesian (traced B) p w b = (Inl e, b') \<and> usable (fst b') \<and> mode (fst b') = mode (fst b)"
    if "\<not> is_cartesian (mode (fst b))"
    using stream_refused [OF u that, of p w] by (auto simp: traced_def record_cmd_def)
  show "\<exists>b'. bk_move_gripper (traced B) g b = (Inr (), b') \<and> usable (fst b') \<and> mode (fst b') = mode (fst b)"
    using gripper [OF u, of g] by (auto simp: traced_def record_cmd_def)
  show "\<exists>b'. bk_stop (traced B) b = (Inr (), b') \<and> usable (fst b') \<and> \<not> is_cartesian (mode (fst b'))"
    using stop [OF u] by (auto simp: traced_def record_cmd_def)
  show "\<exists>b'. bk_set_contact_wrench_limit (traced B) v b = (Inr (), b') \<and> usable (fst b') \<and> mode (fst b') = mode (fst b)"
    if "length v = 6"
    using limit [OF u that] by (auto simp: traced_def record_cmd_def)
  show "\<exists>x b'. bk_in_fault (traced B) b = (Inr x, b') \<and> usable (fst b') \<and> mode (fst b') = mode (fst b)"
    using fault [OF u] by (auto simp: traced_def unrecorded_def)
qed

end

interpretation fake_tr: robot_backend "traced fake_backend" "\<lambda>bl. norm (rot (fk_pose (fst bl))) = 1" "\<lambda>bl. fk_mode (fst bl)" "\<lambda>_ _. True"
  by (rule fake.traced_backend)

end
