(* ===== verification/Flexiv_Rdk.thy ===== *)
theory Flexiv_Rdk
  imports Backend
begin

text \<open>
  \<^verbatim>\<open>backends/flexiv_rdk.py\<close>: the backend of the real arm. The vendor's RDK is not this repository's code: it is
  the parameter \<open>'h rdk\<close>, one field per call the backend makes, over the hardware's own state \<open>'h\<close>. Its
  \<open>Mode\<close> members are named by the control mode the backend maps to them; a build may lack some. The calls
  are those of RDK v1.x; the other versions' spellings, the version warning and the warnings' texts are not
  modelled. A wait with a time limit is given the number of polls that fit into the limit.
\<close>

section \<open>The vendor's interface\<close>

record rdk_states =
  rs_q :: "real list"
  rs_dq :: "real list"
  rs_tau :: "real list"
  rs_tcp_pose :: pose
  rs_tcp_vel :: "real list"
  rs_wrench :: "real list"

record 'h rdk =
  rk_robot :: "string \<Rightarrow> ('h, unit) sem"
  rk_fault :: "('h, bool) sem"
  rk_clear_fault :: "('h, bool option) sem"
  rk_enable :: "('h, unit) sem"
  rk_operational :: "('h, bool) sem"
  rk_states :: "('h, rdk_states) sem"
  rk_time :: "'h \<Rightarrow> real"
  rk_has_mode :: "control_mode \<Rightarrow> bool"
  rk_mode :: "('h, control_mode) sem"
  rk_switch_mode :: "control_mode \<Rightarrow> ('h, unit) sem"
  rk_execute_primitive :: "string \<Rightarrow> ('h, unit) sem"
  rk_primitive_states :: "('h, (string \<times> string) list option) sem"
  rk_busy :: "('h, bool) sem"
  rk_stop :: "('h, unit) sem"
  rk_set_cartesian_impedance :: "real list \<Rightarrow> real list \<Rightarrow> ('h, unit) sem"
  rk_set_joint_impedance :: "real list \<Rightarrow> real list \<Rightarrow> ('h, unit) sem"
  rk_set_max_contact_wrench :: "real list \<Rightarrow> ('h, unit) sem"
  rk_set_force_axis :: "bool list \<Rightarrow> ('h, unit) sem"
  rk_set_force_frame :: "bool \<Rightarrow> ('h, unit) sem"
  rk_set_null_space_posture :: "real list \<Rightarrow> ('h, unit) sem"
  rk_cartesian :: "bool \<Rightarrow> pose \<Rightarrow> real list \<Rightarrow> ('h, unit) sem"
  rk_stream_joint :: "real list \<Rightarrow> real list \<Rightarrow> real list \<Rightarrow> ('h, unit) sem"
  rk_send_joint :: "real list \<Rightarrow> real list \<Rightarrow> real list \<Rightarrow> real list \<Rightarrow> real list \<Rightarrow> ('h, unit) sem"
  rk_gripper :: "('h, unit) sem"
  rk_gripper_enable :: "string \<Rightarrow> ('h, unit) sem"
  rk_gripper_init :: "('h, unit) sem"
  rk_gripper_states :: "('h, real \<times> real) sem"
  rk_gripper_moving :: "('h, bool) sem"
  rk_grasp :: "real \<Rightarrow> ('h, unit) sem"
  rk_move :: "real \<Rightarrow> real \<Rightarrow> real \<Rightarrow> ('h, unit) sem"

text \<open>
  \<open>rk_cartesian True\<close> is \<open>StreamCartesianMotionForce\<close>, \<open>rk_cartesian False\<close> is
  \<open>SendCartesianMotionForce\<close>; \<open>rk_set_force_frame True\<close> sets the frame \<open>CoordType.TCP\<close>.
\<close>

section \<open>The object\<close>

record 'h flexiv =
  fb_sn :: string
  fb_n_joints :: int
  fb_gripper_name :: "string option"
  fb_allow_torque :: bool
  fb_robot :: bool
  fb_gripper :: bool
  fb_mode :: control_mode
  fb_connected :: bool
  fb_force :: "force_control_params option"
  fb_hw :: 'h

definition mk_flexiv :: "string \<Rightarrow> int \<Rightarrow> string option \<Rightarrow> bool \<Rightarrow> 'h \<Rightarrow> 'h flexiv" where
  "mk_flexiv sn n gripper_name allow_torque h =
     \<lparr>fb_sn = sn, fb_n_joints = n, fb_gripper_name = gripper_name, fb_allow_torque = allow_torque,
      fb_robot = False, fb_gripper = False, fb_mode = IDLE, fb_connected = False, fb_force = None, fb_hw = h\<rparr>"

text \<open>A call of the RDK; one on \<open>self._robot\<close> before it exists is an \<open>AttributeError\<close>.\<close>

definition onH :: "('h, 'a) sem \<Rightarrow> ('h flexiv, 'a) sem" where
  "onH m b = (case m (fb_hw b) of (x, h) \<Rightarrow> (x, b\<lparr>fb_hw := h\<rparr>))"

definition onArm :: "('h, 'a) sem \<Rightarrow> ('h flexiv, 'a) sem" where
  "onArm m = bindS (getS fb_robot) (\<lambda>made. if made then onH m else raiseS AttributeError)"

definition rdk_mode :: "'h rdk \<Rightarrow> control_mode \<Rightarrow> control_mode result" where
  "rdk_mode R m = (if rk_has_mode R m then Inr m else Inl RuntimeError)"

definition switch_mode :: "'h rdk \<Rightarrow> control_mode \<Rightarrow> ('h flexiv, unit) sem" where
  "switch_mode R m = bindS (liftS (rdk_mode R m)) (\<lambda>m'. onArm (rk_switch_mode R m'))"

definition cart_dof :: "real list \<Rightarrow> real list result" where
  "cart_dof w = (if length w = 6 then Inr w else Inl ValueError)"

section \<open>Lifecycle\<close>

text \<open>
  \<open>while not operational(): if the limit has passed: raise TimeoutError\<close>, an \<open>OSError\<close>, and
  \<open>while busy() and within the limit\<close>.
\<close>

fun wait_operational :: "'h rdk \<Rightarrow> nat \<Rightarrow> ('h flexiv, unit) sem" where
  "wait_operational R 0 = bindS (onArm (rk_operational R)) (\<lambda>up. if up then retS () else raiseS OSError)"
| "wait_operational R (Suc n) = bindS (onArm (rk_operational R)) (\<lambda>up. if up then retS () else wait_operational R n)"

fun wait_idle :: "'h rdk \<Rightarrow> nat \<Rightarrow> ('h flexiv, unit) sem" where
  "wait_idle R 0 = bindS (onArm (rk_busy R)) (\<lambda>busy. retS ())"
| "wait_idle R (Suc n) = bindS (onArm (rk_busy R)) (\<lambda>busy. if busy then wait_idle R n else retS ())"

text \<open>The F/T zeroing shared by \<open>connect\<close> and \<open>zero_ft_sensor\<close>.\<close>

definition run_zero_ft :: "'h rdk \<Rightarrow> nat \<Rightarrow> ('h flexiv, unit) sem" where
  "run_zero_ft R polls =
     thenS (onArm (rk_switch_mode R NRT_PRIMITIVE))
    (thenS (onArm (rk_execute_primitive R ''ZeroFTSensor''))
    (thenS (wait_idle R polls)
       (onArm (rk_switch_mode R IDLE))))"

definition clear_fault :: "'h rdk \<Rightarrow> ('h flexiv, unit) sem" where
  "clear_fault R =
     bindS (onArm (rk_fault R)) (\<lambda>faulted.
       if faulted then bindS (onArm (rk_clear_fault R)) (\<lambda>ok. if ok = Some False then raiseS RuntimeError else retS ())
       else retS ())"

definition adopt_dof :: "'h rdk \<Rightarrow> ('h flexiv, unit) sem" where
  "adopt_dof R =
     catchS (bindS (onArm (rk_states R)) (\<lambda>s.
             bindS (getS fb_n_joints) (\<lambda>configured.
               (let n = int (length (rs_q s)) in
                if n = 0 then retS ()
                else if configured \<noteq> 0 \<and> configured \<noteq> n then raiseS ValueError
                else modS (\<lambda>b. b\<lparr>fb_n_joints := n\<rparr>)))))
       (\<lambda>e. if e = ValueError then raiseS ValueError else retS ())"

definition bring_up_gripper :: "'h rdk \<Rightarrow> ('h flexiv, unit) sem" where
  "bring_up_gripper R =
     bindS (getS fb_gripper_name) (\<lambda>name.
       case name of
         None \<Rightarrow> retS ()
       | Some n \<Rightarrow>
           (if n = '''' then modS (\<lambda>b. b\<lparr>fb_gripper := False\<rparr>)
            else thenS (onH (rk_gripper R))
                (thenS (modS (\<lambda>b. b\<lparr>fb_gripper := True\<rparr>))
                  (catchS (thenS (onH (rk_gripper_enable R n)) (onH (rk_gripper_init R)))
                     (\<lambda>e. modS (\<lambda>b. b\<lparr>fb_gripper := False\<rparr>))))))"

definition flexiv_connect :: "'h rdk \<Rightarrow> nat \<Rightarrow> ('h flexiv, unit) sem" where
  "flexiv_connect R polls =
     thenS (bindS (getS fb_sn) (\<lambda>sn. onH (rk_robot R sn)))
    (thenS (modS (\<lambda>b. b\<lparr>fb_robot := True\<rparr>))
    (thenS (clear_fault R)
    (thenS (onArm (rk_enable R))
    (thenS (wait_operational R polls)
    (thenS (adopt_dof R)
    (thenS (catchS (if rk_has_mode R NRT_PRIMITIVE then run_zero_ft R polls else retS ()) (\<lambda>e. retS ()))
    (thenS (bring_up_gripper R)
       (modS (\<lambda>b. b\<lparr>fb_connected := True\<rparr>)))))))))"

definition flexiv_disconnect :: "'h rdk \<Rightarrow> ('h flexiv, unit) sem" where
  "flexiv_disconnect R =
     thenS (bindS (getS fb_robot) (\<lambda>made. if made then catchS (onArm (rk_stop R)) (\<lambda>e. retS ()) else retS ()))
       (modS (\<lambda>b. b\<lparr>fb_connected := False\<rparr>))"

section \<open>State\<close>

definition flexiv_in_fault :: "'h rdk \<Rightarrow> ('h flexiv, bool) sem" where
  "flexiv_in_fault R =
     bindS (getS fb_robot) (\<lambda>made. if made then catchS (onArm (rk_fault R)) (\<lambda>e. retS False) else retS False)"

text \<open>The cached mode follows the arm when the arm has fallen idle.\<close>

definition sync_mode :: "'h rdk \<Rightarrow> ('h flexiv, unit) sem" where
  "sync_mode R =
     bindS (getS fb_mode) (\<lambda>cached.
       if cached = IDLE then retS ()
       else catchS (bindS (onArm (rk_mode R)) (\<lambda>m.
                    bindS (liftS (rdk_mode R IDLE)) (\<lambda>idle.
                      if m = idle then modS (\<lambda>b. b\<lparr>fb_mode := IDLE\<rparr>) else retS ())))
              (\<lambda>e. retS ()))"

definition read_gripper :: "'h rdk \<Rightarrow> ('h flexiv, real \<times> real \<times> bool) sem" where
  "read_gripper R =
     bindS (getS fb_gripper) (\<lambda>present.
       if \<not> present then retS (0, 0, False)
       else catchS (bindS (onH (rk_gripper_states R)) (\<lambda>(width, force).
                    catchS (bindS (onH (rk_gripper_moving R)) (\<lambda>moving. retS (width, force, moving)))
                      (\<lambda>e. retS (width, force, False))))
              (\<lambda>e. retS (0, 0, False)))"

definition flexiv_read_state :: "'h rdk \<Rightarrow> ('h flexiv, robot_state) sem" where
  "flexiv_read_state R =
     thenS (sync_mode R)
    (bindS (onArm (rk_states R)) (\<lambda>s.
     bindS (read_gripper R) (\<lambda>(width, force, moving).
     bindS (flexiv_in_fault R) (\<lambda>faulted.
     getS (\<lambda>b. \<lparr>st_stamp = rk_time R (fb_hw b), st_q = rs_q s, st_dq = rs_dq s, st_tau = rs_tau s,
       st_tcp_pose = rs_tcp_pose s, st_tcp_vel = rs_tcp_vel s, st_wrench = rs_wrench s,
       st_gripper_width = width, st_gripper_force = force, st_gripper_is_moving = moving,
       st_control_mode = fb_mode b, st_safety_status = (if faulted then FAULT else OK),
       st_stop_reason = (if faulted then BACKEND_FAULT else NONE), st_active_owner = '''',
       st_command_latency_ms = 0, st_loop_period_ms = 0, st_loop_jitter_us = 0, st_missed_cycles = 0\<rparr>)))))"

section \<open>Modes\<close>

definition rdk_coord_tcp :: "string \<Rightarrow> bool" where
  "rdk_coord_tcp frame \<longleftrightarrow> str_lower frame \<in> {''tcp'', ''flange'', ''ee''}"

definition if_some :: "'a option \<Rightarrow> ('a \<Rightarrow> ('s, unit) sem) \<Rightarrow> ('s, unit) sem" where
  "if_some x f = (case x of None \<Rightarrow> retS () | Some y \<Rightarrow> f y)"

definition set_force_control :: "'h rdk \<Rightarrow> control_mode \<Rightarrow> force_control_params option \<Rightarrow> ('h flexiv, unit) sem" where
  "set_force_control R m force_control =
     (if force_control \<noteq> None \<and> is_cartesian m
      then if_some force_control (\<lambda>fc.
             thenS (modS (\<lambda>b. b\<lparr>fb_force := Some fc\<rparr>))
            (thenS (onArm (rk_set_force_axis R (fc_enabled_axes fc)))
               (onArm (rk_set_force_frame R (rdk_coord_tcp (fc_frame fc))))))
      else if \<not> is_cartesian m then modS (\<lambda>b. b\<lparr>fb_force := None\<rparr>)
      else retS ())"

definition flexiv_set_mode :: "'h rdk \<Rightarrow> control_mode \<Rightarrow> mode_opts \<Rightarrow> ('h flexiv, unit) sem" where
  "flexiv_set_mode R m opts =
     bindS (getS fb_allow_torque) (\<lambda>allowed.
       if m = RT_JOINT_TORQUE \<and> \<not> allowed then raiseS RuntimeError
       else thenS (switch_mode R m)
           (thenS (modS (\<lambda>b. b\<lparr>fb_mode := m\<rparr>))
           (thenS (if is_cartesian m
                   then if_some (mo_impedance opts)
                          (\<lambda>i. onArm (rk_set_cartesian_impedance R (ip_stiffness i) (ip_damping_ratio i)))
                   else retS ())
           (thenS (if \<not> is_cartesian m
                   then if_some (mo_joint_impedance opts)
                          (\<lambda>i. onArm (rk_set_joint_impedance R (jip_stiffness i) (jip_damping_ratio i)))
                   else retS ())
           (thenS (if is_cartesian m then if_some (mo_max_contact_wrench opts) (\<lambda>w. onArm (rk_set_max_contact_wrench R w))
                   else retS ())
           (thenS (set_force_control R m (mo_force_control opts))
             (if is_cartesian m then if_some (mo_nullspace_q opts) (\<lambda>q. onArm (rk_set_null_space_posture R q))
              else retS ())))))))"

definition flexiv_set_contact_wrench_limit :: "'h rdk \<Rightarrow> real list \<Rightarrow> ('h flexiv, unit) sem" where
  "flexiv_set_contact_wrench_limit R w =
     bindS (getS fb_mode) (\<lambda>m.
       if is_cartesian m then bindS (liftS (cart_dof w)) (\<lambda>w'. onArm (rk_set_max_contact_wrench R w')) else retS ())"

section \<open>Streaming\<close>

text \<open>A wrench given for the tick wins over the mode's target, which wins over zero.\<close>

definition flexiv_stream_cartesian :: "'h rdk \<Rightarrow> pose \<Rightarrow> real list option \<Rightarrow> ('h flexiv, unit) sem" where
  "flexiv_stream_cartesian R p wrench =
     bindS (getS fb_force) (\<lambda>force.
     bindS (liftS (case wrench of
                     Some w \<Rightarrow> cart_dof w
                   | None \<Rightarrow> (case force of Some fc \<Rightarrow> cart_dof (fc_target_wrench fc) | None \<Rightarrow> Inr (replicate 6 0)))) (\<lambda>wr.
     bindS (getS fb_mode) (\<lambda>m.
       onArm (rk_cartesian R (is_realtime m) p wr))))"

definition flexiv_stream_joint :: "'h rdk \<Rightarrow> real list \<Rightarrow> ('h flexiv, unit) sem" where
  "flexiv_stream_joint R q =
     bindS (getS (\<lambda>b. nat (fb_n_joints b))) (\<lambda>n.
     bindS (getS fb_mode) (\<lambda>m.
       if is_realtime m then onArm (rk_stream_joint R q (replicate n 0) (replicate n 0))
       else onArm (rk_send_joint R q (replicate n 0) (replicate n 0) (replicate n 1) (replicate n 1))))"

section \<open>Gripper, stop and primitives\<close>

definition flexiv_move_gripper :: "'h rdk \<Rightarrow> gripper_command \<Rightarrow> ('h flexiv, unit) sem" where
  "flexiv_move_gripper R g =
     bindS (getS (\<lambda>b. (fb_gripper b, fb_gripper_name b))) (\<lambda>(present, name).
       if \<not> present then (if name \<noteq> None \<and> name \<noteq> Some '''' then raiseS RuntimeError else retS ())
       else if g_grasp g then onH (rk_grasp R (g_force g))
       else onH (rk_move R (g_width g) (g_velocity g) (g_force g)))"

definition flexiv_stop :: "'h rdk \<Rightarrow> ('h flexiv, unit) sem" where
  "flexiv_stop R = thenS (onArm (rk_stop R)) (modS (\<lambda>b. b\<lparr>fb_mode := IDLE\<rparr>))"

definition primitive_running :: "'h rdk \<Rightarrow> ('h flexiv, bool) sem" where
  "primitive_running R =
     bindS (catchS (bindS (onArm (rk_primitive_states R)) (\<lambda>ps.
              retS (case ps of None \<Rightarrow> None | Some d \<Rightarrow>
                 (case map_of d ''reachedTarget'' of None \<Rightarrow> None
                  | Some v \<Rightarrow> Some (str_lower (strip v) \<notin> {''1'', ''true''})))))
            (\<lambda>e. retS None)) (\<lambda>known.
       case known of
         Some running \<Rightarrow> retS running
       | None \<Rightarrow> catchS (onArm (rk_busy R)) (\<lambda>e. retS False))"

fun wait_primitive :: "'h rdk \<Rightarrow> nat \<Rightarrow> ('h flexiv, unit) sem" where
  "wait_primitive R 0 = retS ()"
| "wait_primitive R (Suc n) = bindS (primitive_running R) (\<lambda>running. if running then wait_primitive R n else retS ())"

definition flexiv_home :: "'h rdk \<Rightarrow> nat \<Rightarrow> real list option \<Rightarrow> ('h flexiv, unit) sem" where
  "flexiv_home R polls q_home =
     (if q_home \<noteq> None then raiseS NotImplementedError
      else thenS (switch_mode R NRT_PRIMITIVE)
          (thenS (onArm (rk_execute_primitive R ''Home''))
          (thenS (wait_primitive R polls)
             (modS (\<lambda>b. b\<lparr>fb_mode := NRT_PRIMITIVE\<rparr>)))))"

definition flexiv_zero_ft_sensor :: "'h rdk \<Rightarrow> nat \<Rightarrow> ('h flexiv, unit) sem" where
  "flexiv_zero_ft_sensor R polls =
     (if \<not> rk_has_mode R NRT_PRIMITIVE then retS ()
      else thenS (run_zero_ft R polls) (modS (\<lambda>b. b\<lparr>fb_mode := IDLE\<rparr>)))"

definition flexiv_backend :: "'h rdk \<Rightarrow> nat \<Rightarrow> 'h flexiv backend" where
  "flexiv_backend R polls = \<lparr>bk_connect = flexiv_connect R polls, bk_disconnect = flexiv_disconnect R,
     bk_is_connected = fb_connected, bk_read_state = flexiv_read_state R, bk_set_mode = flexiv_set_mode R,
     bk_stream_cartesian = flexiv_stream_cartesian R, bk_stream_joint = flexiv_stream_joint R,
     bk_move_gripper = flexiv_move_gripper R, bk_stop = flexiv_stop R,
     bk_zero_ft_sensor = flexiv_zero_ft_sensor R polls,
     bk_set_contact_wrench_limit = flexiv_set_contact_wrench_limit R, bk_in_fault = flexiv_in_fault R,
     bk_home = flexiv_home R polls\<rparr>"

end
