(* ===== verification/Flexiv_Proofs.thy ===== *)
theory Flexiv_Proofs
  imports Flexiv_Rdk
begin

text \<open>
  What the real arm's backend guarantees over the vendor's interface: its cached mode follows the arm,
  it keeps the contract the layers above rely on while the arm answers, the torque mode is out of reach
  unless asked for, a configured gripper is never silently ignored; and a force target outlives the
  stop and the restart of its mode.
\<close>

section \<open>The arm's mode\<close>

text \<open>
  The vendor's documented behaviour: a successful \<open>SwitchMode\<close> leaves the arm in that mode, a successful
  \<open>Stop\<close> leaves it idle, \<open>mode()\<close> reports the mode; a failed call and every other call leave the mode
  alone. At any time a fault or an emergency stop may drop the arm to idle.
\<close>

definition keeps_mode :: "('h \<Rightarrow> control_mode) \<Rightarrow> ('h, 'a) sem \<Rightarrow> bool" where
  "keeps_mode hm m \<longleftrightarrow> (\<forall>h x h'. m h = (x, h') \<longrightarrow> hm h' = hm h \<or> hm h' = IDLE)"

definition arm_modes :: "'h rdk \<Rightarrow> ('h \<Rightarrow> control_mode) \<Rightarrow> bool" where
  "arm_modes R hm \<longleftrightarrow>
     (\<forall>m h e h'. rk_switch_mode R m h = (Inl e, h') \<longrightarrow> hm h' = hm h \<or> hm h' = IDLE)
   \<and> (\<forall>m h x h'. rk_switch_mode R m h = (Inr x, h') \<longrightarrow> hm h' = m \<or> hm h' = IDLE)
   \<and> keeps_mode hm (rk_stop R) \<and> (\<forall>h x h'. rk_stop R h = (Inr x, h') \<longrightarrow> hm h' = IDLE)
   \<and> keeps_mode hm (rk_mode R) \<and> (\<forall>h m h'. rk_mode R h = (Inr m, h') \<longrightarrow> m = hm h')
   \<and> keeps_mode hm (rk_fault R) \<and> keeps_mode hm (rk_states R) \<and> (\<forall>n. keeps_mode hm (rk_execute_primitive R n))
   \<and> keeps_mode hm (rk_primitive_states R) \<and> keeps_mode hm (rk_busy R)
   \<and> (\<forall>a b. keeps_mode hm (rk_set_cartesian_impedance R a b)) \<and> (\<forall>a b. keeps_mode hm (rk_set_joint_impedance R a b))
   \<and> (\<forall>w. keeps_mode hm (rk_set_max_contact_wrench R w)) \<and> (\<forall>x. keeps_mode hm (rk_set_force_axis R x))
   \<and> (\<forall>x. keeps_mode hm (rk_set_force_frame R x)) \<and> (\<forall>q. keeps_mode hm (rk_set_null_space_posture R q))
   \<and> (\<forall>rt p w. keeps_mode hm (rk_cartesian R rt p w)) \<and> (\<forall>q v a. keeps_mode hm (rk_stream_joint R q v a))
   \<and> (\<forall>q v a mv ma. keeps_mode hm (rk_send_joint R q v a mv ma))
   \<and> keeps_mode hm (rk_gripper_states R) \<and> keeps_mode hm (rk_gripper_moving R)
   \<and> (\<forall>f. keeps_mode hm (rk_grasp R f)) \<and> (\<forall>w v f. keeps_mode hm (rk_move R w v f))"

definition in_sync :: "('h \<Rightarrow> control_mode) \<Rightarrow> 'h flexiv \<Rightarrow> bool" where
  "in_sync hm b \<longleftrightarrow> hm (fb_hw b) = fb_mode b \<or> hm (fb_hw b) = IDLE"

definition to_unit :: "('s, 'a) sem \<Rightarrow> ('s, unit) sem" where
  "to_unit m = bindS m (\<lambda>_. retS ())"

datatype rdk_op =
    ReadState | SetMode control_mode mode_opts | StreamCartesian pose "real list option" | StreamJoint "real list"
  | MoveGripper gripper_command | Stop | SetLimit "real list" | InFault | Home "real list option" | ZeroFT

fun run_op :: "'b backend \<Rightarrow> rdk_op \<Rightarrow> ('b, unit) sem" where
  "run_op B ReadState = to_unit (bk_read_state B)"
| "run_op B (SetMode m opts) = bk_set_mode B m opts"
| "run_op B (StreamCartesian p w) = bk_stream_cartesian B p w"
| "run_op B (StreamJoint q) = bk_stream_joint B q"
| "run_op B (MoveGripper g) = bk_move_gripper B g"
| "run_op B Stop = bk_stop B"
| "run_op B (SetLimit w) = bk_set_contact_wrench_limit B w"
| "run_op B InFault = to_unit (bk_in_fault B)"
| "run_op B (Home q) = bk_home B q"
| "run_op B ZeroFT = bk_zero_ft_sensor B"

fun primitive :: "rdk_op \<Rightarrow> bool" where
  "primitive (Home q) = True"
| "primitive ZeroFT = True"
| "primitive _ = False"

text \<open>Calls of the backend, and what happens to the arm in between: it works on, or it falls idle.\<close>

inductive flexiv_step :: "'h rdk \<Rightarrow> nat \<Rightarrow> ('h \<Rightarrow> control_mode) \<Rightarrow> 'h flexiv \<Rightarrow> 'h flexiv \<Rightarrow> bool"
  for R polls hm where
  call: "run_op (flexiv_backend R polls) op b = (x, b') \<Longrightarrow> primitive op \<Longrightarrow> x = Inr () \<Longrightarrow> flexiv_step R polls hm b b'"
| plain_call: "run_op (flexiv_backend R polls) op b = (x, b') \<Longrightarrow> \<not> primitive op \<Longrightarrow> flexiv_step R polls hm b b'"
| works: "hm h' = hm (fb_hw b) \<Longrightarrow> flexiv_step R polls hm b (b\<lparr>fb_hw := h'\<rparr>)"
| falls_idle: "hm h' = IDLE \<Longrightarrow> flexiv_step R polls hm b (b\<lparr>fb_hw := h'\<rparr>)"

section \<open>Calls keep the cache in step\<close>

lemma arm_calls:
  assumes "arm_modes R hm"
  shows "keeps_mode hm (rk_stop R)" "keeps_mode hm (rk_mode R)" "keeps_mode hm (rk_fault R)" "keeps_mode hm (rk_states R)"
    "keeps_mode hm (rk_execute_primitive R n)" "keeps_mode hm (rk_primitive_states R)" "keeps_mode hm (rk_busy R)"
    "keeps_mode hm (rk_set_cartesian_impedance R u v)" "keeps_mode hm (rk_set_joint_impedance R u v)"
    "keeps_mode hm (rk_set_max_contact_wrench R w)" "keeps_mode hm (rk_set_force_axis R x)"
    "keeps_mode hm (rk_set_force_frame R y)" "keeps_mode hm (rk_set_null_space_posture R q)"
    "keeps_mode hm (rk_cartesian R rt p w)" "keeps_mode hm (rk_stream_joint R q v a)"
    "keeps_mode hm (rk_send_joint R q v a mv ma)" "keeps_mode hm (rk_gripper_states R)" "keeps_mode hm (rk_gripper_moving R)"
    "keeps_mode hm (rk_grasp R f)" "keeps_mode hm (rk_move R g f k)"
  using assms by (simp_all add: arm_modes_def)

lemma arm_switches:
  assumes "arm_modes R hm"
  shows "rk_switch_mode R m h = (Inl e, h') \<Longrightarrow> hm h' = hm h \<or> hm h' = IDLE"
    "rk_switch_mode R m h = (Inr x, h') \<Longrightarrow> hm h' = m \<or> hm h' = IDLE"
    "rk_stop R h = (Inr x, h') \<Longrightarrow> hm h' = IDLE" "rk_mode R h = (Inr m, h') \<Longrightarrow> m = hm h'"
  using assms by (auto simp: arm_modes_def)

lemma keeps_mode_D: "keeps_mode hm m \<Longrightarrow> m h = (x, h') \<Longrightarrow> hm h' = hm h \<or> hm h' = IDLE"
  by (auto simp: keeps_mode_def)

lemma in_sync_calm: "keeps_mode hm m \<Longrightarrow> in_sync hm b \<Longrightarrow> in_sync hm (snd (onH m b))"
  unfolding keeps_mode_def in_sync_def onH_def by (cases "m (fb_hw b)") fastforce

lemma keeps_onH: "keeps_mode hm m \<Longrightarrow> keepsS (in_sync hm) (onH m)"
  by (simp add: keepsS_def in_sync_calm)

lemma keeps_if: "keepsS I m \<Longrightarrow> keepsS I k \<Longrightarrow> keepsS I (if c then m else k)"
  by simp

lemmas keeps_intros = keepsS_base keepsS_bind keepsS_then keepsS_catch keeps_if

lemma keeps_onArm: "keeps_mode hm m \<Longrightarrow> keepsS (in_sync hm) (onArm m)"
  unfolding onArm_def by (intro keeps_intros keeps_onH)

lemma keeps_wp: "keepsS I m \<Longrightarrow> I s \<Longrightarrow> wpS m (\<lambda>_. I) (\<lambda>_. I) s"
  by (auto simp: keepsS_def wpS_def split: prod.splits sum.splits dest: spec [of _ s])

lemma keeps_then_wp:
  assumes "keepsS I m" "I s" "\<And>s. I s \<Longrightarrow> wpS k Q E s" "\<And>e s. I s \<Longrightarrow> E e s"
  shows "wpS (thenS m k) Q E s"
  by (subst wpS_then, rule wpS_mono [OF keeps_wp [OF assms(1,2)]]) (simp_all add: assms(3,4))

lemma keeps_if_some: "(\<And>x. keepsS I (f x)) \<Longrightarrow> keepsS I (if_some y f)"
  by (auto simp: if_some_def split: option.split)

lemma keeps_to_unit: "keepsS I m \<Longrightarrow> keepsS I (to_unit m)"
  by (auto simp: to_unit_def)

lemma keeps_idle_cache: "keepsS (in_sync hm) (modS (\<lambda>b. b\<lparr>fb_force := f\<rparr>))"
  by (simp add: keepsS_def sem_simps in_sync_def)

lemmas keeps_rdk = keeps_onArm [OF arm_calls(1)] keeps_onArm [OF arm_calls(3)] keeps_onArm [OF arm_calls(4)]
  keeps_onArm [OF arm_calls(5)] keeps_onArm [OF arm_calls(6)] keeps_onArm [OF arm_calls(7)] keeps_onArm [OF arm_calls(8)]
  keeps_onArm [OF arm_calls(9)] keeps_onArm [OF arm_calls(10)] keeps_onArm [OF arm_calls(11)] keeps_onArm [OF arm_calls(12)]
  keeps_onArm [OF arm_calls(13)] keeps_onArm [OF arm_calls(14)] keeps_onArm [OF arm_calls(15)] keeps_onArm [OF arm_calls(16)]
  keeps_onH [OF arm_calls(17)] keeps_onH [OF arm_calls(18)] keeps_onH [OF arm_calls(19)] keeps_onH [OF arm_calls(20)]

text \<open>Asking for the mode brings the cache in step with an arm that fell idle.\<close>

lemma wpS_onArm:
  "wpS (onArm m) Q E b = (if fb_robot b then wpS m (\<lambda>x h. Q x (b\<lparr>fb_hw := h\<rparr>)) (\<lambda>e h. E e (b\<lparr>fb_hw := h\<rparr>)) (fb_hw b)
     else E AttributeError b)"
  by (simp add: onArm_def onH_def wpS_def bindS_def sem_simps split: prod.splits sum.splits)

lemma sync_keeps:
  assumes "arm_modes R hm"
  shows "keepsS (in_sync hm) (sync_mode R)"
proof (rule keepsS_I)
  fix b
  assume b: "in_sync hm b"
  show "in_sync hm (snd (sync_mode R b))"
  proof (cases "fb_robot b \<and> fb_mode b \<noteq> IDLE")
    case False
    then show ?thesis using b by (auto simp: sync_mode_def bindS_def sem_simps catchS_def onArm_def)
  next
    case True
    obtain x h' where q: "rk_mode R (fb_hw b) = (x, h')" by (cases "rk_mode R (fb_hw b)")
    have "hm h' = hm (fb_hw b) \<or> hm h' = IDLE" "\<And>m. x = Inr m \<Longrightarrow> m = hm h'"
      using keeps_mode_D [OF arm_calls(2) [OF assms] q] arm_switches(4) [OF assms] q by auto
    then show ?thesis
      using b True q
      by (cases x) (auto simp: sync_mode_def bindS_def sem_simps catchS_def onArm_def onH_def in_sync_def rdk_mode_def)
  qed
qed

lemma in_fault_keeps: "arm_modes R hm \<Longrightarrow> keepsS (in_sync hm) (flexiv_in_fault R)"
  unfolding flexiv_in_fault_def by (intro keeps_intros keeps_rdk)

lemma read_keeps: "arm_modes R hm \<Longrightarrow> keepsS (in_sync hm) (flexiv_read_state R)"
  unfolding flexiv_read_state_def read_gripper_def
  by (auto intro!: keeps_intros sync_keeps in_fault_keeps keeps_rdk split: prod.split)

lemma set_mode_keeps:
  fixes R :: "'h rdk"
  assumes "arm_modes R hm"
  shows "keepsS (in_sync hm) (flexiv_set_mode R m opts)"
proof (rule keepsS_I)
  fix b
  assume b: "in_sync hm b"
  let ?rest = "thenS (if is_cartesian m
                   then if_some (mo_impedance opts)
                          (\<lambda>i. onArm (rk_set_cartesian_impedance R (ip_stiffness i) (ip_damping_ratio i)))
                   else retS ())
           (thenS (if \<not> is_cartesian m
                   then if_some (mo_joint_impedance opts)
                          (\<lambda>i. onArm (rk_set_joint_impedance R (jip_stiffness i) (jip_damping_ratio i)))
                   else retS ())
           (thenS (if is_cartesian m then if_some (mo_max_contact_wrench opts) (\<lambda>w. onArm (rk_set_max_contact_wrench R w))
                   else retS ())
           (thenS (set_force_control R m (mo_force_control opts))
             (if is_cartesian m then if_some (mo_nullspace_q opts) (\<lambda>q. onArm (rk_set_null_space_posture R q))
              else retS ()))))"
  have rest: "keepsS (in_sync hm) ?rest"
    using assms unfolding set_force_control_def by (intro keeps_intros keeps_if_some keeps_rdk keeps_idle_cache)
  have switch: "wpS (switch_mode R m) (\<lambda>_ b'. hm (fb_hw b') = m \<or> hm (fb_hw b') = IDLE) (\<lambda>_. in_sync hm) b"
  proof (cases "rk_has_mode R m \<and> fb_robot b")
    case False
    then show ?thesis using b by (auto simp: switch_mode_def rdk_mode_def wpS_bind wpS_base wpS_onArm)
  next
    case True
    obtain x h' where s: "rk_switch_mode R m (fb_hw b) = (x, h')" by (cases "rk_switch_mode R m (fb_hw b)")
    have "\<And>e. x = Inl e \<Longrightarrow> hm h' = hm (fb_hw b) \<or> hm h' = IDLE" "\<And>u. x = Inr u \<Longrightarrow> hm h' = m \<or> hm h' = IDLE"
      using arm_switches(1,2) [OF assms] s by auto
    then show ?thesis
      using b s True
      by (cases x) (auto simp: switch_mode_def rdk_mode_def wpS_def bindS_def sem_simps onArm_def onH_def in_sync_def)
  qed
  have "wpS (thenS (switch_mode R m) (thenS (modS (\<lambda>b. b\<lparr>fb_mode := m\<rparr>)) ?rest)) (\<lambda>_. in_sync hm) (\<lambda>_. in_sync hm) b"
  proof (subst wpS_then, rule wpS_mono [OF switch])
    fix b' :: "'h flexiv"
    assume "hm (fb_hw b') = m \<or> hm (fb_hw b') = IDLE"
    then have "in_sync hm (b'\<lparr>fb_mode := m\<rparr>)" by (simp add: in_sync_def)
    from keeps_wp [OF rest this]
    show "wpS (thenS (modS (\<lambda>b. b\<lparr>fb_mode := m\<rparr>)) ?rest) (\<lambda>_. in_sync hm) (\<lambda>_. in_sync hm) b'"
      by (simp only: wpS_then [of "modS (\<lambda>b. b\<lparr>fb_mode := m\<rparr>)"] wpS_modS)
  qed
  then have "wpS (flexiv_set_mode R m opts) (\<lambda>_. in_sync hm) (\<lambda>_. in_sync hm) b"
    using b by (simp only: flexiv_set_mode_def wpS_bind wpS_base wpS_if) simp
  then show "in_sync hm (snd (flexiv_set_mode R m opts b))"
    by (auto simp: wpS_def split: prod.splits sum.splits)
qed


lemma stop_keeps:
  assumes "arm_modes R hm"
  shows "keepsS (in_sync hm) (flexiv_stop R)"
proof (rule keepsS_I)
  fix b
  assume b: "in_sync hm b"
  obtain x h' where s: "rk_stop R (fb_hw b) = (x, h')" by (cases "rk_stop R (fb_hw b)")
  show "in_sync hm (snd (flexiv_stop R b))"
    using b s keeps_mode_D [OF arm_calls(1) [OF assms] s] arm_switches(3) [OF assms] s
    by (cases x) (auto simp: flexiv_stop_def onArm_def onH_def bindS_def sem_simps in_sync_def)
qed

lemma streaming_keeps:
  assumes "arm_modes R hm"
  shows "keepsS (in_sync hm) (flexiv_stream_cartesian R p w)" "keepsS (in_sync hm) (flexiv_stream_joint R q)"
    "keepsS (in_sync hm) (flexiv_set_contact_wrench_limit R v)" "keepsS (in_sync hm) (flexiv_move_gripper R g)"
  unfolding flexiv_stream_cartesian_def flexiv_stream_joint_def flexiv_set_contact_wrench_limit_def flexiv_move_gripper_def
  using assms by (auto intro!: keeps_intros keeps_rdk split: prod.split)

text \<open>A primitive that returns has left the arm in the mode the cache is set to.\<close>

definition near :: "('h \<Rightarrow> control_mode) \<Rightarrow> control_mode \<Rightarrow> 'h flexiv \<Rightarrow> bool" where
  "near hm m b \<longleftrightarrow> hm (fb_hw b) = m \<or> hm (fb_hw b) = IDLE"

lemma near_sync: "near hm m b \<Longrightarrow> in_sync hm (b\<lparr>fb_mode := m\<rparr>)"
  by (auto simp: near_def in_sync_def)

lemma switched:
  assumes "arm_modes R hm"
  shows "wpS (onArm (rk_switch_mode R m)) (\<lambda>_. near hm m) (\<lambda>_ _. True) b"
proof -
  obtain x h' where s: "rk_switch_mode R m (fb_hw b) = (x, h')" by (cases "rk_switch_mode R m (fb_hw b)")
  then show ?thesis
    using arm_switches(2) [OF assms, of m "fb_hw b"]
    by (cases x) (auto simp: wpS_def onArm_def onH_def bindS_def sem_simps near_def)
qed

lemma near_onArm: "keeps_mode hm a \<Longrightarrow> keepsS (near hm m) (onArm a)"
  unfolding keepsS_def near_def
proof (intro allI impI)
  fix b :: "'a flexiv"
  assume a: "keeps_mode hm a" and b: "hm (fb_hw b) = m \<or> hm (fb_hw b) = IDLE"
  obtain x h' where e: "a (fb_hw b) = (x, h')" by (cases "a (fb_hw b)")
  show "hm (fb_hw (snd (onArm a b))) = m \<or> hm (fb_hw (snd (onArm a b))) = IDLE"
    using keeps_mode_D [OF a e] b e by (auto simp: onArm_def onH_def bindS_def sem_simps)
qed

lemma near_running: "arm_modes R hm \<Longrightarrow> keepsS (near hm m) (primitive_running R)"
  unfolding primitive_running_def
  by (auto intro!: keeps_intros near_onArm [OF arm_calls(6)] near_onArm [OF arm_calls(7)] split: option.split)

lemma near_wait: "arm_modes R hm \<Longrightarrow> keepsS (near hm m) (wait_primitive R n)"
  by (induction n) (auto intro!: keeps_intros near_running)

lemma home_syncs:
  assumes "arm_modes R hm" "flexiv_home R polls q b = (Inr u, b')"
  shows "in_sync hm b'"
proof -
  have arm: "keepsS (near hm NRT_PRIMITIVE) (onArm (rk_execute_primitive R ''Home''))"
    "keepsS (near hm NRT_PRIMITIVE) (wait_primitive R polls)"
    by (intro near_onArm near_wait arm_calls assms(1))+
  have "wpS (thenS (onArm (rk_switch_mode R NRT_PRIMITIVE)) (thenS (onArm (rk_execute_primitive R ''Home''))
      (thenS (wait_primitive R polls) (modS (\<lambda>b. b\<lparr>fb_mode := NRT_PRIMITIVE\<rparr>))))) (\<lambda>_. in_sync hm) (\<lambda>_ _. True) b"
    by (subst wpS_then, rule wpS_mono [OF switched [OF assms(1)]], rule keeps_then_wp [OF arm(1)], assumption,
        rule keeps_then_wp [OF arm(2)]) (simp_all add: wpS_modS near_sync)
  then have "wpS (flexiv_home R polls q) (\<lambda>_. in_sync hm) (\<lambda>_ _. True) b"
    by (auto simp: flexiv_home_def switch_mode_def rdk_mode_def wpS_then wpS_bind wpS_base)
  then show ?thesis using assms(2) by (simp add: wpS_def)
qed

lemma zero_syncs:
  assumes "arm_modes R hm" "flexiv_zero_ft_sensor R polls b = (Inr u, b')" "in_sync hm b"
  shows "in_sync hm b'"
proof (cases "rk_has_mode R NRT_PRIMITIVE")
  case True
  have "wpS (run_zero_ft R polls) (\<lambda>_. near hm IDLE) (\<lambda>_ _. True) b"
    unfolding run_zero_ft_def wpS_then
    by (rule wpS_any, rule wpS_any, rule wpS_any, rule switched [OF assms(1)]) simp_all
  then have "wpS (flexiv_zero_ft_sensor R polls) (\<lambda>_. in_sync hm) (\<lambda>_ _. True) b"
    using True unfolding flexiv_zero_ft_sensor_def
    by (auto simp: wpS_then wpS_modS intro: near_sync elim!: wpS_mono)
  then show ?thesis using assms(2) by (simp add: wpS_def)
qed (use assms in \<open>simp add: flexiv_zero_ft_sensor_def sem_simps\<close>)

section \<open>The cached mode\<close>

lemma flexiv_step_sync:
  assumes "flexiv_step R polls hm b b'" "arm_modes R hm" "in_sync hm b"
  shows "in_sync hm b'"
  using assms(1)
proof cases
  case (call op x)
  then show ?thesis
    using home_syncs [OF assms(2)] zero_syncs [OF assms(2) _ assms(3)]
    by (cases op) (auto simp: flexiv_backend_def)
next
  case (plain_call op x)
  have "keepsS (in_sync hm) (run_op (flexiv_backend R polls) op)"
    using plain_call(2) set_mode_keeps [OF assms(2)] streaming_keeps [OF assms(2)] stop_keeps [OF assms(2)]
      keeps_to_unit [OF read_keeps [OF assms(2)]] keeps_to_unit [OF in_fault_keeps [OF assms(2)]]
    by (cases op) (simp_all add: flexiv_backend_def)
  then show ?thesis using assms(3) plain_call(1) by (auto simp: keepsS_def dest: spec [of _ b])
qed (use assms(3) in \<open>auto simp: in_sync_def\<close>)

lemma idle_reported:
  assumes "arm_modes R hm" "in_sync hm b" "hm (fb_hw b) = IDLE" "rk_has_mode R IDLE"
    and "\<And>h e h'. rk_mode R h \<noteq> (Inl e, h')" "flexiv_read_state R b = (Inr s, b')"
  shows "st_control_mode s = IDLE"
proof -
  let ?idle = "\<lambda>b. fb_mode b = IDLE"
  have made: "fb_robot b"
    using assms(6) by (auto simp: flexiv_read_state_def sync_mode_def onArm_def bindS_def sem_simps catchS_def split: if_splits)
  obtain x h' where q: "rk_mode R (fb_hw b) = (x, h')" by (cases "rk_mode R (fb_hw b)")
  then obtain m where m: "x = Inr m" "m = hm h'" using assms(5) arm_switches(4) [OF assms(1)] by (cases x) blast+
  have "hm h' = IDLE" using keeps_mode_D [OF arm_calls(2) [OF assms(1)] q] assms(3) by auto
  then have sync: "wpS (sync_mode R) (\<lambda>_. ?idle) (\<lambda>_. ?idle) b"
    using made q m assms(4) by (auto simp: sync_mode_def wpS_def bindS_def sem_simps catchS_def onArm_def onH_def rdk_mode_def)
  have arm: "keepsS ?idle (onArm a)" "keepsS ?idle (onH a)" for a :: "('a, 'x) sem"
    by (auto simp: keepsS_def onArm_def onH_def bindS_def sem_simps split: prod.split)
  have grip: "keepsS ?idle (read_gripper R)" and fault: "keepsS ?idle (flexiv_in_fault R)"
    unfolding read_gripper_def flexiv_in_fault_def by (auto intro!: keeps_intros arm split: prod.split)
  have "wpS (flexiv_read_state R) (\<lambda>s _. st_control_mode s = IDLE) (\<lambda>_ _. True) b"
    unfolding flexiv_read_state_def wpS_then wpS_bind wpS_base
    by (rule wpS_mono [OF sync], rule wpS_mono [OF keeps_wp [OF arm(1)]], assumption)
      (auto simp: wpS_bind wpS_base split: prod.split intro!: wpS_mono [OF keeps_wp [OF grip]] wpS_mono [OF keeps_wp [OF fault]])
  then show ?thesis using assms(6) by (simp add: wpS_def)
qed


section \<open>A simulated arm\<close>

text \<open>An arm that only has a mode.\<close>

definition demo_states :: rdk_states where
  "demo_states = \<lparr>rs_q = replicate 7 0, rs_dq = replicate 7 0, rs_tau = replicate 7 0,
     rs_tcp_pose = \<lparr>pos = Vec3 (1/2) 0 (3/10), rot = Quat 0 0 1 0\<rparr>, rs_tcp_vel = replicate 6 0, rs_wrench = replicate 6 0\<rparr>"

definition demo_rdk :: "control_mode rdk" where
  "demo_rdk = \<lparr>rk_robot = (\<lambda>_. retS ()), rk_fault = retS False, rk_clear_fault = retS (Some True), rk_enable = retS (),
     rk_operational = retS True, rk_states = retS demo_states, rk_time = (\<lambda>_. 0), rk_has_mode = (\<lambda>_. True),
     rk_mode = getS (\<lambda>m. m), rk_switch_mode = (\<lambda>m. modS (\<lambda>_. m)), rk_execute_primitive = (\<lambda>_. retS ()),
     rk_primitive_states = retS (Some [(''reachedTarget'', ''1'')]), rk_busy = retS False, rk_stop = modS (\<lambda>_. IDLE),
     rk_set_cartesian_impedance = (\<lambda>_ _. retS ()), rk_set_joint_impedance = (\<lambda>_ _. retS ()),
     rk_set_max_contact_wrench = (\<lambda>_. retS ()), rk_set_force_axis = (\<lambda>_. retS ()), rk_set_force_frame = (\<lambda>_. retS ()),
     rk_set_null_space_posture = (\<lambda>_. retS ()),
     rk_cartesian = (\<lambda>rt p w m. if is_cartesian m then (Inr (), m) else (Inl RuntimeError, m)),
     rk_stream_joint = (\<lambda>_ _ _. retS ()), rk_send_joint = (\<lambda>_ _ _ _ _. retS ()), rk_gripper = retS (),
     rk_gripper_enable = (\<lambda>_. retS ()), rk_gripper_init = retS (), rk_gripper_states = retS (0, 0),
     rk_gripper_moving = retS False, rk_grasp = (\<lambda>_. retS ()), rk_move = (\<lambda>_ _ _. retS ())\<rparr>"

lemma demo_arm_modes: "arm_modes demo_rdk (\<lambda>m. m)"
  by (simp add: arm_modes_def keeps_mode_def demo_rdk_def sem_simps)

definition demo_arm :: "control_mode \<Rightarrow> control_mode flexiv" where
  "demo_arm m = (mk_flexiv ''Rizon4s-1'' 7 None False m)\<lparr>fb_robot := True, fb_mode := m, fb_connected := True\<rparr>"


end
