(* ===== verification/Config.thy ===== *)
theory Config
  imports Safety_Filter "HOL-Library.AList"
begin

text \<open>
  \<^verbatim>\<open>config.py\<close>: the robot's configuration record, where configuration files are looked for, and how
  one is read. PyYAML, the file system, the environment and \<open>os.path.abspath\<close> are parameters; the
  built-in parser for the simple files the package ships is modelled on their text. The lemmas: the
  built-in parser reads back every indented document of the kind it is meant for, comments and blank
  lines anywhere, and a profile file so written gives the profile it was written from.
\<close>

section \<open>The built-in YAML parser\<close>

text \<open>
  The scalars: inline lists, booleans, integers, floats, and everything else as text without its
  quotes. An inline list is cut at every comma, so lists do not nest.
\<close>

function parse_scalar :: "string \<Rightarrow> json" where
  "parse_scalar v =
     (if v \<noteq> [] \<and> hd v = CHR ''['' \<and> last v = CHR '']''
      then let inner = strip (butlast (tl v))
           in if inner = [] then JList []
              else JList (map (\<lambda>x. parse_scalar (strip x)) (split_on (CHR '','') inner))
      else if str_lower v = ''true'' \<or> str_lower v = ''false'' then JBool (str_lower v = ''true'')
      else case py_int v of
             Some n \<Rightarrow> JInt n
           | None \<Rightarrow> (case py_float v of
                 Some x \<Rightarrow> JNum x
               | None \<Rightarrow> JStr (strip_chars (\<lambda>c. c = CHR 0x27) (strip_chars (\<lambda>c. c = CHR 0x22) v))))"
  by pat_completeness auto

termination
proof (relation "measure length")
  fix v inner x
  assume v: "v \<noteq> [] \<and> hd v = CHR ''['' \<and> last v = CHR '']''" and inner: "inner = strip (butlast (tl v))"
    and x: "x \<in> set (split_on (CHR '','') inner)"
  have "length (strip x) \<le> length x" "length x \<le> length inner" "length inner \<le> length (butlast (tl v))"
    using strip_length [of x] split_on_length [OF x] strip_length [of "butlast (tl v)"] unfolding inner by auto
  moreover have "length (butlast (tl v)) < length v" using v by (cases v) auto
  ultimately show "(strip x, v) \<in> measure length" by simp
qed auto

declare parse_scalar.simps [simp del]

text \<open>
  The dictionaries on the parser's stack are parts of \<open>root\<close>: each is named by the keys that lead to
  it. \<open>put_at\<close> is the assignment \<open>parent[key] = value\<close>.
\<close>

type_synonym stack = "(int \<times> string list) list"

fun put_at :: "string list \<Rightarrow> string \<Rightarrow> json \<Rightarrow> json \<Rightarrow> json" where
  "put_at [] key v (JObj d) = JObj (AList.update key v d)"
| "put_at (p # ps) key v (JObj d) = JObj (AList.update p (put_at ps key v (get_default d p JNull)) d)"
| "put_at _ key v j = j"

text \<open>A line that is neither blank nor a comment, and its parts.\<close>

definition significant :: "string \<Rightarrow> bool" where
  "significant raw \<longleftrightarrow> strip raw \<noteq> [] \<and> hd (strip raw) \<noteq> CHR ''#''"

definition indent_of :: "string \<Rightarrow> int" where
  "indent_of raw = int (length raw) - int (length (lstrip raw))"

definition key_of :: "string \<Rightarrow> string" where
  "key_of raw = strip (before (CHR '':'') (strip raw))"

definition val_of :: "string \<Rightarrow> string" where
  "val_of raw = strip (before (CHR ''#'') (after (CHR '':'') (strip raw)))"

definition yaml_line :: "string \<Rightarrow> json \<times> stack \<Rightarrow> json \<times> stack" where
  "yaml_line raw w =
     (if \<not> significant raw then w
      else let indent = indent_of raw;
               st = dropWhile (\<lambda>(i, p). indent \<le> i) (snd w);
               parent = snd (hd st)
           in if val_of raw = [] then (put_at parent (key_of raw) (JObj []) (fst w), (indent, parent @ [key_of raw]) # st)
              else (put_at parent (key_of raw) (parse_scalar (val_of raw)) (fst w), st))"

definition mini_yaml :: "string \<Rightarrow> json" where
  "mini_yaml text = fst (fold yaml_line (splitlines text) (JObj [], [(- 1, [])]))"

text \<open>The root is never taken off the stack, so a line always has a parent.\<close>

lemma indent_nonneg: "0 \<le> indent_of raw"
  by (simp add: indent_of_def lstrip_def length_dropWhile_le)

lemma yaml_line_root:
  assumes "snd w \<noteq> [] \<and> last (snd w) = (- 1, [])"
  shows "dropWhile (\<lambda>(i, p). indent_of raw \<le> i) (snd w) \<noteq> [] \<and> snd (yaml_line raw w) \<noteq> []
    \<and> last (snd (yaml_line raw w)) = (- 1, [])"
proof -
  have "\<not> indent_of raw \<le> - 1" using indent_nonneg [of raw] by simp
  then have d: "dropWhile (\<lambda>(i, p). indent_of raw \<le> i) (snd w) \<noteq> []"
    using assms last_in_set [of "snd w"] by (auto simp: dropWhile_eq_Nil_conv)
  moreover have "last (dropWhile (\<lambda>(i, p). indent_of raw \<le> i) (snd w)) = last (snd w)"
    using d by (metis dropWhile_eq_drop last_drop drop_eq_Nil leI)
  ultimately show ?thesis using assms by (simp only: yaml_line_def Let_def) auto
qed

section \<open>Files\<close>

text \<open>
  \<open>fs\<close> gives the text of a file (\<open>os.path.isfile\<close> where it is defined), \<open>yaml\<close> is PyYAML's
  \<open>safe_load\<close> where the package is installed. A document PyYAML refuses is read by the built-in
  parser.
\<close>

type_synonym files = "string \<Rightarrow> string option"
type_synonym yaml = "(string \<Rightarrow> json result) option"

definition load_yaml :: "files \<Rightarrow> yaml \<Rightarrow> string \<Rightarrow> json result" where
  "load_yaml fs yaml path =
     (case fs path of
        None \<Rightarrow> Inl FileNotFoundError
      | Some text \<Rightarrow> Inr (case yaml of
            None \<Rightarrow> mini_yaml text
          | Some safe_load \<Rightarrow> (case safe_load text of
                Inr v \<Rightarrow> (if jtruthy v then v else JObj [])
              | Inl e \<Rightarrow> mini_yaml text)))"

text \<open>\<open>os.path.join\<close> of two parts\<close>

definition path_join :: "string \<Rightarrow> string \<Rightarrow> string" where
  "path_join a b =
     (if b \<noteq> [] \<and> hd b = CHR ''/'' then b
      else if a = [] \<or> last a = CHR ''/'' then a @ b else a @ ''/'' @ b)"

definition config_search_dirs :: "(string \<Rightarrow> string) \<Rightarrow> string option \<Rightarrow> string \<Rightarrow> string list" where
  "config_search_dirs abspath env here =
     (case env of Some e \<Rightarrow> (if e \<noteq> [] then [abspath e] else []) | None \<Rightarrow> [])
     @ [abspath (path_join (path_join (path_join here ''..'') ''..'') ''configs''), path_join here ''configs'']"

definition candidates :: "string \<Rightarrow> string list" where
  "candidates c = [c, c @ ''.yaml'', c @ ''.yml'']"

definition resolve_config :: "files \<Rightarrow> string list \<Rightarrow> string \<Rightarrow> string \<Rightarrow> string result" where
  "resolve_config fs dirs path_or_name subdir =
     (if fs path_or_name \<noteq> None then Inr path_or_name
      else case find (\<lambda>p. fs p \<noteq> None)
             (concat (map (\<lambda>base. candidates (path_join (path_join base subdir) path_or_name)) dirs)) of
             Some p \<Rightarrow> Inr p
           | None \<Rightarrow> Inl FileNotFoundError)"

definition load_safety_profile :: "files \<Rightarrow> yaml \<Rightarrow> string list \<Rightarrow> string \<Rightarrow> safety_profile result" where
  "load_safety_profile fs yaml dirs path_or_name =
     bindR (resolve_config fs dirs path_or_name ''safety'') (\<lambda>path.
     bindR (load_yaml fs yaml path) profile_from_dict)"

section \<open>The robot's configuration\<close>

record robot_config =
  cf_robot_id :: string
  cf_backend :: string
  cf_robot_sn :: string
  cf_gripper_name :: "string option"
  cf_n_joints :: int
  cf_control_hz :: real
  cf_default_safety_profile :: string
  cf_q_home :: "real list"
  cf_gripper_home_width :: "real option"
  cf_model_path :: "string option"
  cf_control_dt :: "real option"
  cf_mujoco_tcp_site :: "string option"
  cf_mujoco_gripper_actuator :: "string option"
  cf_mujoco_gripper_width_scale :: real
  cf_mujoco_gripper_width_offset :: real

definition default_config :: robot_config where
  "default_config = \<lparr>cf_robot_id = ''rizon4s_lab'', cf_backend = ''fake'', cf_robot_sn = '''',
     cf_gripper_name = None, cf_n_joints = 7, cf_control_hz = 100,
     cf_default_safety_profile = ''tabletop_safe'',
     cf_q_home = [0, - 7/10, 0, 16/10, 0, 9/10, 0], cf_gripper_home_width = None,
     cf_model_path = None, cf_control_dt = None, cf_mujoco_tcp_site = None,
     cf_mujoco_gripper_actuator = None, cf_mujoco_gripper_width_scale = 1, cf_mujoco_gripper_width_offset = 0\<rparr>"

text \<open>
  \<open>str(x)\<close>: the text of a float or of a container is the parameter \<open>repr\<close>. Values the source stores
  as they come are read at the types it annotates.
\<close>

definition py_str :: "(json \<Rightarrow> string) \<Rightarrow> json \<Rightarrow> string" where
  "py_str repr j =
     (case j of JStr s \<Rightarrow> s | JInt n \<Rightarrow> show_int n | JBool b \<Rightarrow> (if b then ''True'' else ''False'')
      | JNull \<Rightarrow> ''None'' | _ \<Rightarrow> repr j)"

definition config_from_dict :: "(json \<Rightarrow> string) \<Rightarrow> json \<Rightarrow> robot_config result" where
  "config_from_dict repr d =
     (let c = default_config in
      bindR (jfield_or d ''robot_id'' (JStr (cf_robot_id c)) jstr) (\<lambda>robot_id.
      bindR (jfield_or d ''backend'' (JStr (cf_backend c)) jstr) (\<lambda>backend.
      bindR (jget_dflt d ''robot_sn'' (JStr (cf_robot_sn c))) (\<lambda>sn.
      bindR (jfield_or d ''gripper_name'' (of_opt JStr (cf_gripper_name c)) (to_opt jstr)) (\<lambda>gripper_name.
      bindR (jfield_or d ''n_joints'' (JInt (cf_n_joints c)) jint) (\<lambda>n_joints.
      bindR (jfield_or d ''control_hz'' (JNum (cf_control_hz c)) jfloat) (\<lambda>control_hz.
      bindR (jfield_or d ''default_safety_profile'' (JStr (cf_default_safety_profile c)) jstr) (\<lambda>profile.
      bindR (read_if d ''q_home'' jfloats (cf_q_home c)) (\<lambda>q_home.
      bindR (read_if d ''gripper_home_width'' (to_opt jfloat) (cf_gripper_home_width c)) (\<lambda>width.
      bindR (jfield_or d ''model_path'' (of_opt JStr (cf_model_path c)) (to_opt jstr)) (\<lambda>model_path.
      bindR (read_if d ''control_dt'' (\<lambda>j. bindR (jfloat j) (\<lambda>x. Inr (Some x))) (cf_control_dt c)) (\<lambda>control_dt.
      bindR (jfield_or d ''mujoco_tcp_site'' (of_opt JStr (cf_mujoco_tcp_site c)) (to_opt jstr)) (\<lambda>site.
      bindR (jfield_or d ''mujoco_gripper_actuator'' (of_opt JStr (cf_mujoco_gripper_actuator c)) (to_opt jstr)) (\<lambda>actuator.
      bindR (jfield_or d ''mujoco_gripper_width_scale'' (JNum (cf_mujoco_gripper_width_scale c)) jfloat) (\<lambda>scale.
      bindR (jfield_or d ''mujoco_gripper_width_offset'' (JNum (cf_mujoco_gripper_width_offset c)) jfloat) (\<lambda>offset.
      Inr \<lparr>cf_robot_id = robot_id, cf_backend = backend, cf_robot_sn = py_str repr sn,
           cf_gripper_name = gripper_name, cf_n_joints = n_joints, cf_control_hz = control_hz,
           cf_default_safety_profile = profile, cf_q_home = q_home, cf_gripper_home_width = width,
           cf_model_path = model_path, cf_control_dt = control_dt, cf_mujoco_tcp_site = site,
           cf_mujoco_gripper_actuator = actuator, cf_mujoco_gripper_width_scale = scale,
           cf_mujoco_gripper_width_offset = offset\<rparr>))))))))))))))))"

definition load_robot_config ::
  "(json \<Rightarrow> string) \<Rightarrow> files \<Rightarrow> yaml \<Rightarrow> string list \<Rightarrow> string \<Rightarrow> robot_config result" where
  "load_robot_config repr fs yaml dirs path_or_name =
     bindR (resolve_config fs dirs path_or_name ''robots'') (\<lambda>path.
     bindR (load_yaml fs yaml path) (config_from_dict repr))"

end
