(* ===== verification/Robot_Facade.thy ===== *)
theory Robot_Facade
  imports Backend Config
begin

text \<open>
  \<^verbatim>\<open>robot.py\<close>: the \<open>Robot\<close> object over any backend. The world \<open>'b robot\<close> is the object's
  attributes, the backend's own state and the stop requests other threads will make:
  \<open>r_requests n\<close> says that a request arrives before the \<open>n\<close>-th time the object polls its cancel
  event. Pacing sleeps have no effect on this state; clock readings that end up in results are
  arguments.
\<close>

section \<open>The object\<close>

record 'b robot =
  r_cfg :: robot_config
  r_hz :: real
  r_dt :: real
  r_b :: 'b
  r_owner :: "string option"
  r_profile :: safety_profile
  r_filter :: safety_filter
  r_cancel :: bool
  r_last_state :: "robot_state option"
  r_requests :: "nat \<Rightarrow> bool"
  r_polls :: nat

text \<open>
  The constructor. The profile files are not code: \<open>load\<close> gives the profile a name resolves to.
\<close>

definition mk_robot ::
  "(string \<Rightarrow> safety_profile result) \<Rightarrow> (nat \<Rightarrow> bool) \<Rightarrow> robot_config \<Rightarrow> 'b \<Rightarrow> real option \<Rightarrow>
   string option \<Rightarrow> 'b robot result" where
  "mk_robot load requests cfg b control_hz safety_profile =
     (let hz = (case control_hz of Some h \<Rightarrow> (if h = 0 then cf_control_hz cfg else h)
                | None \<Rightarrow> cf_control_hz cfg);
          name = (case safety_profile of Some n \<Rightarrow> (if n = '''' then cf_default_safety_profile cfg else n)
                  | None \<Rightarrow> cf_default_safety_profile cfg)
      in if hz = 0 then Inl ZeroDivisionError
         else bindR (load name) (\<lambda>p.
           Inr \<lparr>r_cfg = cfg, r_hz = hz, r_dt = 1 / hz, r_b = b, r_owner = None, r_profile = p,
                r_filter = mk_filter p (1 / hz), r_cancel = False, r_last_state = None,
                r_requests = requests, r_polls = 0\<rparr>))"

text \<open>Operations of the backend and of the filter, on the object.\<close>

definition onB :: "('b, 'a) sem \<Rightarrow> ('b robot, 'a) sem" where
  "onB m r = (case m (r_b r) of (x, b') \<Rightarrow> (x, r\<lparr>r_b := b'\<rparr>))"

definition onF :: "(safety_filter, 'a) sem \<Rightarrow> ('b robot, 'a) sem" where
  "onF m r = (case m (r_filter r) of (x, f') \<Rightarrow> (x, r\<lparr>r_filter := f'\<rparr>))"

definition robot_connect :: "'b backend \<Rightarrow> ('b robot, unit) sem" where
  "robot_connect B = onB (bk_connect B)"

definition robot_disconnect :: "'b backend \<Rightarrow> ('b robot, unit) sem" where
  "robot_disconnect B = onB (bk_disconnect B)"

definition robot_acquire_lease :: "string \<Rightarrow> ('b robot, unit) sem" where
  "robot_acquire_lease owner =
     bindS (getS r_owner) (\<lambda>cur.
       if cur \<noteq> None \<and> cur \<noteq> Some owner then raiseS LeaseError
       else modS (\<lambda>r. r\<lparr>r_owner := Some owner\<rparr>))"

definition robot_release_lease :: "('b robot, unit) sem" where
  "robot_release_lease = modS (\<lambda>r. r\<lparr>r_owner := None\<rparr>)"

definition auto_lease :: "('b robot, unit) sem" where
  "auto_lease = modS (\<lambda>r. if r_owner r = None then r\<lparr>r_owner := Some ''default''\<rparr> else r)"

definition robot_set_profile ::
  "(string \<Rightarrow> safety_profile result) \<Rightarrow> string \<Rightarrow> ('b robot, unit) sem" where
  "robot_set_profile load name =
     bindS (liftS (load name)) (\<lambda>p.
       modS (\<lambda>r. r\<lparr>r_profile := p, r_filter := set_profile p (r_filter r)\<rparr>))"

definition get_state :: "'b backend \<Rightarrow> ('b robot, robot_state) sem" where
  "get_state B =
     bindS (onB (bk_read_state B)) (\<lambda>s.
     thenS (modS (\<lambda>r. r\<lparr>r_last_state := Some s\<rparr>)) (retS s))"

definition peek_state :: "'b robot \<Rightarrow> robot_state option" where
  "peek_state r = r_last_state r"

definition start_cartesian_impedance ::
  "'b backend \<Rightarrow> impedance_params option \<Rightarrow> bool \<Rightarrow> force_control_params option \<Rightarrow> real list option
   \<Rightarrow> ('b robot, unit) sem" where
  "start_cartesian_impedance B impedance realtime force_control nullspace_q =
     bindS (getS (\<lambda>r. \<lparr>mo_impedance = Some (case impedance of Some i \<Rightarrow> i | None \<Rightarrow> default_impedance),
                       mo_joint_impedance = None, mo_force_control = force_control,
                       mo_nullspace_q = Some (case nullspace_q of Some q \<Rightarrow> q | None \<Rightarrow> cf_q_home (r_cfg r)),
                       mo_max_contact_wrench = Some (p_max_contact_wrench (r_profile r))\<rparr>)) (\<lambda>opts.
     onB (bk_set_mode B (if realtime then RT_CARTESIAN_MOTION_FORCE else NRT_CARTESIAN_MOTION_FORCE) opts))"

definition start_joint_impedance ::
  "'b backend \<Rightarrow> joint_impedance_params option \<Rightarrow> bool \<Rightarrow> ('b robot, unit) sem" where
  "start_joint_impedance B joint_impedance realtime =
     onB (bk_set_mode B (if realtime then RT_JOINT_IMPEDANCE else NRT_JOINT_IMPEDANCE)
       (no_opts\<lparr>mo_joint_impedance :=
          Some (case joint_impedance of Some j \<Rightarrow> j | None \<Rightarrow> default_joint_impedance)\<rparr>))"

text \<open>The cooperative cancel event, as the executing thread and as the others see it.\<close>

definition poll_cancel :: "('b robot, bool) sem" where
  "poll_cancel =
     thenS (modS (\<lambda>r. r\<lparr>r_cancel := r_cancel r \<or> r_requests r (r_polls r), r_polls := Suc (r_polls r)\<rparr>))
       (getS r_cancel)"

definition clear_stop :: "('b robot, unit) sem" where
  "clear_stop = modS (\<lambda>r. r\<lparr>r_cancel := False\<rparr>)"

definition request_stop :: "('b robot, unit) sem" where
  "request_stop = modS (\<lambda>r. r\<lparr>r_cancel := True\<rparr>)"

definition robot_stop :: "'b backend \<Rightarrow> ('b robot, unit) sem" where
  "robot_stop B = thenS request_stop (onB (bk_stop B))"

section \<open>The chunk envelope\<close>

text \<open>A report that the run failed for a reason.\<close>

definition failed :: "string \<Rightarrow> exec_result \<Rightarrow> exec_result" where
  "failed reason res = res\<lparr>er_success := False, er_stop_reason := reason\<rparr>"

definition verify_chunk_profile :: "string \<Rightarrow> exec_result \<Rightarrow> ('b robot, exec_result) sem" where
  "verify_chunk_profile requested res =
     bindS (getS (\<lambda>r. p_name (r_profile r))) (\<lambda>active.
       if requested \<noteq> '''' \<and> requested \<noteq> active then raiseS ValueError
       else retS (log_put ''active_profile'' (JStr active)
                   (log_put ''requested_profile'' (JStr requested) res)))"

text \<open>
  The effective contact cap with the log entry and whether the allowance relaxed it.
\<close>

definition effective_wrench ::
  "safety_profile \<Rightarrow> chunk \<Rightarrow> exec_result \<Rightarrow> (real list \<times> bool \<times> exec_result) result" where
  "effective_wrench p c res =
     bindR (case ck_contact_wrench_allowance c of
              None \<Rightarrow> Inr (p_max_contact_wrench p, False, res)
            | Some a \<Rightarrow>
                bindR (np_map2 min a (p_max_wrench_allowance p)) (\<lambda>allow.
                  if list_ex (\<lambda>x. 0 < x) allow
                  then bindR (np_map2 (+) (p_max_contact_wrench p) allow) (\<lambda>w.
                         Inr (w, True, log_put ''contact_wrench_allowance'' (of_floats allow) res))
                  else Inr (p_max_contact_wrench p, False, res)))
       (\<lambda>(w, relaxed, res).
          case ck_max_contact_wrench c of
            None \<Rightarrow> Inr (w, relaxed, res)
          | Some cw \<Rightarrow> bindR (np_map2 min w cw) (\<lambda>w'. Inr (w', relaxed, res)))"

definition chunk_wrench :: "chunk \<Rightarrow> real list option" where
  "chunk_wrench c =
     (case ck_force_control c of
        None \<Rightarrow> None
      | Some fc \<Rightarrow> (if True \<in> set (fc_enabled_axes fc) then Some (fc_target_wrench fc) else None))"

section \<open>The Cartesian executor\<close>

definition GRIP_GATE_SETTLE_S :: real where
  "GRIP_GATE_SETTLE_S = 35 / 100"

text \<open>
  The local variables of the tick loop; \<open>x_seg\<close> is the interpolator's \<open>current_segment\<close>.
\<close>

record locals =
  x_result :: exec_result
  x_max_err :: real
  x_max_speed :: real
  x_max_wrench :: real
  x_prev_pos :: vec3
  x_prev_cmd_pos :: "vec3 option"
  x_close_aborted :: bool
  x_close_issued :: bool
  x_pending_close :: "(gripper_command \<times> int) option"
  x_tick :: int
  x_seg :: nat
  x_trajectory :: "json list"

text \<open>What stays fixed during the loop.\<close>

record exec_env =
  e_chunk :: chunk
  e_wrench_cap :: "real list"
  e_record :: bool
  e_clock :: "int \<Rightarrow> real"

definition stop_run :: "'b backend \<Rightarrow> string \<Rightarrow> locals \<Rightarrow> ('b robot, locals \<times> bool) sem" where
  "stop_run B reason x =
     thenS (onB (bk_stop B)) (retS (x\<lparr>x_result := failed reason (x_result x)\<rparr>, False))"

definition gate_m :: "chunk \<Rightarrow> real" where
  "gate_m c = (case ck_grip_tracking_gate_m c of Some g \<Rightarrow> g | None \<Rightarrow> 0)"

text \<open>\<open>_try_fire_close\<close>: evaluated only for a deferred close, so the gate is set.\<close>

definition try_fire_close ::
  "'b backend \<Rightarrow> exec_env \<Rightarrow> gripper_command \<Rightarrow> robot_state \<Rightarrow> locals \<Rightarrow> ('b robot, locals) sem" where
  "try_fire_close B env g st x =
     (let err_now = (case x_prev_cmd_pos x of Some p \<Rightarrow> norm (p - tcp_position st) | None \<Rightarrow> 0)
      in if x_close_aborted x \<or> er_clipped (x_result x) \<or> gate_m (e_chunk env) < err_now
         then retS (if x_close_aborted x then x
                    else x\<lparr>x_close_aborted := True,
                           x_result := log_put ''close_aborted''
                             (JObj [(''segment'', JInt (int (x_seg x))), (''tracking_error_m'', JNum err_now),
                                    (''gate_m'', JNum (gate_m (e_chunk env))),
                                    (''clipped'', JBool (er_clipped (x_result x)))]) (x_result x)\<rparr>)
         else thenS (onB (bk_move_gripper B g)) (retS (x\<lparr>x_close_issued := True\<rparr>)))"

definition is_closing :: "gripper_command \<Rightarrow> robot_state \<Rightarrow> bool" where
  "is_closing g st =
     (g_grasp g \<or> (1 / 10^6 < st_gripper_width st \<and> g_width g < st_gripper_width st - 1 / 10^3))"

definition settle_ticks :: "real \<Rightarrow> int \<Rightarrow> int" where
  "settle_ticks hz segment_ticks' = min (py_round (GRIP_GATE_SETTLE_S * hz)) (max 1 (segment_ticks' div 2))"

text \<open>The deferred close whose window elapsed.\<close>

definition resolve_pending ::
  "'b backend \<Rightarrow> exec_env \<Rightarrow> robot_state \<Rightarrow> locals \<Rightarrow> ('b robot, locals) sem" where
  "resolve_pending B env st x =
     (case x_pending_close x of
        None \<Rightarrow> retS x
      | Some (g, fire_at) \<Rightarrow>
          (if fire_at \<le> x_tick x then try_fire_close B env g st (x\<lparr>x_pending_close := None\<rparr>) else retS x))"

text \<open>The gripper command of a setpoint, with the close-intent gate.\<close>

definition handle_grip ::
  "'b backend \<Rightarrow> exec_env \<Rightarrow> int \<Rightarrow> robot_state \<Rightarrow> gripper_command \<Rightarrow> locals \<Rightarrow> ('b robot, locals) sem" where
  "handle_grip B env seg_ticks st grip x =
     (let closing = is_closing grip st;
          gate_active = (ck_grip_tracking_gate_m (e_chunk env) \<noteq> None
                         \<and> \<not> (g_grasp grip \<and> x_close_issued x))
      in if closing \<and> gate_active
         then if x_close_aborted x then retS x
              else bindS (case x_pending_close x of
                            Some (g, _) \<Rightarrow> try_fire_close B env g st (x\<lparr>x_pending_close := None\<rparr>)
                          | None \<Rightarrow> retS x)
                     (\<lambda>x. bindS (getS r_hz) (\<lambda>hz.
                        retS (x\<lparr>x_pending_close := Some (grip, x_tick x + settle_ticks hz seg_ticks)\<rparr>)))
         else thenS (onB (bk_move_gripper B grip))
                (retS (x\<lparr>x_close_issued := x_close_issued x \<or> closing\<rparr>)))"

text \<open>The row recorded for a tick and the bookkeeping after it.\<close>

definition record_row :: "exec_env \<Rightarrow> pose \<Rightarrow> robot_state \<Rightarrow> locals \<Rightarrow> locals" where
  "record_row env cmd st x =
     (if e_record env
      then x\<lparr>x_trajectory := x_trajectory x @
               [of_floats (e_clock env (x_tick x) # of_pose cmd @ of_pose (st_tcp_pose st) @ st_wrench st)]\<rparr>
      else x)"

definition bookkeeping :: "real \<Rightarrow> pose \<Rightarrow> robot_state \<Rightarrow> locals \<Rightarrow> locals result" where
  "bookkeeping dt cmd st x =
     bindR (np_max_abs (st_wrench st)) (\<lambda>w.
       Inr (x\<lparr>x_max_err := (case x_prev_cmd_pos x of
                               Some p \<Rightarrow> max (x_max_err x) (norm (p - tcp_position st))
                             | None \<Rightarrow> x_max_err x),
              x_max_speed := max (x_max_speed x) (norm (tcp_position st - x_prev_pos x) / dt),
              x_max_wrench := max (x_max_wrench x) w,
              x_prev_pos := tcp_position st,
              x_prev_cmd_pos := Some (pos cmd)\<rparr>))"

text \<open>
  The part of a tick after the safety filter accepted the setpoint.
\<close>

definition stream_tick ::
  "'b backend \<Rightarrow> exec_env \<Rightarrow> setpoint \<Rightarrow> robot_state \<Rightarrow> pose \<Rightarrow> locals \<Rightarrow> ('b robot, locals \<times> bool) sem" where
  "stream_tick B env sp st cmd x =
     thenS (onB (bk_stream_cartesian B cmd (chunk_wrench (e_chunk env))))
       (bindS (resolve_pending B env st x) (\<lambda>x.
        bindS (case sp_grip sp of
                 Some grip \<Rightarrow> handle_grip B env (sp_segment_ticks sp) st grip x
               | None \<Rightarrow> retS x) (\<lambda>x.
        bindS (getS r_dt) (\<lambda>dt.
        bindS (liftS (bookkeeping dt cmd st (record_row env cmd st x))) (\<lambda>x.
        retS (x, True))))))"

text \<open>The safety filter's verdict on a setpoint, and what follows.\<close>

definition filter_tick ::
  "'b backend \<Rightarrow> exec_env \<Rightarrow> setpoint \<Rightarrow> robot_state \<Rightarrow> locals \<Rightarrow> ('b robot, locals \<times> bool) sem" where
  "filter_tick B env sp st x =
     bindS (onF (filter_cartesian (sp_pose sp) st (Some (e_wrench_cap env)))) (\<lambda>sr.
       case sr_pose sr of
         Some cmd \<Rightarrow>
           (if \<not> sr_ok sr then stop_run B (reason_value (sr_reason sr)) x
            else stream_tick B env sp st cmd
                   (if sr_clipped sr
                    then x\<lparr>x_result := (x_result x)\<lparr>er_clipped := True\<rparr>\<rparr> else x))
       | None \<Rightarrow> stop_run B (reason_value (sr_reason sr)) x)"

definition chunk_tick ::
  "'b backend \<Rightarrow> exec_env \<Rightarrow> setpoint \<Rightarrow> locals \<Rightarrow> ('b robot, locals \<times> bool) sem" where
  "chunk_tick B env sp x0 =
     (let x = x0\<lparr>x_tick := x_tick x0 + 1, x_seg := sp_segment sp\<rparr> in
      bindS poll_cancel (\<lambda>cancelled.
        if cancelled then thenS clear_stop (stop_run B ''user'' x)
        else
          bindS (get_state B) (\<lambda>st.
          bindS (onB (bk_in_fault B)) (\<lambda>fault.
            if fault then stop_run B ''backend_fault'' x
            else
              bindS (liftS (np_any_abs_gt (st_wrench st) (e_wrench_cap env))) (\<lambda>over.
                if over then stop_run B ''contact_wrench'' x
                else filter_tick B env sp st x)))))"

fun chunk_loop ::
  "'b backend \<Rightarrow> exec_env \<Rightarrow> setpoint result list \<Rightarrow> locals \<Rightarrow> ('b robot, locals) sem" where
  "chunk_loop B env [] x = retS x"
| "chunk_loop B env (Inl e # sps) x = raiseS e"
| "chunk_loop B env (Inr sp # sps) x =
     bindS (chunk_tick B env sp x) (\<lambda>(x, go). if go then chunk_loop B env sps x else retS x)"

text \<open>After the loop: a close still pending is resolved on success and aborted after a stop.\<close>

definition finish_pending :: "'b backend \<Rightarrow> exec_env \<Rightarrow> locals \<Rightarrow> ('b robot, locals) sem" where
  "finish_pending B env x0 =
     (case x_pending_close x0 of
        None \<Rightarrow> retS x0
      | Some (g, _) \<Rightarrow>
          (let x = x0\<lparr>x_pending_close := None\<rparr> in
           if er_success (x_result x)
           then bindS (get_state B) (\<lambda>st. try_fire_close B env g st x)
           else retS (if x_close_aborted x then x
                      else x\<lparr>x_close_aborted := True,
                             x_result := log_put ''close_aborted''
                               (JObj [(''segment'', JInt (int (x_seg x))),
                                      (''reason'', JStr (''chunk_stopped:'' @ er_stop_reason (x_result x))),
                                      (''gate_m'', JNum (gate_m (e_chunk env))),
                                      (''clipped'', JBool (er_clipped (x_result x)))]) (x_result x)\<rparr>)))"

text \<open>\<open>finally\<close>: the firmware guard is re-armed with the profile's cap; a failure is logged.\<close>

definition mark_restore_failed :: "locals result \<Rightarrow> locals result" where
  "mark_restore_failed r =
     (case r of
        Inr x \<Rightarrow> Inr (x\<lparr>x_result := log_put ''wrench_restore_failed'' (JBool True) (x_result x)\<rparr>)
      | Inl e \<Rightarrow> Inl e)"

definition restore_wrench ::
  "'b backend \<Rightarrow> bool \<Rightarrow> locals result \<Rightarrow> ('b robot, locals result) sem" where
  "restore_wrench B relaxed r =
     (if relaxed
      then catchS (bindS (getS (\<lambda>s. p_max_contact_wrench (r_profile s))) (\<lambda>w.
                     thenS (onB (bk_set_contact_wrench_limit B w)) (retS r)))
             (\<lambda>e. retS (mark_restore_failed r))
      else retS r)"

definition raise_if_stopped :: "bool \<Rightarrow> exec_result \<Rightarrow> ('b robot, exec_result) sem" where
  "raise_if_stopped raise_on_stop res =
     (if raise_on_stop \<and> \<not> er_success res then raiseS ChunkStoppedError else retS res)"

text \<open>A stop already pending at entry aborts this chunk and is consumed.\<close>

definition abort_at_entry :: "'b backend \<Rightarrow> bool \<Rightarrow> ('b robot, exec_result) sem" where
  "abort_at_entry B raise_on_stop =
     thenS clear_stop
       (bindS (get_state B) (\<lambda>st.
          raise_if_stopped raise_on_stop
            ((log_put ''aborted_at_entry'' (JBool True) (failed ''user'' fresh_result))
               \<lparr>er_final_state := Some st\<rparr>)))"

definition fresh_locals :: "exec_result \<Rightarrow> robot_state \<Rightarrow> locals" where
  "fresh_locals res start = \<lparr>x_result = res, x_max_err = 0, x_max_speed = 0, x_max_wrench = 0,
     x_prev_pos = tcp_position start, x_prev_cmd_pos = None, x_close_aborted = False,
     x_close_issued = False, x_pending_close = None, x_tick = 0, x_seg = 0, x_trajectory = []\<rparr>"

definition final_report :: "exec_env \<Rightarrow> robot_state \<Rightarrow> robot_state \<Rightarrow> locals \<Rightarrow> exec_result" where
  "final_report env start end' x =
     (let res = (x_result x)\<lparr>er_executed_duration := st_stamp end' - st_stamp start,
                  er_path_tracking_error := x_max_err x, er_max_tcp_speed := x_max_speed x,
                  er_max_wrench := x_max_wrench x, er_gripper_width_final := st_gripper_width end',
                  er_final_state := Some end'\<rparr>;
          res = (if e_record env then log_put ''trajectory'' (JList (x_trajectory x)) res else res)
      in if er_success res then res
         else log_put ''stopped_at_waypoint'' (JInt (int (x_seg x))) res)"

record exec_args =
  xa_raise_on_stop :: bool
  xa_record :: bool
  xa_clock :: "int \<Rightarrow> real"

definition default_args :: exec_args where
  "default_args = \<lparr>xa_raise_on_stop = False, xa_record = False, xa_clock = (\<lambda>_. 0)\<rparr>"

text \<open>The start of a run: the mode, the start state and the filter anchored on it.\<close>

definition enter_cartesian ::
  "'b backend \<Rightarrow> chunk \<Rightarrow> exec_result \<Rightarrow> ('b robot, robot_state \<times> exec_result) sem" where
  "enter_cartesian B c res =
     bindS (get_state B) (\<lambda>start.
     bindS (if is_cartesian (st_control_mode start) then retS (start, res)
            else thenS (start_cartesian_impedance B (Some (ck_impedance c)) False None None)
                   (bindS (get_state B) (\<lambda>start.
                      retS (start, log_put ''mode_autostarted'' (JBool True) res))))
       (\<lambda>(start, res). thenS (modS (\<lambda>r. r\<lparr>r_filter := reset (Some start) None None (r_filter r)\<rparr>))
                          (retS (start, res))))"

text \<open>The run itself, from the start state.\<close>

definition run_chunk ::
  "'b backend \<Rightarrow> exec_args \<Rightarrow> chunk \<Rightarrow> robot_state \<Rightarrow> exec_result \<Rightarrow> ('b robot, exec_result) sem" where
  "run_chunk B args c0 start res =
     bindS (liftS (for_execution c0 (st_tcp_pose start))) (\<lambda>c.
     bindS (getS r_profile) (\<lambda>p.
     (let lin_cap = tighten (p_max_linear_speed p) (ck_max_tcp_linear_speed c);
          ang_cap = tighten (p_max_angular_speed p) (ck_max_tcp_angular_speed c);
          res = log_put ''angular_speed_cap'' (JNum ang_cap) (log_put ''linear_speed_cap'' (JNum lin_cap) res)
      in bindS (liftS (effective_wrench p c res)) (\<lambda>(wrench_cap, relaxed, res).
         bindS (getS r_hz) (\<lambda>hz.
         bindS (liftS (mk_cart_interp c (st_tcp_pose start) hz (Some lin_cap) (Some ang_cap))) (\<lambda>interp.
         thenS (if relaxed then onB (bk_set_contact_wrench_limit B wrench_cap) else retS ())
           (let env = \<lparr>e_chunk = c, e_wrench_cap = wrench_cap, e_record = xa_record args,
                       e_clock = xa_clock args\<rparr>
            in bindS (finallyS (bindS (chunk_loop B env (interp_iter interp) (fresh_locals res start))
                                  (finish_pending B env))
                        (restore_wrench B relaxed))
                 (\<lambda>x. bindS (get_state B) (\<lambda>end'.
                        raise_if_stopped (xa_raise_on_stop args) (final_report env start end' x))))))))))"

definition execute_cartesian_chunk ::
  "'b backend \<Rightarrow> exec_args \<Rightarrow> chunk \<Rightarrow> ('b robot, exec_result) sem" where
  "execute_cartesian_chunk B args c =
     thenS auto_lease
       (bindS poll_cancel (\<lambda>cancelled.
          if cancelled then abort_at_entry B (xa_raise_on_stop args)
          else bindS (verify_chunk_profile (ck_safety_profile c) fresh_result) (\<lambda>res.
               bindS (enter_cartesian B c res) (\<lambda>(start, res). run_chunk B args c start res))))"

section \<open>Servo moves\<close>

definition servo_cartesian_delta ::
  "'b backend \<Rightarrow> cartesian_delta \<Rightarrow> ('b robot, exec_result) sem" where
  "servo_cartesian_delta B d =
     thenS auto_lease
       (bindS (get_state B) (\<lambda>st.
        bindS (liftS (delta_to_target_pose d (st_tcp_pose st))) (\<lambda>target.
        bindS (liftS (mk_waypoint (of_vec3 (pos target)) (Some (of_quat (rot target))) (cd_gripper d)
                        None (Some (cd_duration d)) (cd_frame d))) (\<lambda>wp.
        bindS (getS (\<lambda>r. p_name (r_profile r))) (\<lambda>name.
        bindS (liftS (chunk_post_init ((chunk_of [wp])\<lparr>ck_frame := cd_frame d, ck_safety_profile := name\<rparr>)))
          (execute_cartesian_chunk B default_args))))))"

text \<open>A raw 6-vector becomes a delta over \<open>duration or dt\<close>.\<close>

definition servo_cartesian_delta_raw ::
  "'b backend \<Rightarrow> real list \<Rightarrow> real option \<Rightarrow> string \<Rightarrow> gripper_command option \<Rightarrow> ('b robot, exec_result) sem" where
  "servo_cartesian_delta_raw B delta duration frame gripper =
     thenS auto_lease
       (bindS (getS r_dt) (\<lambda>dt.
        bindS (liftS (to_delta6 delta)) (\<lambda>d6.
          servo_cartesian_delta B \<lparr>cd_delta = d6, cd_gripper = gripper,
            cd_duration = (case duration of Some d \<Rightarrow> (if d = 0 then dt else d) | None \<Rightarrow> dt),
            cd_frame = frame\<rparr>)))"

definition servo_cartesian_pose ::
  "'b backend \<Rightarrow> real list \<Rightarrow> real \<Rightarrow> gripper_command option \<Rightarrow> ('b robot, exec_result) sem" where
  "servo_cartesian_pose B target duration gripper =
     bindS (liftS (to_pose target)) (\<lambda>p.
     bindS (liftS (mk_waypoint (of_vec3 (pos p)) (Some (of_quat (rot p))) gripper None (Some duration) ''base''))
       (\<lambda>wp.
     bindS (getS (\<lambda>r. p_name (r_profile r))) (\<lambda>name.
     bindS (liftS (chunk_post_init ((chunk_of [wp])\<lparr>ck_safety_profile := name\<rparr>)))
       (execute_cartesian_chunk B default_args))))"

section \<open>The joint executor\<close>

definition joint_move_duration ::
  "real list \<Rightarrow> real list \<Rightarrow> real option \<Rightarrow> real option \<Rightarrow> real result" where
  "joint_move_duration q_now q_target duration max_joint_speed =
     (case duration of
        Some d \<Rightarrow> Inr d
      | None \<Rightarrow>
          (case max_joint_speed of
             Some v \<Rightarrow>
               (if 0 < v
                then bindR (np_map2 (-) q_target q_now) (\<lambda>diff.
                     bindR (np_max_abs diff) (\<lambda>dq. Inr (max 1 (dq / v))))
                else Inr 3)
           | None \<Rightarrow> Inr 3))"

definition stop_joint :: "'b backend \<Rightarrow> string \<Rightarrow> exec_result \<Rightarrow> ('b robot, exec_result \<times> bool) sem" where
  "stop_joint B reason res = thenS (onB (bk_stop B)) (retS (failed reason res, False))"

definition joint_tick ::
  "'b backend \<Rightarrow> real list \<Rightarrow> exec_result \<Rightarrow> ('b robot, exec_result \<times> bool) sem" where
  "joint_tick B q res =
     bindS poll_cancel (\<lambda>cancelled.
       if cancelled then thenS clear_stop (stop_joint B ''user'' res)
       else
         bindS (get_state B) (\<lambda>st.
         bindS (onB (bk_in_fault B)) (\<lambda>fault.
           if fault then stop_joint B ''backend_fault'' res
           else
             bindS (getS (\<lambda>r. p_max_contact_wrench (r_profile r))) (\<lambda>cap.
             bindS (liftS (np_any_abs_gt (st_wrench st) cap)) (\<lambda>over.
               if over then stop_joint B ''contact_wrench'' res
               else
                 bindS (onF (filter_joint q st)) (\<lambda>sr.
                   case sr_q sr of
                     Some q' \<Rightarrow>
                       (if \<not> sr_ok sr then stop_joint B (reason_value (sr_reason sr)) res
                        else thenS (onB (bk_stream_joint B q'))
                               (retS (if sr_clipped sr then res\<lparr>er_clipped := True\<rparr> else res, True)))
                   | None \<Rightarrow> stop_joint B (reason_value (sr_reason sr)) res))))))"

fun joint_loop :: "'b backend \<Rightarrow> real list result list \<Rightarrow> exec_result \<Rightarrow> ('b robot, exec_result) sem" where
  "joint_loop B [] res = retS res"
| "joint_loop B (Inl e # qs) res = raiseS e"
| "joint_loop B (Inr q # qs) res =
     bindS (joint_tick B q res) (\<lambda>(res, go). if go then joint_loop B qs res else retS res)"

definition enter_joint :: "'b backend \<Rightarrow> exec_result \<Rightarrow> ('b robot, robot_state \<times> exec_result) sem" where
  "enter_joint B res =
     bindS (get_state B) (\<lambda>start.
     bindS (if is_cartesian (st_control_mode start) \<or> st_control_mode start = IDLE
            then thenS (start_joint_impedance B None False)
                   (bindS (get_state B) (\<lambda>start.
                      retS (start, log_put ''mode_autostarted'' (JBool True) res)))
            else retS (start, res))
       (\<lambda>(start, res). thenS (modS (\<lambda>r. r\<lparr>r_filter := reset (Some start) None None (r_filter r)\<rparr>))
                          (retS (start, res))))"

definition execute_joint_chunk ::
  "'b backend \<Rightarrow> bool \<Rightarrow> joint_chunk \<Rightarrow> ('b robot, exec_result) sem" where
  "execute_joint_chunk B raise_on_stop c =
     thenS auto_lease
       (bindS poll_cancel (\<lambda>cancelled.
          if cancelled then abort_at_entry B raise_on_stop
          else bindS (verify_chunk_profile (jc_safety_profile c) fresh_result) (\<lambda>res.
               bindS (enter_joint B res) (\<lambda>(start, res).
               bindS (getS (\<lambda>r. joint_iter c (st_q start) (r_hz r)
                        (Some (2 * p_max_joint_speed_scale (r_profile r))))) (\<lambda>qs.
               bindS (joint_loop B qs res) (\<lambda>res.
               bindS (get_state B) (\<lambda>end'.
               raise_if_stopped raise_on_stop (res\<lparr>er_final_state := Some end'\<rparr>))))))))"

definition move_joint ::
  "'b backend \<Rightarrow> real list \<Rightarrow> real option \<Rightarrow> real option \<Rightarrow> bool \<Rightarrow> ('b robot, exec_result) sem" where
  "move_joint B q_target duration max_joint_speed realtime =
     thenS auto_lease
       (bindS (get_state B) (\<lambda>st.
        bindS (liftS (joint_move_duration (st_q st) q_target duration max_joint_speed)) (\<lambda>dur.
        thenS (start_joint_impedance B None realtime)
          (bindS (getS (\<lambda>r. p_name (r_profile r))) (\<lambda>name.
             execute_joint_chunk B False
               \<lparr>jc_waypoints = [\<lparr>jw_positions = q_target, jw_n_frames = None, jw_duration = Some dur\<rparr>],
                jc_max_joint_speed_scale = 3/10, jc_safety_profile = name\<rparr>)))))"

section \<open>Gripper, home and the exit ritual\<close>

text \<open>
  The wait of \<open>command_gripper\<close>: one element per iteration, the elapsed times read at the loop
  head and in the settle test; the list ends when the clock passes the timeout at the latest.
\<close>

definition grip_settled ::
  "gripper_command \<Rightarrow> real option \<Rightarrow> bool \<Rightarrow> real \<Rightarrow> robot_state \<Rightarrow> bool" where
  "grip_settled cmd prev_width moved elapsed st =
     ((\<not> g_grasp cmd \<and> \<bar>st_gripper_width st - g_width cmd\<bar> < 2 / 10^3)
      \<or> (case prev_width of
           None \<Rightarrow> False
         | Some w \<Rightarrow> \<bar>st_gripper_width st - w\<bar> < 5 / 10^4 \<and> \<not> st_gripper_is_moving st
                     \<and> (moved \<or> 1/2 \<le> elapsed)))"

fun grip_wait ::
  "'b backend \<Rightarrow> gripper_command \<Rightarrow> real \<Rightarrow> real \<Rightarrow> (real \<times> real) list \<Rightarrow> real option \<Rightarrow> bool
   \<Rightarrow> robot_state \<Rightarrow> ('b robot, robot_state) sem" where
  "grip_wait B cmd timeout initial [] prev_width moved st = retS st"
| "grip_wait B cmd timeout initial ((t, t') # ts) prev_width moved st =
     (if \<not> t < timeout then retS st
      else bindS poll_cancel (\<lambda>cancelled.
        if cancelled then retS st
        else bindS (get_state B) (\<lambda>st.
          (let moved = (moved \<or> st_gripper_is_moving st \<or> 1 / 10^3 < \<bar>st_gripper_width st - initial\<bar>)
           in if grip_settled cmd prev_width moved t' st then retS st
              else grip_wait B cmd timeout initial ts (Some (st_gripper_width st)) moved st))))"

definition command_gripper ::
  "'b backend \<Rightarrow> gripper_command \<Rightarrow> bool \<Rightarrow> real \<Rightarrow> (real \<times> real) list \<Rightarrow> ('b robot, real option) sem" where
  "command_gripper B cmd wait timeout elapsed =
     thenS auto_lease
       (bindS (get_state B) (\<lambda>st0.
        thenS (onB (bk_move_gripper B cmd))
          (if \<not> wait then retS None
           else bindS (get_state B) (\<lambda>st.
                bindS (grip_wait B cmd timeout (st_gripper_width st0) elapsed None False st) (\<lambda>st.
                retS (Some (st_gripper_width st)))))))"

definition robot_zero_ft_sensor :: "'b backend \<Rightarrow> ('b robot, unit) sem" where
  "robot_zero_ft_sensor B = thenS auto_lease (onB (bk_zero_ft_sensor B))"

definition open_command :: "real \<Rightarrow> gripper_command" where
  "open_command w = default_gripper\<lparr>g_width := w\<rparr>"

text \<open>\<open>except NotImplementedError\<close>\<close>

definition robot_home ::
  "'b backend \<Rightarrow> real list option \<Rightarrow> real option \<Rightarrow> real option \<Rightarrow> (real \<times> real) list \<Rightarrow> ('b robot, unit) sem" where
  "robot_home B q max_joint_speed duration elapsed =
     thenS auto_lease
       (bindS (getS (\<lambda>r. case q of Some q' \<Rightarrow> q' | None \<Rightarrow> cf_q_home (r_cfg r))) (\<lambda>q_home.
        thenS (catchS
                 (if q \<noteq> None \<or> duration \<noteq> None \<or> max_joint_speed \<noteq> None then raiseS NotImplementedError
                  else onB (bk_home B (Some q_home)))
                 (\<lambda>e. if e = NotImplementedError
                      then thenS (move_joint B q_home duration
                             (Some (case max_joint_speed of Some v \<Rightarrow> v | None \<Rightarrow> 3/10)) False) (retS ())
                      else raiseS e))
          (bindS (getS (\<lambda>r. cf_gripper_home_width (r_cfg r))) (\<lambda>w.
             case w of
               None \<Rightarrow> retS ()
             | Some w' \<Rightarrow> thenS (command_gripper B (open_command w') True 5 elapsed) (retS ())))))"

text \<open>The fields the one-line summary prints.\<close>

definition er_summary :: "exec_result \<Rightarrow> json" where
  "er_summary res = JObj [(''ok'', JBool (er_success res)), (''stop'', JStr (er_stop_reason res)),
     (''dur'', JNum (er_executed_duration res)), (''clip'', JBool (er_clipped res)),
     (''track_err_mm'', JNum (1000 * er_path_tracking_error res)),
     (''grip'', JNum (er_gripper_width_final res))]"

definition failed_note :: json where
  "failed_note = JStr ''FAILED''"

text \<open>\<open>result.log.update(log)\<close>\<close>

definition log_update :: "(string \<times> json) list \<Rightarrow> exec_result \<Rightarrow> exec_result" where
  "log_update entries res = fold (\<lambda>(k, v). log_put k v) entries res"

text \<open>Stage 1: the lift. The value is the log entry and whether it ended in contact or fault.\<close>

definition lift_chunk :: "safety_profile \<Rightarrow> robot_state \<Rightarrow> real \<Rightarrow> real \<Rightarrow> chunk result" where
  "lift_chunk p st lift_m max_tcp_speed =
     (let t = tcp_position st;
          target = [vx t, vy t, min (vz t + lift_m) (snd (p_ws_z p))]
      in bindR (mk_waypoint target None None None
                  (Some (max (3/2) (lift_m / max max_tcp_speed (1 / 10^3)))) ''base'') (\<lambda>wp.
         chunk_post_init ((chunk_of [wp])\<lparr>ck_max_tcp_linear_speed := max_tcp_speed\<rparr>)))"

definition lift_stage :: "'b backend \<Rightarrow> real \<Rightarrow> real \<Rightarrow> ('b robot, json \<times> bool) sem" where
  "lift_stage B lift_m max_tcp_speed =
     catchS
       (bindS (get_state B) (\<lambda>st.
        bindS (getS r_profile) (\<lambda>p.
        bindS (liftS (lift_chunk p st lift_m max_tcp_speed)) (\<lambda>c.
        bindS (execute_cartesian_chunk B default_args c) (\<lambda>res.
        retS (er_summary res, er_stop_reason res \<in> {''contact_wrench'', ''backend_fault''}))))))
       (\<lambda>e. retS (failed_note, False))"

text \<open>Stage 2: the gripper, when a width is known.\<close>

definition open_stage ::
  "'b backend \<Rightarrow> real option \<Rightarrow> (real \<times> real) list \<Rightarrow> ('b robot, (string \<times> json) list) sem" where
  "open_stage B width elapsed =
     (case width of
        None \<Rightarrow> retS []
      | Some w \<Rightarrow>
          catchS (thenS (command_gripper B (open_command w) True 5 elapsed)
                    (retS [(''gripper'', JNum w)]))
            (\<lambda>e. retS [(''gripper'', failed_note)]))"

definition go_home_safe ::
  "'b backend \<Rightarrow> real list option \<Rightarrow> real \<Rightarrow> real option \<Rightarrow> real \<Rightarrow> real \<Rightarrow> (real \<times> real) list
   \<Rightarrow> ('b robot, exec_result) sem" where
  "go_home_safe B q_home lift_m open_width max_tcp_speed max_joint_speed elapsed =
     thenS auto_lease
       (bindS (lift_stage B lift_m max_tcp_speed) (\<lambda>(lift, contact_abort).
        bindS (getS (\<lambda>r. case open_width of Some w \<Rightarrow> Some w | None \<Rightarrow> cf_gripper_home_width (r_cfg r))) (\<lambda>width.
        bindS (open_stage B width elapsed) (\<lambda>grip.
        bindS (if contact_abort then retS True else poll_cancel) (\<lambda>skip.
          if skip
          then bindS poll_cancel (\<lambda>user.
               bindS (get_state B) (\<lambda>st.
               retS (log_update ((''lift'', lift) # grip @ [(''home'', JStr ''skipped'')])
                 ((failed (if user then ''user'' else ''contact_wrench'') fresh_result)
                    \<lparr>er_final_state := Some st\<rparr>))))
          else
            bindS (getS (\<lambda>r. case q_home of Some q \<Rightarrow> q | None \<Rightarrow> cf_q_home (r_cfg r))) (\<lambda>q_target.
            bindS (move_joint B q_target None (Some max_joint_speed) False) (\<lambda>res.
            retS (log_update ((''lift'', lift) # grip) res))))))))"

end
