(* ===== verification/Interpolation_Proofs.thy ===== *)
theory Interpolation_Proofs
  imports Interpolation
begin

text \<open>
  Whole interpolated streams: between any two consecutive setpoints of a chunk, also across
  waypoints, the TCP moves at most one tick's worth of the caps; the stream stays in any
  segment-closed region that holds the start and the waypoints, and each waypoint's position is
  reached exactly.
\<close>

section \<open>Joining segments\<close>

lemma quat_angle_uminus: "quat_angle (- a) x = quat_angle a x"
proof (cases "norm a < EPS")
  case False
  let ?u = "(1 / norm a) *\<^sub>R a"
  have "quat_normalize (- a) = quat_normalize a \<or> quat_normalize (- a) = - quat_normalize a"
    using False by (auto simp: quat_normalize_def Let_def)
  then show ?thesis by (auto simp: quat_angle_eq)
qed (simp add: quat_angle_eq quat_normalize_def)

lemma quat_angle_slerp_1: "quat_angle (quat_slerp a b 1) x = quat_angle b x"
proof -
  define u w where "u = quat_normalize a" and "w = quat_normalize b"
  define c where "c = (if quat_dot u w < 0 then - w else w)"
  define d where "d = (if quat_dot u w < 0 then - quat_dot u w else quat_dot u w)"
  have d: "0 \<le> d" by (simp add: d_def)
  have "sin (arccos (min 1 (max (- 1) d))) \<noteq> 0" if "\<not> 9995 / 10000 < d"
    using sin_arccos_nonzero [of d] that d by (auto simp: min_def max_def)
  then have "quat_slerp a b 1 = quat_normalize c"
    by (auto simp: quat_slerp_def slerp_raw_def Let_def u_def [symmetric] w_def [symmetric]
        c_def [symmetric] d_def [symmetric])
  then have "quat_angle (quat_slerp a b 1) x = quat_angle c x" by simp
  also have "\<dots> = quat_angle w x" by (simp add: c_def quat_angle_uminus)
  finally show ?thesis by (simp add: w_def)
qed

text \<open>One control tick within the caps \<open>v\<close> and \<open>w\<close>.\<close>

definition tick_ok :: "real \<Rightarrow> real \<Rightarrow> real \<Rightarrow> pose \<Rightarrow> pose \<Rightarrow> bool" where
  "tick_ok v w dt a b \<longleftrightarrow> norm (pos b - pos a) \<le> v * dt
     \<and> quat_angle (rot a) (rot b) \<le> w * dt / SLERP_SLACK"

definition same_pose :: "pose \<Rightarrow> pose \<Rightarrow> bool" where
  "same_pose a b \<longleftrightarrow> pos a = pos b \<and> (\<forall>x. quat_angle (rot a) x = quat_angle (rot b) x)"

lemma tick_ok_same: "same_pose a a' \<Longrightarrow> tick_ok v w dt a b = tick_ok v w dt a' b"
  by (simp add: tick_ok_def same_pose_def)

lemma successively_upt:
  assumes "\<And>k. m \<le> k \<Longrightarrow> Suc k < n \<Longrightarrow> R (g k) (g (Suc k))"
  shows "successively R (map g [m..<n])"
  using assms
proof (induction n)
  case (Suc n)
  show ?case
  proof (cases "m < n")
    case True
    then have "[m..<n] \<noteq> []" "last [m..<n] = n - 1" by auto
    then show ?thesis
      using Suc True Suc.prems [of "n - 1"] by (auto simp: successively_append_iff last_map)
  qed (use Suc in auto)
qed simp

lemma blend_pose_0_same: "same_pose (blend_pose pp tp pq tq n 0) \<lparr>pos = pp, rot = pq\<rparr>"
  by (simp add: same_pose_def blend_pose_ends)

lemma blend_pose_n_same: "0 < n \<Longrightarrow> same_pose (blend_pose pp tp pq tq n n) \<lparr>pos = tp, rot = tq\<rparr>"
  by (simp add: same_pose_def blend_pose_def Let_def quat_angle_slerp_1)

lemma segment_stream:
  assumes st: "segment_ticks ci pp tp pq tq wp = Inr n" and hz: "0 < ci_hz ci" "ci_dt ci = 1 / ci_hz ci"
    and v: "ci_max_linear_speed ci = Some v" "0 < v"
    and w: "ci_max_angular_speed ci = Some w" "0 < w"
    and p0: "same_pose p0 \<lparr>pos = pp, rot = pq\<rparr>"
  shows "successively (tick_ok v w (ci_dt ci)) (p0 # map sp_pose (segment_setpoints seg pp tp pq tq wp (nat n)))"
proof -
  note F = segment_ticks_facts [OF st hz]
  define B where "B = blend_pose pp tp pq tq (nat n)"
  have n: "1 \<le> nat n" "real (nat n) = of_int n" using F(1) by auto
  have step: "tick_ok v w (ci_dt ci) (B k) (B (Suc k))" if "k < nat n" for k
  proof -
    have "norm (pos (B (Suc k)) - pos (B k)) \<le> v * ci_dt ci"
      using blend_pose_step(1) [of "Suc k" "nat n" pp tp pq tq] F(3) [OF v] that n by (simp add: B_def)
    moreover have "quat_angle (rot (B k)) (rot (B (Suc k)))
        \<le> BLEND_PEAK / of_int n * quat_angle pq tq / SLERP_SLACK"
      using blend_pose_step(2) [of "Suc k" "nat n" pp tp pq tq] that n by (simp add: B_def)
    moreover have "BLEND_PEAK / of_int n * quat_angle pq tq / SLERP_SLACK \<le> w * ci_dt ci / SLERP_SLACK"
      using F(4) [OF w] by (intro divide_right_mono) simp_all
    ultimately show ?thesis by (simp add: tick_ok_def)
  qed
  have list: "map sp_pose (segment_setpoints seg pp tp pq tq wp (nat n)) = map B [1..<Suc (nat n)]"
    by (simp add: segment_setpoints_def B_def comp_def)
  have "successively (tick_ok v w (ci_dt ci)) (map B [1..<Suc (nat n)])"
    by (rule successively_upt) (simp add: step)
  moreover have "tick_ok v w (ci_dt ci) p0 (B 1)"
  proof -
    have "same_pose p0 (B 0)"
      using p0 blend_pose_0_same [of pp tp pq tq "nat n"] by (simp add: same_pose_def B_def)
    then show ?thesis using step [of 0] n by (simp add: tick_ok_same)
  qed
  moreover have "map B [1..<Suc (nat n)] = B 1 # map B [2..<Suc (nat n)]"
    using n by (subst upt_conv_Cons) (simp_all add: numeral_2_eq_2)
  ultimately show ?thesis unfolding list by simp
qed

lemma segment_last:
  assumes "0 < n"
  shows "segment_setpoints seg pp tp pq tq wp n \<noteq> []"
    and "same_pose (sp_pose (last (segment_setpoints seg pp tp pq tq wp n))) \<lparr>pos = tp, rot = tq\<rparr>"
  using assms blend_pose_n_same [OF assms, of pp tp pq tq]
  by (auto simp: segment_setpoints_def)

lemma segment_region:
  assumes "\<And>a b s. Q a \<Longrightarrow> Q b \<Longrightarrow> 0 \<le> s \<Longrightarrow> s \<le> (1::real) \<Longrightarrow> Q (a + s *\<^sub>R (b - a))" "Q pp" "Q tp"
  shows "\<forall>sp \<in> set (segment_setpoints seg pp tp pq tq wp n). Q (pos (sp_pose sp))"
  using assms blend_range by (auto simp: segment_setpoints_def blend_pose_def Let_def)

section \<open>The whole chunk\<close>

definition timed :: "waypoint \<Rightarrow> bool" where
  "timed w \<longleftrightarrow> wp_n_frames w \<noteq> None \<or> wp_duration w \<noteq> None"

lemma segment_ticks_ok:
  assumes "timed wp" "0 < ci_hz ci"
  shows "\<exists>n. segment_ticks ci pp tp pq tq wp = Inr n"
  using assms by (cases "wp_duration wp"; cases "wp_n_frames wp")
    (auto simp: timed_def segment_ticks_def resolve_duration_def)

text \<open>The orientation carried into the next segment.\<close>

definition next_quat :: "quat \<Rightarrow> waypoint \<Rightarrow> quat" where
  "next_quat q wp = (case wp_quaternion wp of None \<Rightarrow> q | Some q' \<Rightarrow> q')"

lemma interp_from_Cons:
  assumes "segment_ticks ci pp (wp_position wp) pq (next_quat pq wp) wp = Inr n"
  shows "interp_from ci seg pp pq (wp # wps) =
    map Inr (segment_setpoints seg pp (wp_position wp) pq (next_quat pq wp) wp (nat n))
    @ interp_from ci (Suc seg) (wp_position wp) (next_quat pq wp) wps"
  using assms by (simp add: next_quat_def Let_def)

lemma interp_from_stream:
  assumes hz: "0 < ci_hz ci" "ci_dt ci = 1 / ci_hz ci"
    and v: "ci_max_linear_speed ci = Some v" "0 < v"
    and w: "ci_max_angular_speed ci = Some w" "0 < w"
    and reg: "\<And>a b s. Q a \<Longrightarrow> Q b \<Longrightarrow> 0 \<le> s \<Longrightarrow> s \<le> (1::real) \<Longrightarrow> Q (a + s *\<^sub>R (b - a))"
    and "list_all timed wps" "same_pose p0 \<lparr>pos = pp, rot = pq\<rparr>"
    and "Q pp" "\<forall>wp \<in> set wps. Q (wp_position wp)"
  shows "\<exists>sps. interp_from ci seg pp pq wps = map Inr sps
    \<and> successively (tick_ok v w (ci_dt ci)) (p0 # map sp_pose sps)
    \<and> (\<forall>sp \<in> set sps. Q (pos (sp_pose sp)))
    \<and> (wps \<noteq> [] \<longrightarrow> sps \<noteq> [] \<and> pos (sp_pose (last sps)) = wp_position (last wps))"
  using assms(8-)
proof (induction wps arbitrary: seg pp pq p0)
  case (Cons wp wps)
  let ?tp = "wp_position wp" and ?tq = "next_quat pq wp"
  obtain n where n: "segment_ticks ci pp ?tp pq ?tq wp = Inr n"
    using segment_ticks_ok [of wp ci pp ?tp pq ?tq] Cons.prems(1) hz(1) by auto
  have pos_n: "0 < nat n" using segment_ticks_facts(1) [OF n hz] by simp
  define A where "A = segment_setpoints seg pp ?tp pq ?tq wp (nat n)"
  have A: "A \<noteq> []" "same_pose (sp_pose (last A)) \<lparr>pos = ?tp, rot = ?tq\<rparr>"
    unfolding A_def using segment_last [OF pos_n] by auto
  have sA: "successively (tick_ok v w (ci_dt ci)) (p0 # map sp_pose A)"
    unfolding A_def by (rule segment_stream [OF n hz v w Cons.prems(2)])
  have qA: "\<forall>sp \<in> set A. Q (pos (sp_pose sp))"
    unfolding A_def by (rule segment_region [where Q = Q]) (use reg Cons.prems in auto)
  have "list_all timed wps" "Q ?tp" "\<forall>wp \<in> set wps. Q (wp_position wp)" using Cons.prems by auto
  then obtain B where B: "interp_from ci (Suc seg) ?tp ?tq wps = map Inr B"
      "successively (tick_ok v w (ci_dt ci)) (sp_pose (last A) # map sp_pose B)"
      "\<forall>sp \<in> set B. Q (pos (sp_pose sp))"
      "wps \<noteq> [] \<longrightarrow> B \<noteq> [] \<and> pos (sp_pose (last B)) = wp_position (last wps)"
    using Cons.IH [OF _ A(2), of "Suc seg"] by blast
  have "successively (tick_ok v w (ci_dt ci)) ((p0 # map sp_pose A) @ map sp_pose B)"
    unfolding successively_append_iff using sA B(2) A(1)
    by (cases B) (auto simp: last_map)
  moreover have "interp_from ci seg pp pq (wp # wps) = map Inr (A @ B)"
    unfolding interp_from_Cons [OF n] A_def B(1) by simp
  moreover have "pos (sp_pose (last (A @ B))) = wp_position (last (wp # wps))"
  proof (cases "wps = []")
    case True
    then have "B = []" using B(1) by simp
    then show ?thesis using True A(2) by (simp add: same_pose_def)
  qed (use B(4) in simp)
  ultimately show ?case using A(1) qA B(3) by (intro exI [of _ "A @ B"]) auto
qed simp

text \<open>Position-only chunks hold the start orientation throughout.\<close>

lemma interp_from_hold:
  assumes "list_all (\<lambda>wp. wp_quaternion wp = None) wps" "interp_from ci seg pp pq wps = map Inr sps"
  shows "\<forall>sp \<in> set sps. rot (sp_pose sp) = quat_normalize pq"
  using assms
proof (induction wps arbitrary: seg pp sps)
  case (Cons wp wps)
  have q: "next_quat pq wp = pq" using Cons.prems by (simp add: next_quat_def)
  show ?case
  proof (cases "segment_ticks ci pp (wp_position wp) pq pq wp")
    case (Inl e)
    then show ?thesis using Cons.prems by (auto simp: map_eq_Cons_conv)
  next
    case (Inr n)
    define A where "A = segment_setpoints seg pp (wp_position wp) pq pq wp (nat n)"
    have "map Inr A @ interp_from ci (Suc seg) (wp_position wp) pq wps = map Inr sps"
      using Cons.prems(2) interp_from_Cons [of ci pp wp pq n] Inr by (simp add: q A_def)
    then obtain B where B: "sps = A @ B" "interp_from ci (Suc seg) (wp_position wp) pq wps = map Inr B"
      by (metis (no_types, lifting) append_eq_map_conv inj_map_eq_map inj_Inr)
    have "\<forall>sp \<in> set A. rot (sp_pose sp) = quat_normalize pq"
      by (auto simp: A_def segment_setpoints_def blend_pose_hold)
    then show ?thesis using Cons.IH [OF _ B(2)] Cons.prems(1) B(1) by auto
  qed
qed simp

section \<open>Joint streams\<close>

definition jtimed :: "joint_waypoint \<Rightarrow> bool" where
  "jtimed w \<longleftrightarrow> jw_n_frames w \<noteq> None \<or> jw_duration w \<noteq> None"

text \<open>No joint moves more than \<open>m\<close> between two consecutive points.\<close>

definition joints_within :: "real \<Rightarrow> real list \<Rightarrow> real list \<Rightarrow> bool" where
  "joints_within m a b \<longleftrightarrow> length b = length a \<and> (\<forall>i < length a. \<bar>b ! i - a ! i\<bar> \<le> m)"

lemma joint_ticks_ok:
  assumes "jtimed wp" "0 < hz" "0 < v" "length (jw_positions wp) = length prev" "prev \<noteq> []"
  shows "\<exists>n. joint_ticks wp hz (Some v) prev = Inr n \<and> 1 \<le> n
    \<and> (\<forall>i < length prev. BLEND_PEAK / of_int n * \<bar>jw_positions wp ! i - prev ! i\<bar> \<le> v / hz)"
proof -
  define diff where "diff = map2 (-) (jw_positions wp) prev"
  obtain d where d: "jw_resolve_duration wp hz = Inr d"
    using assms(1,2) by (cases "jw_duration wp"; cases "jw_n_frames wp")
      (auto simp: jtimed_def jw_resolve_duration_def)
  obtain m where m: "np_max_abs diff = Inr m"
    using assms(4,5) by (cases diff) (auto simp: np_max_abs_def diff_def zip_eq_Nil_iff)
  define n where "n = max 1 (max (max 1 (py_round (d * hz))) \<lceil>BLEND_PEAK * m / (v * (1 / hz))\<rceil>)"
  have eq: "joint_ticks wp hz (Some v) prev = Inr n"
    using assms d m by (simp add: joint_ticks_def Let_def diff_def [symmetric] n_def)
  have "BLEND_PEAK / of_int n * \<bar>jw_positions wp ! i - prev ! i\<bar> \<le> v / hz" if i: "i < length prev" for i
  proof -
    have le: "\<bar>jw_positions wp ! i - prev ! i\<bar> \<le> m"
      using np_max_abs_ge [OF m, of i] i assms(4) by (simp add: diff_def)
    have "\<lceil>BLEND_PEAK * m / (v * (1 / hz))\<rceil> \<le> n" "1 \<le> n" by (simp_all add: n_def)
    then have "BLEND_PEAK * m / (v * (1 / hz)) \<le> of_int n" "(0::real) < of_int n"
      by (simp_all add: ceiling_le_iff)
    then have "BLEND_PEAK / of_int n * m \<le> v / hz" using assms(2,3) by (simp add: field_simps)
    moreover have "BLEND_PEAK / of_int n * \<bar>jw_positions wp ! i - prev ! i\<bar> \<le> BLEND_PEAK / of_int n * m"
      using le \<open>(0::real) < of_int n\<close> less_imp_le [OF BLEND_PEAK_pos]
      by (intro mult_left_mono divide_nonneg_pos) auto
    ultimately show ?thesis by linarith
  qed
  then show ?thesis using eq by (auto simp: n_def)
qed

text \<open>The setpoints of one leg stay within the per-tick joint step and end at its target.\<close>

lemma blend_leg:
  assumes len: "length tgt = length prev" and N: "1 \<le> N"
    and lim: "\<And>i. i < length prev \<Longrightarrow> BLEND_PEAK / real N * \<bar>tgt ! i - prev ! i\<bar> \<le> s"
  defines "B \<equiv> \<lambda>k. map2 (\<lambda>p t. p + cosine_blend (real k / real N) * (t - p)) prev tgt"
  shows "successively (joints_within s) (prev # map B [1..<Suc N])"
    and "last (map B [1..<Suc N]) = tgt"
proof -
  have B0: "B 0 = prev" and BN: "B N = tgt"
    using len N by (auto simp: B_def intro!: nth_equalityI)
  have step: "joints_within s (B k) (B (Suc k))" if "k < N" for k
    unfolding joints_within_def
  proof (intro conjI allI impI)
    fix i assume "i < length (B k)"
    then have i: "i < length prev" using len by (simp add: B_def)
    let ?d = "cosine_blend (real (Suc k) / real N) - cosine_blend (real k / real N)"
    have d: "0 \<le> ?d" "?d \<le> BLEND_PEAK / real N"
      using blend_step [of "Suc k" N] that by auto
    have "B (Suc k) ! i - B k ! i = ?d * (tgt ! i - prev ! i)"
      using i len by (simp add: B_def algebra_simps)
    then have "\<bar>B (Suc k) ! i - B k ! i\<bar> = ?d * \<bar>tgt ! i - prev ! i\<bar>"
      using d by (simp add: abs_mult)
    also have "\<dots> \<le> BLEND_PEAK / real N * \<bar>tgt ! i - prev ! i\<bar>"
      using d by (intro mult_right_mono) auto
    also have "\<dots> \<le> s" by (rule lim [OF i])
    finally show "\<bar>B (Suc k) ! i - B k ! i\<bar> \<le> s" .
  qed (simp add: B_def len)
  have "successively (joints_within s) (map B [0..<Suc N])"
    by (rule successively_upt) (simp add: step)
  moreover have "map B [0..<Suc N] = prev # map B [1..<Suc N]"
    by (subst upt_conv_Cons) (simp_all add: B0)
  ultimately show "successively (joints_within s) (prev # map B [1..<Suc N])" by simp
  show "last (map B [1..<Suc N]) = tgt" using N BN by auto
qed

lemma joint_from_stream:
  assumes hv: "0 < hz" "0 < v"
    and "list_all jtimed wps" "prev \<noteq> []"
    and "list_all (\<lambda>w. length (jw_positions w) = length prev) wps"
  shows "\<exists>qs. joint_from hz (Some v) prev wps = map Inr qs
    \<and> successively (joints_within (v / hz)) (prev # qs)
    \<and> (wps \<noteq> [] \<longrightarrow> qs \<noteq> [] \<and> last qs = jw_positions (last wps))"
  using assms(3-)
proof (induction wps arbitrary: prev)
  case (Cons wp wps)
  let ?tgt = "jw_positions wp"
  have len: "length ?tgt = length prev" using Cons.prems by simp
  obtain n where n: "joint_ticks wp hz (Some v) prev = Inr n" "1 \<le> n"
      "\<And>i. i < length prev \<Longrightarrow> BLEND_PEAK / of_int n * \<bar>?tgt ! i - prev ! i\<bar> \<le> v / hz"
    using joint_ticks_ok [of wp hz v prev] hv Cons.prems by auto
  define N where "N = nat n"
  have N: "1 \<le> N" "real N = of_int n" using n(2) by (auto simp: N_def)
  define B where "B k = map2 (\<lambda>p t. p + cosine_blend (real k / real N) * (t - p)) prev ?tgt" for k
  have lim: "BLEND_PEAK / real N * \<bar>?tgt ! i - prev ! i\<bar> \<le> v / hz" if "i < length prev" for i
    using n(3) [OF that] N by simp
  have leg: "successively (joints_within (v / hz)) (prev # map B [1..<Suc N])"
      "last (map B [1..<Suc N]) = ?tgt" "map B [1..<Suc N] \<noteq> []"
    unfolding B_def using blend_leg [OF len N(1) lim] N(1) by simp_all
  have "?tgt \<noteq> []" "list_all (\<lambda>w. length (jw_positions w) = length ?tgt) wps"
    using Cons.prems len by auto
  then obtain qs where qs: "joint_from hz (Some v) ?tgt wps = map Inr qs"
      "successively (joints_within (v / hz)) (?tgt # qs)"
      "wps \<noteq> [] \<longrightarrow> qs \<noteq> [] \<and> last qs = jw_positions (last wps)"
    using Cons.IH [of ?tgt] Cons.prems(1) by auto
  have "joint_from hz (Some v) prev (wp # wps) = map Inr (map B [1..<Suc N] @ qs)"
    using n(1) qs(1) len by (simp add: N_def [symmetric] comp_def joint_point_def Let_def B_def)
  moreover have "successively (joints_within (v / hz)) ((prev # map B [1..<Suc N]) @ qs)"
    unfolding successively_append_iff using qs(2) leg by (cases qs) auto
  moreover have "last (map B [1..<Suc N] @ qs) = jw_positions (last (wp # wps))"
    using qs leg(2) by (cases "wps = []") auto
  ultimately show ?case using leg(3) by (intro exI [of _ "map B [1..<Suc N] @ qs"]) auto
qed simp

section \<open>Properties\<close>

lemma chunk_wf_timed: "chunk_wf c \<Longrightarrow> list_all timed (ck_waypoints c)"
  by (auto simp: chunk_wf_def timed_def wp_wf_def list_all_iff)

lemma interp_iter_stream:
  assumes "chunk_wf c" "0 < hz" "0 < v" "0 < w"
    and "mk_cart_interp c start hz (Some v) (Some w) = Inr ci"
    and reg: "\<And>a b s. Q a \<Longrightarrow> Q b \<Longrightarrow> 0 \<le> s \<Longrightarrow> s \<le> (1::real) \<Longrightarrow> Q (a + s *\<^sub>R (b - a))"
    and "Q (pos start)" "\<forall>wp \<in> set (ck_waypoints c). Q (wp_position wp)"
  shows "\<exists>sps. interp_iter ci = map Inr sps \<and> sps \<noteq> []
    \<and> successively (tick_ok v w (1 / hz)) (start # map sp_pose sps)
    \<and> (\<forall>sp \<in> set sps. Q (pos (sp_pose sp)))
    \<and> pos (sp_pose (last sps)) = wp_position (last (ck_waypoints c))"
proof -
  have ci: "ci_hz ci = hz" "ci_dt ci = 1 / hz" "ci_max_linear_speed ci = Some v"
      "ci_max_angular_speed ci = Some w" "ci_chunk ci = c" "ci_start_pose ci = start"
    using assms(2,5) by (auto simp: mk_cart_interp_def)
  have ne: "ck_waypoints c \<noteq> []" using assms(1) by (simp add: chunk_wf_def)
  have "same_pose start \<lparr>pos = pos start, rot = rot start\<rparr>" by (simp add: same_pose_def)
  from interp_from_stream [of ci v w Q "ck_waypoints c" start "pos start" "rot start" 0, OF _ _ _ _ _ _ reg
      chunk_wf_timed [OF assms(1)] this]
  show ?thesis using ci assms ne by (auto simp: interp_iter_def)
qed

text \<open>Interpolating a well-formed chunk at a positive rate under positive speed caps raises
  nothing; from the start pose on, every tick moves the TCP at most \<open>v / hz\<close> and turns it at
  most \<open>w / hz\<close> (up to the 1/0.9995 of the fast slerp branch), also across waypoints; and the
  stream ends exactly on the last waypoint's position.\<close>

theorem interp_stream_bounded:
  assumes "chunk_wf c" "0 < hz" "0 < v" "0 < w"
    and "mk_cart_interp c start hz (Some v) (Some w) = Inr ci"
  shows "\<exists>sps. interp_iter ci = map Inr sps \<and> sps \<noteq> []
    \<and> successively (\<lambda>a b. norm (pos b - pos a) \<le> v * (1 / hz)
        \<and> quat_angle (rot a) (rot b) \<le> w * (1 / hz) / SLERP_SLACK) (start # map sp_pose sps)
    \<and> pos (sp_pose (last sps)) = wp_position (last (ck_waypoints c))"
  using interp_iter_stream [OF assms, of "\<lambda>_. True"] by (auto simp: tick_ok_def [abs_def])

definition demo_waypoint :: "real \<Rightarrow> real \<Rightarrow> waypoint" where
  "demo_waypoint x d = \<lparr>wp_position = Vec3 x 0 (3/10), wp_quaternion = None, wp_gripper = None,
     wp_n_frames = None, wp_duration = Some d, wp_frame = ''base''\<rparr>"

definition demo_pose :: "real \<Rightarrow> pose" where
  "demo_pose x = \<lparr>pos = Vec3 x 0 (3/10), rot = Quat 0 0 1 0\<rparr>"

lemma demo_chunk_wf [simp]: "chunk_wf (chunk_of [demo_waypoint x d, demo_waypoint y e])"
  by (simp add: chunk_wf_def chunk_of_def demo_waypoint_def wp_wf_def)

lemma interp_stream_bounded_witness:
  "\<exists>ci sps. mk_cart_interp (chunk_of [demo_waypoint (4/10) 1, demo_waypoint (6/10) 1]) (demo_pose (5/10))
       100 (Some (1/4)) (Some (3/5)) = Inr ci
    \<and> interp_iter ci = map Inr sps \<and> sps \<noteq> []
    \<and> successively (\<lambda>a b. norm (pos b - pos a) \<le> 1/4 * (1 / 100)
        \<and> quat_angle (rot a) (rot b) \<le> 3/5 * (1 / 100) / SLERP_SLACK) (demo_pose (5/10) # map sp_pose sps)
    \<and> pos (sp_pose (last sps)) = Vec3 (6/10) 0 (3/10)"
proof -
  obtain ci where ci: "mk_cart_interp (chunk_of [demo_waypoint (4/10) 1, demo_waypoint (6/10) 1])
      (demo_pose (5/10)) 100 (Some (1/4)) (Some (3/5)) = Inr ci"
    by (simp add: mk_cart_interp_def)
  from interp_stream_bounded [OF demo_chunk_wf _ _ _ this] ci show ?thesis
    by (auto simp: chunk_of_def demo_waypoint_def)
qed

text \<open>A segment takes at least the requested time (up to the rounding of half a tick), and
  no more ticks than the larger of the request and what the speed caps need.\<close>

theorem segment_ticks_time:
  assumes "segment_ticks ci pp tp pq tq wp = Inr n" "resolve_duration wp (ci_hz ci) = Inr d"
    and "0 < ci_hz ci" "ci_dt ci = 1 / ci_hz ci"
    and "ci_max_linear_speed ci = Some v" "0 < v" "ci_max_angular_speed ci = Some w" "0 < w"
  shows "d * ci_hz ci - 1/2 \<le> of_int n \<and>
    of_int n \<le> max 1 (max (d * ci_hz ci + 1/2)
           (max (BLEND_PEAK * norm (tp - pp) / (v * ci_dt ci) + 1)
                (BLEND_PEAK * quat_angle pq tq / (w * ci_dt ci) + 1)))"
proof
  have r: "\<bar>of_int (py_round (d * ci_hz ci)) - d * ci_hz ci\<bar> \<le> 1/2" by (rule py_round_error)
  have "py_round (d * ci_hz ci) \<le> n" by (rule segment_ticks_facts(2) [OF assms(1,3,4,2)])
  then have "real_of_int (py_round (d * ci_hz ci)) \<le> of_int n" by simp
  then show "d * ci_hz ci - 1/2 \<le> of_int n" using r by linarith
  let ?l = "BLEND_PEAK * norm (tp - pp) / (v * ci_dt ci)"
  let ?a = "BLEND_PEAK * quat_angle pq tq / (w * ci_dt ci)"
  have n: "n = max 1 (max (max (max 1 (py_round (d * ci_hz ci))) \<lceil>?l\<rceil>) \<lceil>?a\<rceil>)"
    using assms(1,2,5-8) by (simp add: segment_ticks_def stretch_ticks_def Let_def)
  have "of_int \<lceil>?l\<rceil> \<le> ?l + 1" "of_int \<lceil>?a\<rceil> \<le> ?a + 1"
    by (rule of_int_ceiling_le_add_one)+
  moreover have "of_int (py_round (d * ci_hz ci)) \<le> d * ci_hz ci + 1/2" using r by linarith
  ultimately show "of_int n \<le> max 1 (max (d * ci_hz ci + 1/2) (max (?l + 1) (?a + 1)))"
    unfolding n of_int_max by linarith
qed

lemma segment_ticks_time_witness:
  "\<exists>n::int. of_int n \<ge> (2::real) * 100 - 1/2 \<and>
     of_int n \<le> max 1 (max (2 * 100 + 1/2)
       (max (BLEND_PEAK * norm (Vec3 (1/10) 0 0 - Vec3 0 0 0) / (1/4 * (1/100)) + 1)
            (BLEND_PEAK * quat_angle quat_id quat_id / (3/5 * (1/100)) + 1)))"
proof -
  define ci where "ci = \<lparr>ci_chunk = chunk_of [], ci_hz = 100, ci_dt = 1 / 100,
    ci_start_pose = demo_pose 0, ci_max_linear_speed = Some (1/4), ci_max_angular_speed = Some (3/5)\<rparr>"
  have d: "resolve_duration (demo_waypoint 0 2) (ci_hz ci) = Inr 2"
    by (simp add: resolve_duration_def demo_waypoint_def)
  then obtain n where n: "segment_ticks ci (Vec3 0 0 0) (Vec3 (1/10) 0 0) quat_id quat_id (demo_waypoint 0 2) = Inr n"
    by (simp add: segment_ticks_def Let_def)
  from segment_ticks_time [OF n d, of "1/4" "3/5"] show ?thesis
    unfolding ci_def by (intro exI [of _ n]) simp
qed

text \<open>Interpolating a joint chunk at a positive rate under a positive joint-speed cap raises
  nothing when the shapes agree; between consecutive points, from the start configuration on, no
  joint moves more than \<open>v / hz\<close>; and the stream ends exactly on the last waypoint.\<close>

theorem joint_stream_bounded:
  assumes "0 < hz" "0 < v" "start_q \<noteq> []"
    and "list_all (\<lambda>w. jtimed w \<and> length (jw_positions w) = length start_q) (jc_waypoints c)"
    and "jc_waypoints c \<noteq> []"
  shows "\<exists>qs. joint_iter c start_q hz (Some v) = map Inr qs \<and> qs \<noteq> []
    \<and> successively (\<lambda>a b. length b = length a \<and> (\<forall>i < length a. \<bar>b ! i - a ! i\<bar> \<le> v / hz)) (start_q # qs)
    \<and> last qs = jw_positions (last (jc_waypoints c))"
  using joint_from_stream [of hz v "jc_waypoints c" start_q] assms
  by (auto simp: joint_iter_def joints_within_def [abs_def] list_all_iff)

lemma joint_stream_bounded_witness:
  "\<exists>qs. joint_iter \<lparr>jc_waypoints = [\<lparr>jw_positions = [1, -1], jw_n_frames = Some 5, jw_duration = None\<rparr>],
        jc_max_joint_speed_scale = 1, jc_safety_profile = ''''\<rparr> [0, 0] 100 (Some (1/2)) = map Inr qs
    \<and> qs \<noteq> [] \<and> last qs = [1, -1]"
  using joint_stream_bounded [of 100 "1/2" "[0, 0]" "\<lparr>jc_waypoints = [\<lparr>jw_positions = [1, -1],
      jw_n_frames = Some 5, jw_duration = None\<rparr>], jc_max_joint_speed_scale = 1, jc_safety_profile = ''''\<rparr>"]
  by (auto simp: jtimed_def)

end
