(* ===== verification/Safety_Proofs.thy ===== *)
theory Safety_Proofs
  imports Safety_Filter Interpolation_Proofs
begin

text \<open>
  What the safety filter guarantees. Each numbered step only shortens the move from the
  reference or pulls the target into the box, so one accepted setpoint is a bounded move that
  stays near the workspace. The locale \<open>command_gate\<close> turns the one-step facts into facts on
  whole command streams; it is interpreted on the Cartesian and on the joint filter.
\<close>

section \<open>The interface: a stateful gate on a command stream\<close>

primrec run_gate :: "('i \<Rightarrow> 'f \<Rightarrow> 'o option \<times> 'f) \<Rightarrow> 'i list \<Rightarrow> 'f \<Rightarrow> 'o list \<times> 'f" where
  "run_gate step [] f = ([], f)"
| "run_gate step (i # is) f =
     (case step i f of
        (None, f') \<Rightarrow> run_gate step is f'
      | (Some c, f') \<Rightarrow> (case run_gate step is f' of (cs, f'') \<Rightarrow> (c # cs, f'')))"

text \<open>
  A gate remembers the last command it let through (\<open>prev\<close>). Under its invariant and on
  admissible inputs, a command let through is \<open>near\<close> the previous one and \<open>good\<close>; a rejected
  input leaves the gate as it was.
\<close>

locale command_gate =
  fixes step :: "'i \<Rightarrow> 'f \<Rightarrow> 'o option \<times> 'f"
    and prev :: "'f \<Rightarrow> 'o option"
    and inv :: "'f \<Rightarrow> bool"
    and adm :: "'f \<Rightarrow> 'i \<Rightarrow> bool"
    and near :: "'f \<Rightarrow> 'o \<Rightarrow> 'o \<Rightarrow> bool"
    and good :: "'f \<Rightarrow> 'o \<Rightarrow> bool"
  assumes emit_inv: "inv f \<Longrightarrow> adm f i \<Longrightarrow> step i f = (Some c, f') \<Longrightarrow> inv f'"
    and emit_prev: "step i f = (Some c, f') \<Longrightarrow> prev f' = Some c"
    and hold: "step i f = (None, f') \<Longrightarrow> f' = f"
    and emit_near: "inv f \<Longrightarrow> adm f i \<Longrightarrow> prev f = Some c0 \<Longrightarrow> step i f = (Some c, f') \<Longrightarrow> near f c0 c"
    and emit_good: "inv f \<Longrightarrow> adm f i \<Longrightarrow> prev f = Some c0 \<Longrightarrow> good f c0 \<Longrightarrow>
          step i f = (Some c, f') \<Longrightarrow> good f c"
    and params: "step i f = (Some c, f') \<Longrightarrow> adm f' = adm f \<and> near f' = near f \<and> good f' = good f"
begin

lemma run_inv:
  assumes "inv f" "prev f = Some c0" "\<forall>i \<in> set is. adm f i" "run_gate step is f = (cs, f')"
  shows "inv f' \<and> prev f' = Some (List.last (c0 # cs)) \<and> successively (near f) (c0 # cs)"
  using assms
proof (induction "is" arbitrary: f c0 cs)
  case (Cons i "is")
  obtain r g where st: "step i f = (r, g)" by (cases "step i f")
  show ?case
  proof (cases r)
    case None
    then show ?thesis using st Cons hold [of i f g] by auto
  next
    case (Some c)
    obtain ds where ds: "run_gate step is g = (ds, f')" "cs = c # ds"
      using Cons.prems(4) st Some by (auto split: prod.splits)
    have par: "adm g = adm f" "near g = near f" using params st Some by blast+
    have "inv g" "prev g = Some c" "near f c0 c"
      using emit_inv [of f i c g] emit_prev [of i f c g] emit_near [of f i c0 c g] Cons.prems st Some
      by auto
    then show ?thesis using Cons.IH [of g c ds] Cons.prems ds par by auto
  qed
qed simp

lemma run_good:
  assumes "inv f" "prev f = Some c0" "\<forall>i \<in> set is. adm f i" "good f c0"
    and "run_gate step is f = (cs, f')"
  shows "\<forall>c \<in> set cs. good f c"
  using assms
proof (induction "is" arbitrary: f c0 cs)
  case (Cons i "is")
  obtain r g where st: "step i f = (r, g)" by (cases "step i f")
  show ?case
  proof (cases r)
    case None
    then show ?thesis using st Cons hold [of i f g] by auto
  next
    case (Some c)
    obtain ds where ds: "run_gate step is g = (ds, f')" "cs = c # ds"
      using Cons.prems(5) st Some by (auto split: prod.splits)
    have par: "adm g = adm f" "good g = good f" using params st Some by blast+
    have "inv g" "prev g = Some c" "good f c"
      using emit_inv [of f i c g] emit_prev [of i f c g] emit_good [of f i c0 c g] Cons.prems st Some
      by auto
    then show ?thesis using Cons.IH [of g c ds] Cons.prems ds par by auto
  qed
qed simp

end

section \<open>The workspace box\<close>

definition near_axis :: "real \<Rightarrow> real \<Rightarrow> real \<Rightarrow> bool" where
  "near_axis lo hi x = np_isclose (np_clip x lo hi) x"

definition near_box :: "safety_profile \<Rightarrow> vec3 \<Rightarrow> bool" where
  "near_box p v = vec_allclose (clip_box p v) v"

definition box_ok :: "safety_profile \<Rightarrow> bool" where
  "box_ok p \<longleftrightarrow> fst (p_ws_x p) \<le> snd (p_ws_x p) \<and> fst (p_ws_y p) \<le> snd (p_ws_y p)
     \<and> fst (p_ws_z p) \<le> snd (p_ws_z p)"

lemma near_axis_iff:
  assumes "lo \<le> hi"
  shows "near_axis lo hi x \<longleftrightarrow>
    x - hi \<le> 1 / 10^8 + 1 / 10^5 * \<bar>x\<bar> \<and> lo - x \<le> 1 / 10^8 + 1 / 10^5 * \<bar>x\<bar>"
proof -
  have tol: "0 \<le> 1 / 10^8 + 1 / 10^5 * \<bar>x\<bar>" by simp
  show ?thesis
    using assms tol by (auto simp: near_axis_def np_isclose_def np_clip_def min_def max_def)
qed

lemma near_axis_segment:
  assumes lh: "lo \<le> hi" and a: "near_axis lo hi a" and b: "near_axis lo hi b"
    and s: "0 \<le> s" "s \<le> 1"
  shows "near_axis lo hi (a + s * (b - a))"
proof -
  have seg: "min a b \<le> a + s * (b - a) \<and> a + s * (b - a) \<le> max a b"
    using s by (intro segment_bounds) auto
  let ?x = "a + s * (b - a)"
  have hi: "x - hi \<le> 1 / 10^8 + 1 / 10^5 * \<bar>x\<bar>"
    if "x \<le> y" "y - hi \<le> 1 / 10^8 + 1 / 10^5 * \<bar>y\<bar>" for x y :: real
    using that by (simp add: abs_if split: if_splits)
  have lo: "lo - x \<le> 1 / 10^8 + 1 / 10^5 * \<bar>x\<bar>"
    if "y \<le> x" "lo - y \<le> 1 / 10^8 + 1 / 10^5 * \<bar>y\<bar>" for x y :: real
    using that by (simp add: abs_if split: if_splits)
  have "max a b - hi \<le> 1 / 10^8 + 1 / 10^5 * \<bar>max a b\<bar>" "lo - min a b \<le> 1 / 10^8 + 1 / 10^5 * \<bar>min a b\<bar>"
    using a b by (auto simp: near_axis_iff [OF lh] min_def max_def)
  then show ?thesis
    using seg hi [of ?x "max a b"] lo [of "min a b" ?x] by (simp add: near_axis_iff [OF lh])
qed

lemma near_box_axes:
  "near_box p v \<longleftrightarrow> near_axis (vx (ws_lo p)) (vx (ws_hi p)) (vx v)
     \<and> near_axis (vy (ws_lo p)) (vy (ws_hi p)) (vy v)
     \<and> near_axis (vz (ws_lo p)) (vz (ws_hi p)) (vz v)"
  by (simp add: near_box_def vec_allclose_def clip_box_def near_axis_def)

lemma near_box_segment:
  assumes "box_ok p" "near_box p u" "near_box p v" "0 \<le> s" "s \<le> 1"
  shows "near_box p (u + s *\<^sub>R (v - u))"
  using assms by (auto simp: near_box_axes box_ok_def ws_lo_def ws_hi_def intro!: near_axis_segment)

lemma in_box_clip: "\<not> out_of_box p v \<Longrightarrow> clip_box p v = v"
  by (auto simp: out_of_box_def clip_box_def np_clip_def vec3_eq_iff)

lemma in_box_near: "\<not> out_of_box p v \<Longrightarrow> near_box p v"
  by (simp add: near_box_def in_box_clip vec_allclose_def)

lemma clip_box_in_box: "box_ok p \<Longrightarrow> \<not> out_of_box p (clip_box p v)"
  by (auto simp: out_of_box_def clip_box_def np_clip_def box_ok_def ws_lo_def ws_hi_def)

lemma limit_workspace_facts:
  assumes "limit_workspace p a = Some a'" "box_ok p"
  shows "near_box p (pos (a_pose a'))" "rot (a_pose a') = rot (a_pose a)"
    and "near_box p (pos (a_pose a)) \<Longrightarrow> a' = a"
  using assms in_box_near [OF clip_box_in_box [OF assms(2)], of "pos (a_pose a)"]
  by (auto simp: limit_workspace_def Let_def adjusted_def near_box_def split: if_splits)

lemma limit_workspace_None:
  "limit_workspace p a = None \<longleftrightarrow>
     p_workspace_action p = ''reject'' \<and> \<not> near_box p (pos (a_pose a))"
  by (simp add: limit_workspace_def near_box_def Let_def)

section \<open>The motion limits\<close>

definition caps_ok :: "safety_profile \<Rightarrow> bool" where
  "caps_ok p \<longleftrightarrow> 0 \<le> p_max_linear_speed p \<and> 0 \<le> p_max_angular_speed p
     \<and> 0 \<le> p_max_pose_jump_linear p \<and> 0 \<le> p_max_pose_jump_angular p
     \<and> (\<forall>a. p_max_linear_accel p = Some a \<longrightarrow> 0 \<le> a)"

lemma EPS_nonzero [simp]: "EPS \<noteq> 0" "0 \<le> EPS"
  by (simp_all add: EPS_def)

lemma per_tick:
  assumes "EPS \<le> dt"
  shows "v < n / dt \<longleftrightarrow> v * dt < n" "max dt EPS = dt" "0 < dt"
proof -
  show d: "0 < dt" using assms EPS_pos(1) by linarith
  show "v < n / dt \<longleftrightarrow> v * dt < n" using d by (rule pos_less_divide_eq)
  show "max dt EPS = dt" using assms by simp
qed

text \<open>Each linear limit is a shortening of the move, and its result obeys the limit.\<close>

definition shortened :: "pose \<Rightarrow> real \<Rightarrow> adjust \<Rightarrow> adjust \<Rightarrow> bool" where
  "shortened ref m a a' \<longleftrightarrow>
     (\<exists>s. 0 \<le> s \<and> s \<le> 1 \<and> pos (a_pose a') = pos ref + s *\<^sub>R (pos (a_pose a) - pos ref))
     \<and> norm (pos (a_pose a') - pos ref) \<le> m
     \<and> (norm (pos (a_pose a) - pos ref) \<le> m \<longrightarrow> a' = a)
     \<and> rot (a_pose a') = rot (a_pose a)"

lemma shortened_scale:
  assumes "0 \<le> m" "m < norm (pos (a_pose a) - pos ref)"
  shows "shortened ref m a (adjusted r ((a_pose a)\<lparr>pos := pos ref +
           (m / max (norm (pos (a_pose a) - pos ref)) EPS) *\<^sub>R (pos (a_pose a) - pos ref)\<rparr>) a)"
proof -
  define t where "t = m / max (norm (pos (a_pose a) - pos ref)) EPS"
  have "0 \<le> t \<and> t \<le> 1"
    using assms shorten_factor [of m "norm (pos (a_pose a) - pos ref)" EPS] by (simp add: t_def)
  moreover have "norm ((pos ref + t *\<^sub>R (pos (a_pose a) - pos ref)) - pos ref) \<le> m"
    using assms unfolding t_def by (intro shorten_to) simp_all
  ultimately show ?thesis
    using assms unfolding t_def [symmetric] shortened_def adjusted_def
    by (intro conjI exI [of _ t]) simp_all
qed

lemma shortened_id: "norm (pos (a_pose a) - pos ref) \<le> m \<Longrightarrow> shortened ref m a a"
  unfolding shortened_def by (auto intro!: exI [of _ 1])

lemma limit_jump_linear_shortened:
  "0 \<le> p_max_pose_jump_linear p \<Longrightarrow>
     shortened ref (p_max_pose_jump_linear p) a (limit_jump_linear p ref a)"
  by (auto simp: limit_jump_linear_def Let_def shortened_scale shortened_id)

lemma limit_speed_linear_shortened:
  assumes "0 \<le> p_max_linear_speed p" "EPS \<le> dt"
  shows "shortened ref (p_max_linear_speed p * dt) a (limit_speed_linear p dt ref a)"
proof -
  have "0 \<le> dt" using assms EPS_pos(1) by linarith
  then show ?thesis
    using assms by (auto simp: limit_speed_linear_def Let_def per_tick shortened_scale shortened_id)
qed

text \<open>Each angular limit turns at most \<open>m / SLERP_SLACK\<close>, and is the identity within the limit.\<close>

definition turned :: "pose \<Rightarrow> real \<Rightarrow> adjust \<Rightarrow> adjust \<Rightarrow> bool" where
  "turned ref m a a' \<longleftrightarrow>
     quat_angle (rot ref) (rot (a_pose a')) \<le> m / SLERP_SLACK
     \<and> quat_angle (rot ref) (rot (a_pose a')) \<le> quat_angle (rot ref) (rot (a_pose a)) / SLERP_SLACK
     \<and> (quat_angle (rot ref) (rot (a_pose a)) \<le> m \<longrightarrow> a' = a)
     \<and> pos (a_pose a') = pos (a_pose a)"

lemma turned_slerp:
  assumes "0 \<le> m" "m < quat_angle (rot ref) (rot (a_pose a))"
  shows "turned ref m a (adjusted r ((a_pose a)\<lparr>rot := quat_slerp (rot ref) (rot (a_pose a))
           (m / max (quat_angle (rot ref) (rot (a_pose a))) EPS)\<rparr>) a)"
proof -
  define g where "g = quat_angle (rot ref) (rot (a_pose a))"
  define t where "t = m / max g EPS"
  have t: "0 \<le> t" "t \<le> 1" using shorten_factor [of m g EPS] assms by (auto simp: g_def t_def)
  have "t * g \<le> t * max g EPS" using t by (intro mult_left_mono) auto
  also have "\<dots> = m" using EPS_nonzero(1) assms by (auto simp: t_def max_def g_def [symmetric])
  finally have tg: "t * g \<le> m" .
  have g: "t * g \<le> g" using t assms by (simp add: g_def mult_left_le_one_le)
  have step: "quat_angle (rot ref) (quat_slerp (rot ref) (rot (a_pose a)) t) \<le> t * g / SLERP_SLACK"
    using quat_slerp_from [OF t] by (simp add: g_def)
  have "t * g / SLERP_SLACK \<le> m / SLERP_SLACK" "t * g / SLERP_SLACK \<le> g / SLERP_SLACK"
    using tg g by (intro divide_right_mono; simp)+
  then show ?thesis
    using step assms by (auto simp: turned_def adjusted_def g_def [symmetric] t_def [symmetric])
qed

lemma turned_id:
  assumes "quat_angle (rot ref) (rot (a_pose a)) \<le> m"
  shows "turned ref m a a"
proof -
  let ?g = "quat_angle (rot ref) (rot (a_pose a))"
  have g: "0 \<le> ?g" using quat_angle_range by blast
  have "?g \<le> ?g / SLERP_SLACK"
    using mult_left_mono [OF SLERP_SLACK_pos(2) g] by (simp add: pos_le_divide_eq)
  moreover have "?g / SLERP_SLACK \<le> m / SLERP_SLACK" using assms by (intro divide_right_mono) simp_all
  ultimately show ?thesis by (simp add: turned_def)
qed

lemma limit_jump_angular_turned:
  "0 \<le> p_max_pose_jump_angular p \<Longrightarrow>
     turned ref (p_max_pose_jump_angular p) a (limit_jump_angular p ref a)"
  by (auto simp: limit_jump_angular_def Let_def turned_slerp turned_id)

lemma limit_speed_angular_turned:
  assumes "0 \<le> p_max_angular_speed p" "EPS \<le> dt"
  shows "turned ref (p_max_angular_speed p * dt) a (limit_speed_angular p dt ref a)"
proof -
  have "0 \<le> dt" using assms EPS_pos(1) by linarith
  then show ?thesis
    using assms by (auto simp: limit_speed_angular_def Let_def per_tick turned_slerp turned_id)
qed

text \<open>The four limits together.\<close>

lemma limit_motion_facts:
  fixes ref :: pose and a :: adjust
  assumes caps: "caps_ok p" and dt: "EPS \<le> dt"
  defines "b \<equiv> limit_motion p dt ref a"
  shows "\<exists>s. 0 \<le> s \<and> s \<le> 1 \<and> pos (a_pose b) = pos ref + s *\<^sub>R (pos (a_pose a) - pos ref)"
    and "norm (pos (a_pose b) - pos ref) \<le> p_max_pose_jump_linear p"
    and "norm (pos (a_pose b) - pos ref) \<le> p_max_linear_speed p * dt"
    and "quat_angle (rot ref) (rot (a_pose b)) \<le> p_max_angular_speed p * dt / SLERP_SLACK"
    and "quat_angle (rot ref) (rot (a_pose b)) \<le> p_max_pose_jump_angular p / SLERP_SLACK / SLERP_SLACK"
    and "norm (pos (a_pose a) - pos ref) \<le> p_max_pose_jump_linear p \<Longrightarrow>
         norm (pos (a_pose a) - pos ref) \<le> p_max_linear_speed p * dt \<Longrightarrow>
         quat_angle (rot ref) (rot (a_pose a)) \<le> p_max_pose_jump_angular p \<Longrightarrow>
         quat_angle (rot ref) (rot (a_pose a)) \<le> p_max_angular_speed p * dt \<Longrightarrow> b = a"
proof -
  define a1 where "a1 = limit_jump_linear p ref a"
  define a2 where "a2 = limit_jump_angular p ref a1"
  define a3 where "a3 = limit_speed_linear p dt ref a2"
  have b: "b = limit_speed_angular p dt ref a3"
    by (simp add: b_def limit_motion_def a3_def a2_def a1_def)
  have 1: "shortened ref (p_max_pose_jump_linear p) a a1"
    using caps by (simp add: a1_def caps_ok_def limit_jump_linear_shortened)
  have 2: "turned ref (p_max_pose_jump_angular p) a1 a2"
    using caps by (simp add: a2_def caps_ok_def limit_jump_angular_turned)
  have 3: "shortened ref (p_max_linear_speed p * dt) a2 a3"
    using caps dt by (simp add: a3_def caps_ok_def limit_speed_linear_shortened)
  have 4: "turned ref (p_max_angular_speed p * dt) a3 b"
    using caps dt by (simp add: b caps_ok_def limit_speed_angular_turned)
  obtain s1 where s1: "0 \<le> s1" "s1 \<le> 1"
      "pos (a_pose a1) = pos ref + s1 *\<^sub>R (pos (a_pose a) - pos ref)"
    using 1 by (auto simp: shortened_def)
  obtain s3 where s3: "0 \<le> s3" "s3 \<le> 1"
      "pos (a_pose a3) = pos ref + s3 *\<^sub>R (pos (a_pose a2) - pos ref)"
    using 3 by (auto simp: shortened_def)
  have pb: "pos (a_pose b) = pos (a_pose a3)" "pos (a_pose a2) = pos (a_pose a1)"
    using 2 4 by (simp_all add: turned_def)
  have "pos (a_pose b) = pos ref + (s3 * s1) *\<^sub>R (pos (a_pose a) - pos ref)"
    using s1 s3 pb by simp
  then show "\<exists>s. 0 \<le> s \<and> s \<le> 1 \<and> pos (a_pose b) = pos ref + s *\<^sub>R (pos (a_pose a) - pos ref)"
    using s1 s3 by (intro exI [of _ "s3 * s1"]) (simp add: mult_le_one)
  have "norm (pos (a_pose b) - pos ref) \<le> norm (pos (a_pose a1) - pos ref)"
    using s3 pb by (simp add: mult_left_le_one_le)
  then show "norm (pos (a_pose b) - pos ref) \<le> p_max_pose_jump_linear p"
    using 1 by (simp add: shortened_def)
  show "norm (pos (a_pose b) - pos ref) \<le> p_max_linear_speed p * dt"
    using 3 pb by (simp add: shortened_def)
  show "quat_angle (rot ref) (rot (a_pose b)) \<le> p_max_angular_speed p * dt / SLERP_SLACK"
    using 4 by (simp add: turned_def)
  have "quat_angle (rot ref) (rot (a_pose b)) \<le> quat_angle (rot ref) (rot (a_pose a2)) / SLERP_SLACK"
    using 4 3 by (simp add: turned_def shortened_def)
  also have "\<dots> \<le> p_max_pose_jump_angular p / SLERP_SLACK / SLERP_SLACK"
    using 2 by (intro divide_right_mono) (simp_all add: turned_def)
  finally show "quat_angle (rot ref) (rot (a_pose b)) \<le> p_max_pose_jump_angular p / SLERP_SLACK / SLERP_SLACK" .
  show "b = a" if "norm (pos (a_pose a) - pos ref) \<le> p_max_pose_jump_linear p"
      "norm (pos (a_pose a) - pos ref) \<le> p_max_linear_speed p * dt"
      "quat_angle (rot ref) (rot (a_pose a)) \<le> p_max_pose_jump_angular p"
      "quat_angle (rot ref) (rot (a_pose a)) \<le> p_max_angular_speed p * dt"
    using 1 2 3 4 that by (auto simp: shortened_def turned_def)
qed

section \<open>The acceleration cap\<close>

lemma norm_segment:
  fixes u w :: "'a::real_normed_vector"
  assumes "norm u \<le> m" "norm w \<le> m" "0 \<le> t" "t \<le> 1"
  shows "norm (u + t *\<^sub>R (w - u)) \<le> m"
proof -
  have "u + t *\<^sub>R (w - u) = (1 - t) *\<^sub>R u + t *\<^sub>R w" by (simp add: algebra_simps)
  then have "norm (u + t *\<^sub>R (w - u)) \<le> (1 - t) * norm u + t * norm w"
    using norm_triangle_ineq [of "(1 - t) *\<^sub>R u" "t *\<^sub>R w"] assms by simp
  also have "\<dots> \<le> (1 - t) * m + t * m" using assms by (intro add_mono mult_left_mono) auto
  finally show ?thesis by (simp add: algebra_simps)
qed

lemma limit_accel_facts:
  assumes acc: "limit_accel p dt pv ref a = (b, v)" and caps: "caps_ok p" and dt: "EPS \<le> dt"
  shows "pos (a_pose b) - pos ref = dt *\<^sub>R v" "rot (a_pose b) = rot (a_pose a)"
    and "p_max_linear_accel p = None \<Longrightarrow> b = a"
    and "\<And>c u. p_max_linear_accel p = Some c \<Longrightarrow> pv = Some u \<Longrightarrow> norm (v - u) \<le> c * dt"
    and "\<And>m u. pv = Some u \<Longrightarrow> norm u \<le> m \<Longrightarrow> norm (pos (a_pose a) - pos ref) \<le> m * dt \<Longrightarrow> norm v \<le> m"
    and "\<And>c u. p_max_linear_accel p = Some c \<Longrightarrow> pv = Some u \<Longrightarrow>
           norm (pos (a_pose a) - pos ref - dt *\<^sub>R u) \<le> c * dt * dt \<Longrightarrow> b = a"
proof -
  note dts = per_tick [OF dt]
  define w where "w = (1 / dt) *\<^sub>R (pos (a_pose a) - pos ref)"
  have w: "dt *\<^sub>R w = pos (a_pose a) - pos ref" using dts by (simp add: w_def)
  define u where "u = (case pv of None \<Rightarrow> 0 | Some v \<Rightarrow> v)"
  define t where "t c = (c * dt) / max (norm (w - u)) EPS" for c
  have eq: "(b, v) = (case p_max_linear_accel p of None \<Rightarrow> (a, w)
      | Some c \<Rightarrow> if c * dt < norm (w - u)
          then (adjusted TCP_SPEED ((a_pose a)\<lparr>pos := pos ref + dt *\<^sub>R (u + t c *\<^sub>R (w - u))\<rparr>) a,
                u + t c *\<^sub>R (w - u))
          else (a, w))"
    unfolding acc [symmetric] limit_accel_def Let_def dts(2) w_def u_def t_def by (rule refl)
  have t: "0 \<le> t c \<and> t c \<le> 1" if "p_max_linear_accel p = Some c" "c * dt < norm (w - u)" for c
    using that caps dts(3) unfolding t_def
    by (intro shorten_factor) (auto simp: caps_ok_def)
  show "pos (a_pose b) - pos ref = dt *\<^sub>R v" "rot (a_pose b) = rot (a_pose a)"
    using eq w by (auto simp: adjusted_def split: option.splits if_splits)
  show "p_max_linear_accel p = None \<Longrightarrow> b = a" using eq by simp
  show "norm (v - u') \<le> c * dt" if "p_max_linear_accel p = Some c" "pv = Some u'" for c u'
  proof -
    have "norm ((u + t c *\<^sub>R (w - u)) - u) \<le> c * dt"
      using that caps dts(3) unfolding t_def by (intro shorten_to) (auto simp: caps_ok_def)
    then show ?thesis using eq that by (auto simp: u_def split: if_splits)
  qed
  show "norm v \<le> m" if "pv = Some u'" "norm u' \<le> m" "norm (pos (a_pose a) - pos ref) \<le> m * dt" for m u'
  proof -
    have "norm w \<le> m" using that(3) dts(3) by (simp add: w_def pos_divide_le_eq)
    moreover have "norm u \<le> m" using that by (simp add: u_def)
    ultimately show ?thesis
      using eq t norm_segment [of u m w] by (auto split: option.splits if_splits)
  qed
  show "b = a" if "p_max_linear_accel p = Some c" "pv = Some u'"
      "norm (pos (a_pose a) - pos ref - dt *\<^sub>R u') \<le> c * dt * dt" for c u'
  proof -
    have "dt *\<^sub>R (w - u) = pos (a_pose a) - pos ref - dt *\<^sub>R u'"
      using w that by (simp add: u_def scaleR_right_diff_distrib)
    then have "dt * norm (w - u) \<le> dt * (c * dt)"
      using that(3) dts(3) by (metis abs_of_pos norm_scaleR mult.commute mult.assoc)
    then have "norm (w - u) \<le> c * dt" using dts(3) by simp
    then show ?thesis using eq that by simp
  qed
qed

section \<open>One Cartesian setpoint\<close>

lemma filter_cartesian_accepted:
  assumes "filter_cartesian tgt st cap f = (Inr r, f')" "sr_ok r"
  obtains a b v where
    "limit_workspace (f_p f) (fresh_adjust tgt) = Some a"
    "limit_accel (f_p f) (f_dt f) (f_prev_lin_vel f) (anchor f st)
       (limit_motion (f_p f) (f_dt f) (anchor f st) a) = (b, v)"
    "sr_pose r = Some (a_pose b)" "sr_clipped r = a_clipped b" "sr_clip_reasons r = a_reasons b"
    "f' = f\<lparr>f_prev_lin_vel := Some v, f_prev_pose := Some (a_pose b)\<rparr>"
proof -
  obtain a where a: "limit_workspace (f_p f) (fresh_adjust tgt) = Some a" "commit_motion st a f = (r, f')"
    using assms by (auto simp: filter_cartesian_def sr_reject_def
        split: sum.splits if_splits option.splits prod.splits)
  obtain b v where "limit_accel (f_p f) (f_dt f) (f_prev_lin_vel f) (anchor f st)
       (limit_motion (f_p f) (f_dt f) (anchor f st) a) = (b, v)"
    by (cases "limit_accel (f_p f) (f_dt f) (f_prev_lin_vel f) (anchor f st)
       (limit_motion (f_p f) (f_dt f) (anchor f st) a)") simp
  with a show thesis by (intro that) (auto simp: commit_motion_def)
qed

lemma commit_motion_ok: "commit_motion st a f = (r, f') \<Longrightarrow> sr_ok r"
  by (auto simp: commit_motion_def Let_def split: prod.splits)

lemma filter_cartesian_rejected:
  assumes "filter_cartesian tgt st cap f = (x, f')" "\<And>r. x = Inr r \<Longrightarrow> \<not> sr_ok r"
  shows "f' = f"
  using assms commit_motion_ok
  by (auto simp: filter_cartesian_def split: sum.splits if_splits option.splits prod.splits)

text \<open>
  The invariant a \<open>reset\<close> filter has and every setpoint keeps: usable limits, and a commanded
  velocity within them.
\<close>

definition cart_inv :: "safety_filter \<Rightarrow> bool" where
  "cart_inv f \<longleftrightarrow> caps_ok (f_p f) \<and> box_ok (f_p f) \<and> EPS \<le> f_dt f
     \<and> (\<exists>u. f_prev_lin_vel f = Some u \<and> norm u \<le> p_max_linear_speed (f_p f)
            \<and> norm u \<le> p_max_pose_jump_linear (f_p f) / f_dt f)"

lemma reset_cart_inv:
  assumes "caps_ok (f_p f)" "box_ok (f_p f)" "EPS \<le> f_dt f"
  shows "cart_inv (reset (Some st) None None f)"
  using assms per_tick(3) [OF assms(3)] by (auto simp: cart_inv_def reset_def caps_ok_def)

definition cart_near :: "safety_filter \<Rightarrow> pose \<Rightarrow> pose \<Rightarrow> bool" where
  "cart_near f c c' \<longleftrightarrow>
     norm (pos c' - pos c) \<le> p_max_linear_speed (f_p f) * f_dt f
     \<and> norm (pos c' - pos c) \<le> p_max_pose_jump_linear (f_p f)
     \<and> quat_angle (rot c) (rot c') \<le> p_max_angular_speed (f_p f) * f_dt f / SLERP_SLACK
     \<and> quat_angle (rot c) (rot c') \<le> p_max_pose_jump_angular (f_p f) / SLERP_SLACK / SLERP_SLACK"

definition cart_good :: "safety_filter \<Rightarrow> pose \<Rightarrow> bool" where
  "cart_good f c \<longleftrightarrow> (p_max_linear_accel (f_p f) = None \<longrightarrow> near_box (f_p f) (pos c))"

fun cart_step :: "pose \<times> robot_state \<times> real list option \<Rightarrow> safety_filter \<Rightarrow> pose option \<times> safety_filter" where
  "cart_step (tgt, st, cap) f =
     (case filter_cartesian tgt st cap f of
        (Inr r, f') \<Rightarrow> (if sr_ok r then sr_pose r else None, f')
      | (Inl e, f') \<Rightarrow> (None, f'))"

lemma cart_step_emit:
  assumes "cart_step (tgt, st, cap) f = (Some c, f')"
  obtains r where "filter_cartesian tgt st cap f = (Inr r, f')" "sr_ok r" "sr_pose r = Some c"
  using assms by (auto split: prod.splits sum.splits if_splits)

lemma cart_step_facts:
  assumes "cart_inv f" "filter_cartesian tgt st cap f = (Inr r, f')" "sr_ok r" "sr_pose r = Some c"
  shows "cart_inv f'" "f_prev_pose f' = Some c" "cart_near f (anchor f st) c"
    and "cart_good f (anchor f st) \<Longrightarrow> cart_good f c"
    and "\<And>u v a. f_prev_lin_vel f = Some u \<Longrightarrow> f_prev_lin_vel f' = Some v \<Longrightarrow>
           p_max_linear_accel (f_p f) = Some a \<Longrightarrow> norm (v - u) \<le> a * f_dt f"
proof -
  define ref where "ref = anchor f st"
  obtain a b v where w: "limit_workspace (f_p f) (fresh_adjust tgt) = Some a"
    and acc: "limit_accel (f_p f) (f_dt f) (f_prev_lin_vel f) ref (limit_motion (f_p f) (f_dt f) ref a) = (b, v)"
    and c: "c = a_pose b" and f': "f' = f\<lparr>f_prev_lin_vel := Some v, f_prev_pose := Some (a_pose b)\<rparr>"
    using filter_cartesian_accepted [OF assms(2,3)] assms(4) by (metis option.inject ref_def)
  have caps: "caps_ok (f_p f)" and box: "box_ok (f_p f)" and dt: "EPS \<le> f_dt f"
    using assms(1) by (simp_all add: cart_inv_def)
  note dts = per_tick [OF dt]
  note M = limit_motion_facts [OF caps dt, where ref = ref and a = a]
  note A = limit_accel_facts [OF acc caps dt]
  obtain u where u: "f_prev_lin_vel f = Some u" "norm u \<le> p_max_linear_speed (f_p f)"
      "norm u \<le> p_max_pose_jump_linear (f_p f) / f_dt f"
    using assms(1) by (auto simp: cart_inv_def)
  have v: "norm v \<le> p_max_linear_speed (f_p f)" "norm v \<le> p_max_pose_jump_linear (f_p f) / f_dt f"
    using A(5) [OF u(1,2)] A(5) [OF u(1,3)] M(2,3) dts(3) by auto
  then show "cart_inv f'" using caps box dt f' by (simp add: cart_inv_def)
  show "f_prev_pose f' = Some c" by (simp add: f' c)
  have "norm (pos c - pos ref) = norm v * f_dt f"
    using A(1) dts(3) by (simp add: c mult.commute)
  moreover have "norm v * f_dt f \<le> p_max_linear_speed (f_p f) * f_dt f"
    using v(1) dts(3) by (intro mult_right_mono) auto
  moreover have "norm v * f_dt f \<le> p_max_pose_jump_linear (f_p f)"
    using v(2) dts(3) by (simp add: pos_le_divide_eq)
  ultimately show "cart_near f (anchor f st) c"
    using M(4,5) A(2) by (simp add: cart_near_def c ref_def)
  show "cart_good f c" if "cart_good f (anchor f st)"
  proof -
    obtain s where "0 \<le> s" "s \<le> 1" "pos (a_pose (limit_motion (f_p f) (f_dt f) ref a))
        = pos ref + s *\<^sub>R (pos (a_pose a) - pos ref)"
      using M(1) by blast
    then show ?thesis
      using that near_box_segment [OF box _ limit_workspace_facts(1) [OF w box]] A(3)
      by (auto simp: cart_good_def c ref_def)
  qed
  show "norm (v' - u') \<le> a * f_dt f" if "f_prev_lin_vel f = Some u'" "f_prev_lin_vel f' = Some v'"
      "p_max_linear_accel (f_p f) = Some a" for u' v' a
    using A(4) [OF that(3,1)] that(2) by (simp add: f')
qed

lemma filter_cartesian_prev:
  assumes "filter_cartesian tgt st cap f = (Inr r, f')" "sr_ok r"
  shows "f_prev_pose f' = sr_pose r" "\<exists>c. sr_pose r = Some c"
  using assms by (rule filter_cartesian_accepted, simp)+

text \<open>A command reported unclipped is the target: every change of the target sets the flag.\<close>

lemma limit_unclipped:
  "\<not> a_clipped (limit_jump_linear p ref a) \<Longrightarrow> limit_jump_linear p ref a = a"
  "\<not> a_clipped (limit_jump_angular p ref a) \<Longrightarrow> limit_jump_angular p ref a = a"
  "\<not> a_clipped (limit_speed_linear p dt ref a) \<Longrightarrow> limit_speed_linear p dt ref a = a"
  "\<not> a_clipped (limit_speed_angular p dt ref a) \<Longrightarrow> limit_speed_angular p dt ref a = a"
  "limit_workspace p a = Some b \<Longrightarrow> \<not> a_clipped b \<Longrightarrow> b = a"
  "limit_accel p dt pv ref a = (b, v) \<Longrightarrow> \<not> a_clipped b \<Longrightarrow> b = a"
  by (auto simp: limit_jump_linear_def limit_jump_angular_def limit_speed_linear_def
      limit_speed_angular_def limit_workspace_def limit_accel_def adjusted_def Let_def
      split: if_splits option.splits)

lemma limit_motion_unclipped: "\<not> a_clipped (limit_motion p dt ref a) \<Longrightarrow> limit_motion p dt ref a = a"
  unfolding limit_motion_def by (metis limit_unclipped(1-4))

lemma filter_cartesian_unclipped:
  assumes "filter_cartesian tgt st cap f = (Inr r, f')" "sr_ok r" "\<not> sr_clipped r"
  shows "sr_pose r = Some tgt"
  using assms(1,2)
proof (rule filter_cartesian_accepted)
  fix a b v
  assume w: "limit_workspace (f_p f) (fresh_adjust tgt) = Some a"
    and acc: "limit_accel (f_p f) (f_dt f) (f_prev_lin_vel f) (anchor f st)
       (limit_motion (f_p f) (f_dt f) (anchor f st) a) = (b, v)"
    and b: "sr_pose r = Some (a_pose b)" "sr_clipped r = a_clipped b"
  have 1: "\<not> a_clipped b" using assms(3) b by simp
  have 2: "b = limit_motion (f_p f) (f_dt f) (anchor f st) a" by (rule limit_unclipped(6) [OF acc 1])
  then have 3: "b = a" using 1 limit_motion_unclipped by metis
  then have "b = fresh_adjust tgt" using limit_unclipped(5) [OF w] 1 by simp
  then show ?thesis using b(1) by (simp add: fresh_adjust_def)
qed

lemma anchor_prev: "f_prev_pose f = Some c \<Longrightarrow> anchor f st = c"
  by (simp add: anchor_def)

lemma filter_cartesian_params:
  assumes "filter_cartesian tgt st cap f = (x, f')"
  shows "f_p f' = f_p f" "f_dt f' = f_dt f" "f_prev_q f' = f_prev_q f"
proof -
  have "f_p g = f_p f \<and> f_dt g = f_dt f \<and> f_prev_q g = f_prev_q f"
    if "commit_motion st a f = (r, g)" for a r g
    using that by (auto simp: commit_motion_def Let_def split: prod.splits)
  then show "f_p f' = f_p f" "f_dt f' = f_dt f" "f_prev_q f' = f_prev_q f"
    using assms
    by (auto simp: filter_cartesian_def split: sum.splits if_splits option.splits prod.splits)
qed

interpretation cart_gate: command_gate cart_step f_prev_pose cart_inv "\<lambda>f i. True" cart_near cart_good
proof
  fix i :: "pose \<times> robot_state \<times> real list option" and f f' c c0
  obtain tgt st cap where i: "i = (tgt, st, cap)" by (cases i)
  show "f' = f" if "cart_step i f = (None, f')"
  proof (cases "filter_cartesian tgt st cap f")
    case (Pair x g)
    show ?thesis
    proof (rule filter_cartesian_rejected)
      show "filter_cartesian tgt st cap f = (x, f')" using that Pair i by (auto split: sum.splits)
      show "\<not> sr_ok r" if "x = Inr r" for r
        using \<open>cart_step i f = (None, f')\<close> that Pair i filter_cartesian_prev(2) [of tgt st cap f r g]
        by auto
    qed
  qed
  assume emit: "cart_step i f = (Some c, f')"
  then obtain r where r: "filter_cartesian tgt st cap f = (Inr r, f')" "sr_ok r" "sr_pose r = Some c"
    using i cart_step_emit by metis
  show "f_prev_pose f' = Some c" using filter_cartesian_prev(1) [OF r(1,2)] r(3) by simp
  show "cart_inv f'" if "cart_inv f" by (rule cart_step_facts(1) [OF that r])
  show "cart_near f c0 c" if "cart_inv f" "f_prev_pose f = Some c0"
    using cart_step_facts(3) [OF that(1) r] that(2) by (simp add: anchor_prev)
  show "cart_good f c" if "cart_inv f" "f_prev_pose f = Some c0" "cart_good f c0"
    using cart_step_facts(4) [OF that(1) r] that(2,3) by (simp add: anchor_prev)
  show "(\<lambda>i. True) = (\<lambda>i. True) \<and> cart_near f' = cart_near f \<and> cart_good f' = cart_good f"
    using filter_cartesian_params [OF r(1)]
    by (simp add: cart_near_def cart_good_def fun_eq_iff)
qed

section \<open>One joint setpoint\<close>

definition joint_lo :: "safety_profile \<Rightarrow> nat \<Rightarrow> real" where
  "joint_lo p i = p_joint_lower p ! i + p_joint_margin_rad p"

definition joint_hi :: "safety_profile \<Rightarrow> nat \<Rightarrow> real" where
  "joint_hi p i = p_joint_upper p ! i - p_joint_margin_rad p"

definition joint_inv :: "safety_filter \<Rightarrow> bool" where
  "joint_inv f \<longleftrightarrow> 0 \<le> max_joint_step f
     \<and> length (p_joint_upper (f_p f)) = length (p_joint_lower (f_p f))
     \<and> (\<forall>i < length (p_joint_lower (f_p f)). joint_lo (f_p f) i \<le> joint_hi (f_p f) i)
     \<and> (\<exists>q. f_prev_q f = Some q \<and> length q = length (p_joint_lower (f_p f)))"

definition joint_adm :: "safety_filter \<Rightarrow> real list \<times> robot_state \<Rightarrow> bool" where
  "joint_adm f i \<longleftrightarrow> length (fst i) = length (p_joint_lower (f_p f))"

definition joint_near :: "safety_filter \<Rightarrow> real list \<Rightarrow> real list \<Rightarrow> bool" where
  "joint_near f q q' \<longleftrightarrow> length q' = length q
     \<and> (\<forall>i < length q. \<bar>q' ! i - q ! i\<bar> \<le> max_joint_step f)"

definition joint_good :: "safety_filter \<Rightarrow> real list \<Rightarrow> bool" where
  "joint_good f q \<longleftrightarrow> (\<forall>i < length q. near_axis (joint_lo (f_p f) i) (joint_hi (f_p f) i) (q ! i))"

fun joint_step :: "real list \<times> robot_state \<Rightarrow> safety_filter \<Rightarrow> real list option \<times> safety_filter" where
  "joint_step (tq, st) f =
     (case filter_joint tq st f of
        (Inr r, f') \<Rightarrow> (sr_q r, f')
      | (Inl e, f') \<Rightarrow> (None, f'))"

text \<open>The move of one joint: the clipped target, then the capped step towards it.\<close>

definition capped :: "real \<Rightarrow> real \<Rightarrow> real" where
  "capped m s = (if m < \<bar>s\<bar> then sgn s * m else s)"

lemma capped_facts:
  assumes "0 \<le> m"
  shows "\<bar>capped m s\<bar> \<le> m" "\<exists>t. 0 \<le> t \<and> t \<le> 1 \<and> capped m s = t * s"
proof -
  show "\<bar>capped m s\<bar> \<le> m" using assms by (auto simp: capped_def abs_mult abs_sgn_eq)
  show "\<exists>t. 0 \<le> t \<and> t \<le> 1 \<and> capped m s = t * s"
  proof (cases "m < \<bar>s\<bar>")
    case True
    then have "capped m s = (m / \<bar>s\<bar>) * s" using assms by (auto simp: capped_def sgn_if)
    then show ?thesis using True assms by (intro exI [of _ "m / \<bar>s\<bar>"]) auto
  next
    case False
    then show ?thesis by (intro exI [of _ 1]) (simp add: capped_def)
  qed
qed

lemma np_clip_arr_ok:
  assumes "length lo = length xs" "length hi = length xs"
  shows "\<exists>ys. np_clip_arr xs lo hi = Inr ys \<and> length ys = length xs
    \<and> (\<forall>i < length xs. ys ! i = np_clip (xs ! i) (lo ! i) (hi ! i))"
  using assms by (simp add: np_clip_arr_def np_clip_def)

lemma np_allclose_ok:
  assumes "length ys = length xs"
  shows "np_allclose xs ys = Inr (\<forall>i < length xs. np_isclose (xs ! i) (ys ! i))"
  using assms by (auto simp: np_allclose_def list_all_length)

lemma joint_clip_ok:
  assumes "length (p_joint_lower p) = length tq" "length (p_joint_upper p) = length tq"
    and "\<And>i. i < length tq \<Longrightarrow> joint_lo p i \<le> joint_hi p i"
  shows "\<exists>c rs. joint_clip p tq = Inr (c, rs) \<and> length c = length tq
    \<and> (\<forall>i < length tq. near_axis (joint_lo p i) (joint_hi p i) (c ! i))
    \<and> ((\<forall>i < length tq. near_axis (joint_lo p i) (joint_hi p i) (tq ! i)) \<longrightarrow> c = tq \<and> rs = [])"
proof -
  let ?lo = "map (\<lambda>x. x + p_joint_margin_rad p) (p_joint_lower p)"
  let ?hi = "map (\<lambda>x. x - p_joint_margin_rad p) (p_joint_upper p)"
  obtain ys where ys: "np_clip_arr tq ?lo ?hi = Inr ys" "length ys = length tq"
      "\<And>i. i < length tq \<Longrightarrow> ys ! i = np_clip (tq ! i) (joint_lo p i) (joint_hi p i)"
    using np_clip_arr_ok [of ?lo tq ?hi] assms(1,2) by (auto simp: joint_lo_def joint_hi_def)
  have close: "np_allclose ys tq
      = Inr (\<forall>i < length tq. near_axis (joint_lo p i) (joint_hi p i) (tq ! i))"
    using ys by (simp add: np_allclose_ok near_axis_def)
  have "near_axis (joint_lo p i) (joint_hi p i) (ys ! i)" if "i < length tq" for i
    using ys(3) assms(3) that np_clip_bounds [of "joint_lo p i" "joint_hi p i" "tq ! i"]
    by (simp add: near_axis_def np_clip_id)
  then show ?thesis using ys(1,2) close by (auto simp: joint_clip_def)
qed

lemma joint_cap_ok:
  assumes "length c = length ref" "0 \<le> m"
  shows "\<exists>q rs'. joint_cap m ref (c, rs) = Inr (q, rs') \<and> length q = length ref
    \<and> (\<forall>i < length ref. q ! i = ref ! i + capped m (c ! i - ref ! i))
    \<and> ((\<forall>i < length ref. \<bar>c ! i - ref ! i\<bar> \<le> m) \<longrightarrow> q = c \<and> rs' = rs)"
proof (cases "list_ex (\<lambda>s. m < \<bar>s\<bar>) (map2 (-) c ref)")
  case True
  then have "\<not> (\<forall>i < length ref. \<bar>c ! i - ref ! i\<bar> \<le> m)"
    using assms(1) by (auto simp: list_ex_length not_le)
  then show ?thesis using True assms(1) by (simp add: joint_cap_def capped_def)
next
  case False
  then have "\<forall>i < length ref. \<bar>c ! i - ref ! i\<bar> \<le> m"
    using assms(1) by (auto simp: list_ex_length not_le)
  then have "\<forall>i < length ref. \<not> m < \<bar>c ! i - ref ! i\<bar>" by auto
  then show ?thesis using False assms(1) by (simp add: joint_cap_def capped_def)
qed

lemma filter_joint_facts:
  assumes inv: "joint_inv f" and adm: "joint_adm f (tq, st)" and ref: "f_prev_q f = Some ref"
  shows "\<exists>r q. filter_joint tq st f = (Inr r, f\<lparr>f_prev_q := Some q\<rparr>) \<and> sr_ok r \<and> sr_q r = Some q
    \<and> joint_near f ref q \<and> (joint_good f ref \<longrightarrow> joint_good f q)
    \<and> (joint_good f tq \<longrightarrow> joint_near f ref tq \<longrightarrow> q = tq \<and> \<not> sr_clipped r)"
proof -
  let ?p = "f_p f" and ?m = "max_joint_step f"
  have m: "0 \<le> ?m" and len: "length (p_joint_upper ?p) = length (p_joint_lower ?p)"
      "length ref = length (p_joint_lower ?p)" "length tq = length (p_joint_lower ?p)"
    and lh: "\<And>i. i < length tq \<Longrightarrow> joint_lo ?p i \<le> joint_hi ?p i"
    using inv adm ref by (auto simp: joint_inv_def joint_adm_def)
  obtain c rs where c: "joint_clip ?p tq = Inr (c, rs)" "length c = length tq"
      "\<forall>i < length tq. near_axis (joint_lo ?p i) (joint_hi ?p i) (c ! i)"
      "(\<forall>i < length tq. near_axis (joint_lo ?p i) (joint_hi ?p i) (tq ! i)) \<longrightarrow> c = tq \<and> rs = []"
    using joint_clip_ok [of ?p tq] len lh by auto
  obtain q rs' where q: "joint_cap ?m ref (c, rs) = Inr (q, rs')" "length q = length ref"
      "\<forall>i < length ref. q ! i = ref ! i + capped ?m (c ! i - ref ! i)"
      "(\<forall>i < length ref. \<bar>c ! i - ref ! i\<bar> \<le> ?m) \<longrightarrow> q = c \<and> rs' = rs"
    using joint_cap_ok [of c ref ?m rs] c(2) len m by auto
  have near: "joint_near f ref q"
    using q(2,3) capped_facts(1) [OF m] by (simp add: joint_near_def)
  have good: "joint_good f q" if "joint_good f ref"
    unfolding joint_good_def
  proof (intro allI impI)
    fix i assume i: "i < length q"
    obtain t where "0 \<le> t" "t \<le> 1" "q ! i = ref ! i + t * (c ! i - ref ! i)"
      using capped_facts(2) [OF m, of "c ! i - ref ! i"] q i by auto
    then show "near_axis (joint_lo ?p i) (joint_hi ?p i) (q ! i)"
      using that i q(2) c(3) len lh by (auto simp: joint_good_def intro!: near_axis_segment)
  qed
  have same: "q = tq \<and> rs' = []" if "joint_good f tq" "joint_near f ref tq"
    using that c(4) q(4) len by (auto simp: joint_good_def joint_near_def)
  show ?thesis using c(1) q(1) ref near good same by (simp add: filter_joint_def)
qed

interpretation joint_gate: command_gate joint_step f_prev_q joint_inv joint_adm joint_near joint_good
proof
  fix i :: "real list \<times> robot_state" and f f' c c0
  obtain tq st where i: "i = (tq, st)" by (cases i)
  show "f' = f" if "joint_step i f = (None, f')"
    using that i by (auto simp: filter_joint_def split: sum.splits prod.splits)
  assume emit: "joint_step i f = (Some c, f')"
  then have f': "f' = f\<lparr>f_prev_q := Some c\<rparr>"
    using i by (auto simp: filter_joint_def split: sum.splits prod.splits)
  then show "f_prev_q f' = Some c" by simp
  have same: "max_joint_step f' = max_joint_step f" by (simp add: f' max_joint_step_def)
  show "joint_adm f' = joint_adm f \<and> joint_near f' = joint_near f \<and> joint_good f' = joint_good f"
    using same by (simp add: f' joint_adm_def joint_near_def joint_good_def fun_eq_iff)
  show "joint_near f c0 c" if "joint_inv f" "joint_adm f i" "f_prev_q f = Some c0"
    using filter_joint_facts [OF that(1) that(2) [unfolded i] that(3)] emit i by auto
  show "joint_good f c" if "joint_inv f" "joint_adm f i" "f_prev_q f = Some c0" "joint_good f c0"
    using filter_joint_facts [OF that(1) that(2) [unfolded i] that(3)] that(4) emit i by auto
  show "joint_inv f'" if I: "joint_inv f" and A: "joint_adm f i"
  proof -
    obtain c1 where c1: "f_prev_q f = Some c1" "length c1 = length (p_joint_lower (f_p f))"
      using I by (auto simp: joint_inv_def)
    have "joint_near f c1 c"
      using filter_joint_facts [OF I A [unfolded i] c1(1)] emit i by auto
    then show ?thesis using I c1 same by (simp add: joint_inv_def joint_near_def f')
  qed
qed

section \<open>In-spec streams pass unchanged\<close>

text \<open>A target within every limit of the previous command is emitted as it is.\<close>

definition wrench_ok :: "safety_profile \<Rightarrow> robot_state \<Rightarrow> real list option \<Rightarrow> bool" where
  "wrench_ok p st cap \<longleftrightarrow>
     np_any_abs_gt (st_wrench st) (case cap of None \<Rightarrow> p_max_contact_wrench p | Some w \<Rightarrow> w) = Inr False"

definition in_spec :: "safety_filter \<Rightarrow> pose \<Rightarrow> pose \<Rightarrow> bool" where
  "in_spec f c t \<longleftrightarrow> norm (pos t - pos c) \<le> p_max_pose_jump_linear (f_p f)
     \<and> norm (pos t - pos c) \<le> p_max_linear_speed (f_p f) * f_dt f
     \<and> quat_angle (rot c) (rot t) \<le> p_max_pose_jump_angular (f_p f)
     \<and> quat_angle (rot c) (rot t) \<le> p_max_angular_speed (f_p f) * f_dt f"

lemma filter_cartesian_in_spec:
  assumes inv: "cart_inv f" and noacc: "p_max_linear_accel (f_p f) = None"
    and wr: "wrench_ok (f_p f) st cap" and box: "near_box (f_p f) (pos t)"
    and spec: "in_spec f (anchor f st) t"
  shows "\<exists>r f'. filter_cartesian t st cap f = (Inr r, f') \<and> sr_ok r \<and> sr_pose r = Some t
    \<and> \<not> sr_clipped r \<and> sr_clip_reasons r = []"
proof -
  have caps: "caps_ok (f_p f)" and bok: "box_ok (f_p f)" and dt: "EPS \<le> f_dt f"
    using inv by (simp_all add: cart_inv_def)
  let ?a = "fresh_adjust t"
  have pose: "a_pose ?a = t" by (simp add: fresh_adjust_def)
  have w: "limit_workspace (f_p f) ?a = Some ?a"
    using limit_workspace_facts(3) [OF _ bok] limit_workspace_None [of "f_p f" ?a] box pose
    by (cases "limit_workspace (f_p f) ?a") auto
  have m: "limit_motion (f_p f) (f_dt f) (anchor f st) ?a = ?a"
    using limit_motion_facts(6) [OF caps dt, where ref = "anchor f st" and a = ?a] spec
    by (simp add: in_spec_def pose)
  have a: "limit_accel (f_p f) (f_dt f) (f_prev_lin_vel f) (anchor f st) ?a
      = (?a, (1 / max (f_dt f) EPS) *\<^sub>R (pos t - pos (anchor f st)))"
    using noacc by (simp add: limit_accel_def Let_def pose)
  have "\<exists>r f'. commit_motion st ?a f = (r, f') \<and> sr_ok r \<and> sr_pose r = Some t
      \<and> \<not> sr_clipped r \<and> sr_clip_reasons r = []"
    unfolding commit_motion_def Let_def m a by (simp add: fresh_adjust_def)
  then show ?thesis
    using wr by (auto simp: filter_cartesian_def wrench_ok_def w)
qed

lemma run_gate_in_spec:
  assumes "cart_inv f" "p_max_linear_accel (f_p f) = None" "f_prev_pose f = Some c"
    and "\<forall>i \<in> set is. near_box (f_p f) (pos (fst i)) \<and> wrench_ok (f_p f) (fst (snd i)) (snd (snd i))"
    and "successively (in_spec f) (c # map fst is)"
  shows "fst (run_gate cart_step is f) = map fst is"
  using assms
proof (induction "is" arbitrary: f c)
  case (Cons i "is")
  obtain t st cap where i: "i = (t, st, cap)" by (cases i)
  have "in_spec f (anchor f st) t" using Cons.prems(3,5) i by (simp add: anchor_prev)
  then obtain r f' where r: "filter_cartesian t st cap f = (Inr r, f')" "sr_ok r" "sr_pose r = Some t"
    using filter_cartesian_in_spec [of f st cap t] Cons.prems i by auto
  have par: "f_p f' = f_p f" "f_dt f' = f_dt f" using filter_cartesian_params [OF r(1)] by auto
  then have spec: "in_spec f' = in_spec f" by (simp add: in_spec_def fun_eq_iff)
  have "fst (run_gate cart_step is f') = map fst is"
    using cart_step_facts(1,2) [OF Cons.prems(1) r] Cons.prems i
    by (intro Cons.IH [of f' t]) (auto simp: par spec)
  then show ?case using r i by (auto split: prod.splits)
qed simp

lemma tick_ok_in_spec:
  assumes "tick_ok v w (1 / hz) a b" "0 < hz" "f_dt f = 1 / hz"
    and "v \<le> p_max_linear_speed (f_p f)" "v / hz \<le> p_max_pose_jump_linear (f_p f)"
    and "quat_angle (rot a) (rot b) = 0" "caps_ok (f_p f)"
  shows "in_spec f a b"
proof -
  have n: "norm (pos b - pos a) \<le> v / hz" using assms(1) by (simp add: tick_ok_def)
  moreover have "v / hz \<le> p_max_linear_speed (f_p f) * f_dt f"
    using assms(2,3,4) by (simp add: divide_right_mono)
  ultimately show ?thesis
    using assms by (auto simp: in_spec_def caps_ok_def)
qed

lemma successively_mono_set:
  assumes "successively R xs" "\<And>a b. a \<in> set xs \<Longrightarrow> b \<in> set xs \<Longrightarrow> R a b \<Longrightarrow> S a b"
  shows "successively S xs"
  using assms by (induction xs rule: induct_list012) auto

section \<open>The dictionary layout and the preflight\<close>

lemma to_opt_jfloat [simp]: "to_opt jfloat (of_opt JNum x) = Inr x"
  by (rule to_opt_of_opt) simp

lemma of_floats_tag [simp]: "jpair (of_pair ab) = Inr ab"
  by (simp add: of_pair_def)

lemma validate_from_clean:
  assumes "validate_from p lc ac i prev pq ws = Inr []"
  shows "list_all (\<lambda>w. \<not> out_of_box p (wp_position w)) ws"
    and "successively (\<lambda>a b. \<forall>d. wp_duration b = Some d \<longrightarrow> 0 < d \<longrightarrow>
           BLEND_PEAK * norm (wp_position b - wp_position a) / d \<le> lc) ws"
    and "\<And>pp w ws' d. prev = Some pp \<Longrightarrow> ws = w # ws' \<Longrightarrow> wp_duration w = Some d \<Longrightarrow> 0 < d \<Longrightarrow>
           BLEND_PEAK * norm (wp_position w - pp) / d \<le> lc"
proof -
  have seg: "BLEND_PEAK * norm (wp_position w - pp) / d \<le> lc"
    if "segment_reports lc ac i (Some pp) pq w = Inr []" "wp_duration w = Some d" "0 < d"
    for i pp pq w d
    using that
    by (auto simp: segment_reports_def speed_report_def bindR_eq_Inr split: if_splits option.splits)
  have *: "list_all (\<lambda>w. \<not> out_of_box p (wp_position w)) ws
    \<and> successively (\<lambda>a b. \<forall>d. wp_duration b = Some d \<longrightarrow> 0 < d \<longrightarrow>
           BLEND_PEAK * norm (wp_position b - wp_position a) / d \<le> lc) ws
    \<and> (\<forall>pp w ws' d. prev = Some pp \<longrightarrow> ws = w # ws' \<longrightarrow> wp_duration w = Some d \<longrightarrow> 0 < d \<longrightarrow>
           BLEND_PEAK * norm (wp_position w - pp) / d \<le> lc)"
    using assms
  proof (induction ws arbitrary: i prev pq)
    case (Cons w ws)
    obtain s where s: "segment_reports lc ac i prev pq w = Inr s" "s = []" "\<not> out_of_box p (wp_position w)"
      and rest: "validate_from p lc ac (Suc i) (Some (wp_position w))
              (case wp_quaternion w of None \<Rightarrow> pq | Some q \<Rightarrow> Some q) ws = Inr []"
      using Cons.prems by (auto simp: bindR_eq_Inr split: if_splits)
    show ?case
      using Cons.IH [OF rest] s seg by (cases ws) auto
  qed simp
  show "list_all (\<lambda>w. \<not> out_of_box p (wp_position w)) ws"
    and "successively (\<lambda>a b. \<forall>d. wp_duration b = Some d \<longrightarrow> 0 < d \<longrightarrow>
           BLEND_PEAK * norm (wp_position b - wp_position a) / d \<le> lc) ws"
    using * by blast+
  show "BLEND_PEAK * norm (wp_position w - pp) / d \<le> lc"
    if "prev = Some pp" "ws = w # ws'" "wp_duration w = Some d" "0 < d" for pp w ws' d
    using * that by blast
qed

section \<open>Properties\<close>

lemma default_profile_ok [simp]: "caps_ok default_profile" "box_ok default_profile"
  by (simp_all add: caps_ok_def box_ok_def default_profile_def)

lemma default_profile_sel:
  "p_max_linear_speed default_profile = 25/100" "p_max_angular_speed default_profile = 60/100"
  "p_max_pose_jump_linear default_profile = 3/100" "p_max_linear_accel default_profile = None"
  "p_max_pose_jump_angular default_profile = 15/100"
  by (simp_all add: default_profile_def)

lemma EPS_le_hundredth [simp]: "EPS * 100 \<le> 1" "EPS * 10 \<le> 1"
  by (simp_all add: EPS_def)

text \<open>Whatever targets and robot states a client streams into a Cartesian filter reset on the
  robot's pose, the commands the filter lets through move, tick to tick, at most
  \<open>max_linear_speed * dt\<close> and at most the linear jump cap, and turn at most
  \<open>max_angular_speed * dt\<close> (up to the 1/0.9995 of the fast slerp branch), with and without the
  acceleration cap.\<close>

theorem cartesian_stream_bounded:
  assumes "caps_ok p" "box_ok p" "EPS \<le> dt"
    and "run_gate cart_step is (reset (Some st) None None (mk_filter p dt)) = (cs, f')"
  shows "successively (\<lambda>a b. norm (pos b - pos a) \<le> p_max_linear_speed p * dt
      \<and> norm (pos b - pos a) \<le> p_max_pose_jump_linear p
      \<and> quat_angle (rot a) (rot b) \<le> p_max_angular_speed p * dt / SLERP_SLACK)
    (st_tcp_pose st # cs)"
proof -
  let ?f = "reset (Some st) None None (mk_filter p dt)"
  have "cart_inv ?f" "f_prev_pose ?f = Some (st_tcp_pose st)"
    using reset_cart_inv [of "mk_filter p dt" st] assms by (simp_all add: mk_filter_def reset_def)
  then have "successively (cart_near ?f) (st_tcp_pose st # cs)"
    using cart_gate.run_inv [OF _ _ _ assms(4)] by simp
  then show ?thesis
    by (rule successively_mono_set) (auto simp: cart_near_def reset_def mk_filter_def)
qed

lemma cartesian_stream_bounded_witness:
  "successively (\<lambda>a b. norm (pos b - pos a) \<le> 25/100 * (1/100) \<and> norm (pos b - pos a) \<le> 3/100
      \<and> quat_angle (rot a) (rot b) \<le> 60/100 * (1/100) / SLERP_SLACK)
    (st_tcp_pose default_state # fst (run_gate cart_step [(demo_pose 9, default_state, None)]
       (reset (Some default_state) None None (mk_filter default_profile (1/100)))))"
  by (rule cartesian_stream_bounded [of default_profile "1/100", OF _ _ _ prod.collapse [symmetric],
        unfolded default_profile_sel]) simp_all

text \<open>Without the acceleration cap, a stream that starts at the workspace box (within the
  \<open>np.allclose\<close> tolerance) stays at the box: every command let through is inside it up to that
  tolerance, whatever the targets.\<close>

theorem cartesian_stream_in_box:
  assumes "caps_ok p" "box_ok p" "EPS \<le> dt" "p_max_linear_accel p = None"
    and "near_box p (pos (st_tcp_pose st))"
    and "run_gate cart_step is (reset (Some st) None None (mk_filter p dt)) = (cs, f')"
  shows "\<forall>c \<in> set cs. vec_allclose (clip_box p (pos c)) (pos c)"
proof -
  let ?f = "reset (Some st) None None (mk_filter p dt)"
  have f: "cart_inv ?f" "f_prev_pose ?f = Some (st_tcp_pose st)" "f_p ?f = p"
    using reset_cart_inv [of "mk_filter p dt" st] assms by (simp_all add: mk_filter_def reset_def)
  have "cart_good ?f (st_tcp_pose st)" using assms(5) f(3) by (simp add: cart_good_def)
  then have "\<forall>c \<in> set cs. cart_good ?f c"
    using cart_gate.run_good [OF f(1,2) _ _ assms(6)] by simp
  then show ?thesis using assms(4) f(3) by (simp add: cart_good_def near_box_def)
qed

lemma cartesian_stream_in_box_witness:
  "list_all (\<lambda>c. vec_allclose (clip_box default_profile (pos c)) (pos c))
     (fst (run_gate cart_step [(demo_pose 9, default_state, None)]
       (reset (Some (default_state\<lparr>st_tcp_pose := demo_pose (1/2)\<rparr>)) None None
         (mk_filter default_profile (1/100)))))"
  unfolding list_all_iff
proof (rule cartesian_stream_in_box [OF _ _ _ _ _ prod.collapse [symmetric]])
  show "p_max_linear_accel default_profile = None" by (rule default_profile_sel)
next
  show "near_box default_profile (pos (st_tcp_pose (default_state\<lparr>st_tcp_pose := demo_pose (1/2)\<rparr>)))"
    by (rule in_box_near) (simp add: out_of_box_def ws_lo_def ws_hi_def default_profile_def demo_pose_def)
qed simp_all

text \<open>With the acceleration cap \<open>a\<close>, the commanded velocity of an accepted setpoint differs
  from the previous commanded velocity by at most \<open>a * dt\<close>, and is the velocity the filter
  remembers.\<close>

theorem cartesian_accel_bounded:
  assumes "cart_inv f" "p_max_linear_accel (f_p f) = Some a" "f_prev_lin_vel f = Some u"
    and "filter_cartesian tgt st cap f = (Inr r, f')" "sr_ok r" "sr_pose r = Some c"
  shows "\<exists>v. f_prev_lin_vel f' = Some v \<and> norm (v - u) \<le> a * f_dt f
    \<and> pos c = pos (anchor f st) + f_dt f *\<^sub>R v"
proof -
  obtain a' b v where acc: "limit_accel (f_p f) (f_dt f) (f_prev_lin_vel f) (anchor f st)
       (limit_motion (f_p f) (f_dt f) (anchor f st) a') = (b, v)"
    and b: "sr_pose r = Some (a_pose b)" "f_prev_lin_vel f' = Some v"
    by (rule filter_cartesian_accepted [OF assms(4,5)], rule that, assumption+, simp)
  have "caps_ok (f_p f)" "EPS \<le> f_dt f" using assms(1) by (simp_all add: cart_inv_def)
  from limit_accel_facts(1,4) [OF acc this]
  have "pos c - pos (anchor f st) = f_dt f *\<^sub>R v" "norm (v - u) \<le> a * f_dt f"
    using assms(2,3,6) b by auto
  then show ?thesis using b(2) by (simp add: algebra_simps)
qed

definition accel_profile :: safety_profile where
  "accel_profile = default_profile\<lparr>p_max_linear_accel := Some 1\<rparr>"

definition flat_pose :: "real \<Rightarrow> pose" where
  "flat_pose x = \<lparr>pos = Vec3 x 0 (3/10), rot = quat_id\<rparr>"

definition flat_state :: "real \<Rightarrow> robot_state" where
  "flat_state x = default_state\<lparr>st_tcp_pose := flat_pose x\<rparr>"

definition accel_filter :: "real \<Rightarrow> real \<Rightarrow> safety_filter" where
  "accel_filter x v = (mk_filter accel_profile (1/100))\<lparr>f_prev_pose := Some (flat_pose x),
     f_prev_q := Some (replicate 7 0), f_prev_lin_vel := Some (Vec3 v 0 0)\<rparr>"

lemma flat_diff: "pos (flat_pose x) - pos (flat_pose y) = Vec3 (x - y) 0 0"
  by (simp add: flat_pose_def Vec3_arith)

lemma accel_workspace:
  assumes "1/4 \<le> x" "x \<le> 3/4"
  shows "limit_workspace accel_profile (fresh_adjust (flat_pose x)) = Some (fresh_adjust (flat_pose x))"
proof -
  have "\<not> out_of_box accel_profile (pos (flat_pose x))"
    using assms by (simp add: out_of_box_def ws_lo_def ws_hi_def accel_profile_def default_profile_def flat_pose_def)
  then show ?thesis
    by (simp add: limit_workspace_def Let_def fresh_adjust_def in_box_clip vec_allclose_def)
qed

text \<open>One tick of \<open>accel_filter\<close> along the x axis, for a target within the speed cap.\<close>

lemma accel_motion:
  assumes "\<bar>t - x\<bar> \<le> 25/10000"
  shows "limit_motion accel_profile (1/100) (flat_pose x) (fresh_adjust (flat_pose t)) = fresh_adjust (flat_pose t)"
proof -
  have n: "norm (pos (flat_pose t) - pos (flat_pose x)) = \<bar>t - x\<bar>" by (simp add: flat_diff)
  have r: "rot (flat_pose z) = quat_id" for z by (simp add: flat_pose_def)
  have "max (1/100) EPS = 1/100" by (simp add: EPS_def)
  then show ?thesis
    using assms n r by (simp add: limit_motion_def limit_jump_linear_def limit_jump_angular_def
        limit_speed_linear_def limit_speed_angular_def fresh_adjust_def Let_def
        accel_profile_def default_profile_def)
qed

lemma accel_filter_sel [simp]:
  "f_p (accel_filter x v) = accel_profile" "f_dt (accel_filter x v) = 1/100"
  "f_prev_lin_vel (accel_filter x v) = Some (Vec3 v 0 0)"
  "anchor (accel_filter x v) st = flat_pose x"
  by (simp_all add: accel_filter_def mk_filter_def anchor_def)

lemma accel_step:
  assumes "1/4 \<le> t" "t \<le> 3/4" "\<bar>t - x\<bar> \<le> 25/10000"
  shows "\<bar>(t - x) * 100 - v\<bar> \<le> 1/100 \<Longrightarrow>
      cart_step (flat_pose t, flat_state y, None) (accel_filter x v)
        = (Some (flat_pose t), accel_filter t ((t - x) * 100))"
    and "(t - x) * 100 - v < - 1/100 \<Longrightarrow>
      cart_step (flat_pose t, flat_state y, None) (accel_filter x v)
        = (Some (flat_pose (x + (v - 1/100) / 100)), accel_filter (x + (v - 1/100) / 100) (v - 1/100))"
proof -
  have wr: "np_any_abs_gt (st_wrench (flat_state y)) (p_max_contact_wrench accel_profile) = Inr False"
    by (simp add: np_any_abs_gt_def flat_state_def default_state_def accel_profile_def
        default_profile_def eval_nat_numeral)
  define w where "w = (t - x) * 100"
  have m: "max (1/100) EPS = 1/100" by (simp add: EPS_def)
  have v: "(1 / (1/100)) *\<^sub>R (pos (flat_pose t) - pos (flat_pose x)) = Vec3 w 0 0"
    by (simp add: flat_diff Vec3_arith w_def)
  have p: "p_max_linear_accel accel_profile = Some 1" by (simp add: accel_profile_def)
  have step: "cart_step (flat_pose t, flat_state y, None) (accel_filter x v) =
    (case limit_accel accel_profile (1/100) (Some (Vec3 v 0 0)) (flat_pose x) (fresh_adjust (flat_pose t)) of
       (b, u) \<Rightarrow> (Some (a_pose b),
          (accel_filter x v)\<lparr>f_prev_lin_vel := Some u, f_prev_pose := Some (a_pose b)\<rparr>))"
    using accel_workspace [OF assms(1,2)] accel_motion [OF assms(3)] wr
    by (simp add: filter_cartesian_def commit_motion_def Let_def split: prod.splits)
  have upd: "(accel_filter x v)\<lparr>f_prev_lin_vel := Some (Vec3 u 0 0), f_prev_pose := Some (flat_pose z)\<rparr>
      = accel_filter z u" for u z
    by (simp add: accel_filter_def mk_filter_def)
  have dv: "norm (Vec3 w 0 0 - Vec3 v 0 0) = \<bar>w - v\<bar>"
    by (simp add: Vec3_arith)
  have pose: "a_pose (fresh_adjust (flat_pose t)) = flat_pose t" by (simp add: fresh_adjust_def)
  show "cart_step (flat_pose t, flat_state y, None) (accel_filter x v)
        = (Some (flat_pose t), accel_filter t ((t - x) * 100))" if "\<bar>(t - x) * 100 - v\<bar> \<le> 1/100"
    using that unfolding w_def [symmetric] step limit_accel_def Let_def p m pose v by (simp add: dv pose upd)
  show "cart_step (flat_pose t, flat_state y, None) (accel_filter x v)
        = (Some (flat_pose (x + (v - 1/100) / 100)), accel_filter (x + (v - 1/100) / 100) (v - 1/100))"
    if lt: "(t - x) * 100 - v < - 1/100"
  proof -
    define d where "d = w - v"
    have d: "d < - 1/100" "\<bar>d\<bar> = - d" "max (- d) EPS = - d"
      using lt by (auto simp: d_def w_def EPS_def)
    have "Vec3 v 0 0 + (1 * (1/100) / - d) *\<^sub>R (Vec3 w 0 0 - Vec3 v 0 0) = Vec3 (v - 1/100) 0 0"
      using d(1) by (simp add: Vec3_arith d_def [symmetric])
    moreover have "(flat_pose t)\<lparr>pos := pos (flat_pose x) + (1/100) *\<^sub>R Vec3 (v - 1/100) 0 0\<rparr>
        = flat_pose (x + (v - 1/100) / 100)"
      by (simp add: flat_pose_def Vec3_arith)
    ultimately show ?thesis
      using d(1) unfolding step limit_accel_def Let_def p m pose v
      by (simp add: dv d_def [symmetric] d(2,3) pose upd adjusted_def)
  qed
qed

lemma accel_inv: "cart_inv (accel_filter x 0)"
  using default_profile_ok
  by (simp add: cart_inv_def caps_ok_def box_ok_def accel_profile_def default_profile_def Vec3_arith
      accel_filter_def mk_filter_def ws_lo_def ws_hi_def)

lemma cartesian_accel_bounded_witness:
  "\<exists>r f' v. filter_cartesian (flat_pose (7498/10000)) (flat_state 0) None (accel_filter (7497/10000) 0) = (Inr r, f')
    \<and> f_prev_lin_vel f' = Some v \<and> norm (v - Vec3 0 0 0) \<le> 1 * (1/100)"
proof -
  have "cart_step (flat_pose (7498/10000), flat_state 0, None) (accel_filter (7497/10000) 0)
      = (Some (flat_pose (7498/10000)), accel_filter (7498/10000) (1/100))"
    using accel_step(1) [of "7498/10000" "7497/10000" 0 0] by simp
  then obtain r f' where r: "filter_cartesian (flat_pose (7498/10000)) (flat_state 0) None
      (accel_filter (7497/10000) 0) = (Inr r, f')" "sr_ok r" "sr_pose r = Some (flat_pose (7498/10000))"
    by (auto split: prod.splits sum.splits if_splits)
  have "p_max_linear_accel (f_p (accel_filter (7497/10000) 0)) = Some 1" by (simp add: accel_profile_def)
  from cartesian_accel_bounded [OF accel_inv this accel_filter_sel(3) r] r(1) show ?thesis by auto
qed

text \<open>With the acceleration cap the filter can let a command through that lies outside the
  workspace box, although every target is inside it: the cap is applied after the workspace
  clip. From rest at x = 0.7497 with a box ending at x = 0.75, three targets inside the box end
  in a commanded x of 0.7501.\<close>

theorem accel_cap_leaves_box:
  "fst (run_gate cart_step
      [(flat_pose (7498/10000), flat_state 0, None), (flat_pose (75/100), flat_state 0, None),
       (flat_pose (75/100), flat_state 0, None)]
      (reset (Some (flat_state (7497/10000))) None None (mk_filter accel_profile (1/100))))
    = [flat_pose (7498/10000), flat_pose (75/100), flat_pose (7501/10000)]
   \<and> out_of_box accel_profile (pos (flat_pose (7501/10000)))
   \<and> \<not> out_of_box accel_profile (pos (flat_pose (75/100)))"
proof (intro conjI)
  have init: "reset (Some (flat_state (7497/10000))) None None (mk_filter accel_profile (1/100))
      = accel_filter (7497/10000) 0"
    by (simp add: reset_def accel_filter_def mk_filter_def flat_state_def default_state_def zero_vec3_def)
  have 1: "cart_step (flat_pose (7498/10000), flat_state 0, None) (accel_filter (7497/10000) 0)
      = (Some (flat_pose (7498/10000)), accel_filter (7498/10000) (1/100))"
    using accel_step(1) [of "7498/10000" "7497/10000" 0 0] by simp
  have 2: "cart_step (flat_pose (75/100), flat_state 0, None) (accel_filter (7498/10000) (1/100))
      = (Some (flat_pose (75/100)), accel_filter (75/100) (2/100))"
    using accel_step(1) [of "75/100" "7498/10000" "1/100" 0] by simp
  have 3: "cart_step (flat_pose (75/100), flat_state 0, None) (accel_filter (75/100) (2/100))
      = (Some (flat_pose (7501/10000)), accel_filter (7501/10000) (1/100))"
    using accel_step(2) [of "75/100" "75/100" "2/100" 0] by simp
  show "fst (run_gate cart_step
      [(flat_pose (7498/10000), flat_state 0, None), (flat_pose (75/100), flat_state 0, None),
       (flat_pose (75/100), flat_state 0, None)]
      (reset (Some (flat_state (7497/10000))) None None (mk_filter accel_profile (1/100))))
    = [flat_pose (7498/10000), flat_pose (75/100), flat_pose (7501/10000)]"
    by (simp only: init run_gate.simps 1 2 3 prod.case option.case fst_conv)
qed (simp_all add: out_of_box_def ws_lo_def ws_hi_def accel_profile_def default_profile_def flat_pose_def)

definition wrench_over :: "real list \<Rightarrow> robot_state \<Rightarrow> bool" where
  "wrench_over cap st \<longleftrightarrow> (\<exists>i < length (st_wrench st). cap ! i < \<bar>st_wrench st ! i\<bar>)"

definition must_reject :: "safety_profile \<Rightarrow> vec3 \<Rightarrow> bool" where
  "must_reject p v \<longleftrightarrow> p_workspace_action p = ''reject'' \<and> \<not> near_box p v"



text \<open>Whatever joint targets of the right length are streamed into a joint filter reset on a
  configuration, the commands let through have that length and no joint moves more than
  \<open>2 * max_joint_speed_scale * dt\<close> per tick; and from a configuration within the margined joint
  limits (up to the \<open>np.allclose\<close> tolerance) no command leaves them.\<close>

theorem joint_filter_stream_bounded:
  assumes "joint_inv f" "f_prev_q f = Some q0"
    and "\<forall>i \<in> set is. length (fst i) = length (p_joint_lower (f_p f))"
    and "joint_good f q0" "run_gate joint_step is f = (qs, f')"
  shows "successively (\<lambda>a b. length b = length a
      \<and> (\<forall>i < length a. \<bar>b ! i - a ! i\<bar> \<le> 2 * p_max_joint_speed_scale (f_p f) * f_dt f)) (q0 # qs)
    \<and> (\<forall>q \<in> set qs. \<forall>i < length q. near_axis (p_joint_lower (f_p f) ! i + p_joint_margin_rad (f_p f))
          (p_joint_upper (f_p f) ! i - p_joint_margin_rad (f_p f)) (q ! i))"
proof
  have adm: "\<forall>i \<in> set is. joint_adm f i" using assms(3) by (simp add: joint_adm_def)
  have "successively (joint_near f) (q0 # qs)"
    using joint_gate.run_inv [OF assms(1,2) adm assms(5)] by simp
  then show "successively (\<lambda>a b. length b = length a
      \<and> (\<forall>i < length a. \<bar>b ! i - a ! i\<bar> \<le> 2 * p_max_joint_speed_scale (f_p f) * f_dt f)) (q0 # qs)"
    by (simp add: joint_near_def [abs_def] max_joint_step_def)
  have "\<forall>q \<in> set qs. joint_good f q"
    by (rule joint_gate.run_good [OF assms(1,2) adm assms(4,5)])
  then show "\<forall>q \<in> set qs. \<forall>i < length q. near_axis (p_joint_lower (f_p f) ! i + p_joint_margin_rad (f_p f))
          (p_joint_upper (f_p f) ! i - p_joint_margin_rad (f_p f)) (q ! i)"
    by (simp add: joint_good_def joint_lo_def joint_hi_def)
qed

definition demo_joint_filter :: safety_filter where
  "demo_joint_filter = (mk_filter (default_profile\<lparr>p_joint_lower := [-1, -1], p_joint_upper := [1, 2]\<rparr>)
     (1/100))\<lparr>f_prev_q := Some [0, 0]\<rparr>"

lemma demo_joint_filter_facts:
  "joint_inv demo_joint_filter" "f_prev_q demo_joint_filter = Some [0, 0]"
  "joint_good demo_joint_filter [0, 0]" "length (p_joint_lower (f_p demo_joint_filter)) = 2"
  by (simp_all add: joint_inv_def joint_good_def demo_joint_filter_def mk_filter_def max_joint_step_def
      default_profile_def joint_lo_def joint_hi_def near_axis_def np_clip_def less_Suc_eq numeral_2_eq_2)

lemma joint_filter_stream_bounded_witness:
  "list_all (\<lambda>q. list_all (\<lambda>i. near_axis ([-1, -1] ! i + 8/100) ([1, 2] ! i - 8/100) (q ! i)) [0..<length q])
     (fst (run_gate joint_step [([5, -5], default_state)] demo_joint_filter))"
proof -
  have adm: "\<forall>i \<in> set [([5, -5::real], default_state)]. length (fst i) = length (p_joint_lower (f_p demo_joint_filter))"
    by (simp add: demo_joint_filter_facts)
  have p: "p_joint_lower (f_p demo_joint_filter) = [-1, -1]" "p_joint_upper (f_p demo_joint_filter) = [1, 2]"
      "p_joint_margin_rad (f_p demo_joint_filter) = 8/100"
    by (simp_all add: demo_joint_filter_def mk_filter_def default_profile_def)
  from joint_filter_stream_bounded [OF demo_joint_filter_facts(1,2) adm demo_joint_filter_facts(3)
      prod.collapse [symmetric]]
  show ?thesis unfolding p by (auto simp only: list_all_iff set_upt atLeastLessThan_iff)
qed

text \<open>A position-only chunk interpolated under speed caps within the profile's, from the pose the
  filter was reset on, with start and waypoints inside the workspace box and contact forces
  below the cap, passes the filter unchanged: the commands let through are exactly the
  interpolated setpoints.\<close>

theorem in_spec_chunk_unchanged:
  assumes "chunk_wf c" "list_all (\<lambda>w. wp_quaternion w = None) (ck_waypoints c)"
    and "0 < hz" "EPS \<le> 1 / hz" "0 < v" "0 < w"
    and "mk_cart_interp c (st_tcp_pose st) hz (Some v) (Some w) = Inr ci"
    and "caps_ok p" "box_ok p" "p_max_linear_accel p = None"
    and "v \<le> p_max_linear_speed p" "v / hz \<le> p_max_pose_jump_linear p"
    and "\<not> out_of_box p (pos (st_tcp_pose st))"
    and "\<forall>wp \<in> set (ck_waypoints c). \<not> out_of_box p (wp_position wp)"
    and "map fst is = map sp_pose sps" "map Inr sps = interp_iter ci"
    and "\<forall>i \<in> set is. wrench_ok p (fst (snd i)) (snd (snd i))"
  shows "fst (run_gate cart_step is (reset (Some st) None None (mk_filter p (1 / hz)))) = map sp_pose sps"
proof -
  let ?f = "reset (Some st) None None (mk_filter p (1 / hz))"
  have f: "f_p ?f = p" "f_dt ?f = 1 / hz" "f_prev_pose ?f = Some (st_tcp_pose st)"
    by (simp_all add: reset_def mk_filter_def)
  have inv: "cart_inv ?f" using assms(4,8,9) by (intro reset_cart_inv) (simp_all add: mk_filter_def)
  have reg: "near_box p (a + s *\<^sub>R (b - a))" if "near_box p a" "near_box p b" "0 \<le> s" "s \<le> 1" for a b s
    by (rule near_box_segment [OF assms(9) that])
  obtain sps' where s: "interp_iter ci = map Inr sps'"
      "successively (tick_ok v w (1 / hz)) (st_tcp_pose st # map sp_pose sps')"
      "\<forall>sp \<in> set sps'. near_box p (pos (sp_pose sp))"
    using interp_iter_stream [OF assms(1,3,5,6,7), of "near_box p", OF reg] assms(13,14) in_box_near by blast
  then have sps: "sps' = sps" using assms(16) by (metis inj_Inr inj_map_eq_map)
  have ci: "ci_start_pose ci = st_tcp_pose st" "ci_chunk ci = c"
    using assms(7) by (auto simp: mk_cart_interp_def split: if_splits)
  have "\<forall>sp \<in> set sps. rot (sp_pose sp) = quat_normalize (rot (st_tcp_pose st))"
    using interp_from_hold [OF assms(2)] s(1) sps ci by (simp add: interp_iter_def)
  then have hold: "quat_angle (rot a) (rot b) = 0"
    if "a \<in> set (st_tcp_pose st # map sp_pose sps)" "b \<in> set (st_tcp_pose st # map sp_pose sps)" for a b
    using that by auto
  have spec: "successively (in_spec ?f) (st_tcp_pose st # map sp_pose sps)"
    using s(2) unfolding sps
  proof (rule successively_mono_set)
    fix a b assume ab: "a \<in> set (st_tcp_pose st # map sp_pose sps)" "b \<in> set (st_tcp_pose st # map sp_pose sps)"
      "tick_ok v w (1 / hz) a b"
    show "in_spec ?f a b"
      using tick_ok_in_spec [OF ab(3) assms(3) f(2)] hold [OF ab(1,2)] assms(8,11,12) f(1) by simp
  qed
  have "near_box p (pos (fst i))" if "i \<in> set is" for i
  proof -
    have "fst i \<in> set (map fst is)" using that by simp
    then show ?thesis unfolding assms(15) using s(3) sps by auto
  qed
  then have "fst (run_gate cart_step is ?f) = map fst is"
    using run_gate_in_spec [OF inv _ f(3)] spec assms(10,15,17) f(1) by simp
  then show ?thesis using assms(15) by simp
qed

lemma in_spec_chunk_unchanged_witness:
  "\<exists>ci sps. mk_cart_interp (chunk_of [demo_waypoint (4/10) 1, demo_waypoint (6/10) 1]) (demo_pose (5/10))
       100 (Some (1/4)) (Some (3/5)) = Inr ci \<and> interp_iter ci = map Inr sps \<and> sps \<noteq> []
    \<and> fst (run_gate cart_step (map (\<lambda>sp. (sp_pose sp, default_state, None)) sps)
         (reset (Some (default_state\<lparr>st_tcp_pose := demo_pose (5/10)\<rparr>)) None None
            (mk_filter default_profile (1 / 100)))) = map sp_pose sps"
proof -
  let ?c = "chunk_of [demo_waypoint (4/10) 1, demo_waypoint (6/10) 1]"
  let ?st = "default_state\<lparr>st_tcp_pose := demo_pose (5/10)\<rparr>"
  obtain ci where ci: "mk_cart_interp ?c (st_tcp_pose ?st) 100 (Some (1/4)) (Some (3/5)) = Inr ci"
    by (simp add: mk_cart_interp_def)
  obtain sps where sps: "interp_iter ci = map Inr sps" "sps \<noteq> []"
    using interp_iter_stream [OF demo_chunk_wf _ _ _ ci, of "\<lambda>_. True"] by auto
  have wr: "wrench_ok default_profile default_state None"
    by (simp add: wrench_ok_def np_any_abs_gt_def default_state_def default_profile_def eval_nat_numeral)
  have box: "\<not> out_of_box default_profile (Vec3 x 0 (3/10))" if "1/4 \<le> x" "x \<le> 3/4" for x
    using that by (simp add: out_of_box_def ws_lo_def ws_hi_def default_profile_def)
  have "fst (run_gate cart_step (map (\<lambda>sp. (sp_pose sp, default_state, None)) sps)
         (reset (Some ?st) None None (mk_filter default_profile (1 / 100)))) = map sp_pose sps"
    by (rule in_spec_chunk_unchanged [OF demo_chunk_wf _ _ _ _ _ ci])
      (use sps wr box in \<open>auto simp: chunk_of_def demo_waypoint_def demo_pose_def default_profile_sel\<close>)
  then show ?thesis using ci sps by auto
qed

text \<open>A profile read back from its own configuration dictionary (the \<open>get_safety_profile\<close>
  reply) is the same profile.\<close>

theorem profile_roundtrip:
  assumes "p_workspace_action p = ''clip'' \<or> p_workspace_action p = ''reject''"
  shows "profile_from_dict (to_config_dict p) = Inr p"
proof -
  have "str_lower ''clip'' = ''clip''" "str_lower ''reject'' = ''reject''"
    by (simp_all add: str_lower_def Let_def)
  then have act: "read_action (JStr (p_workspace_action p)) = Inr (p_workspace_action p)"
    using assms by (auto simp: read_action_def)
  show ?thesis
    by (simp add: profile_from_dict_def to_config_dict_def read_if_def get_float_def
        get_float_opt_def get_flag_def act Let_def)
qed

lemma profile_roundtrip_witness: "profile_from_dict (to_config_dict default_profile) = Inr default_profile"
  by (rule profile_roundtrip) (simp add: default_profile_def)

text \<open>A chunk the preflight reports clean has every waypoint inside the workspace box, and every
  segment between waypoints with a positive duration keeps the peak of the cosine blend within
  the effective linear cap, so that the interpolator's linear stretch asks for at most the
  requested number of ticks, rounded up.\<close>

theorem preflight_clean:
  assumes "validate_chunk p c = Inr []" "0 < hz"
    and "0 < tighten (p_max_linear_speed p) (ck_max_tcp_linear_speed c)"
  shows "list_all (\<lambda>w. \<not> out_of_box p (wp_position w)) (ck_waypoints c)
    \<and> successively (\<lambda>a b. \<forall>d n. wp_duration b = Some d \<longrightarrow> 0 < d \<longrightarrow>
        BLEND_PEAK * norm (wp_position b - wp_position a) / d
          \<le> tighten (p_max_linear_speed p) (ck_max_tcp_linear_speed c)
        \<and> stretch_ticks (Some (tighten (p_max_linear_speed p) (ck_max_tcp_linear_speed c))) (1 / hz)
            (norm (wp_position b - wp_position a)) n \<le> max n \<lceil>d * hz\<rceil>)
      (ck_waypoints c)"
proof
  let ?v = "tighten (p_max_linear_speed p) (ck_max_tcp_linear_speed c)"
  note clean = validate_from_clean [OF assms(1) [unfolded validate_chunk_def]]
  show "list_all (\<lambda>w. \<not> out_of_box p (wp_position w)) (ck_waypoints c)" by (rule clean)
  show "successively (\<lambda>a b. \<forall>d n. wp_duration b = Some d \<longrightarrow> 0 < d \<longrightarrow>
        BLEND_PEAK * norm (wp_position b - wp_position a) / d \<le> ?v
        \<and> stretch_ticks (Some ?v) (1 / hz) (norm (wp_position b - wp_position a)) n \<le> max n \<lceil>d * hz\<rceil>)
      (ck_waypoints c)"
    using clean(2)
  proof (rule successively_mono_set, intro allI impI conjI)
    fix a b d and n :: int
    assume le: "\<forall>d. wp_duration b = Some d \<longrightarrow> 0 < d \<longrightarrow>
        BLEND_PEAK * norm (wp_position b - wp_position a) / d \<le> ?v" and d: "wp_duration b = Some d" "0 < d"
    then show c: "BLEND_PEAK * norm (wp_position b - wp_position a) / d \<le> ?v" by blast
    let ?n = "norm (wp_position b - wp_position a)"
    have "BLEND_PEAK * ?n / (?v * (1 / hz)) \<le> d * hz"
      using c d(2) assms(2,3) by (simp add: divide_le_eq mult.commute mult.left_commute mult_right_mono)
    then have "\<lceil>BLEND_PEAK * ?n / (?v * (1 / hz))\<rceil> \<le> \<lceil>d * hz\<rceil>" by (rule ceiling_mono)
    then show "stretch_ticks (Some ?v) (1 / hz) ?n n \<le> max n \<lceil>d * hz\<rceil>"
      by (simp add: stretch_ticks_def max_def)
  qed
qed

lemma preflight_clean_witness:
  "list_all (\<lambda>w. \<not> out_of_box default_profile (wp_position w)) [demo_waypoint (4/10) 1, demo_waypoint (5/10) 1]
   \<and> BLEND_PEAK * norm (Vec3 (5/10) 0 (3/10) - Vec3 (4/10) 0 (3/10)) / 1 \<le> 25/100"
proof -
  have n: "norm (Vec3 (5/10) 0 (3/10) - Vec3 (4/10) 0 (3/10)) = 1/10" by (simp add: Vec3_arith)
  have b: "BLEND_PEAK * (1/10) / 1 \<le> 25/100"
    using pi_less_4 by (simp add: BLEND_PEAK_def)
  have t: "tighten (p_max_linear_speed default_profile)
      (ck_max_tcp_linear_speed (chunk_of [demo_waypoint (4/10) 1, demo_waypoint (5/10) 1])) = 25/100"
    by (simp add: tighten_def default_profile_sel chunk_of_def)
  have "validate_chunk default_profile (chunk_of [demo_waypoint (4/10) 1, demo_waypoint (5/10) 1]) = Inr []"
    using b unfolding validate_chunk_def t
    by (simp add: Vec3_arith chunk_of_def demo_waypoint_def segment_reports_def speed_report_def
        out_of_box_def ws_lo_def ws_hi_def default_profile_def)
  from preflight_clean [OF this, of 100] show ?thesis
    using t by (simp add: chunk_of_def demo_waypoint_def)
qed

end
