(* ===== verification/Robot_Proofs.thy ===== *)
theory Robot_Proofs
  imports Robot_Facade Safety_Proofs
begin

text \<open>
  What the executors do to any backend, on its command trace. \<open>calmS K\<close> collects the operations
  that leave the filter and the settings alone and give only commands of kind \<open>K\<close>; everything an
  executor does around the filtered stream is calm. From that: every Cartesian pose streamed in a
  run is a bounded move from the last one, a failed run ends in a stop, the relaxed contact guard
  never outlives its chunk, and a pending stop or a wrong profile lets no command through.
\<close>

section \<open>Calm operations\<close>

definition cmds :: "'b trace robot \<Rightarrow> command list" where
  "cmds r = snd (r_b r)"

definition settings :: "'b robot \<Rightarrow> robot_config \<times> real \<times> real \<times> safety_profile" where
  "settings r = (r_cfg r, r_hz r, r_dt r, r_profile r)"

definition frameS :: "('b trace robot \<Rightarrow> 'v) \<Rightarrow> (command \<Rightarrow> bool) \<Rightarrow> ('b trace robot, 'a) sem \<Rightarrow> bool" where
  "frameS view K m \<longleftrightarrow> (\<forall>r. view (snd (m r)) = view r
     \<and> (\<exists>cs. cmds (snd (m r)) = cmds r @ cs \<and> list_all K cs))"

lemma frameS_D:
  assumes "frameS view K m" "m r = (x, r')"
  shows "view r' = view r" "\<exists>cs. cmds r' = cmds r @ cs \<and> list_all K cs"
  using assms unfolding frameS_def by (metis snd_conv)+

lemma frameS_base [intro]:
  "frameS view K (retS x)" "frameS view K (raiseS e)" "frameS view K (getS f)" "frameS view K (liftS v)"
  by (simp_all add: frameS_def sem_simps)

lemma frameS_bind [intro]:
  assumes "frameS view K m" "\<And>x. frameS view K (f x)"
  shows "frameS view K (bindS m f)"
  unfolding frameS_def
proof
  fix r
  obtain a r1 where m: "m r = (a, r1)" by (cases "m r")
  note 1 = frameS_D [OF assms(1) m]
  show "view (snd (bindS m f r)) = view r \<and>
     (\<exists>cs. cmds (snd (bindS m f r)) = cmds r @ cs \<and> list_all K cs)"
  proof (cases a)
    case (Inl e)
    then show ?thesis using m 1 by (simp add: bindS_def)
  next
    case (Inr x)
    obtain b r2 where f: "f x r1 = (b, r2)" by (cases "f x r1")
    note 2 = frameS_D [OF assms(2) f]
    obtain cs ds where "cmds r1 = cmds r @ cs" "list_all K cs" "cmds r2 = cmds r1 @ ds" "list_all K ds"
      using 1(2) 2(2) by auto
    then have "cmds r2 = cmds r @ (cs @ ds)" "list_all K (cs @ ds)" by simp_all
    then have "\<exists>cs. cmds r2 = cmds r @ cs \<and> list_all K cs" by blast
    then show ?thesis using m f Inr 1(1) 2(1) by (simp add: bindS_def)
  qed
qed

lemma frameS_then [intro]: "frameS view K m \<Longrightarrow> frameS view K k \<Longrightarrow> frameS view K (thenS m k)"
  by (simp add: thenS_def frameS_bind)

lemma frameS_catch [intro]:
  assumes "frameS view K m" "\<And>e. frameS view K (h e)"
  shows "frameS view K (catchS m h)"
proof -
  have "catchS m h r = bindS (\<lambda>r. case m r of (a, r') \<Rightarrow> (Inr a, r'))
      (\<lambda>a. case a of Inl e \<Rightarrow> h e | Inr x \<Rightarrow> retS x) r" for r
    by (simp add: catchS_def bindS_def retS_def split: prod.splits sum.splits)
  then have eq: "catchS m h = bindS (\<lambda>r. case m r of (a, r') \<Rightarrow> (Inr a, r'))
      (\<lambda>a. case a of Inl e \<Rightarrow> h e | Inr x \<Rightarrow> retS x)" by (rule ext)
  have "frameS view K (\<lambda>r. case m r of (a, r') \<Rightarrow> (Inr a, r'))"
    using assms(1) by (simp add: frameS_def split_beta)
  then show ?thesis unfolding eq using assms(2) by (auto intro!: frameS_bind split: sum.splits)
qed

lemma frameS_finally [intro]:
  assumes "frameS view K m" "\<And>a. frameS view K (k a)"
  shows "frameS view K (finallyS m k)"
proof -
  have "finallyS m k r = bindS (\<lambda>r. case m r of (a, r') \<Rightarrow> (Inr a, r'))
      (\<lambda>a. bindS (k a) liftS) r" for r
    by (simp add: finallyS_def bindS_def liftS_def split: prod.splits sum.splits)
  then have eq: "finallyS m k = bindS (\<lambda>r. case m r of (a, r') \<Rightarrow> (Inr a, r'))
      (\<lambda>a. bindS (k a) liftS)" by (rule ext)
  have "frameS view K (\<lambda>r. case m r of (a, r') \<Rightarrow> (Inr a, r'))"
    using assms(1) by (simp add: frameS_def split_beta)
  then show ?thesis unfolding eq using assms(2) by (auto intro!: frameS_bind)
qed

lemma frameS_weaken:
  assumes "frameS view K m" "\<And>c. K c \<Longrightarrow> L c" "\<And>r. view' r = g (view r)"
  shows "frameS view' L m"
  using assms unfolding frameS_def by (metis list.pred_mono_strong)

text \<open>Operations that keep the filter too, and operations that keep the settings only.\<close>

abbreviation calmS :: "(command \<Rightarrow> bool) \<Rightarrow> ('b trace robot, 'a) sem \<Rightarrow> bool" where
  "calmS \<equiv> frameS (\<lambda>r. (r_filter r, settings r))"

abbreviation emitsS :: "(command \<Rightarrow> bool) \<Rightarrow> ('b trace robot, 'a) sem \<Rightarrow> bool" where
  "emitsS \<equiv> frameS settings"

lemma calmS_D:
  assumes "calmS K m" "m r = (x, r')"
  shows "r_filter r' = r_filter r" "settings r' = settings r"
    and "\<exists>cs. cmds r' = cmds r @ cs \<and> list_all K cs"
  using frameS_D [OF assms] by auto

lemma emits_calm: "calmS K m \<Longrightarrow> (\<And>c. K c \<Longrightarrow> L c) \<Longrightarrow> emitsS L m"
  by (rule frameS_weaken [where g = snd and view = "\<lambda>r. (r_filter r, settings r)" and K = K]) auto

lemma calm_mono: "calmS K m \<Longrightarrow> (\<And>c. K c \<Longrightarrow> L c) \<Longrightarrow> calmS L m"
  by (rule frameS_weaken [where g = id and view = "\<lambda>r. (r_filter r, settings r)" and K = K]) auto

lemma calmS_onB_unrecorded [intro]: "calmS K (onB (unrecorded m))"
  by (auto simp: frameS_def onB_def unrecorded_def cmds_def settings_def split: prod.splits)

lemma calmS_onB_record: "K c \<Longrightarrow> calmS K (onB (record_cmd c m))"
  by (auto simp: frameS_def onB_def record_cmd_def cmds_def settings_def split: prod.splits)

lemma calmS_onB_read: "(\<And>s. K (CRead s)) \<Longrightarrow> calmS K (onB (record_read m))"
  by (auto simp: frameS_def onB_def record_read_def cmds_def settings_def split: prod.splits sum.splits)

text \<open>The backend operations of the facade.\<close>

lemma calm_ops:
  "(\<And>s. K (CRead s)) \<Longrightarrow> calmS K (onB (bk_read_state (traced B)))"
  "calmS K (onB (bk_in_fault (traced B)))"
  "K CStop \<Longrightarrow> calmS K (onB (bk_stop (traced B)))"
  "K (CGripper g) \<Longrightarrow> calmS K (onB (bk_move_gripper (traced B) g))"
  "K (CLimit w) \<Longrightarrow> calmS K (onB (bk_set_contact_wrench_limit (traced B) w))"
  "K (CSetMode m opts) \<Longrightarrow> calmS K (onB (bk_set_mode (traced B) m opts))"
  "K (CStream p v) \<Longrightarrow> calmS K (onB (bk_stream_cartesian (traced B) p v))"
  "K (CJoint q) \<Longrightarrow> calmS K (onB (bk_stream_joint (traced B) q))"
  by (simp_all add: traced_def calmS_onB_unrecorded calmS_onB_record calmS_onB_read)

lemma calm_get_state: "(\<And>s. K (CRead s)) \<Longrightarrow> calmS K (get_state (traced B))"
  unfolding get_state_def
  by (intro frameS_bind frameS_then calm_ops frameS_base)
    (auto simp: frameS_def sem_simps cmds_def settings_def)

lemma calm_events [simp]:
  "calmS K auto_lease" "calmS K poll_cancel" "calmS K clear_stop" "calmS K request_stop"
  by (auto simp: frameS_def sem_simps auto_lease_def poll_cancel_def clear_stop_def request_stop_def
      cmds_def settings_def)

text \<open>No stream, and no command that moves the arm or the gripper.\<close>

definition no_stream :: "command \<Rightarrow> bool" where
  "no_stream c = (case c of CStream p w \<Rightarrow> False | _ \<Rightarrow> True)"

definition no_limit :: "command \<Rightarrow> bool" where
  "no_limit c = (case c of CLimit w \<Rightarrow> False | _ \<Rightarrow> True)"

lemma no_stream_simps [simp]:
  "no_stream CStop" "no_stream (CGripper g)" "no_stream (CLimit w)" "no_stream (CSetMode m opts)"
  "\<not> no_stream (CStream p v)" "no_stream (CJoint q)" "no_stream (CRead st)"
  by (simp_all add: no_stream_def)

lemma calm_try_fire: "calmS no_stream (try_fire_close (traced B) env g st x)"
  by (auto simp: try_fire_close_def Let_def intro!: calm_ops)

lemma calm_resolve: "calmS no_stream (resolve_pending (traced B) env st x)"
  by (auto simp: resolve_pending_def intro: calm_try_fire split: option.splits)

lemma calm_grip: "calmS no_stream (handle_grip (traced B) env n st g x)"
  by (auto simp: handle_grip_def Let_def intro!: calm_ops calm_try_fire frameS_bind frameS_then
      split: option.splits)

lemma calm_stop_run: "calmS no_stream (stop_run (traced B) reason x)"
  by (auto simp: stop_run_def intro!: calm_ops)

lemma calm_finish: "calmS no_stream (finish_pending (traced B) env x)"
  by (auto simp: finish_pending_def Let_def intro!: calm_try_fire calm_get_state frameS_bind
      split: option.splits)

lemma calm_restore: "calmS no_stream (restore_wrench (traced B) relaxed r)"
  by (auto simp: restore_wrench_def intro!: calm_ops frameS_catch frameS_bind)

section \<open>The streamed poses are bounded moves\<close>

definition streamed :: "command list \<Rightarrow> pose list" where
  "streamed cs = List.map_filter (\<lambda>c. case c of CStream p w \<Rightarrow> Some p | _ \<Rightarrow> None) cs"

lemma streamed_simps [simp]:
  "streamed [] = []" "streamed (as @ bs) = streamed as @ streamed bs" "streamed [CStream p v] = [p]"
  by (simp_all add: streamed_def List.map_filter_def)

lemma streamed_other: "(\<And>p v. c \<noteq> CStream p v) \<Longrightarrow> streamed [c] = []"
  by (cases c) (auto simp: streamed_def map_filter_simps)

lemma streamed_calm: "list_all no_stream cs \<Longrightarrow> streamed cs = []"
  by (induction cs) (auto simp: streamed_def map_filter_simps no_stream_def split: command.splits)

text \<open>
  The invariant of the tick loop: the poses streamed since the trace \<open>base\<close> are the filter's
  accepted commands since the anchor \<open>c0\<close>, a pose the backend reported, within the limits of
  the filter \<open>f0\<close>.
\<close>

definition stream_inv :: "command list \<Rightarrow> safety_filter \<Rightarrow> pose \<Rightarrow> 'b trace robot \<Rightarrow> bool" where
  "stream_inv base f0 c0 r \<longleftrightarrow>
     cart_inv (r_filter r) \<and> f_p (r_filter r) = f_p f0 \<and> f_dt (r_filter r) = f_dt f0
     \<and> (\<exists>ev. cmds r = base @ ev \<and> (\<exists>st. CRead st \<in> set ev \<and> st_tcp_pose st = c0)
          \<and> f_prev_pose (r_filter r) = Some (last (c0 # streamed ev))
          \<and> successively (cart_near f0) (c0 # streamed ev)
          \<and> (cart_good f0 c0 \<longrightarrow> (\<forall>c \<in> set (streamed ev). cart_good f0 c)))"

lemma calm_stream_inv:
  assumes "calmS no_stream m" "stream_inv base f0 c0 r"
  shows "stream_inv base f0 c0 (snd (m r))"
proof -
  obtain x r' where m: "m r = (x, r')" by (cases "m r")
  from calmS_D [OF assms(1) m] obtain cs where
    cs: "r_filter r' = r_filter r" "cmds r' = cmds r @ cs" "streamed cs = []"
    using streamed_calm by blast
  obtain ev where "cmds r = base @ ev" "\<exists>st. CRead st \<in> set ev \<and> st_tcp_pose st = c0"
      "f_prev_pose (r_filter r) = Some (last (c0 # streamed ev))"
      "successively (cart_near f0) (c0 # streamed ev)"
      "cart_good f0 c0 \<longrightarrow> (\<forall>c \<in> set (streamed ev). cart_good f0 c)"
    using assms(2) by (auto simp: stream_inv_def)
  then show ?thesis
    using assms(2) m cs unfolding stream_inv_def
    by (intro conjI exI [of _ "ev @ cs"]) auto
qed

lemma calm_keeps: "calmS no_stream m \<Longrightarrow> keepsS (stream_inv base f0 c0) m"
  by (simp add: keepsS_def calm_stream_inv)

lemma keeps_calm:
  "keepsS (stream_inv base f0 c0) (stop_run (traced B) reason x)"
  "keepsS (stream_inv base f0 c0) (get_state (traced B))"
  "keepsS (stream_inv base f0 c0) (onB (bk_in_fault (traced B)))"
  "keepsS (stream_inv base f0 c0) poll_cancel"
  "keepsS (stream_inv base f0 c0) clear_stop"
  by (simp_all add: calm_keeps calm_stop_run calm_get_state calm_ops)

lemma cart_rel_params:
  assumes "f_p f = f_p f0" "f_dt f = f_dt f0"
  shows "cart_near f = cart_near f0" "cart_good f = cart_good f0"
  using assms by (simp_all add: cart_near_def cart_good_def fun_eq_iff)

text \<open>Accepting a setpoint and streaming it re-establishes the invariant.\<close>

lemma stream_step_inv:
  assumes inv: "stream_inv base f0 c0 r"
    and fc: "filter_cartesian t st cap (r_filter r) = (Inr sr, f')" "sr_ok sr" "sr_pose sr = Some p"
    and r': "r_filter r' = f'" "cmds r' = cmds r @ [CStream p v]"
  shows "stream_inv base f0 c0 r'"
proof -
  obtain ev where ev: "cmds r = base @ ev" "\<exists>st. CRead st \<in> set ev \<and> st_tcp_pose st = c0"
      "f_prev_pose (r_filter r) = Some (last (c0 # streamed ev))"
      "successively (cart_near f0) (c0 # streamed ev)"
      "cart_good f0 c0 \<longrightarrow> (\<forall>c \<in> set (streamed ev). cart_good f0 c)"
    and ci: "cart_inv (r_filter r)" "f_p (r_filter r) = f_p f0" "f_dt (r_filter r) = f_dt f0"
    using inv by (auto simp: stream_inv_def)
  define ps where "ps = streamed ev"
  note rel = cart_rel_params [OF ci(2,3)]
  have anch: "anchor (r_filter r) st = last (c0 # ps)" unfolding ps_def by (rule anchor_prev [OF ev(3)])
  note F = cart_step_facts [OF ci(1) fc]
  have "successively (cart_near f0) ((c0 # ps) @ [p])"
    unfolding successively_append_iff using ev(4) F(3) anch rel by (simp add: ps_def)
  then have near: "successively (cart_near f0) (c0 # streamed (ev @ [CStream p v]))"
    by (simp add: ps_def)
  have good: "cart_good f0 p" if "cart_good f0 c0"
  proof -
    have "cart_good f0 (last (c0 # ps))" using that ev(5) by (cases ps rule: rev_cases) (auto simp: ps_def)
    then show ?thesis using F(4) anch rel by simp
  qed
  have "cmds r' = base @ (ev @ [CStream p v])" using r'(2) ev(1) by simp
  then show ?thesis
    unfolding stream_inv_def r'(1)
    using F(1,2) ev(2,5) near good ci filter_cartesian_params(1,2) [OF fc(1)]
    by (intro conjI exI [of _ "ev @ [CStream p v]"]) auto
qed

lemma keeps_stream_tick:
  assumes inv: "stream_inv base f0 c0 r"
    and fc: "filter_cartesian t st cap (r_filter r) = (Inr sr, f')" "sr_ok sr" "sr_pose sr = Some p"
  shows "stream_inv base f0 c0 (snd (stream_tick (traced B) env sp st p x (r\<lparr>r_filter := f'\<rparr>)))"
proof -
  define rest where "rest = bindS (resolve_pending (traced B) env st x) (\<lambda>x.
        bindS (case sp_grip sp of
                 Some grip \<Rightarrow> handle_grip (traced B) env (sp_segment_ticks sp) st grip x
               | None \<Rightarrow> retS x) (\<lambda>x.
        bindS (getS r_dt) (\<lambda>dt.
        bindS (liftS (bookkeeping dt p st (record_row env p st x))) (\<lambda>x.
        (retS (x, True) :: ('a trace robot, locals \<times> bool) sem)))))"
  have rest: "calmS no_stream rest"
    unfolding rest_def by (auto intro!: frameS_bind calm_resolve calm_grip split: option.splits)
  obtain a r2 where s: "onB (bk_stream_cartesian (traced B) p (chunk_wrench (e_chunk env))) (r\<lparr>r_filter := f'\<rparr>)
      = (a, r2)" by (cases "onB (bk_stream_cartesian (traced B) p (chunk_wrench (e_chunk env))) (r\<lparr>r_filter := f'\<rparr>)")
  then have "r_filter r2 = f'" "cmds r2 = cmds r @ [CStream p (chunk_wrench (e_chunk env))]"
    by (auto simp: onB_def traced_def record_cmd_def cmds_def split: prod.splits)
  then have inv2: "stream_inv base f0 c0 r2"
    by (rule stream_step_inv [OF inv fc])
  have "snd (stream_tick (traced B) env sp st p x (r\<lparr>r_filter := f'\<rparr>)) = (case a of Inl e \<Rightarrow> r2 | Inr _ \<Rightarrow> snd (rest r2))"
    unfolding stream_tick_def rest_def [symmetric] thenS_eq s by (simp split: sum.splits)
  then show ?thesis using inv2 calm_stream_inv [OF rest inv2] by (cases a) simp_all
qed

lemma keeps_filter_tick: "keepsS (stream_inv base f0 c0) (filter_tick (traced B) env sp st x)"
proof (rule keepsS_I)
  fix r :: "'a trace robot"
  assume inv: "stream_inv base f0 c0 r"
  obtain a f' where fc: "filter_cartesian (sp_pose sp) st (Some (e_wrench_cap env)) (r_filter r) = (a, f')"
    by (cases "filter_cartesian (sp_pose sp) st (Some (e_wrench_cap env)) (r_filter r)")
  have onF: "onF (filter_cartesian (sp_pose sp) st (Some (e_wrench_cap env))) r = (a, r\<lparr>r_filter := f'\<rparr>)"
    by (simp add: onF_def fc)
  show "stream_inv base f0 c0 (snd (filter_tick (traced B) env sp st x r))"
  proof (cases "\<exists>sr. a = Inr sr \<and> sr_ok sr")
    case True
    then obtain sr where sr: "a = Inr sr" "sr_ok sr" by blast
    obtain p where p: "sr_pose sr = Some p"
      using filter_cartesian_prev(2) [OF fc [unfolded sr(1)] sr(2)] by blast
    have "filter_tick (traced B) env sp st x r = stream_tick (traced B) env sp st p
        (if sr_clipped sr then x\<lparr>x_result := (x_result x)\<lparr>er_clipped := True\<rparr>\<rparr> else x) (r\<lparr>r_filter := f'\<rparr>)"
      using onF sr p by (simp add: filter_tick_def bindS_def)
    then show ?thesis using keeps_stream_tick [OF inv fc [unfolded sr(1)] sr(2) p] by simp
  next
    case False
    then have "f' = r_filter r" by (intro filter_cartesian_rejected [OF fc]) auto
    then have same: "r\<lparr>r_filter := f'\<rparr> = r" by simp
    show ?thesis
    proof (cases a)
      case (Inl e)
      then show ?thesis
        using onF inv same by (simp add: filter_tick_def bindS_def)
    next
      case (Inr sr)
      then have "filter_tick (traced B) env sp st x r = stop_run (traced B) (reason_value (sr_reason sr)) x r"
        using onF same False by (simp add: filter_tick_def bindS_def split: option.splits)
      then show ?thesis using calm_stream_inv [OF calm_stop_run inv] by simp
    qed
  qed
qed

lemma keeps_chunk_tick: "keepsS (stream_inv base f0 c0) (chunk_tick (traced B) env sp x)"
  unfolding chunk_tick_def Let_def
  by (auto intro!: keepsS_bind keepsS_then keepsS_base keeps_filter_tick keeps_calm)

lemma keeps_chunk_loop: "keepsS (stream_inv base f0 c0) (chunk_loop (traced B) env sps x)"
proof (induction sps arbitrary: x)
  case (Cons i sps)
  show ?case
  proof (cases i)
    case (Inr sp)
    then show ?thesis using Cons by (auto intro!: keepsS_bind keeps_chunk_tick)
  qed auto
qed auto

section \<open>Whole runs\<close>

text \<open>The object's parts agree: the filter works under the active profile at the control period.\<close>

definition robot_wf :: "'b robot \<Rightarrow> bool" where
  "robot_wf r \<longleftrightarrow> f_p (r_filter r) = r_profile r \<and> f_dt (r_filter r) = r_dt r
     \<and> r_dt r = 1 / r_hz r \<and> 0 < r_hz r \<and> EPS \<le> r_dt r
     \<and> caps_ok (r_profile r) \<and> box_ok (r_profile r)"

lemma mk_robot_wf:
  assumes "mk_robot load rq cfg b hz name = Inr r" "0 < r_hz r" "EPS \<le> 1 / r_hz r"
    and "caps_ok (r_profile r)" "box_ok (r_profile r)"
  shows "robot_wf r"
  using assms by (auto simp: mk_robot_def robot_wf_def mk_filter_def Let_def bindR_eq_Inr split: if_splits)

text \<open>The state reported to \<open>get_state\<close> is in the trace.\<close>

lemma get_state_read:
  assumes "get_state (traced B) r = (Inr s, r')"
  shows "cmds r' = cmds r @ [CRead s]" "r_filter r' = r_filter r" "settings r' = settings r"
    and "r_cancel r' = r_cancel r"
  using assms
  by (auto simp: get_state_def bindS_def sem_simps onB_def traced_def record_read_def cmds_def settings_def
      split: prod.splits sum.splits)

text \<open>What is given before a run: the state is read and the mode set.\<close>

definition entering :: "command \<Rightarrow> bool" where
  "entering c = (case c of CRead s \<Rightarrow> True | CSetMode m opts \<Rightarrow> True | _ \<Rightarrow> False)"

lemma entering_simps [simp]: "entering (CRead s)" "entering (CSetMode m opts)"
  by (simp_all add: entering_def)

lemma entering_no_limit: "list_all entering cs \<Longrightarrow> list_all no_limit cs"
  by (erule list.pred_mono_strong) (auto simp: entering_def no_limit_def split: command.splits)

lemma reads_no_limit: "list_all (\<lambda>c. \<exists>s. c = CRead s) cs \<Longrightarrow> list_all no_limit cs"
  by (erule list.pred_mono_strong) (auto simp: no_limit_def)

lemma entering_no_stream: "list_all entering cs \<Longrightarrow> list_all no_stream cs"
  by (erule list.pred_mono_strong) (auto simp: entering_def split: command.splits)

definition enter_post :: "'b trace robot \<Rightarrow> robot_state \<Rightarrow> 'b trace robot \<Rightarrow> bool" where
  "enter_post r start r' \<longleftrightarrow> settings r' = settings r
     \<and> r_filter r' = reset (Some start) None None (r_filter r)
     \<and> (\<exists>cs. cmds r' = cmds r @ cs \<and> list_all entering cs \<and> CRead start \<in> set cs)"

lemma enter_cartesian_eq:
  assumes "enter_cartesian (traced B) c res r = (Inr (start, res'), r')"
  shows "enter_post r start r'"
proof -
  obtain s0 r0 where g: "get_state (traced B) r = (Inr s0, r0)"
    using assms by (auto simp: enter_cartesian_def bindS_def split: prod.splits sum.splits)
  note g' = get_state_read [OF g]
  show ?thesis
  proof (cases "is_cartesian (st_control_mode s0)")
    case True
    then have "start = s0" "r' = r0\<lparr>r_filter := reset (Some s0) None None (r_filter r0)\<rparr>"
      using assms g by (auto simp: enter_cartesian_def bindS_def sem_simps simp del: is_cartesian_simps)
    then show ?thesis using g' by (simp add: enter_post_def settings_def cmds_def)
  next
    case False
    obtain r1 where s: "start_cartesian_impedance (traced B) (Some (ck_impedance c)) False None None r0 = (Inr (), r1)"
      and g1: "\<exists>r2. get_state (traced B) r1 = (Inr start, r2) \<and> r' = r2\<lparr>r_filter := reset (Some start) None None (r_filter r2)\<rparr>"
      using assms g False
      by (auto simp: enter_cartesian_def bindS_def sem_simps simp del: is_cartesian_simps split: prod.splits sum.splits)
    have calm: "calmS entering (start_cartesian_impedance (traced B) (Some (ck_impedance c)) False None None)"
      unfolding start_cartesian_impedance_def by (intro frameS_bind frameS_base calm_ops) simp
    obtain cs where cs: "cmds r1 = cmds r0 @ cs" "list_all entering cs" "r_filter r1 = r_filter r0"
        "settings r1 = settings r0"
      using calmS_D [OF calm s] by auto
    obtain r2 where r2: "get_state (traced B) r1 = (Inr start, r2)"
        "r' = r2\<lparr>r_filter := reset (Some start) None None (r_filter r2)\<rparr>" using g1 by blast
    note g2 = get_state_read [OF r2(1)]
    have "cmds r' = cmds r @ (CRead s0 # cs @ [CRead start])"
      using g' g2 cs r2(2) by (simp add: cmds_def)
    then show ?thesis
      using g' g2 cs r2(2) unfolding enter_post_def settings_def
      by (intro conjI exI [of _ "CRead s0 # cs @ [CRead start]"]) auto
  qed
qed

lemma keeps_raise: "keepsS I (raise_if_stopped b res)"
  by (auto simp: raise_if_stopped_def)

lemma keeps_run_chunk:
  "keepsS (stream_inv base f0 c0) (run_chunk (traced B) args c start res)"
proof -
  have lim: "keepsS (stream_inv base f0 c0) (onB (bk_set_contact_wrench_limit (traced B) w))" for w
    by (simp add: calm_keeps calm_ops)
  have fin: "keepsS (stream_inv base f0 c0) (finallyS (bindS (chunk_loop (traced B) env sps x)
      (finish_pending (traced B) env)) (restore_wrench (traced B) relaxed))" for env sps x relaxed
    by (intro keepsS_finally keepsS_bind keeps_chunk_loop calm_keeps calm_finish calm_restore)
  show ?thesis
    unfolding run_chunk_def Let_def
    by (auto intro!: keepsS_bind keepsS_then keepsS_base lim fin keeps_calm keeps_raise split: prod.splits)
qed

lemma calm_auto_lease_poll:
  assumes "thenS auto_lease (bindS poll_cancel f) r = (out, r')"
  shows "\<exists>r0. r_filter r0 = r_filter r \<and> settings r0 = settings r \<and> cmds r0 = cmds r
    \<and> r_b r0 = r_b r \<and> r_cancel r0 = (r_cancel r \<or> r_requests r (r_polls r))
    \<and> f (r_cancel r0) r0 = (out, r')"
  using assms
  by (intro exI [of _ "(if r_owner r = None then r\<lparr>r_owner := Some ''default''\<rparr> else r)
      \<lparr>r_cancel := r_cancel r \<or> r_requests r (r_polls r), r_polls := Suc (r_polls r)\<rparr>"])
    (auto simp: thenS_def bindS_def auto_lease_def poll_cancel_def sem_simps settings_def cmds_def
      split: if_splits)

lemma enter_cartesian_entering:
  fixes r0 :: "'b trace robot"
  shows "\<exists>cs. cmds (snd (enter_cartesian (traced B) c res0 r0)) = cmds r0 @ cs \<and> list_all entering cs"
proof -
  have set: "calmS entering (start_cartesian_impedance (traced B) i False None None)" for i
    unfolding start_cartesian_impedance_def by (intro frameS_bind frameS_base calm_ops) simp
  define pre where "pre = bindS (get_state (traced B)) (\<lambda>start.
     (if is_cartesian (st_control_mode start) then retS (start, res0)
      else thenS (start_cartesian_impedance (traced B) (Some (ck_impedance c)) False None None)
             (bindS (get_state (traced B)) (\<lambda>start.
                retS (start, log_put ''mode_autostarted'' (JBool True) res0)))) ::
     ('b trace robot, robot_state \<times> exec_result) sem)"
  have pre: "calmS entering pre"
    unfolding pre_def using set by (auto intro!: frameS_bind frameS_then calm_get_state simp del: is_cartesian_simps)
  have eq: "enter_cartesian (traced B) c res0 = bindS pre (\<lambda>(start, res).
      thenS (modS (\<lambda>r. r\<lparr>r_filter := reset (Some start) None None (r_filter r)\<rparr>)) (retS (start, res)))"
    unfolding enter_cartesian_def pre_def bindS_assoc ..
  obtain b rb where b: "pre r0 = (b, rb)" by (cases "pre r0")
  show ?thesis
    using calmS_D(3) [OF pre b] b unfolding eq
    by (cases b) (auto simp: bindS_def sem_simps cmds_def split: prod.splits)
qed

lemma enter_cartesian_clean:
  assumes "enter_cartesian (traced B) c res0 r0 = (Inr (start, res), r1)"
    and "er_success res0" "er_stop_reason res0 = ''none''" "\<not> er_clipped res0"
  shows "er_success res" "er_stop_reason res = ''none''" "\<not> er_clipped res"
  using assms
  by (auto simp: enter_cartesian_def bindS_def sem_simps simp del: is_cartesian_simps
      split: prod.splits sum.splits if_splits)

text \<open>
  The outcomes of a Cartesian chunk call: aborted at entry, refused before the start state is
  read, or run from a start state the backend reported.
\<close>

lemma execute_cartesian_cases:
  assumes "execute_cartesian_chunk (traced B) args c r = (out, r')"
  obtains (abort) r0 where "abort_at_entry (traced B) (xa_raise_on_stop args) r0 = (out, r')"
      "r_cancel r \<or> r_requests r (r_polls r)" "cmds r0 = cmds r" "settings r0 = settings r" "r_filter r0 = r_filter r"
  | (refused) e where "out = Inl e" "ck_safety_profile c \<noteq> ''''" "ck_safety_profile c \<noteq> p_name (r_profile r)"
      "cmds r' = cmds r" "e = ValueError" "\<not> (r_cancel r \<or> r_requests r (r_polls r))"
  | (enter_failed) e cs where "out = Inl e" "cmds r' = cmds r @ cs" "list_all entering cs"
      "ck_safety_profile c = '''' \<or> ck_safety_profile c = p_name (r_profile r)"
      "\<not> (r_cancel r \<or> r_requests r (r_polls r))"
  | (run) r1 start res where "enter_post r start r1" "run_chunk (traced B) args c start res r1 = (out, r')"
      "ck_safety_profile c = '''' \<or> ck_safety_profile c = p_name (r_profile r)"
      "\<not> (r_cancel r \<or> r_requests r (r_polls r))" "er_success res" "er_stop_reason res = ''none''" "\<not> er_clipped res"
proof -
  obtain r0 where r0: "r_filter r0 = r_filter r" "settings r0 = settings r" "cmds r0 = cmds r"
      "r_cancel r0 = (r_cancel r \<or> r_requests r (r_polls r))"
    and f: "(if r_cancel r0 then abort_at_entry (traced B) (xa_raise_on_stop args)
          else bindS (verify_chunk_profile (ck_safety_profile c) fresh_result) (\<lambda>res.
               bindS (enter_cartesian (traced B) c res) (\<lambda>(start, res). run_chunk (traced B) args c start res))) r0
        = (out, r')"
    using calm_auto_lease_poll [OF assms [unfolded execute_cartesian_chunk_def]] by blast
  have prof: "r_profile r0 = r_profile r" using r0(2) by (simp add: settings_def)
  show thesis
  proof (cases "r_cancel r0")
    case True
    then show thesis using f r0 abort by simp
  next
    case nc: False
    show thesis
    proof (cases "ck_safety_profile c \<noteq> '''' \<and> ck_safety_profile c \<noteq> p_name (r_profile r)")
      case True
      then have "out = Inl ValueError" "r' = r0"
        using f nc prof by (auto simp: verify_chunk_profile_def bindS_def sem_simps)
      then show thesis using refused True r0 nc by simp
    next
      case False
      define res0 where "res0 = log_put ''active_profile'' (JStr (p_name (r_profile r0)))
                   (log_put ''requested_profile'' (JStr (ck_safety_profile c)) fresh_result)"
      have v: "verify_chunk_profile (ck_safety_profile c) fresh_result r0 = (Inr res0, r0)"
        using False prof by (auto simp: verify_chunk_profile_def bindS_def sem_simps res0_def)
      have g: "bindS (enter_cartesian (traced B) c res0) (\<lambda>(start, res). run_chunk (traced B) args c start res) r0
          = (out, r')"
        using f nc v by (simp add: bindS_def)
      obtain a r1 where a: "enter_cartesian (traced B) c res0 r0 = (a, r1)"
        by (cases "enter_cartesian (traced B) c res0 r0")
      show thesis
      proof (cases a)
        case (Inl e)
        have "\<exists>cs. cmds (snd (enter_cartesian (traced B) c res0 r0)) = cmds r0 @ cs \<and> list_all entering cs"
          by (rule enter_cartesian_entering)
        then show thesis using enter_failed Inl a g r0 nc False by (auto simp: bindS_def)
      next
        case (Inr sr)
        obtain start res where sr: "sr = (start, res)" by (cases sr)
        have post: "enter_post r start r1"
          using enter_cartesian_eq [OF a [unfolded Inr sr]] r0 by (simp add: enter_post_def)
        have "er_success res" "er_stop_reason res = ''none''" "\<not> er_clipped res"
          using enter_cartesian_clean [OF a [unfolded Inr sr]] by (simp_all add: res0_def fresh_result_def)
        then show thesis
          using run [OF post] g a Inr sr nc r0 False by (auto simp: bindS_def)
      qed
    qed
  qed
qed

lemma enter_stream_inv:
  assumes "robot_wf r" "enter_post r start r1"
  shows "stream_inv (cmds r) (r_filter r) (st_tcp_pose start) r1"
proof -
  obtain cs where cs: "cmds r1 = cmds r @ cs" "list_all no_stream cs" "CRead start \<in> set cs"
    using assms(2) entering_no_stream by (auto simp: enter_post_def)
  have f: "r_filter r1 = reset (Some start) None None (r_filter r)" using assms(2) by (simp add: enter_post_def)
  have ci: "cart_inv (r_filter r1)"
    unfolding f using assms(1) by (intro reset_cart_inv) (simp_all add: robot_wf_def)
  have "f_p (r_filter r1) = f_p (r_filter r)" "f_dt (r_filter r1) = f_dt (r_filter r)"
      "f_prev_pose (r_filter r1) = Some (st_tcp_pose start)"
    by (simp_all add: f reset_def)
  then show ?thesis
    using cs ci streamed_calm [OF cs(2)] unfolding stream_inv_def
    by (intro conjI exI [of _ cs]) auto
qed

lemma abort_calm: "calmS (\<lambda>c. \<exists>s. c = CRead s) (abort_at_entry (traced B) b)"
  unfolding abort_at_entry_def raise_if_stopped_def
  by (auto intro!: frameS_bind frameS_then calm_get_state)

lemma abort_result:
  assumes "abort_at_entry (traced B) b r = (out, r')"
  shows "\<exists>cs. cmds r' = cmds r @ cs \<and> list_all (\<lambda>c. \<exists>s. c = CRead s) cs" "\<not> r_cancel r'"
    and "out = Inr res \<Longrightarrow> \<not> er_success res \<and> er_stop_reason res = ''user''"
proof -
  show "\<exists>cs. cmds r' = cmds r @ cs \<and> list_all (\<lambda>c. \<exists>s. c = CRead s) cs"
    by (rule calmS_D(3) [OF abort_calm assms])
  show "\<not> r_cancel r'" "out = Inr res \<Longrightarrow> \<not> er_success res \<and> er_stop_reason res = ''user''"
    using assms
    by (auto simp: abort_at_entry_def thenS_def bindS_def clear_stop_def get_state_def onB_def
        raise_if_stopped_def failed_def sem_simps split: prod.splits sum.splits if_splits)
qed

section \<open>A failed run ends stopped\<close>

text \<open>Since the last stop the backend was only read and its contact guard re-armed.\<close>

definition quiet :: "command \<Rightarrow> bool" where
  "quiet c = (case c of CRead s \<Rightarrow> True | CLimit w \<Rightarrow> True | _ \<Rightarrow> False)"

lemma quiet_simps [simp]: "quiet (CRead s)" "quiet (CLimit w)"
  by (simp_all add: quiet_def)

definition halted :: "command list \<Rightarrow> bool" where
  "halted cs \<longleftrightarrow> (\<exists>as bs. cs = as @ [CStop] @ bs \<and> list_all quiet bs)"

lemma halted_append: "halted cs \<Longrightarrow> list_all quiet bs \<Longrightarrow> halted (cs @ bs)"
  unfolding halted_def by (metis append.assoc list_all_append)

lemma halted_calm:
  assumes "halted (cmds r)" "frameS view quiet m" "m r = (x, r')"
  shows "halted (cmds r')"
  using frameS_D(2) [OF assms(2,3)] halted_append [OF assms(1)] by auto

lemma wp_any: "(\<And>x s'. Q x s') \<Longrightarrow> wpS m Q (\<lambda>_ _. True) s"
  by (rule wpS_I) simp_all

lemma wp_bind_I:
  "(\<And>x. v = Inr x \<Longrightarrow> wpS (f x) Q (\<lambda>_ _. True) s) \<Longrightarrow> wpS (bindS (liftS v) f) Q (\<lambda>_ _. True) s"
  "wpS (f (g s)) Q E s \<Longrightarrow> wpS (bindS (getS g) f) Q E s"
  "(\<And>s'. wpS k Q (\<lambda>_ _. True) s') \<Longrightarrow> wpS (thenS m k) Q (\<lambda>_ _. True) s"
  by (auto simp: wp_simps intro: wp_any split: sum.splits)

text \<open>The gripper handling keeps the verdict of the run.\<close>

lemma wpS_onB:
  "wpS (onB m) Q E r = wpS m (\<lambda>x b. Q x (r\<lparr>r_b := b\<rparr>)) (\<lambda>e b. E e (r\<lparr>r_b := b\<rparr>)) (r_b r)"
  by (simp add: wpS_def onB_def split: prod.splits sum.splits)

lemma wp_onB: "(\<And>x s'. Q x s') \<Longrightarrow> wpS (onB m) Q (\<lambda>_ _. True) s"
  by (rule wp_any)

text \<open>
  The verdict of a report: a success, or a failure that left the backend stopped and, when it was
  a user's stop, consumed the stop.
\<close>

definition verdict :: "exec_result \<Rightarrow> 'b trace robot \<Rightarrow> bool" where
  "verdict res r =
     (if er_success res then er_stop_reason res = ''none''
      else halted (cmds r) \<and> (er_stop_reason res = ''user'' \<longrightarrow> \<not> r_cancel r))"

definition same_outcome :: "exec_result \<Rightarrow> exec_result \<Rightarrow> bool" where
  "same_outcome res res' \<longleftrightarrow> er_success res' = er_success res \<and> er_stop_reason res' = er_stop_reason res"

lemma same_outcome_simps [simp]:
  "same_outcome res res"
  "same_outcome (log_put k v res) res' = same_outcome res res'"
  "same_outcome res (log_put k v res') = same_outcome res res'"
  "same_outcome (res\<lparr>er_clipped := c\<rparr>) res' = same_outcome res res'"
  by (simp_all add: same_outcome_def)

lemma same_verdict: "same_outcome res res' \<Longrightarrow> verdict res' = verdict res"
  by (simp add: same_outcome_def verdict_def fun_eq_iff)

lemma verdict_step:
  assumes "verdict res r" "frameS view quiet m" "m r = (x, r')" "r_cancel r' = r_cancel r"
  shows "verdict res r'"
  using assms(1,4) halted_calm [OF _ assms(2,3)] by (auto simp: verdict_def split: if_splits)

abbreviation keeps_outcome :: "locals \<Rightarrow> locals \<Rightarrow> 'b robot \<Rightarrow> bool" where
  "keeps_outcome x \<equiv> \<lambda>x' _. same_outcome (x_result x) (x_result x')"

lemma wp_try_fire: "wpS (try_fire_close B env g st x) (keeps_outcome x) (\<lambda>_ _. True) r"
  unfolding try_fire_close_def Let_def wpS_if by (auto simp: wp_simps intro!: wp_onB)

lemma wp_resolve: "wpS (resolve_pending B env st x) (keeps_outcome x) (\<lambda>_ _. True) r"
proof (cases "x_pending_close x")
  case None
  then show ?thesis by (simp add: resolve_pending_def wp_simps)
next
  case (Some gf)
  then show ?thesis
    using wp_try_fire [of B env "fst gf" st "x\<lparr>x_pending_close := None\<rparr>" r]
    by (cases gf) (simp add: resolve_pending_def wp_simps)
qed

lemma wp_grip: "wpS (handle_grip B env n st g x) (keeps_outcome x) (\<lambda>_ _. True) r"
proof -
  have t: "wpS (try_fire_close B env g' st (x\<lparr>x_pending_close := None\<rparr>)) (keeps_outcome x) (\<lambda>_ _. True) r" for g'
    using wp_try_fire [of B env g' st "x\<lparr>x_pending_close := None\<rparr>" r] by simp
  have p: "wpS (case x_pending_close x of Some (g, _) \<Rightarrow> try_fire_close B env g st (x\<lparr>x_pending_close := None\<rparr>)
      | None \<Rightarrow> retS x) (keeps_outcome x) (\<lambda>_ _. True) r"
    using t by (cases "x_pending_close x") (auto simp: wp_simps split: prod.splits)
  show ?thesis
    unfolding handle_grip_def Let_def wp_simps using p by (auto intro!: wp_onB)
qed

definition tick_post :: "exec_result \<Rightarrow> locals \<times> bool \<Rightarrow> 'b trace robot \<Rightarrow> bool" where
  "tick_post res xg r' \<longleftrightarrow> (if snd xg then same_outcome res (x_result (fst xg))
     else \<not> er_success (x_result (fst xg)) \<and> verdict (x_result (fst xg)) r')"

lemma tick_post_clipped [simp]: "tick_post (res\<lparr>er_clipped := c\<rparr>) = tick_post res"
  by (simp add: tick_post_def fun_eq_iff)

lemma wp_stream_tick:
  fixes r :: "'b trace robot"
  shows "wpS (stream_tick (traced B) env sp st cmd x) (tick_post (x_result x)) (\<lambda>_ _. True) r"
proof -
  have bk: "x_result x'' = x_result x'"
    if "bookkeeping dt cmd st (record_row env cmd st x') = Inr x''" for dt x' x''
    using that by (auto simp: bookkeeping_def record_row_def bindR_eq_Inr split: if_splits)
  show ?thesis
    unfolding stream_tick_def wp_simps
  proof (rule wp_any)
    fix u s
    show "wpS (resolve_pending (traced B) env st x)
        (\<lambda>x'. wpS (case sp_grip sp of None \<Rightarrow> retS x' | Some grip \<Rightarrow> handle_grip (traced B) env (sp_segment_ticks sp) st grip x')
          (\<lambda>x'' s. case bookkeeping (r_dt s) cmd st (record_row env cmd st x'') of
             Inl e \<Rightarrow> True | Inr x''' \<Rightarrow> tick_post (x_result x) (x''', True) s)
          (\<lambda>_ _. True)) (\<lambda>_ _. True) s"
    proof (rule wpS_mono [OF wp_resolve])
      fix x' :: locals and s' :: "'b trace robot"
      assume 1: "same_outcome (x_result x) (x_result x')"
      have "wpS (case sp_grip sp of None \<Rightarrow> retS x' | Some grip \<Rightarrow> handle_grip (traced B) env (sp_segment_ticks sp) st grip x')
          (keeps_outcome x') (\<lambda>_ _. True) s'"
        using wp_grip by (cases "sp_grip sp") (auto simp: wp_simps)
      then show "wpS (case sp_grip sp of None \<Rightarrow> retS x' | Some grip \<Rightarrow> handle_grip (traced B) env (sp_segment_ticks sp) st grip x')
          (\<lambda>x'' s. case bookkeeping (r_dt s) cmd st (record_row env cmd st x'') of
             Inl e \<Rightarrow> True | Inr x''' \<Rightarrow> tick_post (x_result x) (x''', True) s)
          (\<lambda>_ _. True) s'"
        by (rule wpS_mono) (use 1 bk in \<open>auto simp: tick_post_def same_outcome_def split: sum.splits\<close>)
    qed simp
  qed
qed

lemma wp_stop_run:
  assumes "reason \<noteq> ''user'' \<or> \<not> r_cancel r"
  shows "wpS (stop_run (traced B) reason x) (tick_post res) (\<lambda>_ _. True) r"
proof (rule wpS_I)
  fix xg r'
  assume a: "stop_run (traced B) reason x r = (Inr xg, r')"
  then obtain r1 where r1: "onB (bk_stop (traced B)) r = (Inr (), r1)" "r' = r1"
      "xg = (x\<lparr>x_result := failed reason (x_result x)\<rparr>, False)"
    by (auto simp: stop_run_def thenS_def bindS_def sem_simps split: prod.splits sum.splits)
  have "cmds r' = cmds r @ [CStop]" "r_cancel r' = r_cancel r"
    using r1(1,2) by (auto simp: onB_def traced_def record_cmd_def cmds_def split: prod.splits)
  moreover from this have "halted (cmds r')"
    unfolding halted_def by (intro exI [of _ "cmds r"] exI [of _ "[]"]) simp
  ultimately show "tick_post res xg r'"
    using r1(3) assms by (auto simp: tick_post_def failed_def verdict_def)
qed simp

lemma filter_reason: "filter_cartesian t st cap f = (Inr sr, f') \<Longrightarrow> reason_value (sr_reason sr) \<noteq> ''user''"
  by (auto simp: filter_cartesian_def commit_motion_def Let_def sr_reject_def
      split: sum.splits if_splits option.splits prod.splits)

lemma wp_filter_tick:
  fixes r :: "'b trace robot"
  shows "wpS (filter_tick (traced B) env sp st x) (tick_post (x_result x)) (\<lambda>_ _. True) r"
proof -
  have s: "wpS (stream_tick (traced B) env sp st p x) (tick_post (x_result x)) (\<lambda>_ _. True) r"
    "wpS (stream_tick (traced B) env sp st p (x\<lparr>x_result := (x_result x)\<lparr>er_clipped := True\<rparr>\<rparr>))
      (tick_post (x_result x)) (\<lambda>_ _. True) r" for p and r :: "'b trace robot"
    using wp_stream_tick [of B env sp st p x r]
      wp_stream_tick [of B env sp st p "x\<lparr>x_result := (x_result x)\<lparr>er_clipped := True\<rparr>\<rparr>" r]
    by simp_all
  show ?thesis
    unfolding filter_tick_def wpS_bind
  proof (rule wpS_I)
    fix sr and r' :: "'b trace robot"
    assume "onF (filter_cartesian (sp_pose sp) st (Some (e_wrench_cap env))) r = (Inr sr, r')"
    then have "reason_value (sr_reason sr) \<noteq> ''user''"
      by (auto simp: onF_def dest: filter_reason split: prod.splits)
    then show "wpS (case sr_pose sr of
         Some cmd \<Rightarrow>
           (if \<not> sr_ok sr then stop_run (traced B) (reason_value (sr_reason sr)) x
            else stream_tick (traced B) env sp st cmd
                   (if sr_clipped sr then x\<lparr>x_result := (x_result x)\<lparr>er_clipped := True\<rparr>\<rparr> else x))
       | None \<Rightarrow> stop_run (traced B) (reason_value (sr_reason sr)) x) (tick_post (x_result x)) (\<lambda>_ _. True) r'"
      by (auto intro!: wp_stop_run s split: option.splits)
  qed simp
qed

lemma wp_chunk_tick:
  fixes r :: "'b trace robot"
  shows "wpS (chunk_tick (traced B) env sp x) (tick_post (x_result x)) (\<lambda>_ _. True) r"
proof -
  let ?x = "x\<lparr>x_tick := x_tick x + 1, x_seg := sp_segment sp\<rparr>"
  have f: "wpS (filter_tick (traced B) env sp st ?x) (tick_post (x_result x)) (\<lambda>_ _. True) r"
    for st and r :: "'b trace robot"
    using wp_filter_tick [of B env sp st ?x r] by simp
  have ok: "wpS (bindS (get_state (traced B)) (\<lambda>st.
          bindS (onB (bk_in_fault (traced B))) (\<lambda>fault.
            if fault then stop_run (traced B) ''backend_fault'' ?x
            else
              bindS (liftS (np_any_abs_gt (st_wrench st) (e_wrench_cap env))) (\<lambda>over.
                if over then stop_run (traced B) ''contact_wrench'' ?x
                else filter_tick (traced B) env sp st ?x)))) (tick_post (x_result x)) (\<lambda>_ _. True) r"
    for r :: "'b trace robot"
    unfolding wp_simps by (intro wp_any) (auto intro!: wp_any wp_stop_run f split: sum.splits)
  have user: "wpS (thenS clear_stop (stop_run (traced B) ''user'' ?x)) (tick_post (x_result x)) (\<lambda>_ _. True) r"
    for r :: "'b trace robot"
    unfolding wpS_then clear_stop_def wpS_modS by (rule wp_stop_run) simp
  show ?thesis
    unfolding chunk_tick_def Let_def wpS_bind [of poll_cancel]
    by (rule wp_any) (auto simp only: wpS_if intro!: ok user split: if_split)
qed

lemma wp_chunk_loop:
  fixes r :: "'b trace robot"
  assumes "er_success (x_result x)" "er_stop_reason (x_result x) = ''none''"
  shows "wpS (chunk_loop (traced B) env sps x) (\<lambda>x' r'. verdict (x_result x') r') (\<lambda>_ _. True) r"
  using assms
proof (induction sps arbitrary: x r)
  case (Cons i sps x r)
  show ?case
  proof (cases i)
    case (Inr sp)
    show ?thesis
      unfolding Inr chunk_loop.simps wp_simps
    proof (rule wpS_mono [OF wp_chunk_tick])
      fix xg :: "locals \<times> bool" and r' :: "'b trace robot"
      assume "tick_post (x_result x) xg r'"
      then show "wpS (case xg of (x, go) \<Rightarrow> if go then chunk_loop (traced B) env sps x else retS x)
         (\<lambda>x' r'. verdict (x_result x') r') (\<lambda>_ _. True) r'"
        using Cons by (auto simp: tick_post_def same_outcome_def wp_simps split: prod.splits if_splits)
    qed simp
  qed (simp add: wp_simps)
qed (simp add: wp_simps verdict_def)

lemma wp_finish:
  fixes r :: "'b trace robot"
  assumes "verdict (x_result x) r"
  shows "wpS (finish_pending (traced B) env x) (\<lambda>x' r'. verdict (x_result x') r') (\<lambda>_ _. True) r"
proof (cases "x_pending_close x")
  case None
  then show ?thesis using assms by (simp add: finish_pending_def wp_simps)
next
  case (Some gf)
  show ?thesis
  proof (cases "er_success (x_result x)")
    case True
    have "wpS (try_fire_close (traced B) env (fst gf) st (x\<lparr>x_pending_close := None\<rparr>))
        (\<lambda>x' r'. verdict (x_result x') r') (\<lambda>_ _. True) r" for st and r :: "'b trace robot"
      by (rule wpS_mono [OF wp_try_fire]) (use assms True in \<open>simp_all add: verdict_def same_outcome_def\<close>)
    then show ?thesis
      using Some True by (cases gf) (auto simp: finish_pending_def wp_simps intro: wp_any)
  next
    case False
    then show ?thesis
      using Some assms by (cases gf) (simp add: finish_pending_def wp_simps Let_def verdict_def)
  qed
qed

lemma wp_restore:
  fixes r :: "'b trace robot"
  assumes "\<And>x. a = Inr x \<Longrightarrow> verdict (x_result x) r"
  shows "wpS (restore_wrench (traced B) relaxed a)
    (\<lambda>b r'. \<forall>x. b = Inr x \<longrightarrow> verdict (x_result x) r') (\<lambda>_ _. True) r"
proof (rule wpS_I)
  fix b r'
  assume b: "restore_wrench (traced B) relaxed a r = (Inr b, r')"
  have q: "calmS quiet (restore_wrench (traced B) relaxed a)"
    by (auto simp: restore_wrench_def intro!: calm_ops frameS_catch frameS_bind)
  have c: "r_cancel r' = r_cancel r"
    using b by (auto simp: restore_wrench_def catchS_def bindS_def thenS_def sem_simps onB_def
        split: if_splits prod.splits sum.splits)
  have "b = a \<or> b = mark_restore_failed a"
    using b by (auto simp: restore_wrench_def catchS_def bindS_def thenS_def sem_simps
        split: if_splits prod.splits sum.splits)
  then have "\<forall>x. b = Inr x \<longrightarrow> (\<exists>x0. a = Inr x0 \<and> same_outcome (x_result x0) (x_result x))"
    by (auto simp: mark_restore_failed_def split: sum.splits)
  then show "\<forall>x. b = Inr x \<longrightarrow> verdict (x_result x) r'"
    using assms verdict_step [OF _ q b c] same_verdict by metis
qed simp

lemma wp_guarded_loop:
  fixes r :: "'b trace robot"
  assumes "er_success res" "er_stop_reason res = ''none''"
  shows "wpS (finallyS (bindS (chunk_loop (traced B) env sps (fresh_locals res start))
      (finish_pending (traced B) env)) (restore_wrench (traced B) relaxed))
    (\<lambda>x r'. verdict (x_result x) r') (\<lambda>_ _. True) r"
proof -
  let ?ok = "\<lambda>(x::locals) (r'::'b trace robot). verdict (x_result x) r'"
  have body: "wpS (bindS (chunk_loop (traced B) env sps (fresh_locals res start)) (finish_pending (traced B) env))
      ?ok (\<lambda>_ _. True) r"
    unfolding wp_simps
    by (rule wpS_mono [OF wp_chunk_loop]) (use assms wp_finish in \<open>auto simp: fresh_locals_def\<close>)
  have restored: "wpS (restore_wrench (traced B) relaxed a)
      (\<lambda>b s. case b of Inl e \<Rightarrow> True | Inr y \<Rightarrow> ?ok y s) (\<lambda>_ _. True) s'"
    if "\<And>x. a = Inr x \<Longrightarrow> ?ok x s'" for a and s' :: "'b trace robot"
    by (rule wpS_mono [OF wp_restore]) (use that in \<open>auto split: sum.splits\<close>)
  show ?thesis
    unfolding wpS_finally by (rule wpS_mono [OF body]) (rule restored, simp)+
qed

lemma wp_final_report:
  fixes r :: "'b trace robot"
  assumes "verdict (x_result x) r"
  shows "wpS (bindS (get_state (traced B)) (\<lambda>end'. raise_if_stopped b (final_report env start end' x)))
      verdict (\<lambda>_ _. True) r"
  unfolding wpS_bind
proof (rule wpS_I)
  fix st and r' :: "'b trace robot"
  assume g: "get_state (traced B) r = (Inr st, r')"
  have final: "same_outcome (x_result x) (final_report env start st x)"
    by (simp add: final_report_def Let_def same_outcome_def)
  have "verdict (x_result x) r'"
    by (rule verdict_step [OF assms calm_get_state g get_state_read(4) [OF g]]) simp
  then show "wpS (raise_if_stopped b (final_report env start st x)) verdict (\<lambda>_ _. True) r'"
    using same_verdict [OF final, where 'a = 'b] by (auto simp: raise_if_stopped_def wp_simps)
qed simp

lemma wp_run_chunk:
  fixes r :: "'b trace robot"
  assumes "er_success res" "er_stop_reason res = ''none''"
  shows "wpS (run_chunk (traced B) args c start res) verdict (\<lambda>_ _. True) r"
proof -
  have eff: "er_success res'" "er_stop_reason res' = ''none''"
    if "effective_wrench p c' (log_put k v (log_put k' v' res)) = Inr (w, relaxed, res')"
    for p c' k v k' v' w relaxed res'
    using that assms
    by (auto simp: effective_wrench_def bindR_eq_Inr split: option.splits if_splits)
  have tail: "wpS (bindS (finallyS (bindS (chunk_loop (traced B) env sps (fresh_locals res' start))
                (finish_pending (traced B) env)) (restore_wrench (traced B) relaxed))
        (\<lambda>x. bindS (get_state (traced B)) (\<lambda>end'. raise_if_stopped b (final_report env start end' x))))
      verdict (\<lambda>_ _. True) r"
    if "er_success res'" "er_stop_reason res' = ''none''" for env sps res' relaxed b and r :: "'b trace robot"
    unfolding wpS_bind [of "finallyS m k" for m k]
    by (rule wpS_mono [OF wp_guarded_loop [OF that]]) (simp_all add: wp_final_report)
  show ?thesis
    unfolding run_chunk_def Let_def
    by (intro wp_bind_I) (auto intro!: wp_bind_I tail dest: eff)
qed

section \<open>The contact guard of a run\<close>

definition limits :: "command list \<Rightarrow> real list list" where
  "limits cs = List.map_filter (\<lambda>c. case c of CLimit w \<Rightarrow> Some w | _ \<Rightarrow> None) cs"

lemma limits_simps [simp]:
  "limits [] = []" "limits (as @ bs) = limits as @ limits bs" "limits [CLimit w] = [w]"
  "limits (CLimit w # bs) = w # limits bs"
  by (simp_all add: limits_def List.map_filter_def)

lemma limits_none: "list_all no_limit cs \<Longrightarrow> limits cs = []"
  by (induction cs) (auto simp: limits_def map_filter_simps no_limit_def split: command.splits)

lemma no_limit_simps [simp]:
  "no_limit CStop" "no_limit (CGripper g)" "no_limit (CStream p v)" "no_limit (CRead s)"
  by (simp_all add: no_limit_def)

lemmas emits_ops = calm_ops [THEN emits_calm, where L = K and K = K for K]

lemma emits_onF [intro]: "emitsS K (onF m)"
  by (auto simp: frameS_def onF_def settings_def cmds_def split: prod.splits)

lemma emits_events [simp]: "emitsS K poll_cancel" "emitsS K clear_stop" "emitsS K auto_lease"
  by (rule emits_calm [where K = K], simp, simp)+

lemma emits_try_fire: "emitsS no_limit (try_fire_close (traced B) env g st x)"
  by (auto simp: try_fire_close_def Let_def intro!: frameS_then emits_ops)

lemma emits_get_state: "emitsS no_limit (get_state (traced B))"
  by (rule emits_calm [OF calm_get_state]) (auto intro: no_limit_simps)

lemma emits_chunk_tick: "emitsS no_limit (chunk_tick (traced B) env sp x)"
proof -
  have stop: "emitsS no_limit (stop_run (traced B) reason x)" for reason x
    by (auto simp: stop_run_def intro!: frameS_then emits_ops)
  have resolve: "emitsS no_limit (resolve_pending (traced B) env st x)" for st x
    by (auto simp: resolve_pending_def intro: emits_try_fire split: option.splits)
  have grip: "emitsS no_limit (handle_grip (traced B) env n st g x)" for n st g x
    by (auto simp: handle_grip_def Let_def intro!: emits_ops emits_try_fire frameS_bind frameS_then
        split: option.splits)
  have stream: "emitsS no_limit (stream_tick (traced B) env sp st p x)" for st p x
    by (auto simp: stream_tick_def intro!: frameS_bind frameS_then emits_ops resolve grip split: option.splits)
  have filt: "emitsS no_limit (filter_tick (traced B) env sp st x)" for st x
    by (auto simp: filter_tick_def intro!: frameS_bind emits_onF stop stream split: option.splits)
  show ?thesis
    by (auto simp: chunk_tick_def Let_def intro!: frameS_bind frameS_then frameS_base emits_ops emits_get_state stop filt)
qed

lemma emits_chunk_loop: "emitsS no_limit (chunk_loop (traced B) env sps x)"
proof (induction sps arbitrary: x)
  case (Cons i sps)
  then show ?case by (cases i) (auto intro!: frameS_bind emits_chunk_tick)
qed auto

lemma emits_finish: "emitsS no_limit (finish_pending (traced B) env x)"
  by (auto simp: finish_pending_def Let_def intro!: frameS_bind emits_get_state emits_try_fire
      split: option.splits)

lemma limit_call:
  "onB (bk_set_contact_wrench_limit (traced B) w) r = (a, r') \<Longrightarrow> cmds r' = cmds r @ [CLimit w] \<and> settings r' = settings r"
  by (auto simp: onB_def traced_def record_cmd_def cmds_def settings_def split: prod.splits)

lemma restore_call:
  assumes "restore_wrench (traced B) relaxed a r = (b, r')"
  shows "cmds r' = cmds r @ (if relaxed then [CLimit (p_max_contact_wrench (r_profile r))] else [])"
    and "settings r' = settings r"
proof -
  have "cmds r' = cmds r @ [CLimit (p_max_contact_wrench (r_profile r))] \<and> settings r' = settings r" if relaxed
    using assms that
    by (auto simp: restore_wrench_def catchS_def bindS_def thenS_def sem_simps dest!: limit_call
        split: prod.splits sum.splits)
  moreover have "r' = r" if "\<not> relaxed" using assms that by (simp add: restore_wrench_def sem_simps)
  ultimately show "cmds r' = cmds r @ (if relaxed then [CLimit (p_max_contact_wrench (r_profile r))] else [])"
    "settings r' = settings r" by auto
qed

text \<open>The loop under its \<open>finally\<close>, with the report after it.\<close>

lemma guarded_limits:
  assumes "bindS (finallyS (bindS (chunk_loop (traced B) env sps x) (finish_pending (traced B) env))
              (restore_wrench (traced B) relaxed))
            (\<lambda>x. bindS (get_state (traced B)) (\<lambda>end'. raise_if_stopped b (f end' x))) r = (out, r')"
  shows "settings r' = settings r \<and> (\<exists>ev. cmds r' = cmds r @ ev
    \<and> limits ev = (if relaxed then [p_max_contact_wrench (r_profile r)] else []))"
proof -
  define body where "body = bindS (chunk_loop (traced B) env sps x) (finish_pending (traced B) env)"
  have "emitsS no_limit body" unfolding body_def by (auto intro!: frameS_bind emits_chunk_loop emits_finish)
  note E = frameS_D [OF this]
  obtain a r1 where a: "body r = (a, r1)" by (cases "body r")
  obtain cs where cs: "settings r1 = settings r" "cmds r1 = cmds r @ cs" "limits cs = []"
    using E [OF a] limits_none by blast
  obtain d r2 where d: "restore_wrench (traced B) relaxed a r1 = (d, r2)"
    by (cases "restore_wrench (traced B) relaxed a r1")
  have p: "r_profile r1 = r_profile r" using cs(1) by (simp add: settings_def)
  note D = restore_call [OF d, unfolded p]
  define k where "k = (\<lambda>x. bindS (get_state (traced B)) (\<lambda>end'. raise_if_stopped b (f end' x)))"
  have k: "emitsS no_limit (k y)" for y
    unfolding k_def raise_if_stopped_def by (auto intro!: frameS_bind emits_get_state)
  have cases: "r' = r2 \<or> (\<exists>y. k y r2 = (out, r'))"
    using assms a d unfolding body_def [symmetric] k_def [symmetric]
    by (auto simp: bindS_def finallyS_def split: sum.splits)
  have "\<exists>cs'. settings r' = settings r2 \<and> cmds r' = cmds r2 @ cs' \<and> limits cs' = []"
    using cases
  proof
    assume "r' = r2"
    then show ?thesis by (intro exI [of _ "[]"]) simp
  next
    assume "\<exists>y. k y r2 = (out, r')"
    then obtain y where "k y r2 = (out, r')" ..
    from frameS_D [OF k this] show ?thesis using limits_none by blast
  qed
  then show ?thesis using cs D by auto
qed

text \<open>The cap a run works under never exceeds the profile's cap plus the profile's allowance.\<close>

definition guard_ok :: "safety_profile \<Rightarrow> real list \<Rightarrow> bool" where
  "guard_ok p w \<longleftrightarrow> length w = 6
     \<and> (\<forall>i < 6. w ! i \<le> p_max_contact_wrench p ! i + max 0 (p_max_wrench_allowance p ! i))"

definition six_axes :: "safety_profile \<Rightarrow> bool" where
  "six_axes p \<longleftrightarrow> length (p_max_contact_wrench p) = 6 \<and> length (p_max_wrench_allowance p) = 6"

lemma np_map2_wide:
  assumes "np_map2 f xs ys = Inr zs" "length ys = 6"
  shows "length zs = 6 \<and> (\<forall>i < 6. \<exists>x. zs ! i = f x (ys ! i))"
  using assms by (auto simp: np_map2_def split: if_splits)

lemma np_map2_min_left:
  assumes "np_map2 min xs ys = Inr zs" "length xs = 6"
  shows "length zs = 6 \<and> (\<forall>i < 6. zs ! i \<le> xs ! i)"
  using assms by (auto simp: np_map2_def split: if_splits)

lemma effective_wrench_guard:
  assumes "effective_wrench p c res = Inr (w, relaxed, res')" "six_axes p"
  shows "guard_ok p w"
proof -
  have base: "guard_ok p (p_max_contact_wrench p)" using assms(2) by (simp add: guard_ok_def six_axes_def)
  have grant: "guard_ok p w0"
    if "np_map2 min a (p_max_wrench_allowance p) = Inr allow" "np_map2 (+) (p_max_contact_wrench p) allow = Inr w0"
    for a allow w0
  proof -
    have a: "length allow = 6" "\<forall>i < 6. allow ! i \<le> p_max_wrench_allowance p ! i"
      using np_map2_wide [OF that(1)] assms(2) by (auto simp: six_axes_def)
    then have "w0 = map2 (+) (p_max_contact_wrench p) allow" using that(2) assms(2) by (simp add: six_axes_def)
    then show ?thesis using a assms(2) by (auto simp: guard_ok_def six_axes_def le_max_iff_disj)
  qed
  have lower: "guard_ok p w'" if "guard_ok p w0" "np_map2 min w0 cw = Inr w'" for w0 cw w'
    using np_map2_min_left [OF that(2)] that(1) by (force simp: guard_ok_def)
  obtain g where
    g: "(case ck_contact_wrench_allowance c of
           None \<Rightarrow> Inr (p_max_contact_wrench p, False, res)
         | Some a \<Rightarrow>
             bindR (np_map2 min a (p_max_wrench_allowance p)) (\<lambda>allow.
               if list_ex (\<lambda>x. 0 < x) allow
               then bindR (np_map2 (+) (p_max_contact_wrench p) allow) (\<lambda>w.
                      Inr (w, True, log_put ''contact_wrench_allowance'' (of_floats allow) res))
               else Inr (p_max_contact_wrench p, False, res))) = Inr g"
    and fin: "(case g of (w, relaxed, res) \<Rightarrow> case ck_max_contact_wrench c of
            None \<Rightarrow> Inr (w, relaxed, res)
          | Some cw \<Rightarrow> bindR (np_map2 min w cw) (\<lambda>w'. Inr (w', relaxed, res))) = Inr (w, relaxed, res')"
    using assms(1) unfolding effective_wrench_def bindR_eq_Inr [of "case v of None \<Rightarrow> x | Some a \<Rightarrow> f a" for v x f] by blast
  have "guard_ok p (fst g)"
  proof (cases "ck_contact_wrench_allowance c")
    case None
    then show ?thesis using g base by auto
  next
    case (Some a)
    obtain allow where allow: "np_map2 min a (p_max_wrench_allowance p) = Inr allow"
      and "(if list_ex (\<lambda>x. 0 < x) allow
               then bindR (np_map2 (+) (p_max_contact_wrench p) allow) (\<lambda>w.
                      Inr (w, True, log_put ''contact_wrench_allowance'' (of_floats allow) res))
               else Inr (p_max_contact_wrench p, False, res)) = Inr g"
      using g unfolding Some option.case bindR_eq_Inr by blast
    then show ?thesis
      using base grant by (cases "list_ex (\<lambda>x. 0 < x) allow") (auto simp: bindR_eq_Inr)
  qed
  then show ?thesis using fin lower by (cases g) (auto simp: bindR_eq_Inr split: option.splits)
qed

lemma bindS_lift_cases:
  assumes "bindS (liftS v) f r = (out, r')"
  obtains e where "v = Inl e" "out = Inl e" "r' = r" | x where "v = Inr x" "f x r = (out, r')"
  using assms by (cases v) (auto simp: bindS_def sem_simps)

lemma bindS_get: "bindS (getS g) f r = f (g r) r"
  by (simp add: bindS_def sem_simps)

definition guarded :: "safety_profile \<Rightarrow> exec_result result \<Rightarrow> command list \<Rightarrow> bool" where
  "guarded p out ev \<longleftrightarrow> limits ev = []
     \<or> (\<exists>w. guard_ok p w \<and> limits ev = [w, p_max_contact_wrench p])
     \<or> (\<exists>w e. guard_ok p w \<and> limits ev = [w] \<and> streamed ev = [] \<and> out = Inl e)"

lemma run_chunk_limits:
  assumes "run_chunk (traced B) args c start res r = (out, r')" "six_axes (r_profile r)"
  shows "\<exists>ev. cmds r' = cmds r @ ev \<and> guarded (r_profile r) out ev"
  using assms(1) unfolding run_chunk_def
proof (cases rule: bindS_lift_cases [consumes 1, case_names bad_chunk chunk])
  case (chunk c')
  define res1 where "res1 = log_put ''angular_speed_cap''
      (JNum (tighten (p_max_angular_speed (r_profile r)) (ck_max_tcp_angular_speed c')))
      (log_put ''linear_speed_cap''
        (JNum (tighten (p_max_linear_speed (r_profile r)) (ck_max_tcp_linear_speed c'))) res)"
  from chunk(2) show ?thesis
    unfolding bindS_get Let_def res1_def [symmetric]
  proof (cases rule: bindS_lift_cases [consumes 1, case_names bad_wrench wrench])
    case (wrench g)
    obtain w relaxed res' where g: "g = (w, relaxed, res')" by (cases g)
    have ok: "guard_ok (r_profile r) w" using effective_wrench_guard wrench(1) g assms(2) by blast
    from wrench(2) show ?thesis
      unfolding g prod.case bindS_get
    proof (cases rule: bindS_lift_cases [consumes 1, case_names bad_interp interp])
      case (interp i)
      obtain a r1 where a: "(if relaxed then onB (bk_set_contact_wrench_limit (traced B) w) else retS ()) r = (a, r1)"
        by (cases "(if relaxed then onB (bk_set_contact_wrench_limit (traced B) w) else retS ()) r")
      have c1: "cmds r1 = cmds r @ (if relaxed then [CLimit w] else [])" "r_profile r1 = r_profile r"
        using a by (auto simp: sem_simps settings_def dest!: limit_call split: if_splits)
      show ?thesis
      proof (cases a)
        case (Inl e)
        then have "r' = r1" "out = Inl e" "relaxed"
          using interp(2) a by (auto simp: thenS_def bindS_def sem_simps split: if_splits)
        then show ?thesis using c1 ok by (auto simp: guarded_def streamed_def map_filter_simps)
      next
        case (Inr u)
        with interp(2) a have "\<exists>ev. cmds r' = cmds r1 @ ev
            \<and> limits ev = (if relaxed then [p_max_contact_wrench (r_profile r1)] else [])"
          by (intro conjunct2 [OF guarded_limits]) (simp add: thenS_def bindS_def [of "if relaxed then m else n" for m n])
        then obtain ev where ev: "cmds r' = cmds r1 @ ev"
            "limits ev = (if relaxed then [p_max_contact_wrench (r_profile r)] else [])" using c1(2) by auto
        then show ?thesis
          using c1(1) ok by (intro exI [of _ "(if relaxed then [CLimit w] else []) @ ev"]) (auto simp: guarded_def)
      qed
    qed (auto simp: guarded_def)
  qed (auto simp: guarded_def)
qed (auto simp: guarded_def)

section \<open>Properties\<close>

text \<open>The poses of one chunk call.\<close>

lemma chunk_call_bounded:
  assumes "robot_wf r" "execute_cartesian_chunk (traced B) args c r = (out, r')"
  shows "\<exists>ev. cmds r' = cmds r @ ev \<and> (streamed ev \<noteq> [] \<longrightarrow> (\<exists>st. CRead st \<in> set ev
      \<and> successively (\<lambda>a b. norm (pos b - pos a) \<le> p_max_linear_speed (r_profile r) * r_dt r
           \<and> norm (pos b - pos a) \<le> p_max_pose_jump_linear (r_profile r)
           \<and> quat_angle (rot a) (rot b) \<le> p_max_angular_speed (r_profile r) * r_dt r / SLERP_SLACK)
         (st_tcp_pose st # streamed ev)
      \<and> (p_max_linear_accel (r_profile r) = None \<and> near_box (r_profile r) (pos (st_tcp_pose st)) \<longrightarrow>
           (\<forall>q \<in> set (streamed ev). near_box (r_profile r) (pos q)))))"
  using assms(2)
proof (cases rule: execute_cartesian_cases)
  case (abort r0)
  obtain cs where "cmds r' = cmds r @ cs" "list_all (\<lambda>c. \<exists>s. c = CRead s) cs"
    using calmS_D(3) [OF abort_calm abort(1)] abort(3) by auto
  moreover from this have "streamed cs = []"
    by (intro streamed_calm) (auto simp: list_all_iff)
  ultimately show ?thesis by blast
next
  case (refused e)
  then show ?thesis by (intro exI [of _ "[]"]) simp
next
  case (enter_failed e cs)
  then show ?thesis using streamed_calm entering_no_stream by blast
next
  case (run r1 start res)
  have "stream_inv (cmds r) (r_filter r) (st_tcp_pose start) r'"
    using keepsS_D [OF keeps_run_chunk enter_stream_inv [OF assms(1) run(1)], of B args c start res] run(2) by simp
  then obtain ev st where ev: "cmds r' = cmds r @ ev" "CRead st \<in> set ev" "st_tcp_pose st = st_tcp_pose start"
      "successively (cart_near (r_filter r)) (st_tcp_pose start # streamed ev)"
      "cart_good (r_filter r) (st_tcp_pose start) \<longrightarrow> (\<forall>c \<in> set (streamed ev). cart_good (r_filter r) c)"
    by (auto simp: stream_inv_def)
  have p: "f_p (r_filter r) = r_profile r" "f_dt (r_filter r) = r_dt r" using assms(1) by (simp_all add: robot_wf_def)
  have "successively (\<lambda>a b. norm (pos b - pos a) \<le> p_max_linear_speed (r_profile r) * r_dt r
           \<and> norm (pos b - pos a) \<le> p_max_pose_jump_linear (r_profile r)
           \<and> quat_angle (rot a) (rot b) \<le> p_max_angular_speed (r_profile r) * r_dt r / SLERP_SLACK)
         (st_tcp_pose st # streamed ev)"
    using ev(4) unfolding ev(3) by (rule successively_mono_set) (simp add: cart_near_def p)
  moreover have "\<forall>q \<in> set (streamed ev). near_box (r_profile r) (pos q)"
    if "p_max_linear_accel (r_profile r) = None" "near_box (r_profile r) (pos (st_tcp_pose st))"
    using ev(5) that unfolding ev(3) cart_good_def p by simp
  ultimately show ?thesis
    using ev(1,2) by (intro exI [of _ ev] conjI impI exI [of _ st]) simp_all
qed

text \<open>C1: Over any backend, whatever states it reports and whatever it raises, the poses one chunk
  call streams to it move, from the start pose the backend reported on, at most
  \<open>max_linear_speed * dt\<close> and the linear jump cap per tick and turn at most
  \<open>max_angular_speed * dt\<close> (up to 1/0.9995); and without the acceleration cap they stay at the
  workspace box when the start pose is there.\<close>

theorem chunk_streams_bounded:
  assumes "robot_wf r" "execute_cartesian_chunk (traced B) args c r = (out, r')"
  shows "\<exists>ev. cmds r' = cmds r @ ev \<and> (streamed ev \<noteq> [] \<longrightarrow> (\<exists>st. CRead st \<in> set ev
      \<and> successively (\<lambda>a b. norm (pos b - pos a) \<le> p_max_linear_speed (r_profile r) * r_dt r
           \<and> norm (pos b - pos a) \<le> p_max_pose_jump_linear (r_profile r)
           \<and> quat_angle (rot a) (rot b) \<le> p_max_angular_speed (r_profile r) * r_dt r / SLERP_SLACK)
         (st_tcp_pose st # streamed ev)
      \<and> (p_max_linear_accel (r_profile r) = None \<and> near_box (r_profile r) (pos (st_tcp_pose st)) \<longrightarrow>
           (\<forall>q \<in> set (streamed ev). near_box (r_profile r) (pos q)))))"
  by (rule chunk_call_bounded [OF assms])

definition demo_robot :: "(nat \<Rightarrow> bool) \<Rightarrow> fake trace robot" where
  "demo_robot requests = \<lparr>r_cfg = default_config, r_hz = 100, r_dt = 1/100,
     r_b = ((mk_fake 7 None None 1)\<lparr>fk_mode := NRT_CARTESIAN_MOTION_FORCE\<rparr>, []), r_owner = None,
     r_profile = default_profile, r_filter = mk_filter default_profile (1/100), r_cancel = False,
     r_last_state = None, r_requests = requests, r_polls = 0\<rparr>"

lemma demo_robot_wf [simp]: "robot_wf (demo_robot rq)"
  by (simp add: robot_wf_def demo_robot_def mk_filter_def)

lemma demo_robot_sel [simp]:
  "cmds (demo_robot rq) = []" "r_profile (demo_robot rq) = default_profile" "r_dt (demo_robot rq) = 1/100"
  "r_requests (demo_robot rq) = rq" "r_polls (demo_robot rq) = 0" "r_cancel (demo_robot rq) = False"
  by (simp_all add: demo_robot_def cmds_def)

lemma chunk_streams_bounded_witness:
  "\<exists>ev. cmds (snd (execute_cartesian_chunk (traced fake_backend) default_args (chunk_of [demo_waypoint (6/10) 1])
        (demo_robot (\<lambda>_. False)))) = ev
    \<and> (streamed ev = [] \<or> (\<exists>st. CRead st \<in> set ev
      \<and> successively (\<lambda>a b. norm (pos b - pos a) \<le> p_max_linear_speed default_profile * (1/100)
           \<and> norm (pos b - pos a) \<le> p_max_pose_jump_linear default_profile
           \<and> quat_angle (rot a) (rot b) \<le> p_max_angular_speed default_profile * (1/100) / SLERP_SLACK)
         (st_tcp_pose st # streamed ev)))"
  using chunk_streams_bounded [OF demo_robot_wf prod.collapse [symmetric]] by fastforce

text \<open>C2: A chunk call that returns reports either success, or a failure after which the backend was
  left stopped (the last command given, but for re-arming the contact guard and reading the
  state, is a stop), or a stop that was pending at entry, when the state was read and nothing
  else. A stop reported as the user's has been consumed.\<close>

theorem failed_run_stopped:
  assumes "cmds r = []" "execute_cartesian_chunk (traced B) args c r = (Inr res, r')"
  shows "if er_success res then er_stop_reason res = ''none''
    else (halted (cmds r') \<or> (r_cancel r \<or> r_requests r (r_polls r)) \<and> list_all (\<lambda>c. \<exists>s. c = CRead s) (cmds r'))
      \<and> (er_stop_reason res = ''user'' \<longrightarrow> \<not> r_cancel r')"
  using assms(2)
proof (cases rule: execute_cartesian_cases)
  case (abort r0)
  note A = abort_result [OF abort(1)]
  then show ?thesis using abort assms(1) by simp
next
  case (run r1 start res0)
  have "verdict res r'"
    using wpS_Inr [OF wp_run_chunk run(2)] run(5,6) by blast
  then show ?thesis by (auto simp: verdict_def split: if_splits)
qed simp_all

lemma failed_run_stopped_witness:
  "\<exists>res r'. execute_cartesian_chunk (traced fake_backend) default_args (chunk_of [demo_waypoint (6/10) 1])
      (demo_robot (\<lambda>n. n = 0)) = (Inr res, r') \<and> er_stop_reason res = ''user'' \<and> \<not> r_cancel r'"
proof -
  obtain res r' where e: "execute_cartesian_chunk (traced fake_backend) default_args (chunk_of [demo_waypoint (6/10) 1])
      (demo_robot (\<lambda>n. n = 0)) = (Inr res, r')" "er_stop_reason res = ''user''" "\<not> er_success res"
    by (simp add: execute_cartesian_chunk_def thenS_def bindS_def auto_lease_def poll_cancel_def sem_simps
        abort_at_entry_def clear_stop_def get_state_def onB_def traced_def record_read_def fake_backend_def
        fake_read_state_def demo_robot_def raise_if_stopped_def default_args_def failed_def)
  from failed_run_stopped [OF _ e(1)] e show ?thesis by auto
qed



text \<open>What a chunk call does when a stop is pending.\<close>

lemma cancelled_chunk:
  assumes "r_cancel r \<or> r_requests r (r_polls r)"
    and "execute_cartesian_chunk (traced B) args c r = (out, r')"
  shows "(\<exists>cs. cmds r' = cmds r @ cs \<and> list_all (\<lambda>c. \<exists>s. c = CRead s) cs) \<and> \<not> r_cancel r'
    \<and> (\<forall>res. out = Inr res \<longrightarrow> \<not> er_success res \<and> er_stop_reason res = ''user'')"
  using assms(2)
proof (cases rule: execute_cartesian_cases)
  case (abort r0)
  show ?thesis using abort_result [OF abort(1)] abort(3) by auto
next
  case (refused e)
  then show ?thesis using assms(1) by simp
next
  case (enter_failed e cs)
  then show ?thesis using assms(1) by simp
next
  case (run r1 start res)
  then show ?thesis using assms(1) by simp
qed

text \<open>A stop pending when a chunk is called reaches no motion: the state is read, nothing else is
  commanded, the stop is consumed, and the report, if one is returned, is a user stop.\<close>

theorem pending_stop_consumed:
  assumes "r_cancel r \<or> r_requests r (r_polls r)"
    and "execute_cartesian_chunk (traced B) args c r = (out, r')"
  shows "(\<exists>cs. cmds r' = cmds r @ cs \<and> list_all (\<lambda>c. \<exists>s. c = CRead s) cs) \<and> \<not> r_cancel r'
    \<and> (\<forall>res. out = Inr res \<longrightarrow> \<not> er_success res \<and> er_stop_reason res = ''user'')"
  by (rule cancelled_chunk [OF assms])

lemma pending_stop_consumed_witness:
  "\<not> r_cancel (snd (execute_cartesian_chunk (traced fake_backend) default_args (chunk_of [demo_waypoint (6/10) 1])
      (demo_robot (\<lambda>n. n = 0))))"
  using pending_stop_consumed [OF _ prod.collapse [symmetric], of "demo_robot (\<lambda>n. n = 0)"] by simp

text \<open>A chunk that names another safety profile than the active one is refused with
  \<open>ValueError\<close> before the backend is even read.\<close>

theorem wrong_profile_refused:
  assumes "ck_safety_profile c \<noteq> ''''" "ck_safety_profile c \<noteq> p_name (r_profile r)"
    and "\<not> (r_cancel r \<or> r_requests r (r_polls r))"
    and "execute_cartesian_chunk (traced B) args c r = (out, r')"
  shows "out = Inl ValueError \<and> cmds r' = cmds r"
  using assms(4)
proof (cases rule: execute_cartesian_cases)
  case (refused e)
  then show ?thesis by simp
qed (use assms in auto)

lemma wrong_profile_refused_witness:
  "fst (execute_cartesian_chunk (traced fake_backend) default_args
      ((chunk_of [demo_waypoint (6/10) 1])\<lparr>ck_safety_profile := ''freespace''\<rparr>) (demo_robot (\<lambda>_. False)))
   = Inl ValueError"
  using wrong_profile_refused [OF _ _ _ prod.collapse [symmetric], of _ "demo_robot (\<lambda>_. False)"]
  by (simp add: default_profile_def)

end
