(* ===== verification/Chunk_Reports.thy ===== *)
theory Chunk_Reports
  imports Robot_Proofs
begin

text \<open>
  A chunk call over a backend that keeps the contract \<open>robot_backend\<close> ends in a report: no input that
  passed the constructors' checks makes the executor, the interpolator or the filter raise. Proved once inside
  the contract, for every provider of it.
\<close>

section \<open>Ticks\<close>

definition held :: "('b \<Rightarrow> bool) \<Rightarrow> ('b \<Rightarrow> control_mode) \<Rightarrow> control_mode \<Rightarrow> safety_profile \<Rightarrow> 'b robot \<Rightarrow> bool" where
  "held usable mode m p r \<longleftrightarrow> usable (r_b r) \<and> mode (r_b r) = m \<and> r_profile r = p"

text \<open>The options a chunk call starts a Cartesian mode with.\<close>

definition entry_opts :: "chunk \<Rightarrow> 'b robot \<Rightarrow> mode_opts" where
  "entry_opts c r = \<lparr>mo_impedance = Some (ck_impedance c), mo_joint_impedance = None, mo_force_control = None,
     mo_nullspace_q = Some (cf_q_home (r_cfg r)), mo_max_contact_wrench = Some (p_max_contact_wrench (r_profile r))\<rparr>"

definition tick_end ::
  "('b \<Rightarrow> bool) \<Rightarrow> ('b \<Rightarrow> control_mode) \<Rightarrow> control_mode \<Rightarrow> safety_profile \<Rightarrow> locals \<times> bool \<Rightarrow> 'b robot \<Rightarrow> bool" where
  "tick_end usable mode m p y r \<longleftrightarrow> usable (r_b r) \<and> r_profile r = p \<and> (snd y \<longrightarrow> held usable mode m p r)"

text \<open>A profile with the six caps its loader checks for, and a chunk whose force target has six components.\<close>

definition caps_shaped :: "safety_profile \<Rightarrow> bool" where
  "caps_shaped p \<longleftrightarrow> length (p_max_contact_wrench p) = 6 \<and> length (p_max_wrench_allowance p) = 6
     \<and> 0 < p_max_linear_speed p \<and> 0 < p_max_angular_speed p"

definition force_shaped :: "chunk \<Rightarrow> bool" where
  "force_shaped c \<longleftrightarrow> (\<forall>fc. ck_force_control c = Some fc \<longrightarrow> length (fc_target_wrench fc) = 6)"

lemma chunk_wrench_shaped: "force_shaped c \<Longrightarrow> chunk_wrench c = Some u \<Longrightarrow> length u = 6"
  by (auto simp: chunk_wrench_def force_shaped_def split: option.splits if_splits)

lemma plain_chunk: "ck_force_control (chunk_of ws) = None" "ck_safety_profile (chunk_of ws) = ''''"
  by (simp_all add: chunk_of_def)

lemma np_any_wide: "length xs = length ys \<Longrightarrow> \<exists>b. np_any_abs_gt xs ys = Inr b"
  by (simp add: np_any_abs_gt_def)

lemma np_max_abs_some: "xs \<noteq> [] \<Longrightarrow> \<exists>m. np_max_abs xs = Inr m"
  by (cases xs) (simp_all add: np_max_abs_def)

lemma filter_answers:
  assumes "length (st_wrench st) = length cap"
  shows "\<exists>sr f'. filter_cartesian t st (Some cap) f = (Inr sr, f')"
  using np_any_wide [OF assms]
  by (auto simp: filter_cartesian_def split: option.split prod.split)

lemma bookkeeping_answers: "length (st_wrench st) = 6 \<Longrightarrow> \<exists>x'. bookkeeping dt cmd st x = Inr x'"
  using np_max_abs_some [of "st_wrench st"] by (cases "st_wrench st") (auto simp: bookkeeping_def)

lemma effective_wrench_answers:
  assumes "caps_shaped p" "chunk_wf c"
  shows "\<exists>w relaxed res'. effective_wrench p c res = Inr (w, relaxed, res') \<and> length w = 6"
  using assms by (auto simp: effective_wrench_def caps_shaped_def chunk_wf_def split: option.split)

lemma for_execution_force:
  "for_execution c sp = Inr a \<Longrightarrow> ck_force_control a = ck_force_control c"
  by (auto simp: for_execution_def resolve_to_absolute_def chunk_post_init_def bindR_eq_Inr Let_def split: if_splits)

context robot_backend
begin

lemma held_onB [intro]:
  "held usable mode m p r \<Longrightarrow> usable b' \<Longrightarrow> mode b' = mode (r_b r) \<Longrightarrow> held usable mode m p (r\<lparr>r_b := b'\<rparr>)"
  by (simp add: held_def)

lemma get_state_wp:
  "held usable mode m p r \<Longrightarrow> wpS (get_state B) (\<lambda>s r'. held usable mode m p r' \<and> st_control_mode s = m \<and> length (st_wrench s) = 6
     \<and> norm (rot (st_tcp_pose s)) = 1) (\<lambda>_ _. False) r"
  unfolding get_state_def wpS_bind wpS_onB
  by (rule read_wp) (auto simp: held_def wpS_then wpS_modS wpS_base)

lemma gripper_held: "held usable mode m p r \<Longrightarrow> (\<And>r'. held usable mode m p r' \<Longrightarrow> Q () r') \<Longrightarrow> wpS (onB (bk_move_gripper B g)) Q E r"
  unfolding wpS_onB by (rule gripper_wp) (auto simp: held_def)

lemma try_fire_held:
  "held usable mode m p r \<Longrightarrow> wpS (try_fire_close B env g st x) (\<lambda>_. held usable mode m p) (\<lambda>_ _. False) r"
  by (auto simp: try_fire_close_def Let_def wpS_base wpS_then intro: gripper_held)

lemma resolve_held:
  "held usable mode m p r \<Longrightarrow> wpS (resolve_pending B env st x) (\<lambda>_. held usable mode m p) (\<lambda>_ _. False) r"
  by (auto simp: resolve_pending_def wpS_base try_fire_held split: option.split)

lemma grip_held:
  assumes "held usable mode m p r"
  shows "wpS (handle_grip B env n st g x) (\<lambda>_. held usable mode m p) (\<lambda>_ _. False) r"
proof -
  have pend: "wpS (case x_pending_close x of Some (g, _) \<Rightarrow> try_fire_close B env g st (x\<lparr>x_pending_close := None\<rparr>)
      | None \<Rightarrow> retS x) (\<lambda>_. held usable mode m p) (\<lambda>_ _. False) r"
    using assms by (auto simp: wpS_base try_fire_held split: option.split)
  show ?thesis
    using assms
    by (auto simp: handle_grip_def Let_def wpS_bind wpS_base wpS_then intro!: gripper_held wpS_mono [OF pend])
qed

lemma stop_run_held:
  "held usable mode m p r \<Longrightarrow> wpS (stop_run B reason x) (tick_end usable mode m p) (\<lambda>_ _. False) r"
  unfolding stop_run_def wpS_then wpS_onB by (rule stop_wp) (auto simp: held_def tick_end_def wpS_base)

lemma stream_held:
  "held usable mode m p r \<Longrightarrow> is_cartesian m \<Longrightarrow> (\<And>u. w = Some u \<Longrightarrow> length u = 6)
     \<Longrightarrow> wpS (onB (bk_stream_cartesian B cmd w)) (\<lambda>_. held usable mode m p) (\<lambda>_ _. False) r"
  unfolding wpS_onB by (rule stream_wp) (auto simp: held_def)

lemma stream_tick_held:
  assumes "held usable mode m p r" "is_cartesian m" "force_shaped (e_chunk env)" "length (st_wrench st) = 6"
  shows "wpS (stream_tick B env sp st cmd x) (\<lambda>(x', go). held usable mode m p) (\<lambda>_ _. False) r"
  unfolding stream_tick_def
proof (rule wpS_thenI [OF stream_held [OF assms(1,2) chunk_wrench_shaped [OF assms(3)]]], assumption,
    rule wpS_bindI [OF resolve_held], assumption)
  fix x1 r2
  assume r2: "held usable mode m p r2"
  have "wpS (case sp_grip sp of Some grip \<Rightarrow> handle_grip B env (sp_segment_ticks sp) st grip x1 | None \<Rightarrow> retS x1)
      (\<lambda>_. held usable mode m p) (\<lambda>_ _. False) r2"
    using r2 by (auto simp: wpS_base grip_held split: option.split)
  then show "wpS (bindS (case sp_grip sp of Some grip \<Rightarrow> handle_grip B env (sp_segment_ticks sp) st grip x1 | None \<Rightarrow> retS x1)
     (\<lambda>x. bindS (getS r_dt) (\<lambda>dt. bindS (liftS (bookkeeping dt cmd st (record_row env cmd st x)))
         (\<lambda>x. retS (x, True))))) (\<lambda>(x', go). held usable mode m p) (\<lambda>_ _. False) r2"
  proof (rule wpS_bindI)
    fix x2 r3
    assume "held usable mode m p r3"
    then show "wpS (bindS (getS r_dt) (\<lambda>dt. bindS (liftS (bookkeeping dt cmd st (record_row env cmd st x2)))
         (\<lambda>x. retS (x, True)))) (\<lambda>(x', go). held usable mode m p) (\<lambda>_ _. False) r3"
      using bookkeeping_answers [OF assms(4), of "r_dt r3" cmd "record_row env cmd st x2"] by (auto simp: wpS_bind wpS_base)
  qed
qed

lemma filter_tick_held:
  assumes "held usable mode m p r" "is_cartesian m" "force_shaped (e_chunk env)" "length (st_wrench st) = 6"
    "length (e_wrench_cap env) = 6"
  shows "wpS (filter_tick B env sp st x) (tick_end usable mode m p) (\<lambda>_ _. False) r"
proof -
  obtain sr f' where f: "filter_cartesian (sp_pose sp) st (Some (e_wrench_cap env)) (r_filter r) = (Inr sr, f')"
    using filter_answers [of st "e_wrench_cap env"] assms(4,5) by metis
  have r': "held usable mode m p (r\<lparr>r_filter := f'\<rparr>)" using assms(1) by (simp add: held_def)
  have stream: "wpS (stream_tick B env sp st cmd x) (tick_end usable mode m p) (\<lambda>_ _. False) (r\<lparr>r_filter := f'\<rparr>)" for cmd x
    by (rule wpS_mono [OF stream_tick_held [OF r' assms(2,3,4)]]) (auto simp: tick_end_def held_def)
  show ?thesis
    using f stop_run_held [OF r'] stream
    by (auto simp: filter_tick_def wpS_def [of "onF m" for m] wpS_bind onF_def split: option.split)
qed

lemma fault_held: "held usable mode m p r \<Longrightarrow> wpS (onB (bk_in_fault B)) (\<lambda>_. held usable mode m p) (\<lambda>_ _. False) r"
  unfolding wpS_onB by (intro fault_wp) (auto simp: held_def)

lemma poll_held: "held usable mode m p r \<Longrightarrow> wpS poll_cancel (\<lambda>_. held usable mode m p) (\<lambda>_ _. False) r"
  by (simp add: poll_cancel_def wpS_then wpS_modS wpS_base held_def)

lemma clear_held: "held usable mode m p r \<Longrightarrow> wpS clear_stop (\<lambda>_. held usable mode m p) (\<lambda>_ _. False) r"
  by (simp add: clear_stop_def wpS_modS held_def)

lemma chunk_tick_held:
  assumes "held usable mode m p r" "is_cartesian m" "force_shaped (e_chunk env)" "length (e_wrench_cap env) = 6"
  shows "wpS (chunk_tick B env sp x) (tick_end usable mode m p) (\<lambda>_ _. False) r"
  unfolding chunk_tick_def Let_def
proof (rule wpS_bindI [OF poll_held [OF assms(1)]], unfold wpS_if, split if_split, intro conjI impI)
  fix cancelled r1
  assume r1: "held usable mode m p r1"
  show "wpS (thenS clear_stop (stop_run B ''user'' (x\<lparr>x_tick := x_tick x + 1, x_seg := sp_segment sp\<rparr>)))
      (tick_end usable mode m p) (\<lambda>_ _. False) r1"
    by (rule wpS_thenI [OF clear_held [OF r1] stop_run_held])
  show "wpS (bindS (get_state B) (\<lambda>st. bindS (onB (bk_in_fault B)) (\<lambda>fault.
      if fault then stop_run B ''backend_fault'' (x\<lparr>x_tick := x_tick x + 1, x_seg := sp_segment sp\<rparr>)
      else bindS (liftS (np_any_abs_gt (st_wrench st) (e_wrench_cap env))) (\<lambda>over.
        if over then stop_run B ''contact_wrench'' (x\<lparr>x_tick := x_tick x + 1, x_seg := sp_segment sp\<rparr>)
        else filter_tick B env sp st (x\<lparr>x_tick := x_tick x + 1, x_seg := sp_segment sp\<rparr>)))))
      (tick_end usable mode m p) (\<lambda>_ _. False) r1"
  proof (rule wpS_bindI [OF get_state_wp [OF r1]], elim conjE, rule wpS_bindI [OF fault_held], assumption)
    fix st :: robot_state and fault r2
    assume st: "length (st_wrench st) = 6" and r2: "held usable mode m p r2"
    obtain over where "np_any_abs_gt (st_wrench st) (e_wrench_cap env) = Inr over"
      using np_any_wide st assms(4) by metis
    then show "wpS (if fault then stop_run B ''backend_fault'' (x\<lparr>x_tick := x_tick x + 1, x_seg := sp_segment sp\<rparr>)
      else bindS (liftS (np_any_abs_gt (st_wrench st) (e_wrench_cap env))) (\<lambda>over.
        if over then stop_run B ''contact_wrench'' (x\<lparr>x_tick := x_tick x + 1, x_seg := sp_segment sp\<rparr>)
        else filter_tick B env sp st (x\<lparr>x_tick := x_tick x + 1, x_seg := sp_segment sp\<rparr>)))
      (tick_end usable mode m p) (\<lambda>_ _. False) r2"
      using stop_run_held [OF r2] filter_tick_held [OF r2 assms(2,3) st assms(4)] by (simp add: wpS_bind wpS_base)
  qed
qed

lemma chunk_loop_held:
  assumes "is_cartesian m" "force_shaped (e_chunk env)" "length (e_wrench_cap env) = 6" "held usable mode m p r"
  shows "wpS (chunk_loop B env (map Inr sps) x) (\<lambda>_ r'. usable (r_b r') \<and> r_profile r' = p) (\<lambda>_ _. False) r"
  using assms(4)
proof (induction sps arbitrary: x r)
  case Nil
  then show ?case by (simp add: wpS_base held_def)
next
  case (Cons sp sps)
  show ?case unfolding list.map chunk_loop.simps
    by (rule wpS_bindI [OF chunk_tick_held [OF Cons.prems assms(1,2,3)]])
      (simp add: tick_end_def wpS_base Cons.IH split: prod.split)
qed

lemma finish_held:
  assumes "held usable mode m p r"
  shows "wpS (finish_pending B env x) (\<lambda>_. held usable mode m p) (\<lambda>_ _. False) r"
proof -
  have "wpS (bindS (get_state B) (\<lambda>st. try_fire_close B env g st y)) (\<lambda>_. held usable mode m p) (\<lambda>_ _. False) r" for g y
    by (rule wpS_bindI [OF get_state_wp [OF assms]]) (auto intro: try_fire_held)
  then show ?thesis using assms by (auto simp: finish_pending_def Let_def wpS_base split: option.split)
qed

lemma limit_held:
  "held usable mode m p r \<Longrightarrow> length w = 6 \<Longrightarrow>
     wpS (onB (bk_set_contact_wrench_limit B w)) (\<lambda>_. held usable mode m p) (\<lambda>_ _. False) r"
  unfolding wpS_onB by (rule limit_wp) (auto simp: held_def)

lemma restore_held:
  assumes "held usable mode m p r" "caps_shaped p"
  shows "wpS (restore_wrench B relaxed (Inr x)) (\<lambda>y r'. y = Inr x \<and> held usable mode m p r') (\<lambda>_ _. False) r"
proof -
  have "wpS (thenS (onB (bk_set_contact_wrench_limit B (p_max_contact_wrench p))) (retS (Inr x)))
      (\<lambda>y r'. y = Inr x \<and> held usable mode m p r') (\<lambda>_ _. False) r"
    using assms(2) by (intro wpS_thenI [OF limit_held [OF assms(1)]]) (simp_all add: caps_shaped_def wpS_base)
  then show ?thesis
    using assms(1) by (auto simp: restore_wrench_def wpS_catch wpS_bind wpS_base held_def elim: wpS_mono)
qed

text \<open>The loop with its clean-up.\<close>

lemma run_loop_held:
  assumes "is_cartesian m" "force_shaped (e_chunk env)" "length (e_wrench_cap env) = 6" "held usable mode m p r" "caps_shaped p"
  shows "wpS (finallyS (bindS (chunk_loop B env (map Inr sps) x) (finish_pending B env)) (restore_wrench B relaxed))
     (\<lambda>_ r'. held usable mode (mode (r_b r')) p r') (\<lambda>_ _. False) r"
proof -
  have "wpS (bindS (chunk_loop B env (map Inr sps) x) (finish_pending B env)) (\<lambda>_ r'. held usable mode (mode (r_b r')) p r')
      (\<lambda>_ _. False) r"
    by (rule wpS_bindI [OF chunk_loop_held [OF assms(1-4)]], rule wpS_mono [OF finish_held])
      (auto simp: held_def)
  then show ?thesis
    unfolding wpS_finally
    by (rule wpS_mono) (auto intro!: wpS_mono [OF restore_held [OF _ assms(5)]] simp: held_def)
qed

lemma run_chunk_held:
  assumes "chunk_wf c" "force_shaped c" "caps_shaped p" "held usable mode m p r" "is_cartesian m"
    "0 < r_hz r" "norm (rot (st_tcp_pose start)) = 1"
  shows "wpS (run_chunk B args c start res) (\<lambda>_ r'. usable (r_b r') \<and> r_profile r' = p)
     (\<lambda>e r'. e = ChunkStoppedError \<and> xa_raise_on_stop args \<and> usable (r_b r') \<and> r_profile r' = p) r"
proof -
  obtain a where a: "for_execution c (st_tcp_pose start) = Inr a" "chunk_wf a"
    using for_execution_ok [OF assms(1,7)] by blast
  have fa: "force_shaped a" using for_execution_force [OF a(1)] assms(2) by (simp add: force_shaped_def)
  define v w where "v = tighten (p_max_linear_speed p) (ck_max_tcp_linear_speed a)"
    and "w = tighten (p_max_angular_speed p) (ck_max_tcp_angular_speed a)"
  have pos: "0 < v" "0 < w" using assms(3) by (simp_all add: v_def w_def tighten_def caps_shaped_def)
  obtain cap relaxed res' where cap: "effective_wrench p a (log_put ''angular_speed_cap'' (JNum w)
      (log_put ''linear_speed_cap'' (JNum v) res)) = Inr (cap, relaxed, res')" "length cap = 6"
    using effective_wrench_answers [OF assms(3) a(2)] by blast
  obtain ci where ci: "mk_cart_interp a (st_tcp_pose start) (r_hz r) (Some v) (Some w) = Inr ci"
    using assms(6) by (auto simp: mk_cart_interp_def)
  obtain sps where sps: "interp_iter ci = map Inr sps"
    using interp_iter_stream [OF a(2) assms(6) pos ci, of "\<lambda>_. True"] by auto
  define env where "env = \<lparr>e_chunk = a, e_wrench_cap = cap, e_record = xa_record args, e_clock = xa_clock args\<rparr>"
  have relax: "wpS (if relaxed then onB (bk_set_contact_wrench_limit B cap) else retS ()) (\<lambda>_. held usable mode m p) (\<lambda>_ _. False) r"
    using limit_held [OF assms(4) cap(2)] assms(4) by (simp add: wpS_base)
  have loop: "wpS (finallyS (bindS (chunk_loop B env (interp_iter ci) (fresh_locals res' start)) (finish_pending B env))
      (restore_wrench B relaxed)) (\<lambda>_ r'. held usable mode (mode (r_b r')) p r')
      (\<lambda>e r'. e = ChunkStoppedError \<and> xa_raise_on_stop args \<and> usable (r_b r') \<and> r_profile r' = p) r'"
    if "held usable mode m p r'" for r'
    unfolding sps by (rule wpS_mono [OF run_loop_held [OF assms(5) _ _ that assms(3)]]) (simp_all add: env_def fa cap)
  have report: "wpS (bindS (get_state B) (\<lambda>end'. raise_if_stopped (xa_raise_on_stop args) (final_report env start end' x)))
      (\<lambda>_ r'. usable (r_b r') \<and> r_profile r' = p)
      (\<lambda>e r'. e = ChunkStoppedError \<and> xa_raise_on_stop args \<and> usable (r_b r') \<and> r_profile r' = p) r'"
    if "held usable mode m' p r'" for r' x m'
    by (rule wpS_bindI [OF wpS_mono [OF get_state_wp [OF that]]])
      (auto simp: raise_if_stopped_def wpS_base held_def)
  have "wpS (thenS (if relaxed then onB (bk_set_contact_wrench_limit B cap) else retS ())
      (bindS (finallyS (bindS (chunk_loop B env (interp_iter ci) (fresh_locals res' start)) (finish_pending B env))
        (restore_wrench B relaxed))
       (\<lambda>x. bindS (get_state B) (\<lambda>end'. raise_if_stopped (xa_raise_on_stop args) (final_report env start end' x)))))
      (\<lambda>_ r'. usable (r_b r') \<and> r_profile r' = p)
      (\<lambda>e r'. e = ChunkStoppedError \<and> xa_raise_on_stop args \<and> usable (r_b r') \<and> r_profile r' = p) r"
    by (rule wpS_thenI [OF wpS_mono [OF relax]], assumption, simp, rule wpS_bindI [OF loop], assumption, rule report)
  then show ?thesis
    using a(1) ci cap(1) assms(4)
    by (simp add: run_chunk_def wpS_bind wpS_base Let_def held_def env_def v_def w_def)
qed

lemma get_state_frame:
  "usable (r_b r) \<Longrightarrow> (\<And>s b'. usable b' \<Longrightarrow> mode b' = mode (r_b r) \<Longrightarrow> st_control_mode s = mode (r_b r)
     \<Longrightarrow> norm (rot (st_tcp_pose s)) = 1 \<Longrightarrow> Q s (r\<lparr>r_b := b', r_last_state := Some s\<rparr>)) \<Longrightarrow> wpS (get_state B) Q E r"
  unfolding get_state_def wpS_bind wpS_onB by (rule read_wp) (auto simp: wpS_then wpS_modS wpS_base)

lemma start_cartesian_wp:
  assumes "usable (r_b r)" "accepts NRT_CARTESIAN_MOTION_FORCE (entry_opts c r)"
    and "\<And>b'. usable b' \<Longrightarrow> mode b' = NRT_CARTESIAN_MOTION_FORCE \<Longrightarrow> Q () (r\<lparr>r_b := b'\<rparr>)"
  shows "wpS (start_cartesian_impedance B (Some (ck_impedance c)) False None None) Q E r"
proof -
  have "wpS (bk_set_mode B NRT_CARTESIAN_MOTION_FORCE (entry_opts c r)) (\<lambda>x b. Q x (r\<lparr>r_b := b\<rparr>)) (\<lambda>e b. E e (r\<lparr>r_b := b\<rparr>)) (r_b r)"
    by (rule set_mode_wp [OF assms(1,2)]) (rule assms(3))
  then show ?thesis by (simp add: start_cartesian_impedance_def wpS_bind wpS_base wpS_onB entry_opts_def)
qed

lemma enter_held:
  assumes "usable (r_b r)" "is_cartesian (mode (r_b r)) \<or> accepts NRT_CARTESIAN_MOTION_FORCE (entry_opts c r)"
  shows "wpS (enter_cartesian B c res) (\<lambda>(start, res') r'. held usable mode (mode (r_b r')) (r_profile r) r'
      \<and> is_cartesian (mode (r_b r')) \<and> r_hz r' = r_hz r \<and> norm (rot (st_tcp_pose start)) = 1) E r"
  unfolding enter_cartesian_def wpS_bind
proof (rule get_state_frame [OF assms(1)], goal_cases)
  case (1 s0 b1)
  let ?r1 = "r\<lparr>r_b := b1, r_last_state := Some s0\<rparr>"
  show ?case
  proof (cases "is_cartesian (mode (r_b r))")
    case True
    then show ?thesis using 1 by (simp add: wpS_base wpS_then wpS_modS held_def)
  next
    case False
    have acc: "accepts NRT_CARTESIAN_MOTION_FORCE (entry_opts c ?r1)" using assms(2) False by (simp add: entry_opts_def)
    have u: "usable (r_b ?r1)" using 1(1) by simp
    show ?thesis
      using False 1(3)
      by (auto simp: wpS_then wpS_bind wpS_base wpS_modS held_def simp del: is_cartesian_simps
          intro!: start_cartesian_wp [OF u acc] get_state_frame) (simp_all add: is_cartesian_simps)
  qed
qed

lemma execute_held:
  assumes "usable (r_b r)" "is_cartesian (mode (r_b r)) \<or> accepts NRT_CARTESIAN_MOTION_FORCE (entry_opts c r)"
    and "chunk_wf c" "force_shaped c" "caps_shaped (r_profile r)" "0 < r_hz r"
    and "ck_safety_profile c = '''' \<or> ck_safety_profile c = p_name (r_profile r)"
  shows "wpS (execute_cartesian_chunk B args c) (\<lambda>_ r'. usable (r_b r') \<and> r_profile r' = r_profile r)
     (\<lambda>e r'. e = ChunkStoppedError \<and> xa_raise_on_stop args \<and> usable (r_b r') \<and> r_profile r' = r_profile r) r"
proof -
  have abort: "wpS (abort_at_entry B (xa_raise_on_stop args)) (\<lambda>_ r'. usable (r_b r') \<and> r_profile r' = r_profile r)
     (\<lambda>e r'. e = ChunkStoppedError \<and> xa_raise_on_stop args \<and> usable (r_b r') \<and> r_profile r' = r_profile r) r1"
    if "usable (r_b r1)" "r_profile r1 = r_profile r" for r1
    using that by (auto simp: abort_at_entry_def clear_stop_def wpS_then wpS_modS wpS_bind wpS_base raise_if_stopped_def failed_def
        log_put_def intro!: get_state_frame)
  have run: "wpS (bindS (enter_cartesian B c res) (\<lambda>(start, res). run_chunk B args c start res))
      (\<lambda>_ r'. usable (r_b r') \<and> r_profile r' = r_profile r)
      (\<lambda>e r'. e = ChunkStoppedError \<and> xa_raise_on_stop args \<and> usable (r_b r') \<and> r_profile r' = r_profile r) r1"
    if "r_b r1 = r_b r" "r_profile r1 = r_profile r" "r_hz r1 = r_hz r" "r_cfg r1 = r_cfg r" for r1 res
  proof (rule wpS_bindI [OF enter_held])
    show "usable (r_b r1)" using assms(1) that by simp
    show "is_cartesian (mode (r_b r1)) \<or> accepts NRT_CARTESIAN_MOTION_FORCE (entry_opts c r1)"
      using assms(2) that by (simp add: entry_opts_def)
  qed (use run_chunk_held [OF assms(3,4)] assms(5,6) that in \<open>auto split: prod.splits\<close>)
  show ?thesis
    using assms(1,7)
    by (auto simp: execute_cartesian_chunk_def auto_lease_def poll_cancel_def verify_chunk_profile_def wpS_then wpS_modS wpS_bind wpS_base
        intro!: abort run [unfolded wpS_bind])
qed

end

end
