(* ===== verification/Flexiv_Contract.thy ===== *)
theory Flexiv_Contract
  imports Flexiv_Proofs Chunk_Reports
begin

text \<open>
  The real arm's backend provides the contract \<open>robot_backend\<close> while the arm answers, so a chunk call on it ends in
  a report.
\<close>

section \<open>An arm that answers\<close>

text \<open>
  The vendor's documented behaviour on a healthy arm: the calls answer, a mode the arm has is entered and stays until it
  is switched or stopped, motion commands are accepted in the mode they belong to and refused outside the
  motion modes, a wrench has six components. \<open>acc\<close> says which mode with which options the arm takes.
\<close>

definition answers :: "('h \<Rightarrow> bool) \<Rightarrow> ('h \<Rightarrow> control_mode) \<Rightarrow> ('h, 'a) sem \<Rightarrow> bool" where
  "answers alive hm m \<longleftrightarrow> (\<forall>h. alive h \<longrightarrow> (\<exists>x h'. m h = (Inr x, h') \<and> alive h' \<and> hm h' = hm h))"

definition takes_opts ::
  "'h rdk \<Rightarrow> ('h \<Rightarrow> bool) \<Rightarrow> ('h \<Rightarrow> control_mode) \<Rightarrow> control_mode \<Rightarrow> mode_opts \<Rightarrow> bool" where
  "takes_opts R alive hm m opts \<longleftrightarrow> rk_has_mode R m
     \<and> (is_cartesian m \<longrightarrow>
          (\<forall>i. mo_impedance opts = Some i \<longrightarrow>
             answers alive hm (rk_set_cartesian_impedance R (ip_stiffness i) (ip_damping_ratio i)))
        \<and> (\<forall>w. mo_max_contact_wrench opts = Some w \<longrightarrow> answers alive hm (rk_set_max_contact_wrench R w))
        \<and> (\<forall>fc. mo_force_control opts = Some fc \<longrightarrow> answers alive hm (rk_set_force_axis R (fc_enabled_axes fc))
             \<and> answers alive hm (rk_set_force_frame R (rdk_coord_tcp (fc_frame fc))))
        \<and> (\<forall>q. mo_nullspace_q opts = Some q \<longrightarrow> answers alive hm (rk_set_null_space_posture R q)))
     \<and> (\<not> is_cartesian m \<longrightarrow>
          (\<forall>i. mo_joint_impedance opts = Some i \<longrightarrow>
             answers alive hm (rk_set_joint_impedance R (jip_stiffness i) (jip_damping_ratio i))))"

definition arm_answers ::
  "'h rdk \<Rightarrow> ('h \<Rightarrow> bool) \<Rightarrow> ('h \<Rightarrow> control_mode) \<Rightarrow> (control_mode \<Rightarrow> mode_opts \<Rightarrow> bool) \<Rightarrow> bool" where
  "arm_answers R alive hm acc \<longleftrightarrow>
     (\<forall>m opts. acc m opts \<longrightarrow> takes_opts R alive hm m opts)
   \<and> (\<forall>m h. alive h \<longrightarrow> rk_has_mode R m \<longrightarrow> (\<exists>h'. rk_switch_mode R m h = (Inr (), h') \<and> alive h' \<and> hm h' = m))
   \<and> (\<forall>h. alive h \<longrightarrow> (\<exists>h'. rk_stop R h = (Inr (), h') \<and> alive h' \<and> hm h' = IDLE))
   \<and> (\<forall>h. alive h \<longrightarrow> (\<exists>h'. rk_mode R h = (Inr (hm h), h') \<and> alive h' \<and> hm h' = hm h))
   \<and> (\<forall>h. alive h \<longrightarrow> (\<exists>s h'. rk_states R h = (Inr s, h') \<and> alive h' \<and> hm h' = hm h
        \<and> length (rs_wrench s) = 6 \<and> norm (rot (rs_tcp_pose s)) = 1))
   \<and> answers alive hm (rk_fault R) \<and> answers alive hm (rk_gripper_states R) \<and> answers alive hm (rk_gripper_moving R)
   \<and> (\<forall>f. answers alive hm (rk_grasp R f)) \<and> (\<forall>w v f. answers alive hm (rk_move R w v f))
   \<and> (\<forall>w. length w = 6 \<longrightarrow> answers alive hm (rk_set_max_contact_wrench R w))
   \<and> (\<forall>p w h. alive h \<longrightarrow> is_cartesian (hm h) \<longrightarrow> length w = 6 \<longrightarrow>
        (\<exists>h'. rk_cartesian R (is_realtime (hm h)) p w h = (Inr (), h') \<and> alive h' \<and> hm h' = hm h))
   \<and> (\<forall>rt p w h. alive h \<longrightarrow> \<not> is_cartesian (hm h) \<longrightarrow>
        (\<exists>e h'. rk_cartesian R rt p w h = (Inl e, h') \<and> alive h' \<and> hm h' = hm h))"

text \<open>
  The backend after a successful connect: the arm is alive in the cached mode, and the gripper is there if one was
  configured.
\<close>

definition arm_usable :: "('h \<Rightarrow> bool) \<Rightarrow> ('h \<Rightarrow> control_mode) \<Rightarrow> 'h flexiv \<Rightarrow> bool" where
  "arm_usable alive hm b \<longleftrightarrow> fb_robot b \<and> alive (fb_hw b) \<and> hm (fb_hw b) = fb_mode b
     \<and> (fb_gripper b \<or> fb_gripper_name b = None \<or> fb_gripper_name b = Some '''')
     \<and> (\<forall>fc. fb_force b = Some fc \<longrightarrow> length (fc_target_wrench fc) = 6)"

definition arm_accepts :: "(control_mode \<Rightarrow> mode_opts \<Rightarrow> bool) \<Rightarrow> control_mode \<Rightarrow> mode_opts \<Rightarrow> bool" where
  "arm_accepts acc m opts \<longleftrightarrow> acc m opts \<and> m \<noteq> RT_JOINT_TORQUE
     \<and> (\<forall>fc. mo_force_control opts = Some fc \<longrightarrow> length (fc_target_wrench fc) = 6)"

section \<open>The contract\<close>

lemma wp_call: "wpS m Q (\<lambda>_ _. False) s \<Longrightarrow> \<exists>x s'. m s = (Inr x, s') \<and> Q x s'"
  by (auto simp: wpS_def split: prod.splits sum.splits)

lemma wp_refusal: "wpS m (\<lambda>_ _. False) E s \<Longrightarrow> \<exists>e s'. m s = (Inl e, s') \<and> E e s'"
  by (auto simp: wpS_def split: prod.splits sum.splits)

definition at_mode :: "('h \<Rightarrow> bool) \<Rightarrow> ('h \<Rightarrow> control_mode) \<Rightarrow> control_mode \<Rightarrow> 'h flexiv \<Rightarrow> bool" where
  "at_mode alive hm m b \<longleftrightarrow> arm_usable alive hm b \<and> fb_mode b = m"

lemma onArm_at:
  "answers alive hm a \<Longrightarrow> at_mode alive hm m b \<Longrightarrow> wpS (onArm a) (\<lambda>_. at_mode alive hm m) E b"
  unfolding wpS_onArm answers_def at_mode_def arm_usable_def
  by (elim conjE, drule spec, drule (1) mp) (auto simp: wpS_def)

lemma onH_at:
  "answers alive hm a \<Longrightarrow> at_mode alive hm m b \<Longrightarrow> wpS (onH a) (\<lambda>_. at_mode alive hm m) E b"
  unfolding answers_def at_mode_def arm_usable_def
  by (elim conjE, drule spec, drule (1) mp) (auto simp: wpS_def onH_def)

lemma answering:
  assumes "arm_answers R alive hm acc"
  shows "answers alive hm (rk_fault R)" "answers alive hm (rk_gripper_states R)" "answers alive hm (rk_gripper_moving R)"
    "answers alive hm (rk_grasp R f)" "answers alive hm (rk_move R g v f)"
    "length w = 6 \<Longrightarrow> answers alive hm (rk_set_max_contact_wrench R w)" "acc m opts \<Longrightarrow> takes_opts R alive hm m opts"
  using assms by (simp_all add: arm_answers_def)

lemma fault_at:
  assumes "arm_answers R alive hm acc" "at_mode alive hm m b"
  shows "wpS (flexiv_in_fault R) (\<lambda>_. at_mode alive hm m) E b"
  using assms(2) wpS_mono [OF onArm_at [OF answering(1) [OF assms(1)] assms(2)]]
  by (auto simp: flexiv_in_fault_def wpS_bind wpS_base wpS_catch at_mode_def arm_usable_def)

lemma gripper_read_at:
  assumes "arm_answers R alive hm acc" "at_mode alive hm m b"
  shows "wpS (read_gripper R) (\<lambda>_. at_mode alive hm m) E b"
proof (cases "fb_gripper b")
  case True
  have inner: "wpS (catchS (bindS (onH (rk_gripper_moving R)) (\<lambda>moving. retS (width, force, moving))) (\<lambda>e. retS (width, force, False)))
      (\<lambda>_. at_mode alive hm m) E' b'" if "at_mode alive hm m b'" for width force E' b'
    unfolding wpS_catch wpS_bind
    by (rule wpS_mono [OF onH_at [OF answering(3) [OF assms(1)] that, where E = "\<lambda>_ _. False"]]) (simp_all add: wpS_base)
  show ?thesis
    using True inner
    by (auto simp: read_gripper_def wpS_bind wpS_base wpS_catch intro!: wpS_mono [OF onH_at [OF answering(2) [OF assms(1)] assms(2)]])
qed (use assms(2) in \<open>simp add: read_gripper_def wpS_bind wpS_base\<close>)

lemma sync_at:
  assumes "arm_answers R alive hm acc" "at_mode alive hm m b"
  shows "wpS (sync_mode R) (\<lambda>_. at_mode alive hm m) E b"
proof -
  have b: "fb_robot b" "alive (fb_hw b)" "hm (fb_hw b) = fb_mode b" using assms(2) by (simp_all add: at_mode_def arm_usable_def)
  then obtain h' where h': "rk_mode R (fb_hw b) = (Inr (fb_mode b), h')" "alive h'" "hm h' = fb_mode b"
    using assms(1) unfolding arm_answers_def by metis
  then have "at_mode alive hm m (b\<lparr>fb_hw := h'\<rparr>)" using assms(2) by (simp add: at_mode_def arm_usable_def)
  then show ?thesis
    using assms(2) b h'
    by (auto simp: sync_mode_def wpS_bind wpS_base wpS_catch wpS_onArm wpS_ok rdk_mode_def)
qed

lemma states_at:
  assumes "arm_answers R alive hm acc" "at_mode alive hm m b"
  shows "wpS (onArm (rk_states R)) (\<lambda>s b'. at_mode alive hm m b' \<and> length (rs_wrench s) = 6 \<and> norm (rot (rs_tcp_pose s)) = 1) E b"
proof -
  have b: "fb_robot b" "alive (fb_hw b)" using assms(2) by (simp_all add: at_mode_def arm_usable_def)
  then obtain s h' where "rk_states R (fb_hw b) = (Inr s, h')" "alive h'" "hm h' = hm (fb_hw b)" "length (rs_wrench s) = 6"
      "norm (rot (rs_tcp_pose s)) = 1"
    using assms(1) unfolding arm_answers_def by metis
  then show ?thesis using assms(2) b by (simp add: wpS_onArm wpS_ok at_mode_def arm_usable_def)
qed

lemma read_at:
  assumes "arm_answers R alive hm acc" "at_mode alive hm m b"
  shows "wpS (flexiv_read_state R) (\<lambda>s b'. at_mode alive hm m b' \<and> st_control_mode s = m \<and> length (st_wrench s) = 6
     \<and> norm (rot (st_tcp_pose s)) = 1) E b"
  unfolding flexiv_read_state_def
  apply (rule wpS_thenI [OF sync_at [OF assms]])
  apply (erule wpS_bindI [OF states_at [OF assms(1)]], elim conjE)
  apply (erule wpS_bindI [OF gripper_read_at [OF assms(1)]])
  apply (simp only: split_paired_all prod.case)
  apply (erule wpS_bindI [OF fault_at [OF assms(1)]])
  apply (simp add: wpS_base)
  apply (simp add: at_mode_def)
  done

lemma stop_at:
  assumes "arm_answers R alive hm acc" "at_mode alive hm m b"
  shows "wpS (flexiv_stop R) (\<lambda>_. at_mode alive hm IDLE) E b"
proof -
  have b: "fb_robot b" "alive (fb_hw b)" using assms(2) by (simp_all add: at_mode_def arm_usable_def)
  then obtain h' where "rk_stop R (fb_hw b) = (Inr (), h')" "alive h'" "hm h' = IDLE"
    using assms(1) unfolding arm_answers_def by metis
  then show ?thesis using assms(2) b by (simp add: flexiv_stop_def wpS_then wpS_modS wpS_onArm wpS_ok at_mode_def arm_usable_def)
qed

lemma limit_at:
  assumes "arm_answers R alive hm acc" "at_mode alive hm m b" "length w = 6"
  shows "wpS (flexiv_set_contact_wrench_limit R w) (\<lambda>_. at_mode alive hm m) E b"
  using assms(2,3) onArm_at [OF answering(6) [OF assms(1,3)] assms(2)]
  by (simp add: flexiv_set_contact_wrench_limit_def wpS_bind wpS_base cart_dof_def)

lemma move_gripper_at:
  assumes "arm_answers R alive hm acc" "at_mode alive hm m b"
  shows "wpS (flexiv_move_gripper R g) (\<lambda>_. at_mode alive hm m) E b"
  using assms(2) onH_at [OF answering(4) [OF assms(1)] assms(2)] onH_at [OF answering(5) [OF assms(1)] assms(2)]
  by (auto simp: flexiv_move_gripper_def wpS_bind wpS_base at_mode_def arm_usable_def)

lemma stream_at:
  assumes "arm_answers R alive hm acc" "at_mode alive hm m b" "\<And>u. w = Some u \<Longrightarrow> length u = 6"
  shows "is_cartesian m \<Longrightarrow> wpS (flexiv_stream_cartesian R p w) (\<lambda>_. at_mode alive hm m) E b"
    and "\<not> is_cartesian m \<Longrightarrow> wpS (flexiv_stream_cartesian R p w) Q (\<lambda>_. at_mode alive hm m) b"
proof -
  have b: "fb_robot b" "alive (fb_hw b)" "hm (fb_hw b) = fb_mode b" "fb_mode b = m"
      "\<And>fc. fb_force b = Some fc \<Longrightarrow> length (fc_target_wrench fc) = 6"
    using assms(2) by (simp_all add: at_mode_def arm_usable_def)
  have at: "at_mode alive hm m (b\<lparr>fb_hw := h'\<rparr>)" if "alive h'" "hm h' = hm (fb_hw b)" for h'
    using assms(2) that by (simp add: at_mode_def arm_usable_def)
  have "\<exists>wr. (case w of Some w \<Rightarrow> cart_dof w
      | None \<Rightarrow> (case fb_force b of Some fc \<Rightarrow> cart_dof (fc_target_wrench fc) | None \<Rightarrow> Inr (replicate 6 0))) = Inr wr \<and> length wr = 6"
    using assms(3) b(5) by (cases w; cases "fb_force b") (simp_all add: cart_dof_def)
  then obtain wr where wr: "(case w of Some w \<Rightarrow> cart_dof w
      | None \<Rightarrow> (case fb_force b of Some fc \<Rightarrow> cart_dof (fc_target_wrench fc) | None \<Rightarrow> Inr (replicate 6 0))) = Inr wr" "length wr = 6"
    by blast
  have call: "wpS (flexiv_stream_cartesian R p w) Q' E' b = wpS (onArm (rk_cartesian R (is_realtime m) p wr)) Q' E' b" for Q' E'
    by (simp add: flexiv_stream_cartesian_def wpS_bind wpS_base wr(1) b(4))
  show "wpS (flexiv_stream_cartesian R p w) (\<lambda>_. at_mode alive hm m) E b" if m: "is_cartesian m"
  proof -
    obtain h' where "rk_cartesian R (is_realtime m) p wr (fb_hw b) = (Inr (), h')" "alive h'" "hm h' = hm (fb_hw b)"
      using assms(1) b(2-4) m wr(2) unfolding arm_answers_def by metis
    then show ?thesis unfolding call using b(1) at by (simp add: wpS_onArm wpS_ok)
  qed
  show "wpS (flexiv_stream_cartesian R p w) Q (\<lambda>_. at_mode alive hm m) b" if m: "\<not> is_cartesian m"
  proof -
    obtain e h' where "rk_cartesian R (is_realtime m) p wr (fb_hw b) = (Inl e, h')" "alive h'" "hm h' = hm (fb_hw b)"
      using assms(1) b(2-4) m unfolding arm_answers_def by metis
    then show ?thesis unfolding call using b(1) at by (simp add: wpS_onArm wpS_err)
  qed
qed

text \<open>Outside the motion modes a command is refused, by the arm or for the shape of its wrench.\<close>

lemma flexiv_stream_refused:
  assumes "arm_answers R alive hm acc" "at_mode alive hm m b" "\<not> is_cartesian m"
  shows "\<exists>e b'. flexiv_stream_cartesian R p w b = (Inl e, b') \<and> arm_usable alive hm b' \<and> fb_mode b' = m"
proof (cases "\<exists>u. w = Some u \<and> length u \<noteq> 6")
  case True
  then show ?thesis
    using assms(2) by (auto simp: flexiv_stream_cartesian_def bindS_def sem_simps cart_dof_def at_mode_def)
next
  case False
  then have "wpS (flexiv_stream_cartesian R p w) (\<lambda>_ _. False) (\<lambda>_. at_mode alive hm m) b"
    using stream_at(2) [OF assms(1,2) _ assms(3)] by blast
  from wp_refusal [OF this] show ?thesis by (auto simp: at_mode_def)
qed

lemma opt_at:
  assumes "\<And>x. c \<Longrightarrow> y = Some x \<Longrightarrow> answers alive hm (f x)" "at_mode alive hm m b"
  shows "wpS (if c then if_some y (\<lambda>x. onArm (f x)) else retS ()) (\<lambda>_. at_mode alive hm m) E b"
  using assms by (auto simp: if_some_def wpS_base onArm_at split: option.split)

lemma force_at:
  assumes "\<And>fc. force = Some fc \<Longrightarrow> is_cartesian m \<Longrightarrow> answers alive hm (rk_set_force_axis R (fc_enabled_axes fc))
      \<and> answers alive hm (rk_set_force_frame R (rdk_coord_tcp (fc_frame fc))) \<and> length (fc_target_wrench fc) = 6"
    and "at_mode alive hm m b"
  shows "wpS (set_force_control R m force) (\<lambda>_. at_mode alive hm m) E b"
proof (cases "is_cartesian m")
  case False
  then show ?thesis using assms(2) by (simp add: set_force_control_def wpS_modS at_mode_def arm_usable_def del: is_cartesian_simps)
next
  case True
  show ?thesis
  proof (cases force)
    case None
    then show ?thesis using True assms(2) by (simp add: set_force_control_def wpS_base del: is_cartesian_simps)
  next
    case (Some fc)
    note fc = assms(1) [OF Some True]
    have "at_mode alive hm m (b\<lparr>fb_force := Some fc\<rparr>)" using assms(2) fc by (simp add: at_mode_def arm_usable_def)
    then have "wpS (thenS (onArm (rk_set_force_axis R (fc_enabled_axes fc))) (onArm (rk_set_force_frame R (rdk_coord_tcp (fc_frame fc)))))
        (\<lambda>_. at_mode alive hm m) E (b\<lparr>fb_force := Some fc\<rparr>)"
      using fc by (blast intro: wpS_thenI onArm_at)
    then show ?thesis
      using Some True by (simp add: set_force_control_def if_some_def wpS_then wpS_modS del: is_cartesian_simps)
  qed
qed

lemma set_mode_at:
  assumes "arm_answers R alive hm acc" "arm_usable alive hm b" "arm_accepts acc m opts"
  shows "wpS (flexiv_set_mode R m opts) (\<lambda>_. at_mode alive hm m) E b"
proof -
  have t: "takes_opts R alive hm m opts" "m \<noteq> RT_JOINT_TORQUE"
      "\<And>fc. mo_force_control opts = Some fc \<Longrightarrow> length (fc_target_wrench fc) = 6"
    using assms(3) answering(7) [OF assms(1)] by (auto simp: arm_accepts_def)
  have b: "fb_robot b" "alive (fb_hw b)" using assms(2) by (simp_all add: arm_usable_def)
  then obtain h' where h': "rk_has_mode R m" "rk_switch_mode R m (fb_hw b) = (Inr (), h')" "alive h'" "hm h' = m"
    using assms(1) t(1) unfolding arm_answers_def takes_opts_def by metis
  have at: "at_mode alive hm m (b\<lparr>fb_hw := h', fb_mode := m\<rparr>)" using assms(2) h' by (simp add: at_mode_def arm_usable_def)
  have imp: "wpS (if is_cartesian m then if_some (mo_impedance opts)
        (\<lambda>i. onArm (rk_set_cartesian_impedance R (ip_stiffness i) (ip_damping_ratio i))) else retS ()) (\<lambda>_. at_mode alive hm m) E b'"
    if "at_mode alive hm m b'" for b'
    using t(1) that unfolding takes_opts_def by (intro opt_at [where f = "\<lambda>i. rk_set_cartesian_impedance R (ip_stiffness i) (ip_damping_ratio i)"]) (simp_all del: is_cartesian_simps)
  have joint: "wpS (if \<not> is_cartesian m then if_some (mo_joint_impedance opts)
        (\<lambda>i. onArm (rk_set_joint_impedance R (jip_stiffness i) (jip_damping_ratio i))) else retS ()) (\<lambda>_. at_mode alive hm m) E b'"
    if "at_mode alive hm m b'" for b'
    using t(1) that unfolding takes_opts_def by (intro opt_at [where f = "\<lambda>i. rk_set_joint_impedance R (jip_stiffness i) (jip_damping_ratio i)"]) (simp_all del: is_cartesian_simps)
  have guard: "wpS (if is_cartesian m then if_some (mo_max_contact_wrench opts) (\<lambda>w. onArm (rk_set_max_contact_wrench R w))
      else retS ()) (\<lambda>_. at_mode alive hm m) E b'" if "at_mode alive hm m b'" for b'
    using t(1) that unfolding takes_opts_def by (intro opt_at [where f = "rk_set_max_contact_wrench R"]) (simp_all del: is_cartesian_simps)
  have force: "wpS (set_force_control R m (mo_force_control opts)) (\<lambda>_. at_mode alive hm m) E b'" if "at_mode alive hm m b'" for b'
    using t(1,3) that unfolding takes_opts_def by (intro force_at) blast+
  have null: "wpS (if is_cartesian m then if_some (mo_nullspace_q opts) (\<lambda>q. onArm (rk_set_null_space_posture R q))
      else retS ()) (\<lambda>_. at_mode alive hm m) E b'" if "at_mode alive hm m b'" for b'
    using t(1) that unfolding takes_opts_def by (intro opt_at [where f = "rk_set_null_space_posture R"]) (simp_all del: is_cartesian_simps)
  have "wpS (thenS (if is_cartesian m
                   then if_some (mo_impedance opts)
                          (\<lambda>i. onArm (rk_set_cartesian_impedance R (ip_stiffness i) (ip_damping_ratio i)))
                   else retS ())
           (thenS (if \<not> is_cartesian m
                   then if_some (mo_joint_impedance opts)
                          (\<lambda>i. onArm (rk_set_joint_impedance R (jip_stiffness i) (jip_damping_ratio i)))
                   else retS ())
           (thenS (if is_cartesian m then if_some (mo_max_contact_wrench opts) (\<lambda>w. onArm (rk_set_max_contact_wrench R w))
                   else retS ())
           (thenS (set_force_control R m (mo_force_control opts))
             (if is_cartesian m then if_some (mo_nullspace_q opts) (\<lambda>q. onArm (rk_set_null_space_posture R q))
              else retS ()))))) (\<lambda>_. at_mode alive hm m) E (b\<lparr>fb_hw := h', fb_mode := m\<rparr>)"
    by (rule wpS_thenI [OF imp [OF at]], rule wpS_thenI [OF joint], assumption, rule wpS_thenI [OF guard], assumption,
        rule wpS_thenI [OF force], assumption, rule null, assumption)
  then show ?thesis
    using t(2) b(1) h'
    by (simp add: flexiv_set_mode_def switch_mode_def rdk_mode_def wpS_bind wpS_base wpS_onArm wpS_ok wpS_then [of "bindS m k" for m k]
        wpS_then [of "modS f" for f] wpS_modS del: is_cartesian_simps)
qed

lemma flexiv_contract:
  assumes "arm_answers R alive hm acc"
  shows "robot_backend (flexiv_backend R polls) (arm_usable alive hm) fb_mode (arm_accepts acc)"
proof
  fix b m opts p g and w :: "real list option" and v :: "real list"
  assume u: "arm_usable alive hm b"
  then have at: "at_mode alive hm (fb_mode b) b" by (simp add: at_mode_def)
  show "\<exists>s b'. bk_read_state (flexiv_backend R polls) b = (Inr s, b') \<and> arm_usable alive hm b' \<and> fb_mode b' = fb_mode b
          \<and> st_control_mode s = fb_mode b \<and> length (st_wrench s) = 6 \<and> norm (rot (st_tcp_pose s)) = 1"
    using wp_call [OF read_at [OF assms at]] by (simp add: flexiv_backend_def at_mode_def)
  show "\<exists>b'. bk_set_mode (flexiv_backend R polls) m opts b = (Inr (), b') \<and> arm_usable alive hm b' \<and> fb_mode b' = m"
    if "arm_accepts acc m opts"
    using wp_call [OF set_mode_at [OF assms u that]] by (simp add: flexiv_backend_def at_mode_def)
  show "\<exists>b'. bk_stream_cartesian (flexiv_backend R polls) p w b = (Inr (), b') \<and> arm_usable alive hm b' \<and> fb_mode b' = fb_mode b"
    if "is_cartesian (fb_mode b)" "\<And>u. w = Some u \<Longrightarrow> length u = 6"
    using wp_call [OF stream_at(1) [OF assms at that(2,1)]] by (simp add: flexiv_backend_def at_mode_def)
  show "\<exists>b'. bk_move_gripper (flexiv_backend R polls) g b = (Inr (), b') \<and> arm_usable alive hm b' \<and> fb_mode b' = fb_mode b"
    using wp_call [OF move_gripper_at [OF assms at]] by (simp add: flexiv_backend_def at_mode_def)
  show "\<exists>b'. bk_stop (flexiv_backend R polls) b = (Inr (), b') \<and> arm_usable alive hm b' \<and> \<not> is_cartesian (fb_mode b')"
    using wp_call [OF stop_at [OF assms at]] by (auto simp: flexiv_backend_def at_mode_def)
  show "\<exists>b'. bk_set_contact_wrench_limit (flexiv_backend R polls) v b = (Inr (), b') \<and> arm_usable alive hm b' \<and> fb_mode b' = fb_mode b"
    if "length v = 6"
    using wp_call [OF limit_at [OF assms at that]] by (simp add: flexiv_backend_def at_mode_def)
  show "\<exists>x b'. bk_in_fault (flexiv_backend R polls) b = (Inr x, b') \<and> arm_usable alive hm b' \<and> fb_mode b' = fb_mode b"
    using wp_call [OF fault_at [OF assms at]] by (simp add: flexiv_backend_def at_mode_def)
  show "\<exists>e b'. bk_stream_cartesian (flexiv_backend R polls) p w b = (Inl e, b') \<and> arm_usable alive hm b' \<and> fb_mode b' = fb_mode b"
    if "\<not> is_cartesian (fb_mode b)"
    using flexiv_stream_refused [OF assms at that] by (simp add: flexiv_backend_def)
qed

lemma demo_arm_answers: "arm_answers demo_rdk (\<lambda>_. True) (\<lambda>m. m) (\<lambda>_ _. True)"
  by (simp add: arm_answers_def takes_opts_def answers_def demo_rdk_def sem_simps demo_states_def norm_quat_def ex_bool_eq)

lemma demo_arm_usable: "arm_usable (\<lambda>_. True) (\<lambda>m. m) (demo_arm m)"
  by (simp add: arm_usable_def demo_arm_def mk_flexiv_def)

section \<open>Properties\<close>


definition demo_arm_robot :: "control_mode flexiv robot" where
  "demo_arm_robot = \<lparr>r_cfg = default_config, r_hz = 100, r_dt = 1/100, r_b = demo_arm IDLE, r_owner = None,
     r_profile = default_profile, r_filter = mk_filter default_profile (1/100), r_cancel = False,
     r_last_state = None, r_requests = (\<lambda>_. False), r_polls = 0\<rparr>"


section \<open>The force target\<close>

lemma force_frame:
  "keepsS (\<lambda>b. fb_force b = f) (onArm m)" "keepsS (\<lambda>b. fb_force b = f) (modS (\<lambda>b. b\<lparr>fb_mode := k\<rparr>))"
  by (auto simp: keepsS_def onArm_def onH_def bindS_def sem_simps split: prod.split)

lemma force_kept_switch: "keepsS (\<lambda>b. fb_force b = f) (switch_mode R m)"
  unfolding switch_mode_def by (intro keeps_intros force_frame)

lemma force_kept_stop: "keepsS (\<lambda>b. fb_force b = f) (flexiv_stop R)"
  unfolding flexiv_stop_def by (intro keeps_intros force_frame)

lemma force_kept_mode:
  assumes "is_cartesian m" "mo_force_control opts = None"
  shows "keepsS (\<lambda>b. fb_force b = f) (flexiv_set_mode R m opts)"
proof -
  have "set_force_control R m None = retS ()" using assms(1) by (simp add: set_force_control_def)
  then show ?thesis
    unfolding flexiv_set_mode_def assms(2) by (simp only:) (intro keeps_intros keeps_if_some force_frame force_kept_switch)
qed

lemma wp_skip: "(\<And>s'. wpS k Q (\<lambda>_ _. True) s') \<Longrightarrow> wpS (thenS m k) Q (\<lambda>_ _. True) s"
  unfolding wpS_then by (rule wpS_any) simp_all

lemma force_taken:
  assumes "is_cartesian m" "mo_force_control opts = Some fc"
  shows "wpS (flexiv_set_mode R m opts) (\<lambda>_ b'. fb_force b' = Some fc) (\<lambda>_ _. True) b"
proof -
  have rest: "wpS (thenS (set_force_control R m (Some fc)) (if is_cartesian m then if_some (mo_nullspace_q opts)
      (\<lambda>q. onArm (rk_set_null_space_posture R q)) else retS ())) (\<lambda>_ b'. fb_force b' = Some fc) (\<lambda>_ _. True) b'" for b'
  proof -
    have "keepsS (\<lambda>b. fb_force b = Some fc) (thenS (thenS (onArm (rk_set_force_axis R (fc_enabled_axes fc)))
        (onArm (rk_set_force_frame R (rdk_coord_tcp (fc_frame fc))))) (if is_cartesian m then if_some (mo_nullspace_q opts)
        (\<lambda>q. onArm (rk_set_null_space_posture R q)) else retS ()))"
      by (intro keeps_intros keeps_if_some force_frame)
    from wpS_mono [OF keeps_wp [OF this, of "b'\<lparr>fb_force := Some fc\<rparr>"]]
    show ?thesis using assms(1) by (simp add: set_force_control_def if_some_def [of "Some fc"] wpS_then wpS_modS)
  qed
  show ?thesis
    unfolding flexiv_set_mode_def wpS_bind wpS_base wpS_if assms(2)
    by (rule if_split [THEN iffD2], intro conjI impI TrueI wp_skip rest)
qed

lemma mode_frame: "keepsS (\<lambda>b. fb_mode b = k) (onArm m)" "keepsS (\<lambda>b. fb_mode b = k) (modS (\<lambda>b. b\<lparr>fb_force := f\<rparr>))"
  by (auto simp: keepsS_def onArm_def onH_def bindS_def sem_simps split: prod.split)

lemma mode_entered:
  assumes "flexiv_set_mode R m opts b = (Inr (), b')"
  shows "fb_mode b' = m"
proof -
  have "wpS (flexiv_set_mode R m opts) (\<lambda>_ b'. fb_mode b' = m) (\<lambda>_ _. True) b"
    unfolding flexiv_set_mode_def set_force_control_def wpS_bind wpS_base wpS_if
    by (rule if_split [THEN iffD2], intro conjI impI TrueI, rule wp_skip, subst wpS_then, subst wpS_modS,
        rule wpS_mono [OF keeps_wp [where I = "\<lambda>b. fb_mode b = m"]])
      (intro keeps_intros keeps_if_some mode_frame, simp_all)
  then show ?thesis using assms by (simp add: wpS_ok)
qed

text \<open>C21: A force target outlives the mode it was given for: a Cartesian mode started with a force target, a stop, and a
  Cartesian mode started without force control still send that target with every pose that carries no wrench
  of its own.\<close>

theorem force_target_survives_stop:
  assumes "flexiv_set_mode R m opts b = (Inr (), b1)" "is_cartesian m" "mo_force_control opts = Some fc"
    and "length (fc_target_wrench fc) = 6" "flexiv_stop R b1 = (Inr (), b2)"
    and "flexiv_set_mode R m' opts' b2 = (Inr (), b3)" "is_cartesian m'" "mo_force_control opts' = None"
  shows "flexiv_stream_cartesian R p None b3 = onArm (rk_cartesian R (is_realtime m') p (fc_target_wrench fc)) b3"
proof -
  have "fb_force b1 = Some fc"
    using force_taken [OF assms(2,3), of R b] assms(1) by (simp add: wpS_ok)
  then have "fb_force b2 = Some fc"
    using keepsS_D [OF force_kept_stop [of "Some fc" R], of b1] assms(5) by simp
  then have "fb_force b3 = Some fc" "fb_mode b3 = m'"
    using keepsS_D [OF force_kept_mode [OF assms(7,8), of "Some fc" R], of b2] assms(6) mode_entered [OF assms(6)] by simp_all
  then show ?thesis using assms(4) by (simp add: flexiv_stream_cartesian_def bindS_def sem_simps cart_dof_def)
qed

lemma force_target_survives_stop_witness:
  "\<exists>b1 b2 b3 fc. flexiv_set_mode demo_rdk NRT_CARTESIAN_MOTION_FORCE (no_opts\<lparr>mo_force_control := Some fc\<rparr>) (demo_arm IDLE) = (Inr (), b1)
    \<and> flexiv_stop demo_rdk b1 = (Inr (), b2)
    \<and> flexiv_set_mode demo_rdk NRT_CARTESIAN_MOTION_FORCE no_opts b2 = (Inr (), b3)
    \<and> fc_target_wrench fc = [0, 0, -15, 0, 0, 0]
    \<and> flexiv_stream_cartesian demo_rdk (demo_pose (1/2)) None b3
      = onArm (rk_cartesian demo_rdk False (demo_pose (1/2)) [0, 0, -15, 0, 0, 0]) b3"
proof -
  let ?fc = "\<lparr>fc_enabled_axes = [False, False, True, False, False, False], fc_target_wrench = [0, 0, -15, 0, 0, 0], fc_frame = ''tcp''\<rparr>"
  let ?m = "flexiv_set_mode demo_rdk NRT_CARTESIAN_MOTION_FORCE"
  obtain b1 where b1: "?m (no_opts\<lparr>mo_force_control := Some ?fc\<rparr>) (demo_arm IDLE) = (Inr (), b1)" "arm_usable (\<lambda>_. True) (\<lambda>m. m) b1"
    using wp_call [OF set_mode_at [OF demo_arm_answers demo_arm_usable]] by (force simp: arm_accepts_def no_opts_def at_mode_def)
  obtain b2 where b2: "flexiv_stop demo_rdk b1 = (Inr (), b2)" "arm_usable (\<lambda>_. True) (\<lambda>m. m) b2"
    using wp_call [OF stop_at [OF demo_arm_answers, of "fb_mode b1"]] b1(2) by (force simp: at_mode_def)
  obtain b3 where b3: "?m no_opts b2 = (Inr (), b3)"
    using wp_call [OF set_mode_at [OF demo_arm_answers b2(2)]] by (force simp: arm_accepts_def no_opts_def)
  have "flexiv_stream_cartesian demo_rdk (demo_pose (1/2)) None b3
      = onArm (rk_cartesian demo_rdk (is_realtime NRT_CARTESIAN_MOTION_FORCE) (demo_pose (1/2)) (fc_target_wrench ?fc)) b3"
    by (rule force_target_survives_stop [OF b1(1) _ _ _ b2(1) b3]) (simp_all add: no_opts_def)
  then show ?thesis using b1(1) b2(1) b3 by (intro exI conjI) (assumption | simp add: is_realtime_def starts_with_def)+
qed

end
