(* ===== verification/Close_Gate.thy ===== *)
theory Close_Gate
  imports Robot_Proofs
begin

text \<open>
  The close-intent gate of the Cartesian executor (\<open>grip_tracking_gate_m\<close> of a chunk), on the
  command trace of any backend: with the gate set, a grasp goes out only while the arm tracks the
  stream, or after a close that did.
\<close>

section \<open>The backend calls, by what they append to the trace\<close>

lemma wp_read:
  assumes "\<And>s r'. cmds r' = cmds r @ [CRead s] \<Longrightarrow> Q s r'" "\<And>e r'. cmds r' = cmds r \<Longrightarrow> E e r'"
  shows "wpS (get_state (traced B)) Q E r"
proof (rule wpS_I)
  fix s r' assume "get_state (traced B) r = (Inr s, r')"
  then show "Q s r'" using assms(1) get_state_read(1) by blast
next
  fix e r' assume "get_state (traced B) r = (Inl e, r')"
  then have "cmds r' = cmds r"
    by (auto simp: get_state_def bindS_def thenS_def sem_simps onB_def traced_def record_read_def cmds_def
        split: prod.splits sum.splits)
  then show "E e r'" by (rule assms(2))
qed

lemma wp_cmd:
  assumes "\<And>x r'. cmds r' = cmds r @ [c] \<Longrightarrow> Q x r'" "\<And>e r'. cmds r' = cmds r @ [c] \<Longrightarrow> E e r'"
  shows "wpS (onB (record_cmd c m)) Q E r"
  using assms by (auto simp: wpS_def onB_def record_cmd_def cmds_def split: prod.splits sum.splits)

lemma wp_backend:
  "(\<And>x r'. cmds r' = cmds r @ [CStop] \<Longrightarrow> Q1 x r') \<Longrightarrow> (\<And>e r'. cmds r' = cmds r @ [CStop] \<Longrightarrow> E e r')
    \<Longrightarrow> wpS (onB (bk_stop (traced B))) Q1 E r"
  "(\<And>x r'. cmds r' = cmds r @ [CGripper g] \<Longrightarrow> Q1 x r') \<Longrightarrow> (\<And>e r'. cmds r' = cmds r @ [CGripper g] \<Longrightarrow> E e r')
    \<Longrightarrow> wpS (onB (bk_move_gripper (traced B) g)) Q1 E r"
  "(\<And>x r'. cmds r' = cmds r @ [CStream p v] \<Longrightarrow> Q1 x r') \<Longrightarrow> (\<And>e r'. cmds r' = cmds r @ [CStream p v] \<Longrightarrow> E e r')
    \<Longrightarrow> wpS (onB (bk_stream_cartesian (traced B) p v)) Q1 E r"
  "(\<And>x r'. cmds r' = cmds r @ [CLimit w] \<Longrightarrow> Q1 x r') \<Longrightarrow> (\<And>e r'. cmds r' = cmds r @ [CLimit w] \<Longrightarrow> E e r')
    \<Longrightarrow> wpS (onB (bk_set_contact_wrench_limit (traced B) w)) Q1 E r"
  by (simp_all add: traced_def wp_cmd)

lemma wp_fault:
  assumes "\<And>x r'. cmds r' = cmds r \<Longrightarrow> Q x r'" "\<And>e r'. cmds r' = cmds r \<Longrightarrow> E e r'"
  shows "wpS (onB (bk_in_fault (traced B))) Q E r"
  using assms by (auto simp: wpS_def onB_def traced_def unrecorded_def cmds_def split: prod.splits sum.splits)

lemma wp_poll: "(\<And>b r'. cmds r' = cmds r \<Longrightarrow> Q b r') \<Longrightarrow> wpS poll_cancel Q E r"
  unfolding poll_cancel_def wpS_then wpS_modS wpS_base by (simp add: cmds_def)

lemma wp_clear: "(\<And>b r'. cmds r' = cmds r \<Longrightarrow> Q b r') \<Longrightarrow> wpS clear_stop Q E r"
  unfolding clear_stop_def wpS_modS by (simp add: cmds_def)

lemma wp_onF: "(\<And>x r'. cmds r' = cmds r \<Longrightarrow> Q x r') \<Longrightarrow> (\<And>e r'. cmds r' = cmds r \<Longrightarrow> E e r') \<Longrightarrow> wpS (onF m) Q E r"
  by (auto simp: wpS_def onF_def cmds_def split: prod.splits sum.splits)

lemma wp_seq:
  "(\<And>x. v = Inr x \<Longrightarrow> wpS (f x) Q E s) \<Longrightarrow> (\<And>e. E e s) \<Longrightarrow> wpS (bindS (liftS v) f) Q E s"
  "wpS (h (g s)) Q E s \<Longrightarrow> wpS (bindS (getS g) h) Q E s"
  "wpS m (\<lambda>_. wpS k Q E) E s \<Longrightarrow> wpS (thenS m k) Q E s"
  by (auto simp: wp_simps split: sum.splits)

section \<open>On-track closes\<close>

text \<open>
  The arm is on track after \<open>as\<close>: the last state read is within \<open>m\<close> of the pose streamed last
  before that reading, or nothing had been streamed yet.
\<close>

definition last_sent :: "command list \<Rightarrow> vec3 option" where
  "last_sent cs = (if streamed cs = [] then None else Some (pos (last (streamed cs))))"

definition track_error :: "vec3 option \<Rightarrow> robot_state \<Rightarrow> real" where
  "track_error sent st = (case sent of Some p \<Rightarrow> norm (p - tcp_position st) | None \<Rightarrow> 0)"

definition last_read :: "command list \<Rightarrow> robot_state \<Rightarrow> vec3 option \<Rightarrow> bool" where
  "last_read as st sent \<longleftrightarrow> (\<exists>us vs. as = us @ CRead st # vs \<and> list_all (\<lambda>c. \<forall>s. c \<noteq> CRead s) vs \<and> sent = last_sent us)"

definition on_track :: "real \<Rightarrow> command list \<Rightarrow> bool" where
  "on_track m as \<longleftrightarrow> (\<exists>st sent. last_read as st sent \<and> track_error sent st \<le> m)"

definition fired :: "real \<Rightarrow> command list \<Rightarrow> bool" where
  "fired m ev \<longleftrightarrow> (\<exists>as g bs. ev = as @ CGripper g # bs \<and> on_track m as)"

definition grasps_justified :: "real \<Rightarrow> command list \<Rightarrow> bool" where
  "grasps_justified m ev \<longleftrightarrow>
     (\<forall>as g bs. ev = as @ CGripper g # bs \<longrightarrow> g_grasp g \<longrightarrow> on_track m as \<or> fired m as)"

lemma fired_append: "fired m as \<Longrightarrow> fired m (as @ bs)"
  unfolding fired_def by (metis append.assoc append_Cons)

lemma justified_Nil [simp]: "grasps_justified m []"
  by (simp add: grasps_justified_def)

lemma justified_snoc:
  assumes "grasps_justified m ev" "\<And>g. c = CGripper g \<Longrightarrow> g_grasp g \<Longrightarrow> on_track m ev \<or> fired m ev"
  shows "grasps_justified m (ev @ [c])"
  unfolding grasps_justified_def
proof (intro allI impI)
  fix as g bs
  assume "ev @ [c] = as @ CGripper g # bs" "g_grasp g"
  then show "on_track m as \<or> fired m as"
    using assms by (cases bs rule: rev_cases) (auto simp: grasps_justified_def)
qed

lemma justified_append:
  assumes "grasps_justified m ev" "list_all (\<lambda>c. \<forall>g. c \<noteq> CGripper g) cs"
  shows "grasps_justified m (ev @ cs)"
  using assms(2)
proof (induction cs rule: rev_induct)
  case (snoc c cs)
  then have "grasps_justified m ((ev @ cs) @ [c])" by (intro justified_snoc) auto
  then show ?case by simp
qed (simp add: assms(1))

lemma last_read_snoc:
  assumes "last_read as st sent" "\<And>s. c \<noteq> CRead s"
  shows "last_read (as @ [c]) st sent"
proof -
  obtain us vs where uv: "as = us @ CRead st # vs" "list_all (\<lambda>c. \<forall>s. c \<noteq> CRead s) vs" "sent = last_sent us"
    using assms(1) by (auto simp: last_read_def)
  then show ?thesis
    using assms(2) unfolding last_read_def by (intro exI [of _ us] exI [of _ "vs @ [c]"]) simp
qed

lemma last_read_now: "last_read (as @ [CRead st]) st (last_sent as)"
  unfolding last_read_def by (intro exI [of _ as] exI [of _ "[]"]) simp

lemma last_sent_snoc:
  "(\<And>p v. c \<noteq> CStream p v) \<Longrightarrow> last_sent (as @ [c]) = last_sent as"
  "last_sent (as @ [CStream p v]) = Some (pos p)"
  by (simp_all add: last_sent_def streamed_other)

section \<open>The executor under the gate\<close>

text \<open>The invariants between ticks, and within a tick once its state \<open>st\<close> was read.\<close>

definition just_inv :: "command list \<Rightarrow> real \<Rightarrow> 'b trace robot \<Rightarrow> bool" where
  "just_inv base m r \<longleftrightarrow> (\<exists>ev. cmds r = base @ ev \<and> grasps_justified m ev)"

definition gate_inv :: "command list \<Rightarrow> real \<Rightarrow> locals \<Rightarrow> 'b trace robot \<Rightarrow> bool" where
  "gate_inv base m x r \<longleftrightarrow> (\<exists>ev. cmds r = base @ ev \<and> grasps_justified m ev
     \<and> (x_close_issued x \<longrightarrow> fired m ev) \<and> x_prev_cmd_pos x = last_sent ev)"

definition tick_inv :: "command list \<Rightarrow> real \<Rightarrow> robot_state \<Rightarrow> vec3 option \<Rightarrow> locals \<Rightarrow> 'b trace robot \<Rightarrow> bool" where
  "tick_inv base m st sent x r \<longleftrightarrow> (\<exists>ev. cmds r = base @ ev \<and> grasps_justified m ev
     \<and> (x_close_issued x \<longrightarrow> fired m ev) \<and> last_read ev st (x_prev_cmd_pos x) \<and> last_sent ev = sent)"

lemma gate_just: "gate_inv base m x r \<Longrightarrow> just_inv base m r"
  by (auto simp: gate_inv_def just_inv_def)

lemma tick_just: "tick_inv base m st sent x r \<Longrightarrow> just_inv base m r"
  by (auto simp: tick_inv_def just_inv_def)

lemma gate_cong:
  assumes "gate_inv base m x r" "cmds r' = cmds r" "x_close_issued x' = x_close_issued x"
    "x_prev_cmd_pos x' = x_prev_cmd_pos x"
  shows "gate_inv base m x' r'"
  using assms by (simp add: gate_inv_def)

lemma gate_read: "gate_inv base m x r \<Longrightarrow> cmds r' = cmds r @ [CRead st] \<Longrightarrow> tick_inv base m st (x_prev_cmd_pos x) x r'"
  unfolding gate_inv_def tick_inv_def
  by (elim exE, rule_tac x = "ev @ [CRead st]" in exI)
    (auto simp: last_sent_snoc intro: justified_append fired_append last_read_now)

lemma tick_stream:
  "tick_inv base m st sent x r \<Longrightarrow> cmds r' = cmds r @ [CStream p v] \<Longrightarrow> tick_inv base m st (Some (pos p)) x r'"
  unfolding tick_inv_def
  by (elim exE, rule_tac x = "ev @ [CStream p v]" in exI)
    (auto simp: last_sent_snoc intro: justified_append fired_append last_read_snoc)

lemma tick_grip:
  assumes "tick_inv base m st sent x r" "cmds r' = cmds r @ [CGripper g]"
    and "g_grasp g \<Longrightarrow> track_error (x_prev_cmd_pos x) st \<le> m \<or> x_close_issued x"
  shows "tick_inv base m st sent x r'"
    and "track_error (x_prev_cmd_pos x) st \<le> m \<Longrightarrow> tick_inv base m st sent (x\<lparr>x_close_issued := True\<rparr>) r'"
proof -
  obtain ev where ev: "cmds r = base @ ev" "grasps_justified m ev" "x_close_issued x \<longrightarrow> fired m ev"
      "last_read ev st (x_prev_cmd_pos x)" "last_sent ev = sent"
    using assms(1) by (auto simp: tick_inv_def)
  let ?ev = "ev @ [CGripper g]"
  have track: "on_track m ev" if "track_error (x_prev_cmd_pos x) st \<le> m"
    using ev(4) that by (auto simp: on_track_def)
  have ok: "cmds r' = base @ ?ev" "grasps_justified m ?ev" "last_read ?ev st (x_prev_cmd_pos x)" "last_sent ?ev = sent"
    using ev assms(2,3) track
    by (auto simp: last_sent_snoc intro: justified_snoc last_read_snoc)
  show "tick_inv base m st sent x r'"
    unfolding tick_inv_def using ok ev(3) fired_append by (intro exI [of _ ?ev]) blast
  show "tick_inv base m st sent (x\<lparr>x_close_issued := True\<rparr>) r'" if "track_error (x_prev_cmd_pos x) st \<le> m"
  proof -
    have "fired m ?ev" unfolding fired_def using track [OF that] by blast
    then show ?thesis unfolding tick_inv_def using ok by (intro exI [of _ ?ev]) simp
  qed
qed

lemma inv_upd [simp]:
  "tick_inv base m st sent (x\<lparr>x_close_aborted := a\<rparr>) = tick_inv base m st sent x"
  "tick_inv base m st sent (x\<lparr>x_result := res\<rparr>) = tick_inv base m st sent x"
  "tick_inv base m st sent (x\<lparr>x_pending_close := pc\<rparr>) = tick_inv base m st sent x"
  "tick_inv base m st sent (x\<lparr>x_tick := n\<rparr>) = tick_inv base m st sent x"
  "tick_inv base m st sent (x\<lparr>x_seg := k\<rparr>) = tick_inv base m st sent x"
  "gate_inv base m (x\<lparr>x_close_aborted := a\<rparr>) = gate_inv base m x"
  "gate_inv base m (x\<lparr>x_result := res\<rparr>) = gate_inv base m x"
  "gate_inv base m (x\<lparr>x_pending_close := pc\<rparr>) = gate_inv base m x"
  "gate_inv base m (x\<lparr>x_tick := n\<rparr>) = gate_inv base m x"
  "gate_inv base m (x\<lparr>x_seg := k\<rparr>) = gate_inv base m x"
  by (simp_all add: tick_inv_def gate_inv_def fun_eq_iff)

lemma wp_gate_fire:
  fixes r :: "'b trace robot"
  assumes inv: "tick_inv base m st sent x r" and gate: "ck_grip_tracking_gate_m (e_chunk env) = Some m"
  shows "wpS (try_fire_close (traced B) env g st x) (tick_inv base m st sent) (\<lambda>_. just_inv base m) r"
proof (cases "x_close_aborted x \<or> er_clipped (x_result x) \<or> m < track_error (x_prev_cmd_pos x) st")
  case True
  then show ?thesis
    using inv gate by (simp add: try_fire_close_def wp_simps gate_m_def track_error_def Let_def)
next
  case False
  then have ok: "track_error (x_prev_cmd_pos x) st \<le> m" by simp
  have "try_fire_close (traced B) env g st x
      = thenS (onB (bk_move_gripper (traced B) g)) (retS (x\<lparr>x_close_issued := True\<rparr>))"
    using False gate by (simp add: try_fire_close_def gate_m_def track_error_def Let_def)
  then show ?thesis
    using tick_grip(2) [OF inv _ _ ok] tick_just [OF tick_grip(1) [OF inv]] ok
    by (auto simp: wp_simps intro!: wp_backend)
qed

lemma wp_gate_resolve:
  fixes r :: "'b trace robot"
  assumes "tick_inv base m st sent x r" "ck_grip_tracking_gate_m (e_chunk env) = Some m"
  shows "wpS (resolve_pending (traced B) env st x) (tick_inv base m st sent) (\<lambda>_. just_inv base m) r"
proof (cases "x_pending_close x")
  case None
  then show ?thesis using assms by (simp add: resolve_pending_def wp_simps)
next
  case (Some gf)
  then show ?thesis
    using assms wp_gate_fire [of base m st sent "x\<lparr>x_pending_close := None\<rparr>" r env B]
    by (cases gf) (auto simp: resolve_pending_def wp_simps)
qed

lemma wp_gate_grip:
  fixes r :: "'b trace robot"
  assumes inv: "tick_inv base m st sent x r" and gate: "ck_grip_tracking_gate_m (e_chunk env) = Some m"
  shows "wpS (handle_grip (traced B) env n st g x) (tick_inv base m st sent) (\<lambda>_. just_inv base m) r"
proof (cases "is_closing g st \<and> \<not> (g_grasp g \<and> x_close_issued x)")
  case True
  have p: "wpS (case x_pending_close x of Some (g, _) \<Rightarrow> try_fire_close (traced B) env g st (x\<lparr>x_pending_close := None\<rparr>)
      | None \<Rightarrow> retS x) (tick_inv base m st sent) (\<lambda>_. just_inv base m) r"
    using inv wp_gate_fire [OF _ gate, of base st sent "x\<lparr>x_pending_close := None\<rparr>" r B]
    by (cases "x_pending_close x") (auto simp: wp_simps split: prod.splits)
  show ?thesis
    using True gate inv by (auto simp: handle_grip_def wp_simps Let_def intro!: wpS_mono [OF p])
next
  case False
  then have "handle_grip (traced B) env n st g x = thenS (onB (bk_move_gripper (traced B) g))
      (retS (x\<lparr>x_close_issued := x_close_issued x \<or> is_closing g st\<rparr>))"
    using gate by (auto simp: handle_grip_def Let_def)
  moreover have "x\<lparr>x_close_issued := x_close_issued x \<or> is_closing g st\<rparr> = x"
    using False by (cases x) auto
  moreover have "g_grasp g \<Longrightarrow> x_close_issued x" using False by (auto simp: is_closing_def)
  ultimately show ?thesis
    using tick_grip(1) [OF inv, of _ g] tick_just [OF tick_grip(1) [OF inv, of _ g]]
    by (auto simp: wp_simps intro!: wp_backend)
qed

lemma wp_gate_stream:
  fixes r :: "'b trace robot"
  assumes inv: "tick_inv base m st sent x r" and gate: "ck_grip_tracking_gate_m (e_chunk env) = Some m"
  shows "wpS (stream_tick (traced B) env sp st p x) (\<lambda>xg. gate_inv base m (fst xg)) (\<lambda>_. just_inv base m) r"
proof -
  let ?J = "\<lambda>_. just_inv base m" and ?T = "tick_inv base m st (Some (pos p))"
  have book: "gate_inv base m y r'" if "?T x' r'" "bookkeeping dt p st (record_row env p st x') = Inr y"
    for x' y dt and r' :: "'b trace robot"
    using that by (auto simp: bookkeeping_def record_row_def bindR_eq_Inr tick_inv_def gate_inv_def split: if_splits)
  have last: "wpS (liftS (bookkeeping dt p st (record_row env p st x'))) (\<lambda>y. gate_inv base m y) ?J r'"
    if "?T x' r'" for x' dt and r' :: "'b trace robot"
    using book [OF that] tick_just [OF that] by (auto simp: wp_simps split: sum.splits)
  have grip: "wpS (case sp_grip sp of Some grip \<Rightarrow> handle_grip (traced B) env (sp_segment_ticks sp) st grip x'
      | None \<Rightarrow> retS x') ?T ?J r'"
    if "?T x' r'" for x' and r' :: "'b trace robot"
    using wp_gate_grip [OF that gate] that by (auto simp: wp_simps split: option.splits)
  have rest: "wpS (resolve_pending (traced B) env st x)
        (\<lambda>x'. wpS (case sp_grip sp of Some grip \<Rightarrow> handle_grip (traced B) env (sp_segment_ticks sp) st grip x'
            | None \<Rightarrow> retS x')
          (\<lambda>x'' s. wpS (liftS (bookkeeping (r_dt s) p st (record_row env p st x''))) (\<lambda>y. gate_inv base m y) ?J s) ?J)
        ?J r'" if "?T x r'" for r' :: "'b trace robot"
    by (rule wpS_mono [OF wp_gate_resolve [OF that gate] wpS_mono [OF grip last]])
  have "wpS (onB (bk_stream_cartesian (traced B) p (chunk_wrench (e_chunk env)))) (\<lambda>_. ?T x) ?J r"
    using tick_stream [OF inv] tick_just [OF tick_stream [OF inv]] by (intro wp_backend)
  then show ?thesis
    unfolding stream_tick_def wpS_then wpS_bind wpS_base fst_conv
    by (rule wpS_mono) (simp_all only: rest [unfolded wpS_base])
qed

lemma wp_gate_stop:
  fixes r :: "'b trace robot"
  assumes "gate_inv base m x r \<or> tick_inv base m st sent x r \<and> x_prev_cmd_pos x = sent"
  shows "wpS (stop_run (traced B) reason x) (\<lambda>xg. gate_inv base m (fst xg)) (\<lambda>_. just_inv base m) r"
proof -
  obtain ev where ev: "cmds r = base @ ev" "grasps_justified m ev" "x_close_issued x \<longrightarrow> fired m ev"
      "x_prev_cmd_pos x = last_sent ev"
    using assms by (auto simp: gate_inv_def tick_inv_def)
  have "gate_inv base m x' r'" if "cmds r' = cmds r @ [CStop]" "x' = x\<lparr>x_result := res\<rparr>"
    for x' res and r' :: "'b trace robot"
    unfolding gate_inv_def using ev that
    by (intro exI [of _ "ev @ [CStop]"]) (auto simp: last_sent_snoc intro: justified_append fired_append)
  then show ?thesis
    unfolding stop_run_def wpS_then wpS_base fst_conv
    by (intro wp_backend) (auto intro: gate_just)
qed

lemma wp_gate_filter:
  fixes r :: "'b trace robot"
  assumes inv: "tick_inv base m st (x_prev_cmd_pos x) x r" and gate: "ck_grip_tracking_gate_m (e_chunk env) = Some m"
  shows "wpS (filter_tick (traced B) env sp st x) (\<lambda>xg. gate_inv base m (fst xg)) (\<lambda>_. just_inv base m) r"
  unfolding filter_tick_def wpS_bind
proof (rule wp_onF)
  fix sr and r' :: "'b trace robot"
  assume "cmds r' = cmds r"
  then have inv': "tick_inv base m st (x_prev_cmd_pos x) x r'" using inv by (simp add: tick_inv_def)
  have s: "wpS (stream_tick (traced B) env sp st p
      (if b then x\<lparr>x_result := (x_result x)\<lparr>er_clipped := True\<rparr>\<rparr> else x))
      (\<lambda>xg. gate_inv base m (fst xg)) (\<lambda>_. just_inv base m) r'" for p b
    by (rule wp_gate_stream [OF _ gate]) (use inv' in simp)
  have t: "wpS (stop_run (traced B) reason x) (\<lambda>xg. gate_inv base m (fst xg)) (\<lambda>_. just_inv base m) r'" for reason
    using inv' by (blast intro: wp_gate_stop)
  show "wpS (case sr_pose sr of
         Some cmd \<Rightarrow>
           (if \<not> sr_ok sr then stop_run (traced B) (reason_value (sr_reason sr)) x
            else stream_tick (traced B) env sp st cmd
                   (if sr_clipped sr then x\<lparr>x_result := (x_result x)\<lparr>er_clipped := True\<rparr>\<rparr> else x))
       | None \<Rightarrow> stop_run (traced B) (reason_value (sr_reason sr)) x)
     (\<lambda>xg. gate_inv base m (fst xg)) (\<lambda>_. just_inv base m) r'"
    using s [of _ True] s [of _ False] t by (simp split: option.splits)
next
  fix e and r' :: "'b trace robot"
  assume "cmds r' = cmds r"
  then show "just_inv base m r'" using tick_just [OF inv] by (simp add: just_inv_def)
qed

lemma wp_gate_chunk_tick:
  fixes r :: "'b trace robot"
  assumes inv: "gate_inv base m x r" and gate: "ck_grip_tracking_gate_m (e_chunk env) = Some m"
  shows "wpS (chunk_tick (traced B) env sp x) (\<lambda>xg. gate_inv base m (fst xg)) (\<lambda>_. just_inv base m) r"
proof -
  let ?x = "x\<lparr>x_tick := x_tick x + 1, x_seg := sp_segment sp\<rparr>"
  let ?Q = "\<lambda>xg. gate_inv base m (fst xg)" and ?J = "\<lambda>_. just_inv base m"
  let ?after = "\<lambda>st fault s. if fault then wpS (stop_run (traced B) ''backend_fault'' ?x) ?Q ?J s
      else case np_any_abs_gt (st_wrench st) (e_wrench_cap env) of Inl e \<Rightarrow> just_inv base m s
        | Inr over \<Rightarrow> if over then wpS (stop_run (traced B) ''contact_wrench'' ?x) ?Q ?J s
            else wpS (filter_tick (traced B) env sp st ?x) ?Q ?J s"
  let ?go = "wpS (get_state (traced B)) (\<lambda>st. wpS (onB (bk_in_fault (traced B))) (?after st) ?J) ?J"
  let ?user = "wpS clear_stop (\<lambda>_. wpS (stop_run (traced B) ''user'' ?x) ?Q ?J) ?J"
  have same: "gate_inv base m ?x r'" if "cmds r' = cmds r" for r' :: "'b trace robot"
    using inv that by (simp add: gate_inv_def)
  have fault: "wpS (onB (bk_in_fault (traced B))) (?after st) ?J r'"
    if "tick_inv base m st (x_prev_cmd_pos x) ?x r'" for st and r' :: "'b trace robot"
  proof (rule wp_fault)
    fix b and r'' :: "'b trace robot"
    assume "cmds r'' = cmds r'"
    then have t: "tick_inv base m st (x_prev_cmd_pos ?x) ?x r''" using that by (simp add: tick_inv_def)
    have "wpS (stop_run (traced B) reason ?x) ?Q ?J r''" for reason using t by (blast intro: wp_gate_stop)
    then show "?after st b r''"
      using wp_gate_filter [OF t gate] tick_just [OF t] by (simp split: sum.splits)
  next
    fix e and r'' :: "'b trace robot"
    assume "cmds r'' = cmds r'"
    then show "just_inv base m r''" using tick_just [OF that] by (simp add: just_inv_def)
  qed
  have go: "?go r'" if "cmds r' = cmds r" for r' :: "'b trace robot"
  proof (rule wp_read)
    fix st and r'' :: "'b trace robot"
    assume "cmds r'' = cmds r' @ [CRead st]"
    from gate_read [OF same [OF that] this]
    show "wpS (onB (bk_in_fault (traced B))) (?after st) ?J r''" by (intro fault) simp
  next
    fix e and r'' :: "'b trace robot"
    assume "cmds r'' = cmds r'"
    then show "just_inv base m r''" using gate_just [OF same [OF that]] by (simp add: just_inv_def)
  qed
  have user: "?user r'" if "cmds r' = cmds r" for r' :: "'b trace robot"
    by (rule wp_clear, rule wp_gate_stop) (use same that in simp)
  show ?thesis
    unfolding chunk_tick_def Let_def wp_simps
  proof (rule wp_poll)
    fix b and r' :: "'b trace robot"
    assume c: "cmds r' = cmds r"
    show "if b then ?user r' else ?go r'"
      using go [OF c] user [OF c] by (cases b) (simp_all only: if_True if_False)
  qed
qed

lemma wp_gate_loop:
  fixes r :: "'b trace robot"
  assumes "gate_inv base m x r" "ck_grip_tracking_gate_m (e_chunk env) = Some m"
  shows "wpS (chunk_loop (traced B) env sps x) (gate_inv base m) (\<lambda>_. just_inv base m) r"
  using assms(1)
proof (induction sps arbitrary: x r)
  case Nil
  then show ?case by (simp add: wp_simps)
next
  case (Cons i sps x r)
  show ?case
  proof (cases i)
    case (Inl e)
    then show ?thesis using Cons.prems by (simp add: wp_simps gate_just)
  next
    case (Inr sp)
    show ?thesis
      unfolding Inr chunk_loop.simps wpS_bind
      by (rule wpS_mono [OF wp_gate_chunk_tick [OF Cons.prems assms(2)]])
        (auto simp: wp_simps intro: Cons.IH split: prod.splits)
  qed
qed

lemma wp_gate_finish:
  fixes r :: "'b trace robot"
  assumes "gate_inv base m x r" "ck_grip_tracking_gate_m (e_chunk env) = Some m"
  shows "wpS (finish_pending (traced B) env x) (\<lambda>_. just_inv base m) (\<lambda>_. just_inv base m) r"
proof -
  have fire: "wpS (try_fire_close (traced B) env g st (x\<lparr>x_pending_close := None\<rparr>))
      (\<lambda>_. just_inv base m) (\<lambda>_. just_inv base m) r'" if "cmds r' = cmds r @ [CRead st]" for g st and r' :: "'b trace robot"
    using gate_read [OF assms(1) that]
    by (intro wpS_mono [OF wp_gate_fire [OF _ assms(2)]]) (auto intro: tick_just)
  have "wpS (get_state (traced B)) (\<lambda>st. wpS (try_fire_close (traced B) env g st (x\<lparr>x_pending_close := None\<rparr>))
      (\<lambda>_. just_inv base m) (\<lambda>_. just_inv base m)) (\<lambda>_. just_inv base m) r" for g
    using gate_just [OF assms(1)] by (intro wp_read) (simp_all add: fire just_inv_def)
  then show ?thesis
    using gate_just [OF assms(1)]
    by (cases "x_pending_close x") (auto simp: finish_pending_def Let_def wp_simps split: prod.splits)
qed

lemma just_append:
  "just_inv base m r \<Longrightarrow> cmds r' = cmds r @ cs \<Longrightarrow> list_all (\<lambda>c. \<forall>g. c \<noteq> CGripper g) cs \<Longrightarrow> just_inv base m r'"
  unfolding just_inv_def by (metis append.assoc justified_append)

lemma just_frame:
  assumes "just_inv base m r" "frameS view (\<lambda>c. \<forall>g. c \<noteq> CGripper g) k" "k r = (a, r')"
  shows "just_inv base m r'"
  using frameS_D(2) [OF assms(2,3)] just_append [OF assms(1)] by blast

lemma wp_just:
  assumes "frameS view (\<lambda>c. \<forall>g. c \<noteq> CGripper g) k" "just_inv base m r"
  shows "wpS k (\<lambda>_. just_inv base m) (\<lambda>_. just_inv base m) r"
  using just_frame [OF assms(2,1)] by (intro wpS_I) auto

lemma gate_fresh:
  fixes r r' :: "'b trace robot"
  assumes "cmds r = base @ ev" "list_all entering ev"
    and "cmds r' = cmds r @ cs" "cs = [] \<or> (\<exists>w. cs = [CLimit w])"
  shows "gate_inv base m (fresh_locals res start) r'"
proof -
  have "list_all (\<lambda>c. \<forall>g. c \<noteq> CGripper g) ev"
    using assms(2) by (rule list.pred_mono_strong) (auto simp: entering_def)
  then have "list_all (\<lambda>c. \<forall>g. c \<noteq> CGripper g) (ev @ cs)" using assms(4) by auto
  from justified_append [OF justified_Nil this]
  have "grasps_justified m (ev @ cs)" by simp
  moreover have "streamed (ev @ cs) = []"
    using streamed_calm [OF entering_no_stream [OF assms(2)]] assms(4) by (auto simp: streamed_other)
  ultimately show ?thesis
    unfolding gate_inv_def using assms(1,3)
    by (intro exI [of _ "ev @ cs"]) (simp add: fresh_locals_def last_sent_def)
qed

lemma wp_gate_tail:
  fixes r' :: "'b trace robot"
  assumes "gate_inv base m (fresh_locals res start) r'" "ck_grip_tracking_gate_m (e_chunk env) = Some m"
  shows "wpS (bindS (finallyS (bindS (chunk_loop (traced B) env sps (fresh_locals res start))
                (finish_pending (traced B) env)) (restore_wrench (traced B) relaxed))
        (\<lambda>x. bindS (get_state (traced B)) (\<lambda>end'. raise_if_stopped b (final_report env start end' x))))
      (\<lambda>_. just_inv base m) (\<lambda>_. just_inv base m) r'"
proof -
  let ?J = "\<lambda>_. just_inv base m"
  have body: "wpS (bindS (chunk_loop (traced B) env sps (fresh_locals res start)) (finish_pending (traced B) env)) ?J ?J r'"
    unfolding wpS_bind
    by (rule wpS_mono [OF wp_gate_loop [OF assms]]) (simp_all add: wp_gate_finish assms(2))
  have restore: "wpS (restore_wrench (traced B) relaxed a) ?J ?J r''" if "just_inv base m r''"
    for a and r'' :: "'b trace robot"
    by (rule wp_just [OF _ that])
      (auto simp: restore_wrench_def intro!: calm_ops frameS_catch frameS_bind)
  have end': "wpS (bindS (get_state (traced B)) (\<lambda>end'. raise_if_stopped b (final_report env start end' x))) ?J ?J r''"
    if "just_inv base m r''" for x and r'' :: "'b trace robot"
    by (rule wp_just [OF _ that]) (auto simp: raise_if_stopped_def intro!: frameS_bind calm_get_state)
  show ?thesis
    unfolding wpS_bind [of "finallyS k l" for k l] wpS_finally
    by (rule wpS_mono [OF body]) (auto intro!: wpS_mono [OF restore] end' split: sum.splits)
qed

lemma wp_gate_run:
  fixes r :: "'b trace robot"
  assumes "cmds r = base @ ev" "list_all entering ev" "ck_grip_tracking_gate_m c = Some m"
  shows "wpS (run_chunk (traced B) args c start res) (\<lambda>_. just_inv base m) (\<lambda>_. just_inv base m) r"
proof -
  let ?J = "\<lambda>_. just_inv base m"
  have no_grip: "list_all (\<lambda>c. \<forall>g. c \<noteq> CGripper g) ev"
    using assms(2) by (rule list.pred_mono_strong) (auto simp: entering_def)
  have j0: "just_inv base m r"
    unfolding just_inv_def using justified_append [OF justified_Nil no_grip] assms(1) by auto
  have gate: "ck_grip_tracking_gate_m c' = Some m" if "for_execution c p = Inr c'" for c' p
    using that assms(3)
    by (auto simp: for_execution_def resolve_to_absolute_def chunk_post_init_def bindR_eq_Inr Let_def
        split: if_splits)
  show ?thesis
    unfolding run_chunk_def Let_def
  proof (intro wp_seq j0)
    fix c' w g i
    assume c': "for_execution c (st_tcp_pose start) = Inr c'"
    have lim: "wpS (if relaxed then onB (bk_set_contact_wrench_limit (traced B) cap) else retS ())
        (\<lambda>_ r'. \<exists>cs. cmds r' = cmds r @ cs \<and> (cs = [] \<or> (\<exists>w. cs = [CLimit w]))) ?J r" for relaxed cap
      using just_append [OF j0, of _ "[CLimit cap]"] by (auto simp: wp_simps intro!: wp_backend)
    show "wpS (case g of (wrench_cap, relaxed, res) \<Rightarrow>
         bindS (getS r_hz) (\<lambda>hz.
         bindS (liftS (mk_cart_interp c' (st_tcp_pose start) hz
            (Some (tighten (p_max_linear_speed (r_profile r)) (ck_max_tcp_linear_speed c')))
            (Some (tighten (p_max_angular_speed (r_profile r)) (ck_max_tcp_angular_speed c'))))) (\<lambda>interp.
         thenS (if relaxed then onB (bk_set_contact_wrench_limit (traced B) wrench_cap) else retS ())
           (bindS (finallyS (bindS (chunk_loop (traced B) \<lparr>e_chunk = c', e_wrench_cap = wrench_cap,
                   e_record = xa_record args, e_clock = xa_clock args\<rparr> (interp_iter interp) (fresh_locals res start))
                                  (finish_pending (traced B) \<lparr>e_chunk = c', e_wrench_cap = wrench_cap,
                   e_record = xa_record args, e_clock = xa_clock args\<rparr>))
                        (restore_wrench (traced B) relaxed))
                 (\<lambda>x. bindS (get_state (traced B)) (\<lambda>end'.
                        raise_if_stopped (xa_raise_on_stop args) (final_report \<lparr>e_chunk = c', e_wrench_cap = wrench_cap,
                   e_record = xa_record args, e_clock = xa_clock args\<rparr> start end' x))))))) ?J ?J r"
      unfolding split_beta
      by (intro wp_seq j0) (rule wpS_mono [OF lim], auto intro!: wp_gate_tail gate_fresh [OF assms(1,2)] gate [OF c'])
  qed
qed

section \<open>Properties\<close>



end
