(* ===== verification/Arbiter.thy ===== *)
theory Arbiter
  imports Py_Prelude
begin

text \<open>
  The contract of a single-writer arbiter, shared by the server's lease and the host-wide lock:
  who holds the robot, how the hold is acquired and released, and what the environment may do
  (let a hold lapse, never move it). The client lemmas: without force, the robot changes hands
  only through a moment at which nobody holds it.
\<close>

text \<open>What happens between two observations of the arbiter.\<close>

datatype 'o arb_event =
    Acquire 'o bool
  | Release 'o
  | Lapse

locale arbiter =
  fixes holder :: "'s \<Rightarrow> 'o option"
    and acquire :: "'o \<Rightarrow> bool \<Rightarrow> 's \<Rightarrow> py_error + 's"
    and release :: "'o \<Rightarrow> 's \<Rightarrow> py_error + 's"
    and env :: "'s \<Rightarrow> 's \<Rightarrow> bool"
    and wf :: "'s \<Rightarrow> bool"
    and can_acquire :: "'s \<Rightarrow> 'o \<Rightarrow> bool"
    and can_release :: "'s \<Rightarrow> 'o \<Rightarrow> bool"
  assumes acquire_ok: "wf s \<Longrightarrow> can_acquire s p \<Longrightarrow> acquire p force s = Inr s' \<Longrightarrow> holder s' = Some p \<and> wf s'"
    and acquire_free: "wf s \<Longrightarrow> can_acquire s p \<Longrightarrow> holder s = None \<or> holder s = Some p \<or> force \<Longrightarrow>
          \<exists>s'. acquire p force s = Inr s'"
    and acquire_denied: "wf s \<Longrightarrow> can_acquire s p \<Longrightarrow> holder s = Some q \<Longrightarrow> q \<noteq> p \<Longrightarrow>
          \<exists>e. acquire p False s = Inl e"
    and release_own: "wf s \<Longrightarrow> can_release s p \<Longrightarrow> holder s = Some p \<Longrightarrow>
          \<exists>s'. release p s = Inr s' \<and> holder s' = None"
    and release_other: "wf s \<Longrightarrow> can_release s p \<Longrightarrow> holder s = Some q \<Longrightarrow> q \<noteq> p \<Longrightarrow>
          release p s = Inr s' \<Longrightarrow> holder s' = Some q"
    and release_wf: "wf s \<Longrightarrow> can_release s p \<Longrightarrow> release p s = Inr s' \<Longrightarrow>
          wf s' \<and> (holder s = None \<longrightarrow> holder s' = None)"
    and env_lapse: "wf s \<Longrightarrow> env s s' \<Longrightarrow>
          wf s' \<and> (\<forall>p. holder s = Some p \<longrightarrow> holder s' = Some p \<or> holder s' = None)"
begin

text \<open>One event: a raised error leaves the state.\<close>

inductive step :: "'s \<Rightarrow> 'o arb_event \<Rightarrow> 's \<Rightarrow> bool" where
  acq: "can_acquire s p \<Longrightarrow> acquire p f s = Inr s' \<Longrightarrow> step s (Acquire p f) s'"
| acq_err: "can_acquire s p \<Longrightarrow> acquire p f s = Inl e \<Longrightarrow> step s (Acquire p f) s"
| rel: "can_release s p \<Longrightarrow> release p s = Inr s' \<Longrightarrow> step s (Release p) s'"
| rel_err: "can_release s p \<Longrightarrow> release p s = Inl e \<Longrightarrow> step s (Release p) s"
| lapse: "env s s' \<Longrightarrow> step s Lapse s'"

lemma step_wf: "step s e s' \<Longrightarrow> wf s \<Longrightarrow> wf s'"
  by (induction rule: step.induct) (use acquire_ok release_wf env_lapse in blast)+

text \<open>An unforced event keeps the holder or ends its hold.\<close>

lemma step_holder:
  assumes "step s e s'" "wf s" "holder s = Some p" "\<And>q. e \<noteq> Acquire q True"
  shows "holder s' = Some p \<or> holder s' = None"
  using assms
proof (cases rule: step.cases)
  case (acq q f)
  then have "\<not> f" using assms(4) by (cases f) auto
  then show ?thesis
    using acq acquire_denied [OF assms(2), of q p] acquire_ok [OF assms(2), of q f s'] assms(3)
    by (cases "p = q") auto
next
  case (rel q)
  then show ?thesis
    using release_other [OF assms(2), of q p s'] release_own [OF assms(2), of p] assms(3)
    by (cases "p = q") auto
next
  case lapse
  then show ?thesis using env_lapse [OF assms(2)] assms(3) by metis
qed (use assms in auto)

text \<open>An execution: the states between the events.\<close>

inductive path :: "'s list \<Rightarrow> bool" where
  single: "path [s]"
| more: "step s e s' \<Longrightarrow> (\<And>q. e \<noteq> Acquire q True) \<Longrightarrow> path (s' # ss) \<Longrightarrow> path (s # s' # ss)"

text \<open>Without force, the robot changes hands only through a moment without a holder.\<close>

lemma path_handover:
  assumes "path ss" "wf (hd ss)" "holder (hd ss) = Some p" "holder (last ss) = Some q" "p \<noteq> q"
  shows "\<exists>s \<in> set ss. holder s = None"
  using assms
proof (induction rule: path.induct)
  case (more s e s' ss)
  then show ?case
    using step_holder [of s e s' p] step_wf [of s e s'] by auto
qed simp

end

end
