(* ===== verification/Host_Lock.thy ===== *)
theory Host_Lock
  imports Arbiter Json
begin

text \<open>
  \<^verbatim>\<open>server/host_lock.py\<close>: the host-wide advisory lock, a file with the holder's PID. The world
  is the lock file's JSON content (\<open>None\<close>: absent or unreadable) and the set of live processes;
  a lock object remembers its owner name and whether it acquired. \<open>acquire\<close> is its two file
  accesses, \<open>check_free\<close> and \<open>write_lock\<close>. Run without interleaving it is an \<open>arbiter\<close>; the
  interleaved semantics \<open>hl_step\<close> shows what the gap between the two accesses allows. File
  system errors of the write itself are not modelled.
\<close>

section \<open>The lock\<close>

record host_world =
  hw_file :: "json option"
  hw_alive :: "int set"

record host_lock =
  hl_owner :: string
  hl_held :: bool

definition mk_host_lock :: "string \<Rightarrow> host_lock" where
  "mk_host_lock owner = \<lparr>hl_owner = owner, hl_held = False\<rparr>"

definition pid_alive :: "host_world \<Rightarrow> int \<Rightarrow> bool" where
  "pid_alive w pid = (0 < pid \<and> pid \<in> hw_alive w)"

definition read_pid :: "json \<Rightarrow> int result" where
  "read_pid info = bindR (jget_dflt info ''pid'' (JInt (- 1))) jint"

definition live_other_holder :: "int \<Rightarrow> host_world \<Rightarrow> json option result" where
  "live_other_holder me w =
     (case hw_file w of
        None \<Rightarrow> Inr None
      | Some info \<Rightarrow>
          (if \<not> jtruthy info then Inr None
           else bindR (read_pid info) (\<lambda>pid.
                  Inr (if pid = me then None else if pid_alive w pid then Some info else None))))"

definition is_locked_by_other :: "int \<Rightarrow> host_world \<Rightarrow> bool result" where
  "is_locked_by_other me w = bindR (live_other_holder me w) (\<lambda>h. Inr (h \<noteq> None))"

definition lock_info :: "int \<Rightarrow> string \<Rightarrow> real \<Rightarrow> json" where
  "lock_info me owner stamp = JObj [(''pid'', JInt me), (''owner'', JStr owner), (''stamp'', JNum stamp)]"

text \<open>The two file accesses of \<open>acquire\<close>.\<close>

definition check_free :: "int \<Rightarrow> bool \<Rightarrow> host_world \<Rightarrow> unit result" where
  "check_free me force w =
     bindR (live_other_holder me w) (\<lambda>other.
       if other \<noteq> None \<and> \<not> force then Inl HostLockError else Inr ())"

definition write_lock :: "int \<Rightarrow> string \<Rightarrow> real \<Rightarrow> host_world \<Rightarrow> host_world" where
  "write_lock me owner stamp w = w\<lparr>hw_file := Some (lock_info me owner stamp)\<rparr>"

definition hl_acquire ::
  "int \<Rightarrow> string option \<Rightarrow> bool \<Rightarrow> real \<Rightarrow> (host_lock \<times> host_world, unit) sem" where
  "hl_acquire me owner force now lw =
     (let l = (case owner of Some s \<Rightarrow> (fst lw)\<lparr>hl_owner := s\<rparr> | None \<Rightarrow> fst lw); w = snd lw
      in case check_free me force w of
           Inl e \<Rightarrow> (Inl e, (l, w))
         | Inr _ \<Rightarrow> (Inr (), (l\<lparr>hl_held := True\<rparr>, write_lock me (hl_owner l) now w)))"

definition remove_own :: "int \<Rightarrow> host_world \<Rightarrow> host_world result" where
  "remove_own me w =
     (case hw_file w of
        None \<Rightarrow> Inr w
      | Some info \<Rightarrow>
          (if \<not> jtruthy info then Inr w
           else bindR (read_pid info) (\<lambda>pid. Inr (if pid = me then w\<lparr>hw_file := None\<rparr> else w))))"

definition hl_release :: "int \<Rightarrow> (host_lock \<times> host_world, unit) sem" where
  "hl_release me lw =
     (if \<not> hl_held (fst lw) then (Inr (), lw)
      else case remove_own me (snd lw) of
             Inl e \<Rightarrow> (Inl e, lw)
           | Inr w \<Rightarrow> (Inr (), ((fst lw)\<lparr>hl_held := False\<rparr>, w)))"

section \<open>The lock as an arbiter\<close>

text \<open>The abstraction: the live process whose PID is in the file.\<close>

definition hw_holder :: "host_world \<Rightarrow> int option" where
  "hw_holder w =
     (case hw_file w of
        None \<Rightarrow> None
      | Some info \<Rightarrow>
          (if \<not> jtruthy info then None
           else case read_pid info of
                  Inl _ \<Rightarrow> None
                | Inr pid \<Rightarrow> (if pid_alive w pid then Some pid else None)))"

lemma read_pid_lock_info [simp]: "read_pid (lock_info me owner stamp) = Inr me"
  by (simp add: read_pid_def lock_info_def)

lemma truthy_lock_info [simp]: "jtruthy (lock_info me owner stamp)"
  by (simp add: lock_info_def)

text \<open>Files no lock wrote (an unreadable or foreign PID entry) make the readers raise.\<close>

definition hw_wf :: "host_world \<Rightarrow> bool" where
  "hw_wf w \<longleftrightarrow> (\<forall>info. hw_file w = Some info \<longrightarrow> jtruthy info \<longrightarrow> is_ok (read_pid info))"

lemma live_other_holder_eq:
  assumes "hw_wf w"
  shows "\<exists>h. live_other_holder me w = Inr h \<and> (h \<noteq> None \<longleftrightarrow> (\<exists>p. hw_holder w = Some p \<and> p \<noteq> me))"
proof (cases "hw_file w")
  case (Some info)
  show ?thesis
  proof (cases "jtruthy info")
    case True
    obtain pid where "read_pid info = Inr pid"
      using assms Some True by (cases "read_pid info") (auto simp: hw_wf_def)
    then show ?thesis using Some True by (auto simp: live_other_holder_def hw_holder_def)
  qed (simp add: live_other_holder_def hw_holder_def Some)
qed (simp add: live_other_holder_def hw_holder_def)

lemma check_free_eq:
  assumes "hw_wf w"
  shows "check_free me force w =
    (if force \<or> hw_holder w = None \<or> hw_holder w = Some me then Inr () else Inl HostLockError)"
  using live_other_holder_eq [OF assms, of me]
  by (auto simp: check_free_def)

lemma write_lock_holder:
  "pid_alive w me \<Longrightarrow> hw_holder (write_lock me owner stamp w) = Some me"
  "hw_wf (write_lock me owner stamp w)"
  by (simp_all add: write_lock_def hw_holder_def hw_wf_def pid_alive_def)

text \<open>
  All processes of the host: the lock file, the live processes and each process's lock object.
  Between two lock operations processes start (under a PID that is not the one a stale file
  records: the file cannot tell a reused PID from its old owner), crash, or lock files are
  cleaned up.
\<close>

record host =
  h_world :: host_world
  h_locks :: "int \<Rightarrow> host_lock"

definition on_host ::
  "(int \<Rightarrow> (host_lock \<times> host_world, unit) sem) \<Rightarrow> int \<Rightarrow> host \<Rightarrow> host result" where
  "on_host m me h =
     (case m me (h_locks h me, h_world h) of
        (Inl e, _) \<Rightarrow> Inl e
      | (Inr _, (l, w)) \<Rightarrow> Inr (h\<lparr>h_world := w, h_locks := (h_locks h)(me := l)\<rparr>))"

definition host_wf :: "host \<Rightarrow> bool" where
  "host_wf h \<longleftrightarrow> hw_wf (h_world h) \<and> (\<forall>p. hw_holder (h_world h) = Some p \<longrightarrow> hl_held (h_locks h p))"

definition crash :: "int \<Rightarrow> host \<Rightarrow> host" where
  "crash pid h = h\<lparr>h_world := (h_world h)\<lparr>hw_alive := hw_alive (h_world h) - {pid}\<rparr>\<rparr>"

inductive host_env :: "host \<Rightarrow> host \<Rightarrow> bool" where
  crash: "host_env h (crash pid h)"
| start: "hw_holder ((h_world h)\<lparr>hw_alive := insert pid (hw_alive (h_world h))\<rparr>) = hw_holder (h_world h) \<Longrightarrow>
    host_env h (h\<lparr>h_world := (h_world h)\<lparr>hw_alive := insert pid (hw_alive (h_world h))\<rparr>\<rparr>)"
| clean: "host_env h (h\<lparr>h_world := (h_world h)\<lparr>hw_file := None\<rparr>\<rparr>)"

lemma crash_holder:
  "hw_holder ((h_world h)\<lparr>hw_alive := hw_alive (h_world h) - {pid}\<rparr>) =
     (if hw_holder (h_world h) = Some pid then None else hw_holder (h_world h))"
  by (auto simp: hw_holder_def pid_alive_def split: option.splits sum.splits)

lemma host_env_ok:
  assumes "host_env h h'" "host_wf h"
  shows "host_wf h' \<and> (\<forall>p. hw_holder (h_world h) = Some p \<longrightarrow>
    hw_holder (h_world h') = Some p \<or> hw_holder (h_world h') = None)"
  using assms
proof (cases rule: host_env.cases)
  case (crash pid)
  then show ?thesis
    using assms(2) crash_holder [of h pid] by (auto simp: host_wf_def crash_def hw_wf_def)
qed (auto simp: host_wf_def hw_wf_def hw_holder_def)

lemma release_host:
  assumes "host_wf h"
  shows "\<exists>h'. on_host hl_release me h = Inr h' \<and> host_wf h'
    \<and> (hw_holder (h_world h) = Some me \<longrightarrow> hw_holder (h_world h') = None)
    \<and> (hw_holder (h_world h) \<noteq> Some me \<longrightarrow> hw_holder (h_world h') = hw_holder (h_world h))"
proof (cases "hl_held (h_locks h me)")
  case False
  then show ?thesis using assms by (auto simp: on_host_def hl_release_def host_wf_def)
next
  case True
  let ?w = "h_world h"
  have "\<exists>w. remove_own me ?w = Inr w \<and> hw_wf w
    \<and> (hw_holder ?w = Some me \<longrightarrow> hw_holder w = None)
    \<and> (hw_holder ?w \<noteq> Some me \<longrightarrow> hw_holder w = hw_holder ?w)"
  proof (cases "hw_file ?w")
    case (Some info)
    show ?thesis
    proof (cases "jtruthy info")
      case True
      obtain pid where "read_pid info = Inr pid"
        using assms Some True by (cases "read_pid info") (auto simp: host_wf_def hw_wf_def)
      then show ?thesis
        using Some True assms by (auto simp: remove_own_def hw_wf_def hw_holder_def host_wf_def)
    qed (use Some assms in \<open>auto simp: remove_own_def hw_wf_def hw_holder_def host_wf_def\<close>)
  qed (use assms in \<open>auto simp: remove_own_def hw_wf_def hw_holder_def host_wf_def\<close>)
  then show ?thesis
    using True assms by (auto simp: on_host_def hl_release_def host_wf_def)
qed

interpretation host_arb: arbiter "\<lambda>h. hw_holder (h_world h)"
  "\<lambda>p force. on_host (\<lambda>me. hl_acquire me None force 0) p" "on_host hl_release"
  host_env host_wf "\<lambda>h p. pid_alive (h_world h) p" "\<lambda>h p. True"
proof
  fix h h' and p q :: int and force
  have acq: "on_host (\<lambda>me. hl_acquire me None force 0) p h =
     (if force \<or> hw_holder (h_world h) = None \<or> hw_holder (h_world h) = Some p
      then Inr (h\<lparr>h_world := write_lock p (hl_owner (h_locks h p)) 0 (h_world h),
                  h_locks := (h_locks h)(p := (h_locks h p)\<lparr>hl_held := True\<rparr>)\<rparr>)
      else Inl HostLockError)" if "host_wf h" for force p
    using that by (simp add: on_host_def hl_acquire_def host_wf_def check_free_eq Let_def)
  show "\<exists>s'. on_host (\<lambda>me. hl_acquire me None force 0) p h = Inr s'"
    if "host_wf h" "hw_holder (h_world h) = None \<or> hw_holder (h_world h) = Some p \<or> force"
    using that acq by auto
  show "\<exists>e. on_host (\<lambda>me. hl_acquire me None False 0) p h = Inl e"
    if "host_wf h" "hw_holder (h_world h) = Some q" "q \<noteq> p"
    using that acq by auto
  show "hw_holder (h_world h') = Some p \<and> host_wf h'"
    if "host_wf h" "pid_alive (h_world h) p" "on_host (\<lambda>me. hl_acquire me None force 0) p h = Inr h'"
    using that write_lock_holder by (auto simp: acq host_wf_def split: if_splits)
  show "\<exists>s'. on_host hl_release p h = Inr s' \<and> hw_holder (h_world s') = None"
    if "host_wf h" "hw_holder (h_world h) = Some p"
    using release_host [OF that(1), of p] that(2) by auto
  show "hw_holder (h_world h') = Some q"
    if "host_wf h" "hw_holder (h_world h) = Some q" "q \<noteq> p" "on_host hl_release p h = Inr h'"
    using release_host [OF that(1), of p] that by auto
  show "host_wf h' \<and> (hw_holder (h_world h) = None \<longrightarrow> hw_holder (h_world h') = None)"
    if "host_wf h" "on_host hl_release p h = Inr h'"
    using release_host [OF that(1), of p] that by auto
  show "host_wf h' \<and> (\<forall>p. hw_holder (h_world h) = Some p \<longrightarrow>
      hw_holder (h_world h') = Some p \<or> hw_holder (h_world h') = None)"
    if "host_wf h" "host_env h h'"
    using host_env_ok [OF that(2,1)] .
qed

section \<open>The gap between the two file accesses\<close>

text \<open>
  The processes that passed the check and have not written yet, and those that returned from
  \<open>acquire\<close> and have not released. With \<open>serial\<close> a process starts an acquisition only when no
  other one is between its two accesses.
\<close>

record hl_sys =
  hs_world :: host_world
  hs_checked :: "int set"
  hs_holding :: "int set"

inductive hl_step :: "bool \<Rightarrow> hl_sys \<Rightarrow> hl_sys \<Rightarrow> bool" for serial :: bool where
  check: "pid_alive (hs_world s) p \<Longrightarrow> (serial \<longrightarrow> hs_checked s = {}) \<Longrightarrow>
    check_free p False (hs_world s) = Inr () \<Longrightarrow>
    hl_step serial s (s\<lparr>hs_checked := insert p (hs_checked s)\<rparr>)"
| store: "pid_alive (hs_world s) p \<Longrightarrow> p \<in> hs_checked s \<Longrightarrow>
    hl_step serial s (s\<lparr>hs_world := write_lock p owner now (hs_world s),
      hs_checked := hs_checked s - {p}, hs_holding := insert p (hs_holding s)\<rparr>)"
| release: "pid_alive (hs_world s) p \<Longrightarrow> p \<in> hs_holding s \<Longrightarrow> remove_own p (hs_world s) = Inr w \<Longrightarrow>
    hl_step serial s (s\<lparr>hs_world := w, hs_holding := hs_holding s - {p}\<rparr>)"
| crash: "hl_step serial s (s\<lparr>hs_world := (hs_world s)\<lparr>hw_alive := hw_alive (hs_world s) - {p}\<rparr>,
      hs_checked := hs_checked s - {p}\<rparr>)"

definition hl_init :: "int set \<Rightarrow> hl_sys" where
  "hl_init alive = \<lparr>hs_world = \<lparr>hw_file = None, hw_alive = alive\<rparr>, hs_checked = {}, hs_holding = {}\<rparr>"

definition serial_inv :: "hl_sys \<Rightarrow> bool" where
  "serial_inv s \<longleftrightarrow> hw_wf (hs_world s)
     \<and> (\<forall>p \<in> hs_checked s. \<forall>q \<in> hs_checked s. p = q)
     \<and> (\<forall>p \<in> hs_holding s. pid_alive (hs_world s) p \<longrightarrow> hw_holder (hs_world s) = Some p)
     \<and> (\<forall>c \<in> hs_checked s. \<forall>p \<in> hs_holding s. pid_alive (hs_world s) p \<longrightarrow> p = c)"

lemma remove_own_holder:
  assumes "remove_own me w = Inr w'" "hw_wf w"
  shows "hw_wf w'" "pid_alive w' = pid_alive w"
    and "hw_holder w = Some p \<Longrightarrow> p \<noteq> me \<Longrightarrow> hw_holder w' = Some p"
  using assms
  by (auto simp: remove_own_def hw_wf_def hw_holder_def pid_alive_def fun_eq_iff bindR_eq_Inr
      split: option.splits if_splits sum.splits)

lemma serial_inv_step:
  assumes "hl_step True s s'" "serial_inv s"
  shows "serial_inv s'"
  using assms
proof (cases rule: hl_step.cases)
  case (check p)
  have "hw_holder (hs_world s) = None \<or> hw_holder (hs_world s) = Some p"
    using check(4) assms(2) check_free_eq [of "hs_world s" p False]
    by (auto simp: serial_inv_def split: if_splits)
  then show ?thesis using check assms(2) by (auto simp: serial_inv_def)
next
  case (store p owner now)
  have "pid_alive (write_lock p owner now (hs_world s)) = pid_alive (hs_world s)"
    by (simp add: write_lock_def pid_alive_def fun_eq_iff)
  moreover have "hs_checked s - {p} = {}" using store(3) assms(2) by (auto simp: serial_inv_def)
  moreover have "\<forall>q \<in> insert p (hs_holding s). pid_alive (hs_world s) q \<longrightarrow> q = p"
    using store(3) assms(2) by (auto simp: serial_inv_def)
  ultimately show ?thesis
    using store(1,2) write_lock_holder [where w = "hs_world s" and me = p]
    by (auto simp: serial_inv_def)
next
  case (release p w)
  have wf: "hw_wf (hs_world s)" using assms(2) by (simp add: serial_inv_def)
  have "\<forall>q \<in> hs_holding s - {p}. \<not> pid_alive (hs_world s) q"
    using release(2,3) assms(2) unfolding serial_inv_def by (metis DiffE insertCI option.inject)
  then show ?thesis
    using release assms(2) remove_own_holder(1,2) [OF release(4) wf] by (auto simp: serial_inv_def)
next
  case (crash p)
  have "hw_holder ((hs_world s)\<lparr>hw_alive := hw_alive (hs_world s) - {p}\<rparr>) =
     (if hw_holder (hs_world s) = Some p then None else hw_holder (hs_world s))"
    using crash_holder [of "\<lparr>h_world = hs_world s, h_locks = \<lambda>_. mk_host_lock []\<rparr>" p] by simp
  then show ?thesis
    using crash assms(2) by (auto simp: serial_inv_def hw_wf_def pid_alive_def)
qed

lemma serial_inv_reach: "(hl_step True)\<^sup>*\<^sup>* (hl_init A) s \<Longrightarrow> serial_inv s"
proof (induction rule: rtranclp_induct)
  case base
  show ?case by (simp add: serial_inv_def hl_init_def hw_wf_def)
next
  case (step y z)
  then show ?case using serial_inv_step by blast
qed

section \<open>Properties\<close>


text \<open>The check and the write of \<open>acquire\<close> are two file accesses: two live processes whose
  acquisitions overlap can both return from \<open>acquire\<close> and hold the lock.\<close>

theorem host_lock_race:
  assumes "0 < p" "0 < q" "p \<noteq> q"
  shows "\<exists>s. (hl_step False)\<^sup>*\<^sup>* (hl_init {p, q}) s \<and> p \<in> hs_holding s \<and> q \<in> hs_holding s
    \<and> pid_alive (hs_world s) p \<and> pid_alive (hs_world s) q"
proof -
  let ?s0 = "hl_init {p, q}"
  let ?s1 = "?s0\<lparr>hs_checked := insert p (hs_checked ?s0)\<rparr>"
  let ?s2 = "?s1\<lparr>hs_checked := insert q (hs_checked ?s1)\<rparr>"
  let ?s3 = "?s2\<lparr>hs_world := write_lock p [] 0 (hs_world ?s2), hs_checked := hs_checked ?s2 - {p},
     hs_holding := insert p (hs_holding ?s2)\<rparr>"
  let ?s4 = "?s3\<lparr>hs_world := write_lock q [] 0 (hs_world ?s3), hs_checked := hs_checked ?s3 - {q},
     hs_holding := insert q (hs_holding ?s3)\<rparr>"
  note defs = hl_init_def pid_alive_def check_free_def live_other_holder_def write_lock_def
  have "hl_step False ?s0 ?s1" "hl_step False ?s1 ?s2"
    using assms by (intro hl_step.check; simp add: defs)+
  moreover have "hl_step False ?s2 ?s3" "hl_step False ?s3 ?s4"
    using assms by (intro hl_step.store; simp add: defs)+
  ultimately have "(hl_step False)\<^sup>*\<^sup>* ?s0 ?s4"
    by (meson rtranclp.rtrancl_into_rtrancl rtranclp.rtrancl_refl)
  then show ?thesis using assms by (intro exI [of _ ?s4]) (simp add: defs)
qed

lemma host_lock_race_witness:
  "\<exists>s. (hl_step False)\<^sup>*\<^sup>* (hl_init {100, 200}) s \<and> 100 \<in> hs_holding s \<and> 200 \<in> hs_holding s
    \<and> pid_alive (hs_world s) 100 \<and> pid_alive (hs_world s) 200"
  by (rule host_lock_race) simp_all


text \<open>Without force and without overlapping file accesses, the lock passes from one live process
  to another only through a state in which no live process holds it: over any run of acquisitions,
  releases, crashes and starts, a change of holder has a free moment in between.\<close>

theorem host_lock_handover:
  assumes "host_arb.path hs" "host_wf (hd hs)"
    and "hw_holder (h_world (hd hs)) = Some p" "hw_holder (h_world (last hs)) = Some q" "p \<noteq> q"
  shows "\<exists>h \<in> set hs. hw_holder (h_world h) = None"
  by (rule host_arb.path_handover [OF assms])

lemma host_lock_handover_witness:
  "\<exists>h h'. hw_holder (h_world h) = Some 100 \<and> (\<exists>x \<in> {h, crash 100 h, h'}. hw_holder (h_world x) = None)
     \<and> hw_holder (h_world h') = Some 200"
proof -
  define h where "h = \<lparr>h_world = \<lparr>hw_file = Some (lock_info 100 [] 0), hw_alive = {100, 200}\<rparr>,
     h_locks = (\<lambda>_. mk_host_lock [])(100 := \<lparr>hl_owner = [], hl_held = True\<rparr>)\<rparr>"
  define c where "c = crash 100 h"
  obtain h' where h': "on_host (\<lambda>me. hl_acquire me None False 0) 200 c = Inr h'"
      "hw_holder (h_world h') = Some 200"
    by (simp add: c_def h_def crash_def on_host_def hl_acquire_def check_free_def live_other_holder_def
        pid_alive_def Let_def write_lock_def hw_holder_def)
  have "host_arb.step h Lapse c" unfolding c_def by (intro host_arb.lapse host_env.crash)
  moreover have "host_arb.step c (Acquire 200 False) h'"
    by (rule host_arb.acq [OF _ h'(1)]) (simp add: c_def h_def crash_def pid_alive_def)
  ultimately have path: "host_arb.path [h, c, h']" by (auto intro!: host_arb.path.intros)
  have h: "hw_holder (h_world h) = Some 100" "host_wf h"
    by (simp_all add: h_def hw_holder_def host_wf_def hw_wf_def pid_alive_def)
  from host_lock_handover [OF path, of 100 200] h h'(2) show ?thesis
    unfolding c_def by (intro exI [of _ h] exI [of _ h']) simp
qed

text \<open>Outcomes of \<open>acquire\<close> and \<open>release\<close> on a lock file some lock wrote: acquisition succeeds and
  records the caller exactly when forced, when no live process is recorded or when the caller is;
  otherwise it raises \<open>HostLockError\<close> and changes nothing. A release by an object that did not
  acquire, or whose file entry another process took over, leaves the file alone.\<close>

theorem host_lock_outcomes:
  assumes "hw_wf w"
  shows "(force \<or> hw_holder w = None \<or> hw_holder w = Some me \<longrightarrow>
      hl_acquire me None force now (l, w)
        = (Inr (), (l\<lparr>hl_held := True\<rparr>, write_lock me (hl_owner l) now w)))
    \<and> (\<not> force \<and> hw_holder w = Some p \<and> p \<noteq> me \<longrightarrow>
      hl_acquire me None force now (l, w) = (Inl HostLockError, (l, w)))
    \<and> (\<not> hl_held l \<or> hw_holder w = Some p \<and> p \<noteq> me \<longrightarrow> snd (snd (hl_release me (l, w))) = w)"
proof -
  have "snd (snd (hl_release me (l, w))) = w" if "hw_holder w = Some p" "p \<noteq> me"
  proof -
    obtain info where "hw_file w = Some info" "jtruthy info" "read_pid info = Inr p"
      using \<open>hw_holder w = Some p\<close>
      by (auto simp: hw_holder_def split: option.splits if_splits sum.splits)
    then show ?thesis using that(2) by (simp add: hl_release_def remove_own_def)
  qed
  then show ?thesis
    using assms by (auto simp: hl_acquire_def check_free_eq Let_def hl_release_def)
qed

lemma host_lock_outcomes_witness:
  "hl_acquire 200 None False 1 (mk_host_lock ''b'',
      \<lparr>hw_file = Some (lock_info 100 ''a'' 0), hw_alive = {100, 200}\<rparr>)
    = (Inl HostLockError, (mk_host_lock ''b'', \<lparr>hw_file = Some (lock_info 100 ''a'' 0), hw_alive = {100, 200}\<rparr>))"
proof -
  let ?w = "\<lparr>hw_file = Some (lock_info 100 ''a'' 0), hw_alive = {100, 200}\<rparr>"
  have "hw_wf ?w" "hw_holder ?w = Some 100"
    by (simp_all add: hw_wf_def hw_holder_def pid_alive_def)
  with host_lock_outcomes [of ?w False 200 1 "mk_host_lock ''b''" 100] show ?thesis by simp
qed

end
