(* ===== verification/Servo_Loop.thy ===== *)
theory Servo_Loop
  imports Robot_Proofs
begin

text \<open>
  \<^verbatim>\<open>server/control_loop.py\<close>: the reactive servo loop, the single writer that streams the latest
  target at the control rate. The object is \<open>'b servo\<close>; it shares the robot's backend and filter.
  The command buffer is mutated by other threads, so a tick is modelled as its four critical
  sections (\<open>pull_phase\<close>, \<open>store_phase\<close>, \<open>snapshot_phase\<close>, \<open>act_phase\<close>), in whose gaps the
  client operations may run; \<open>servo_tick\<close> is the tick without interference. Iterators are objects
  with a state of their own: \<open>sv_gens\<close> is their store and \<open>sv_chunk\<close> a reference into it. Clock
  readings are arguments. The lemmas: whatever the interleaving, a streamed pose is the measured
  pose of the tick or a bounded move from the filter's last command; a stale command, a fault or
  a stale state never reaches the stream; and the interleavings that lose a client's update.
\<close>

section \<open>The object\<close>

record loop_stats =
  ls_period_ms :: real
  ls_jitter_us :: real
  ls_missed_cycles :: int
  ls_command_age_ms :: real
  ls_last_clipped :: bool
  ls_last_status :: safety_status
  ls_last_stop_reason :: stop_reason

definition fresh_stats :: loop_stats where
  "fresh_stats = \<lparr>ls_period_ms = 0, ls_jitter_us = 0, ls_missed_cycles = 0, ls_command_age_ms = 0,
     ls_last_clipped = False, ls_last_status = OK, ls_last_stop_reason = NONE\<rparr>"

record 'b servo =
  sv_robot :: "'b robot"
  sv_hz :: real
  sv_dt :: real
  sv_cartesian :: bool
  sv_target_pose :: "pose option"
  sv_target_q :: "real list option"
  sv_target_gripper :: "gripper_command option"
  sv_cmd_stamp :: real
  sv_chunk :: "nat option"
  sv_gens :: "nat \<Rightarrow> setpoint result list"
  sv_next_gen :: nat
  sv_running :: bool
  sv_thread :: bool
  sv_latest_state :: "robot_state option"
  sv_stats :: loop_stats

definition mk_servo :: "'b robot \<Rightarrow> real option \<Rightarrow> 'b servo result" where
  "mk_servo robot control_hz =
     (let hz = (case control_hz of Some h \<Rightarrow> (if h = 0 then r_hz robot else h) | None \<Rightarrow> r_hz robot)
      in if hz = 0 then Inl ZeroDivisionError
         else Inr \<lparr>sv_robot = robot, sv_hz = hz, sv_dt = 1 / hz, sv_cartesian = True,
                sv_target_pose = None, sv_target_q = None, sv_target_gripper = None,
                sv_cmd_stamp = 0, sv_chunk = None, sv_gens = (\<lambda>_. []), sv_next_gen = 0,
                sv_running = False, sv_thread = False, sv_latest_state = None,
                sv_stats = fresh_stats\<rparr>)"

text \<open>The robot's operations, on the loop.\<close>

definition onR :: "('b robot, 'a) sem \<Rightarrow> ('b servo, 'a) sem" where
  "onR m s = (case m (sv_robot s) of (x, r') \<Rightarrow> (x, s\<lparr>sv_robot := r'\<rparr>))"

definition read_backend :: "'b backend \<Rightarrow> ('b servo, robot_state) sem" where
  "read_backend B = onR (onB (bk_read_state B))"

definition upd_stats :: "(loop_stats \<Rightarrow> loop_stats) \<Rightarrow> ('b servo, unit) sem" where
  "upd_stats f = modS (\<lambda>s. s\<lparr>sv_stats := f (sv_stats s)\<rparr>)"

section \<open>The command buffer\<close>

definition set_cartesian_target :: "real \<Rightarrow> real list \<Rightarrow> gripper_command option \<Rightarrow> ('b servo, unit) sem" where
  "set_cartesian_target now pose gripper =
     thenS (modS (\<lambda>s. s\<lparr>sv_cartesian := True, sv_chunk := None\<rparr>))
       (bindS (liftS (to_pose pose)) (\<lambda>p.
          modS (\<lambda>s. s\<lparr>sv_target_pose := Some p,
                 sv_target_gripper := (case gripper of Some g \<Rightarrow> Some g | None \<Rightarrow> sv_target_gripper s),
                 sv_cmd_stamp := now\<rparr>)))"

definition set_joint_target :: "real \<Rightarrow> real list \<Rightarrow> ('b servo, unit) sem" where
  "set_joint_target now q =
     modS (\<lambda>s. s\<lparr>sv_cartesian := False, sv_chunk := None, sv_target_q := Some q, sv_cmd_stamp := now\<rparr>)"

definition enqueue_chunk :: "'b backend \<Rightarrow> real \<Rightarrow> chunk \<Rightarrow> ('b servo, unit) sem" where
  "enqueue_chunk B now c =
     bindS (read_backend B) (\<lambda>st.
     bindS (liftS (for_execution c (st_tcp_pose st))) (\<lambda>c'.
     bindS (getS (\<lambda>s. mk_cart_interp c' (st_tcp_pose st) (sv_hz s)
                        (Some (p_max_linear_speed (f_p (r_filter (sv_robot s)))))
                        (Some (p_max_angular_speed (f_p (r_filter (sv_robot s))))))) (\<lambda>i.
     bindS (liftS i) (\<lambda>interp.
       modS (\<lambda>s. s\<lparr>sv_cartesian := True,
              sv_gens := (sv_gens s)(sv_next_gen s := interp_iter interp),
              sv_chunk := Some (sv_next_gen s), sv_next_gen := Suc (sv_next_gen s),
              sv_cmd_stamp := now\<rparr>)))))"

section \<open>Introspection and lifecycle\<close>

definition servo_get_state :: "'b backend \<Rightarrow> ('b servo, robot_state) sem" where
  "servo_get_state B =
     bindS (getS sv_latest_state) (\<lambda>base.
     bindS (case base of None \<Rightarrow> read_backend B | Some st \<Rightarrow> retS st) (\<lambda>st.
     getS (\<lambda>s. st\<lparr>st_loop_period_ms := ls_period_ms (sv_stats s),
               st_loop_jitter_us := ls_jitter_us (sv_stats s),
               st_missed_cycles := ls_missed_cycles (sv_stats s),
               st_command_latency_ms := ls_command_age_ms (sv_stats s),
               st_safety_status := ls_last_status (sv_stats s),
               st_stop_reason := ls_last_stop_reason (sv_stats s)\<rparr>)))"

definition servo_start :: "'b backend \<Rightarrow> real \<Rightarrow> ('b servo, unit) sem" where
  "servo_start B now =
     bindS (getS sv_running) (\<lambda>running.
       if running then retS ()
       else bindS (read_backend B) (\<lambda>st.
            bindS (if is_cartesian (st_control_mode st) then retS st
                   else thenS (onR (start_cartesian_impedance B None False None None)) (read_backend B)) (\<lambda>st.
            thenS (onR (modS (\<lambda>r. r\<lparr>r_filter := reset (Some st) None None (r_filter r)\<rparr>)))
              (modS (\<lambda>s. s\<lparr>sv_target_pose := Some (st_tcp_pose st), sv_target_q := Some (st_q st),
                     sv_cmd_stamp := now, sv_running := True, sv_thread := True\<rparr>)))))"

text \<open>The join of the thread ends the ticks; the final stop follows it.\<close>

definition servo_stop :: "'b backend \<Rightarrow> ('b servo, unit) sem" where
  "servo_stop B = thenS (modS (\<lambda>s. s\<lparr>sv_running := False, sv_thread := False\<rparr>)) (onR (onB (bk_stop B)))"

definition servo_alive :: "'b servo \<Rightarrow> bool" where
  "servo_alive s = (sv_running s \<and> sv_thread s)"

definition ensure_stream_mode :: "'b backend \<Rightarrow> robot_state \<Rightarrow> bool \<Rightarrow> ('b servo, unit) sem" where
  "ensure_stream_mode B st cartesian =
     (if cartesian
      then (if \<not> is_cartesian (st_control_mode st)
            then onR (start_cartesian_impedance B None False None None) else retS ())
      else (if is_cartesian (st_control_mode st) \<or> st_control_mode st = IDLE
            then onR (start_joint_impedance B None False) else retS ()))"

section \<open>The tick, in its critical sections\<close>

text \<open>
  Read the state, take the iterator and pull one setpoint from it; an exception of the generator
  ends it and escapes.
\<close>

datatype pulled = NoChunk | Exhausted | Pulled setpoint

definition pull :: "('b servo, pulled) sem" where
  "pull =
     bindS (getS sv_chunk) (\<lambda>citer.
       case citer of
         None \<Rightarrow> retS NoChunk
       | Some i \<Rightarrow>
           bindS (getS (\<lambda>s. sv_gens s i)) (\<lambda>gen.
             case gen of
               [] \<Rightarrow> retS Exhausted
             | Inr sp # rest \<Rightarrow> thenS (modS (\<lambda>s. s\<lparr>sv_gens := (sv_gens s)(i := rest)\<rparr>)) (retS (Pulled sp))
             | Inl e # rest \<Rightarrow> thenS (modS (\<lambda>s. s\<lparr>sv_gens := (sv_gens s)(i := [])\<rparr>)) (raiseS e)))"

definition pull_phase :: "'b backend \<Rightarrow> real \<Rightarrow> ('b servo, robot_state \<times> real \<times> pulled) sem" where
  "pull_phase B now =
     bindS (read_backend B) (\<lambda>st.
     thenS (modS (\<lambda>s. s\<lparr>sv_latest_state := Some st\<rparr>))
       (bindS pull (\<lambda>p. retS (st, (now - st_stamp st) * 1000, p))))"

definition store_phase :: "real \<Rightarrow> pulled \<Rightarrow> ('b servo, unit) sem" where
  "store_phase now p =
     (case p of
        NoChunk \<Rightarrow> retS ()
      | Exhausted \<Rightarrow> modS (\<lambda>s. s\<lparr>sv_chunk := None\<rparr>)
      | Pulled sp \<Rightarrow> modS (\<lambda>s. s\<lparr>sv_cartesian := True, sv_target_pose := Some (sp_pose sp),
            sv_target_gripper := (case sp_grip sp of Some g \<Rightarrow> Some g | None \<Rightarrow> sv_target_gripper s),
            sv_cmd_stamp := now\<rparr>))"

record snapshot =
  sn_state :: robot_state
  sn_state_age_ms :: real
  sn_cartesian :: bool
  sn_target_pose :: "pose option"
  sn_target_q :: "real list option"
  sn_gripper :: "gripper_command option"
  sn_age :: real

definition snapshot_phase :: "robot_state \<Rightarrow> real \<Rightarrow> real \<Rightarrow> ('b servo, snapshot) sem" where
  "snapshot_phase st state_age_ms now =
     bindS (getS (\<lambda>s. \<lparr>sn_state = st, sn_state_age_ms = state_age_ms, sn_cartesian = sv_cartesian s,
              sn_target_pose = sv_target_pose s, sn_target_q = sv_target_q s,
              sn_gripper = sv_target_gripper s, sn_age = now - sv_cmd_stamp s\<rparr>)) (\<lambda>sn.
     thenS (upd_stats (\<lambda>x. x\<lparr>ls_command_age_ms := sn_age sn * 1000\<rparr>)) (retS sn))"

definition stop_with :: "'b backend \<Rightarrow> safety_status \<Rightarrow> stop_reason \<Rightarrow> ('b servo, unit) sem" where
  "stop_with B status reason =
     thenS (onR (onB (bk_stop B))) (upd_stats (\<lambda>x. x\<lparr>ls_last_status := status, ls_last_stop_reason := reason\<rparr>))"

definition hold_position :: "'b backend \<Rightarrow> snapshot \<Rightarrow> ('b servo, unit) sem" where
  "hold_position B sn =
     thenS (upd_stats (\<lambda>x. x\<lparr>ls_last_status := HOLDING\<rparr>))
    (thenS (onR (modS (\<lambda>r. r\<lparr>r_filter := reset (Some (sn_state sn)) None None (r_filter r)\<rparr>)))
    (thenS (ensure_stream_mode B (sn_state sn) (sn_cartesian sn))
       (if sn_cartesian sn then onR (onB (bk_stream_cartesian B (st_tcp_pose (sn_state sn)) None))
        else onR (onB (bk_stream_joint B (st_q (sn_state sn)))))))"

definition note_accepted :: "safety_result \<Rightarrow> ('b servo, unit) sem" where
  "note_accepted sr =
     upd_stats (\<lambda>x. x\<lparr>ls_last_clipped := sr_clipped sr,
        ls_last_status := (if sr_clipped sr then CLIPPED else OK),
        ls_last_stop_reason := primary_clip_reason sr\<rparr>)"

definition chase_pose :: "'b backend \<Rightarrow> snapshot \<Rightarrow> pose \<Rightarrow> ('b servo, unit) sem" where
  "chase_pose B sn target =
     bindS (onR (onF (filter_cartesian target (sn_state sn) None))) (\<lambda>sr.
       case sr_pose sr of
         Some p \<Rightarrow>
           (if \<not> sr_ok sr then stop_with B STOPPED (sr_reason sr)
            else thenS (ensure_stream_mode B (sn_state sn) True)
                (thenS (onR (onB (bk_stream_cartesian B p None)))
                (thenS (case sn_gripper sn of
                          None \<Rightarrow> retS ()
                        | Some g \<Rightarrow> thenS (onR (onB (bk_move_gripper B g)))
                                     (modS (\<lambda>s. s\<lparr>sv_target_gripper := None\<rparr>)))
                   (note_accepted sr))))
       | None \<Rightarrow> stop_with B STOPPED (sr_reason sr))"

definition chase_joint :: "'b backend \<Rightarrow> snapshot \<Rightarrow> real list \<Rightarrow> ('b servo, unit) sem" where
  "chase_joint B sn target =
     bindS (onR (onF (filter_joint target (sn_state sn)))) (\<lambda>sr.
       case sr_q sr of
         Some q \<Rightarrow>
           (if \<not> sr_ok sr then stop_with B STOPPED (sr_reason sr)
            else thenS (ensure_stream_mode B (sn_state sn) False)
                (thenS (onR (onB (bk_stream_joint B q))) (note_accepted sr)))
       | None \<Rightarrow> stop_with B STOPPED (sr_reason sr))"

text \<open>The fault gate and the decide-and-write section under the writer lock.\<close>

definition act_phase :: "'b backend \<Rightarrow> snapshot \<Rightarrow> ('b servo, unit) sem" where
  "act_phase B sn =
     bindS (onR (onB (bk_in_fault B))) (\<lambda>faulted.
     bindS (getS (\<lambda>s. r_filter (sv_robot s))) (\<lambda>f.
       (let p = f_p f;
            stale = p_command_timeout_ms p / 1000 < sn_age sn;
            state_stale = (\<not> sr_ok (check_state_age f (sn_state_age_ms sn)))
        in if faulted then stop_with B FAULT BACKEND_FAULT
           else if state_stale then stop_with B STOPPED STALE_STATE
           else if stale \<and> p_stop_on_stale_command p
           then (case p_hold_timeout_ms p of
                   Some h \<Rightarrow> (if h / 1000 < sn_age sn then stop_with B STOPPED STALE_COMMAND
                              else hold_position B sn)
                 | None \<Rightarrow> hold_position B sn)
           else if sn_cartesian sn
           then (case sn_target_pose sn of Some t \<Rightarrow> chase_pose B sn t | None \<Rightarrow> retS ())
           else (case sn_target_q sn of Some t \<Rightarrow> chase_joint B sn t | None \<Rightarrow> retS ()))))"

text \<open>The diagnostics of a tick of \<open>elapsed\<close> seconds since the last; \<open>overran\<close>: no time left to sleep.\<close>

definition diagnostics :: "real \<Rightarrow> bool \<Rightarrow> ('b servo, unit) sem" where
  "diagnostics elapsed overran =
     bindS (getS sv_dt) (\<lambda>dt.
       upd_stats (\<lambda>x. x\<lparr>ls_period_ms := elapsed * 1000, ls_jitter_us := \<bar>elapsed - dt\<bar> * 10 ^ 6,
         ls_missed_cycles := (if overran then ls_missed_cycles x + 1 else ls_missed_cycles x)\<rparr>))"

record tick_clock =
  tk_read :: real
  tk_store :: real
  tk_snapshot :: real
  tk_elapsed :: real
  tk_overran :: bool

definition servo_tick :: "'b backend \<Rightarrow> tick_clock \<Rightarrow> ('b servo, unit) sem" where
  "servo_tick B k =
     bindS (pull_phase B (tk_read k)) (\<lambda>(st, age, p).
     thenS (store_phase (tk_store k) p)
       (bindS (snapshot_phase st age (tk_snapshot k)) (\<lambda>sn.
        thenS (act_phase B sn) (diagnostics (tk_elapsed k) (tk_overran k)))))"

text \<open>An exception in the loop: the thread stops the backend, marks the fault and dies.\<close>

definition crash_loop :: "'b backend \<Rightarrow> ('b servo, unit) sem" where
  "crash_loop B =
     thenS (catchS (onR (onB (bk_stop B))) (\<lambda>_. retS ()))
    (thenS (upd_stats (\<lambda>x. x\<lparr>ls_last_status := FAULT, ls_last_stop_reason := BACKEND_FAULT\<rparr>))
       (modS (\<lambda>s. s\<lparr>sv_running := False, sv_thread := False\<rparr>)))"

section \<open>The loop among its clients\<close>

datatype client_op =
    SetPose real "real list" "gripper_command option"
  | SetJoint real "real list"
  | Enqueue real chunk
  | GetState

fun client :: "'b backend \<Rightarrow> client_op \<Rightarrow> ('b servo, unit) sem" where
  "client B (SetPose now pose gripper) = set_cartesian_target now pose gripper"
| "client B (SetJoint now q) = set_joint_target now q"
| "client B (Enqueue now c) = enqueue_chunk B now c"
| "client B GetState = thenS (servo_get_state B) (retS ())"

text \<open>Where the loop thread is, with its local variables.\<close>

datatype loop_pc =
    AtTop
  | AfterPull robot_state real pulled
  | AfterStore robot_state real
  | AfterSnapshot snapshot
  | Dead

definition resume :: "'b backend \<Rightarrow> 'a result \<times> 'b servo \<Rightarrow> ('a \<Rightarrow> loop_pc) \<Rightarrow> loop_pc \<times> 'b servo" where
  "resume B xs next =
     (case xs of (Inr x, s) \<Rightarrow> (next x, s) | (Inl e, s) \<Rightarrow> (Dead, snd (crash_loop B s)))"

fun loop_step :: "'b backend \<Rightarrow> tick_clock \<Rightarrow> loop_pc \<Rightarrow> 'b servo \<Rightarrow> loop_pc \<times> 'b servo" where
  "loop_step B k AtTop s =
     (if \<not> sv_running s then (Dead, s)
      else resume B (pull_phase B (tk_read k) s) (\<lambda>(st, age, p). AfterPull st age p))"
| "loop_step B k (AfterPull st age p) s = resume B (store_phase (tk_store k) p s) (\<lambda>_. AfterStore st age)"
| "loop_step B k (AfterStore st age) s = resume B (snapshot_phase st age (tk_snapshot k) s) AfterSnapshot"
| "loop_step B k (AfterSnapshot sn) s =
     resume B (thenS (act_phase B sn) (diagnostics (tk_elapsed k) (tk_overran k)) s) (\<lambda>_. AtTop)"
| "loop_step B k Dead s = (Dead, s)"

inductive servo_step :: "'b backend \<Rightarrow> loop_pc \<times> 'b servo \<Rightarrow> loop_pc \<times> 'b servo \<Rightarrow> bool"
  for B :: "'b backend" where
  client: "servo_step B (pc, s) (pc, snd (client B op s))"
| loop: "servo_step B (pc, s) (loop_step B k pc s)"

inductive_cases servo_stepE: "servo_step B (pc, s) c"

text \<open>The four sections in sequence are the tick.\<close>

lemma bindS_InrE:
  assumes "bindS m f s = (Inr y, s')"
  obtains x s1 where "m s = (Inr x, s1)" "f x s1 = (Inr y, s')"
  using assms by (auto simp: bindS_def split: prod.splits sum.splits)

lemma thenS_InrE:
  assumes "thenS m k s = (Inr y, s')"
  obtains x s1 where "m s = (Inr x, s1)" "k s1 = (Inr y, s')"
  using assms unfolding thenS_def by (rule bindS_InrE)

lemma tick_sections:
  assumes "sv_running s" "servo_tick B k s = (Inr (), s')"
  shows "\<exists>s1 s2 s3 st age p sn. loop_step B k AtTop s = (AfterPull st age p, s1)
    \<and> loop_step B k (AfterPull st age p) s1 = (AfterStore st age, s2)
    \<and> loop_step B k (AfterStore st age) s2 = (AfterSnapshot sn, s3)
    \<and> loop_step B k (AfterSnapshot sn) s3 = (AtTop, s')"
proof -
  obtain x s1 where 1: "pull_phase B (tk_read k) s = (Inr x, s1)"
    and r1: "(case x of (st, age, p) \<Rightarrow> thenS (store_phase (tk_store k) p)
       (bindS (snapshot_phase st age (tk_snapshot k)) (\<lambda>sn.
        thenS (act_phase B sn) (diagnostics (tk_elapsed k) (tk_overran k))))) s1 = (Inr (), s')"
    using assms(2) unfolding servo_tick_def by (rule bindS_InrE)
  obtain st age p where x: "x = (st, age, p)" by (cases x)
  obtain u s2 where 2: "store_phase (tk_store k) p s1 = (Inr u, s2)"
    and r2: "bindS (snapshot_phase st age (tk_snapshot k)) (\<lambda>sn.
        thenS (act_phase B sn) (diagnostics (tk_elapsed k) (tk_overran k))) s2 = (Inr (), s')"
    using r1 unfolding x prod.case by (rule thenS_InrE)
  obtain sn s3 where 3: "snapshot_phase st age (tk_snapshot k) s2 = (Inr sn, s3)"
    and 4: "thenS (act_phase B sn) (diagnostics (tk_elapsed k) (tk_overran k)) s3 = (Inr (), s')"
    using r2 by (rule bindS_InrE)
  show ?thesis
    using assms(1) 1 2 3 4 x
    by (intro exI [of _ s1] exI [of _ s2] exI [of _ s3] exI [of _ st] exI [of _ age] exI [of _ p] exI [of _ sn])
      (simp add: resume_def)
qed

section \<open>Streams stay bounded\<close>

lemma wpS_onR [wp_simps]:
  "wpS (onR m) Q E s = wpS m (\<lambda>x r'. Q x (s\<lparr>sv_robot := r'\<rparr>)) (\<lambda>e r'. E e (s\<lparr>sv_robot := r'\<rparr>)) (sv_robot s)"
  by (simp add: wpS_def onR_def split: prod.splits sum.splits)

text \<open>A pose with a known origin: measured, or the last one streamed.\<close>

definition origin :: "command list \<Rightarrow> pose \<Rightarrow> bool" where
  "origin ev c \<longleftrightarrow> (\<exists>st. CRead st \<in> set ev \<and> c = st_tcp_pose st) \<or> (streamed ev \<noteq> [] \<and> c = last (streamed ev))"

definition bounded_moves :: "safety_filter \<Rightarrow> command list \<Rightarrow> bool" where
  "bounded_moves f ev \<longleftrightarrow> (\<forall>as p w bs. ev = as @ CStream p w # bs \<longrightarrow>
     (\<exists>st. CRead st \<in> set as \<and> p = st_tcp_pose st) \<or> (\<exists>c. origin as c \<and> cart_near f c p))"

lemma bounded_Nil [simp]: "bounded_moves f []"
  by (simp add: bounded_moves_def)

lemma bounded_snoc:
  assumes "bounded_moves f ev"
    and "\<And>p w. c = CStream p w \<Longrightarrow> (\<exists>st. CRead st \<in> set ev \<and> p = st_tcp_pose st) \<or> (\<exists>a. origin ev a \<and> cart_near f a p)"
  shows "bounded_moves f (ev @ [c])"
  unfolding bounded_moves_def
proof (intro allI impI)
  fix as p w bs
  assume "ev @ [c] = as @ CStream p w # bs"
  then show "(\<exists>st. CRead st \<in> set as \<and> p = st_tcp_pose st) \<or> (\<exists>c. origin as c \<and> cart_near f c p)"
    using assms by (cases bs rule: rev_cases) (auto simp: bounded_moves_def)
qed

lemma bounded_append:
  assumes "bounded_moves f ev" "list_all no_stream cs"
  shows "bounded_moves f (ev @ cs)"
  using assms(2)
proof (induction cs rule: rev_induct)
  case (snoc c cs)
  then have "bounded_moves f ((ev @ cs) @ [c])" by (intro bounded_snoc) auto
  then show ?case by simp
qed (simp add: assms(1))

lemma origin_append: "origin ev c \<Longrightarrow> list_all no_stream cs \<Longrightarrow> origin (ev @ cs) c"
  using streamed_calm by (auto simp: origin_def)

text \<open>The invariant of the robot under the loop; \<open>R\<close> are states it has read since \<open>base\<close>.\<close>

definition loop_inv ::
  "command list \<Rightarrow> safety_filter \<Rightarrow> robot_state set \<Rightarrow> 'b trace robot \<Rightarrow> bool" where
  "loop_inv base f0 R r \<longleftrightarrow> cart_inv (r_filter r) \<and> f_p (r_filter r) = f_p f0 \<and> f_dt (r_filter r) = f_dt f0
     \<and> (\<exists>ev c. cmds r = base @ ev \<and> bounded_moves f0 ev \<and> (\<forall>st \<in> R. CRead st \<in> set ev)
          \<and> f_prev_pose (r_filter r) = Some c \<and> origin ev c)"

definition moves_ok :: "command list \<Rightarrow> safety_filter \<Rightarrow> 'b trace robot \<Rightarrow> bool" where
  "moves_ok base f0 r \<longleftrightarrow> (\<exists>ev. cmds r = base @ ev \<and> bounded_moves f0 ev)"

lemma loop_moves: "loop_inv base f0 R r \<Longrightarrow> moves_ok base f0 r"
  by (auto simp: loop_inv_def moves_ok_def)

lemma loop_calm:
  assumes "loop_inv base f0 R r" "calmS no_stream m" "m r = (x, r')"
  shows "loop_inv base f0 R r'"
proof -
  obtain ev c where ev: "cmds r = base @ ev" "bounded_moves f0 ev" "\<forall>st \<in> R. CRead st \<in> set ev"
      "f_prev_pose (r_filter r) = Some c" "origin ev c"
    using assms(1) by (auto simp: loop_inv_def)
  obtain cs where cs: "cmds r' = cmds r @ cs" "list_all no_stream cs" and f: "r_filter r' = r_filter r"
    using calmS_D [OF assms(2,3)] by auto
  show ?thesis
    using assms(1) ev cs f bounded_append [OF ev(2) cs(2)] origin_append [OF ev(5) cs(2)]
    unfolding loop_inv_def by (intro conjI exI [of _ "ev @ cs"] exI [of _ c]) auto
qed

lemma wp_loop_calm:
  assumes "calmS no_stream m" "loop_inv base f0 R r"
  shows "wpS m (\<lambda>_. loop_inv base f0 R) (\<lambda>_. loop_inv base f0 R) r"
  by (rule wpS_I) (rule loop_calm [OF assms(2,1)], assumption)+

lemma moves_calm:
  assumes "moves_ok base f0 r" "frameS view no_stream m" "m r = (x, r')"
  shows "moves_ok base f0 r'"
proof -
  obtain ev where ev: "cmds r = base @ ev" "bounded_moves f0 ev" using assms(1) by (auto simp: moves_ok_def)
  obtain cs where cs: "cmds r' = cmds r @ cs" "list_all no_stream cs" using frameS_D(2) [OF assms(2,3)] by auto
  show ?thesis
    unfolding moves_ok_def using ev cs bounded_append [OF ev(2) cs(2)] by (intro exI [of _ "ev @ cs"]) simp
qed

text \<open>Reading a state; re-anchoring on it; streaming it; streaming an accepted setpoint.\<close>

lemma loop_read:
  assumes "loop_inv base f0 R r" "cmds r' = cmds r @ [CRead st]" "r_filter r' = r_filter r"
  shows "loop_inv base f0 (insert st R) r'"
proof -
  obtain ev c where ev: "cmds r = base @ ev" "bounded_moves f0 ev" "\<forall>st \<in> R. CRead st \<in> set ev"
      "f_prev_pose (r_filter r) = Some c" "origin ev c"
    using assms(1) by (auto simp: loop_inv_def)
  then show ?thesis
    using assms bounded_append [of f0 ev "[CRead st]"] origin_append [of ev c "[CRead st]"]
    unfolding loop_inv_def by (intro conjI exI [of _ "ev @ [CRead st]"] exI [of _ c]) auto
qed

lemma loop_reset:
  assumes "loop_inv base f0 R r" "st \<in> R"
  shows "loop_inv base f0 R (r\<lparr>r_filter := reset (Some st) None None (r_filter r)\<rparr>)"
proof -
  obtain ev where ev: "cmds r = base @ ev" "bounded_moves f0 ev" "\<forall>st \<in> R. CRead st \<in> set ev"
    using assms(1) by (auto simp: loop_inv_def)
  have "cart_inv (r_filter r)" using assms(1) by (simp add: loop_inv_def)
  then have "cart_inv (reset (Some st) None None (r_filter r))"
    by (intro reset_cart_inv) (simp_all add: cart_inv_def)
  moreover have "origin ev (st_tcp_pose st)" using ev(3) assms(2) by (auto simp: origin_def)
  ultimately show ?thesis
    using assms ev unfolding loop_inv_def
    by (intro conjI exI [of _ ev] exI [of _ "st_tcp_pose st"]) (simp_all add: cmds_def reset_def)
qed

lemma loop_measured:
  assumes "loop_inv base f0 R r" "st \<in> R" "cmds r' = cmds r @ [CStream (st_tcp_pose st) w]"
    and "r_filter r' = r_filter r" "f_prev_pose (r_filter r) = Some (st_tcp_pose st)"
  shows "loop_inv base f0 R r'"
proof -
  obtain ev where ev: "cmds r = base @ ev" "bounded_moves f0 ev" "\<forall>st \<in> R. CRead st \<in> set ev"
    using assms(1) by (auto simp: loop_inv_def)
  let ?ev = "ev @ [CStream (st_tcp_pose st) w]"
  have "bounded_moves f0 ?ev" using ev(2,3) assms(2) by (intro bounded_snoc) auto
  moreover have "origin ?ev (st_tcp_pose st)" by (simp add: origin_def)
  ultimately show ?thesis
    using assms ev unfolding loop_inv_def
    by (intro conjI exI [of _ ?ev] exI [of _ "st_tcp_pose st"]) auto
qed

text \<open>A setpoint accepted by the filter and not streamed yet.\<close>

definition pend_inv ::
  "command list \<Rightarrow> safety_filter \<Rightarrow> robot_state set \<Rightarrow> pose \<Rightarrow> 'b trace robot \<Rightarrow> bool" where
  "pend_inv base f0 R p r \<longleftrightarrow> cart_inv (r_filter r) \<and> f_p (r_filter r) = f_p f0 \<and> f_dt (r_filter r) = f_dt f0
     \<and> f_prev_pose (r_filter r) = Some p
     \<and> (\<exists>ev c. cmds r = base @ ev \<and> bounded_moves f0 ev \<and> (\<forall>st \<in> R. CRead st \<in> set ev)
          \<and> origin ev c \<and> cart_near f0 c p)"

lemma pend_moves: "pend_inv base f0 R p r \<Longrightarrow> moves_ok base f0 r"
  by (auto simp: pend_inv_def moves_ok_def)

lemma loop_accept:
  assumes inv: "loop_inv base f0 R r"
    and fc: "filter_cartesian t st None (r_filter r) = (Inr sr, f')" "sr_ok sr" "sr_pose sr = Some p"
  shows "pend_inv base f0 R p (r\<lparr>r_filter := f'\<rparr>)"
proof -
  obtain ev c where ev: "cmds r = base @ ev" "bounded_moves f0 ev" "\<forall>st \<in> R. CRead st \<in> set ev"
      "f_prev_pose (r_filter r) = Some c" "origin ev c"
    and ci: "cart_inv (r_filter r)" "f_p (r_filter r) = f_p f0" "f_dt (r_filter r) = f_dt f0"
    using inv by (auto simp: loop_inv_def)
  note F = cart_step_facts [OF ci(1) fc]
  have "cart_near f0 c p" using F(3) anchor_prev [OF ev(4)] cart_rel_params [OF ci(2,3)] by simp
  then show ?thesis
    using ev F(1,2) ci filter_cartesian_params(1,2) [OF fc(1)] unfolding pend_inv_def
    by (intro conjI exI [of _ ev] exI [of _ c]) (simp_all add: cmds_def)
qed

lemma pend_calm:
  assumes "pend_inv base f0 R p r" "calmS no_stream m" "m r = (x, r')"
  shows "pend_inv base f0 R p r'"
proof -
  obtain ev c where ev: "cmds r = base @ ev" "bounded_moves f0 ev" "\<forall>st \<in> R. CRead st \<in> set ev"
      "origin ev c" "cart_near f0 c p"
    using assms(1) by (auto simp: pend_inv_def)
  obtain cs where cs: "cmds r' = cmds r @ cs" "list_all no_stream cs" and f: "r_filter r' = r_filter r"
    using calmS_D [OF assms(2,3)] by auto
  show ?thesis
    using assms(1) ev cs f bounded_append [OF ev(2) cs(2)] origin_append [OF ev(4) cs(2)]
    unfolding pend_inv_def by (intro conjI exI [of _ "ev @ cs"] exI [of _ c]) auto
qed

lemma pend_stream:
  assumes "pend_inv base f0 R p r" "cmds r' = cmds r @ [CStream p w]" "r_filter r' = r_filter r"
  shows "loop_inv base f0 R r'"
proof -
  obtain ev c where ev: "cmds r = base @ ev" "bounded_moves f0 ev" "\<forall>st \<in> R. CRead st \<in> set ev"
      "origin ev c" "cart_near f0 c p"
    using assms(1) by (auto simp: pend_inv_def)
  let ?ev = "ev @ [CStream p w]"
  have "bounded_moves f0 ?ev" using ev(2,4,5) by (intro bounded_snoc) auto
  moreover have "origin ?ev p" by (simp add: origin_def)
  ultimately show ?thesis
    using assms ev unfolding loop_inv_def pend_inv_def
    by (intro conjI exI [of _ ?ev] exI [of _ p]) auto
qed

section \<open>The sections keep the invariant\<close>

lemma wp_weak: "wpS m (\<lambda>_. P) (\<lambda>_. P) s \<Longrightarrow> (\<And>s. P s \<Longrightarrow> P' s) \<Longrightarrow> wpS m (\<lambda>_. P) (\<lambda>_. P') s"
  by (erule wpS_mono)

lemma calm_modes:
  "calmS no_stream (start_cartesian_impedance (traced B) i rt fc nq)"
  "calmS no_stream (start_joint_impedance (traced B) ji rt)"
  unfolding start_cartesian_impedance_def start_joint_impedance_def
  by (intro frameS_bind frameS_base calm_ops; simp)+

lemma wp_ensure:
  fixes s :: "'b trace servo"
  assumes "P (sv_robot s)"
    and "\<And>m x r'. calmS no_stream (m :: ('b trace robot, unit) sem) \<Longrightarrow> m (sv_robot s) = (x, r') \<Longrightarrow> P r'"
  shows "wpS (ensure_stream_mode (traced B) st b) (\<lambda>_ s'. P (sv_robot s')) (\<lambda>_ s'. P (sv_robot s')) s"
proof -
  have "wpS m (\<lambda>_. P) (\<lambda>_. P) (sv_robot s)" if "calmS no_stream m" for m :: "('b trace robot, unit) sem"
    by (rule wpS_I) (rule assms(2) [OF that], assumption)+
  note W = this [OF calm_modes(1)] this [OF calm_modes(2)]
  show ?thesis
    using assms(1) by (simp add: ensure_stream_mode_def wp_simps W del: is_cartesian_simps)
qed

lemma wp_stop_with:
  assumes "loop_inv base f0 R (sv_robot s)"
  shows "wpS (stop_with (traced B) a b) (\<lambda>_ s'. loop_inv base f0 R (sv_robot s')) (\<lambda>_ s'. loop_inv base f0 R (sv_robot s')) s"
  using wp_loop_calm [OF calm_ops(3) assms, of B] by (simp add: stop_with_def upd_stats_def wp_simps)

lemma stream_call:
  "onB (bk_stream_cartesian (traced B) p w) r = (x, r') \<Longrightarrow> cmds r' = cmds r @ [CStream p w] \<and> r_filter r' = r_filter r"
  by (auto simp: onB_def traced_def record_cmd_def cmds_def split: prod.splits)

lemma wp_hold:
  assumes inv: "loop_inv base f0 R (sv_robot s)" and st: "sn_state sn \<in> R"
  shows "wpS (hold_position (traced B) sn) (\<lambda>_ s'. loop_inv base f0 R (sv_robot s'))
    (\<lambda>_ s'. loop_inv base f0 R (sv_robot s')) s"
proof -
  let ?st = "sn_state sn"
  let ?P = "\<lambda>r. loop_inv base f0 R r \<and> f_prev_pose (r_filter r) = Some (st_tcp_pose ?st)"
  let ?s0 = "s\<lparr>sv_stats := (sv_stats s)\<lparr>ls_last_status := HOLDING\<rparr>\<rparr>"
  let ?s1 = "?s0\<lparr>sv_robot := (sv_robot ?s0)\<lparr>r_filter := reset (Some ?st) None None (r_filter (sv_robot ?s0))\<rparr>\<rparr>"
  have "loop_inv base f0 R (sv_robot ?s1)" using loop_reset [OF inv st] by simp
  moreover have "f_prev_pose (r_filter (sv_robot ?s1)) = Some (st_tcp_pose ?st)" by (simp add: reset_def)
  ultimately have P: "?P (sv_robot ?s1)" by blast
  have E: "wpS (ensure_stream_mode (traced B) ?st (sn_cartesian sn)) (\<lambda>_ s'. ?P (sv_robot s')) (\<lambda>_ s'. ?P (sv_robot s')) ?s1"
  proof (rule wp_ensure [where P = ?P])
    show "?P (sv_robot ?s1)" by (rule P)
  next
    fix m :: "('a trace robot, unit) sem" and x r'
    assume "calmS no_stream m" "m (sv_robot ?s1) = (x, r')"
    then show "?P r'"
      using loop_calm [OF conjunct1 [OF P]] calmS_D(1) [of no_stream m "sv_robot ?s1" x r'] P by auto
  qed
  have J: "wpS (onB (bk_stream_joint (traced B) q)) (\<lambda>_. loop_inv base f0 R) (\<lambda>_. loop_inv base f0 R) r"
    if "?P r" for q r
    using that by (intro wp_loop_calm calm_ops) auto
  have C: "wpS (onB (bk_stream_cartesian (traced B) (st_tcp_pose ?st) None)) (\<lambda>_. loop_inv base f0 R) (\<lambda>_. loop_inv base f0 R) r"
    if "?P r" for r
    by (rule wpS_I) (use that stream_call loop_measured [OF _ st] in blast)+
  show ?thesis
    unfolding hold_position_def upd_stats_def wp_simps
    by (rule wpS_mono [OF E]) (auto simp: wp_simps C J)
qed

lemma wp_chase_pose:
  assumes inv: "loop_inv base f0 R (sv_robot s)"
  shows "wpS (chase_pose (traced B) sn t) (\<lambda>_ s'. loop_inv base f0 R (sv_robot s'))
    (\<lambda>_ s'. moves_ok base f0 (sv_robot s')) s"
proof -
  let ?Q = "\<lambda>_ s'. loop_inv base f0 R (sv_robot s')" and ?E = "\<lambda>_ s'. moves_ok base f0 (sv_robot s')"
  obtain a f' where fc: "filter_cartesian t (sn_state sn) None (r_filter (sv_robot s)) = (a, f')"
    by (cases "filter_cartesian t (sn_state sn) None (r_filter (sv_robot s))")
  show ?thesis
  proof (cases "\<exists>sr. a = Inr sr \<and> sr_ok sr")
    case True
    then obtain sr where sr: "a = Inr sr" "sr_ok sr" by blast
    obtain p where p: "sr_pose sr = Some p"
      using filter_cartesian_prev(2) [OF fc [unfolded sr(1)] sr(2)] by blast
    let ?s1 = "s\<lparr>sv_robot := (sv_robot s)\<lparr>r_filter := f'\<rparr>\<rparr>"
    have P: "pend_inv base f0 R p (sv_robot ?s1)"
      using loop_accept [OF inv fc [unfolded sr(1)] sr(2) p] by simp
    have E: "wpS (ensure_stream_mode (traced B) (sn_state sn) True) (\<lambda>_ s'. pend_inv base f0 R p (sv_robot s'))
        (\<lambda>_ s'. pend_inv base f0 R p (sv_robot s')) ?s1"
      by (rule wp_ensure [where P = "pend_inv base f0 R p"]) (use P pend_calm in blast)+
    have C: "wpS (onB (bk_stream_cartesian (traced B) p None)) (\<lambda>_. loop_inv base f0 R) (\<lambda>_. loop_inv base f0 R) r"
      if "pend_inv base f0 R p r" for r
      by (rule wpS_I) (use that stream_call pend_stream in blast)+
    have G: "wpS (onB (bk_move_gripper (traced B) g)) (\<lambda>_. loop_inv base f0 R) (\<lambda>_. loop_inv base f0 R) r"
      if "loop_inv base f0 R r" for g r
      using that by (intro wp_loop_calm calm_ops) auto
    define rest where "rest = thenS (onR (onB (bk_stream_cartesian (traced B) p None)))
                (thenS (case sn_gripper sn of
                          None \<Rightarrow> retS ()
                        | Some g \<Rightarrow> thenS (onR (onB (bk_move_gripper (traced B) g)))
                                     (modS (\<lambda>s. s\<lparr>sv_target_gripper := None\<rparr>)))
                   (note_accepted sr))"
    have rest: "wpS rest ?Q ?E s2" if "pend_inv base f0 R p (sv_robot s2)" for s2
      unfolding rest_def note_accepted_def upd_stats_def wp_simps
      by (rule wpS_mono [OF C [OF that]])
        (auto simp: wp_simps loop_moves split: option.splits intro!: wpS_mono [OF G])
    have "wpS (thenS (ensure_stream_mode (traced B) (sn_state sn) True) rest) ?Q ?E ?s1"
      unfolding wpS_then by (rule wpS_mono [OF E rest pend_moves])
    moreover have "chase_pose (traced B) sn t s = thenS (ensure_stream_mode (traced B) (sn_state sn) True) rest ?s1"
      using fc sr p by (simp add: chase_pose_def bindS_def onR_def onF_def rest_def)
    ultimately show ?thesis by (simp add: wpS_def)
  next
    case False
    then have "f' = r_filter (sv_robot s)" by (intro filter_cartesian_rejected [OF fc]) auto
    then have same: "s\<lparr>sv_robot := (sv_robot s)\<lparr>r_filter := f'\<rparr>\<rparr> = s" "(sv_robot s)\<lparr>r_filter := f'\<rparr> = sv_robot s" by simp_all
    have stop: "wpS (stop_with (traced B) x y) ?Q ?E s" for x y
      using wpS_mono [OF wp_stop_with [OF inv], of ?Q ?E B x y] loop_moves by blast
    show ?thesis
      unfolding chase_pose_def wpS_bind wpS_onR
      using fc False same stop loop_moves [OF inv]
      by (auto simp: wpS_def [of "onF m" for m] onF_def split: sum.splits option.splits)
  qed
qed

lemma loop_joint:
  assumes "loop_inv base f0 R r" "filter_joint t st (r_filter r) = (a, f')"
  shows "loop_inv base f0 R (r\<lparr>r_filter := f'\<rparr>)"
proof -
  have "\<exists>q. f' = (r_filter r)\<lparr>f_prev_q := q\<rparr>"
    using assms(2) by (auto simp: filter_joint_def split: sum.splits prod.splits intro: exI [of _ "f_prev_q (r_filter r)"])
  then show ?thesis using assms(1) by (auto simp: loop_inv_def cart_inv_def cmds_def)
qed

lemma wp_chase_joint:
  assumes inv: "loop_inv base f0 R (sv_robot s)"
  shows "wpS (chase_joint (traced B) sn t) (\<lambda>_ s'. loop_inv base f0 R (sv_robot s'))
    (\<lambda>_ s'. loop_inv base f0 R (sv_robot s')) s"
proof -
  let ?Q = "\<lambda>_ s'. loop_inv base f0 R (sv_robot s')"
  obtain a f' where fj: "filter_joint t (sn_state sn) (r_filter (sv_robot s)) = (a, f')"
    by (cases "filter_joint t (sn_state sn) (r_filter (sv_robot s))")
  let ?s1 = "s\<lparr>sv_robot := (sv_robot s)\<lparr>r_filter := f'\<rparr>\<rparr>"
  have inv1: "loop_inv base f0 R (sv_robot ?s1)" using loop_joint [OF inv fj] by simp
  have E: "wpS (ensure_stream_mode (traced B) (sn_state sn) False) ?Q ?Q ?s1"
    by (rule wp_ensure [where P = "loop_inv base f0 R"]) (use inv1 loop_calm in blast)+
  have J: "wpS (onB (bk_stream_joint (traced B) q)) (\<lambda>_. loop_inv base f0 R) (\<lambda>_. loop_inv base f0 R) r"
    if "loop_inv base f0 R r" for q r
    using that by (intro wp_loop_calm calm_ops) auto
  have rest: "wpS (thenS (onR (onB (bk_stream_joint (traced B) q))) (note_accepted sr)) ?Q ?Q s2"
    if "loop_inv base f0 R (sv_robot s2)" for q sr s2
    unfolding note_accepted_def upd_stats_def wp_simps using J [OF that] by simp
  have all: "wpS (thenS (ensure_stream_mode (traced B) (sn_state sn) False)
      (thenS (onR (onB (bk_stream_joint (traced B) q))) (note_accepted sr))) ?Q ?Q ?s1" for q sr
    unfolding wpS_then [of "ensure_stream_mode X y z" for X y z] by (rule wpS_mono [OF E rest])
  have "onR (onF (filter_joint t (sn_state sn))) s = (a, ?s1)" using fj by (simp add: onR_def onF_def)
  then show ?thesis
    using inv1 all wp_stop_with [OF inv1] unfolding chase_joint_def wpS_bind
    by (cases a) (simp_all add: wpS_def [of "onR m" for m] split: option.splits)
qed

lemma wp_act:
  assumes inv: "loop_inv base f0 R (sv_robot s)" and st: "sn_state sn \<in> R"
  shows "wpS (act_phase (traced B) sn) (\<lambda>_ s'. loop_inv base f0 R (sv_robot s'))
    (\<lambda>_ s'. moves_ok base f0 (sv_robot s')) s"
proof -
  let ?Q = "\<lambda>_ s'. loop_inv base f0 R (sv_robot s')" and ?E = "\<lambda>_ s'. moves_ok base f0 (sv_robot s')"
  note weak = wpS_mono [where Q' = ?Q and E' = ?E]
  have decide: "wpS (act_phase_rest) ?Q ?E s1"
    if inv1: "loop_inv base f0 R (sv_robot s1)"
    and rest: "act_phase_rest = stop_with (traced B) x y \<or> act_phase_rest = hold_position (traced B) sn
      \<or> (\<exists>t. act_phase_rest = chase_pose (traced B) sn t) \<or> (\<exists>t. act_phase_rest = chase_joint (traced B) sn t)
      \<or> act_phase_rest = retS ()" for act_phase_rest x y and s1
    using rest
  proof (elim disjE exE)
    assume "act_phase_rest = stop_with (traced B) x y"
    then show ?thesis using weak [OF wp_stop_with [OF inv1]] loop_moves by blast
  next
    assume "act_phase_rest = hold_position (traced B) sn"
    then show ?thesis using weak [OF wp_hold [OF inv1 st]] loop_moves by blast
  next
    fix t assume "act_phase_rest = chase_pose (traced B) sn t"
    then show ?thesis using wp_chase_pose [OF inv1] by simp
  next
    fix t assume "act_phase_rest = chase_joint (traced B) sn t"
    then show ?thesis using weak [OF wp_chase_joint [OF inv1]] loop_moves by blast
  next
    assume "act_phase_rest = retS ()"
    then show ?thesis using inv1 by (simp add: wp_simps)
  qed
  have "wpS (onB (bk_in_fault (traced B))) (\<lambda>_. loop_inv base f0 R) (\<lambda>_. loop_inv base f0 R) (sv_robot s)"
    by (intro wp_loop_calm calm_ops inv)
  then have "wpS (onR (onB (bk_in_fault (traced B)))) ?Q ?E s"
    unfolding wpS_onR by (rule wpS_mono) (auto intro: loop_moves)
  then show ?thesis
    unfolding act_phase_def wpS_bind wpS_base
    by (rule wpS_mono) (auto simp: Let_def intro!: decide split: option.splits)
qed

section \<open>Every reachable configuration\<close>

fun pc_reads :: "loop_pc \<Rightarrow> robot_state set" where
  "pc_reads (AfterPull st age p) = {st}"
| "pc_reads (AfterStore st age) = {st}"
| "pc_reads (AfterSnapshot sn) = {sn_state sn}"
| "pc_reads _ = {}"

fun conf_inv :: "command list \<Rightarrow> safety_filter \<Rightarrow> loop_pc \<times> 'b trace servo \<Rightarrow> bool" where
  "conf_inv base f0 (pc, s) =
     (if pc = Dead then moves_ok base f0 (sv_robot s) else loop_inv base f0 (pc_reads pc) (sv_robot s))"

lemma loop_inv_mono: "loop_inv base f0 R r \<Longrightarrow> R' \<subseteq> R \<Longrightarrow> loop_inv base f0 R' r"
  by (auto simp: loop_inv_def)

lemma read_call:
  assumes "read_backend (traced B) s = (x, s')"
  shows "(\<exists>st. x = Inr st \<and> cmds (sv_robot s') = cmds (sv_robot s) @ [CRead st]) \<or>
      (\<exists>e. x = Inl e \<and> cmds (sv_robot s') = cmds (sv_robot s))"
    and "r_filter (sv_robot s') = r_filter (sv_robot s)"
  using assms
  by (auto simp: read_backend_def onR_def onB_def traced_def record_read_def cmds_def split: prod.splits sum.splits)

lemma client_calm:
  "\<exists>m :: ('b trace robot, robot_state) sem. calmS no_stream m
     \<and> sv_robot (snd (client (traced B) op s)) = snd (m (sv_robot s))"
proof -
  define r where "r = (onB (bk_read_state (traced B)) :: ('b trace robot, robot_state) sem)"
  have r: "calmS no_stream r" unfolding r_def by (intro calm_ops) simp
  have n: "calmS no_stream (raiseS KeyError :: ('b trace robot, robot_state) sem)" by (rule frameS_base)
  have "sv_robot (snd (client (traced B) op s)) = snd (r (sv_robot s))
      \<or> sv_robot (snd (client (traced B) op s)) = sv_robot s"
    by (cases op)
      (auto simp: set_cartesian_target_def set_joint_target_def enqueue_chunk_def servo_get_state_def
        read_backend_def onR_def r_def bindS_def thenS_def sem_simps split: prod.splits sum.splits option.splits)
  then show ?thesis using r n by (auto simp: raiseS_def)
qed

lemma client_inv: "conf_inv base f0 (pc, s) \<Longrightarrow> conf_inv base f0 (pc, snd (client (traced B) op s))"
proof -
  assume inv: "conf_inv base f0 (pc, s)"
  obtain m :: "('a trace robot, robot_state) sem" where m: "calmS no_stream m"
      "sv_robot (snd (client (traced B) op s)) = snd (m (sv_robot s))"
    using client_calm by blast
  obtain x r' where r': "m (sv_robot s) = (x, r')" by (cases "m (sv_robot s)")
  show ?thesis
    using inv m(2) r' loop_calm [OF _ m(1) r'] moves_calm [OF _ m(1) r'] by (simp split: if_splits)
qed

lemma crash_inv: "moves_ok base f0 (sv_robot s) \<Longrightarrow> moves_ok base f0 (sv_robot (snd (crash_loop (traced B) s)))"
proof -
  assume inv: "moves_ok base f0 (sv_robot s)"
  obtain x r' where r': "onB (bk_stop (traced B)) (sv_robot s) = (x, r')" by (cases "onB (bk_stop (traced B)) (sv_robot s)")
  have calm: "calmS no_stream (onB (bk_stop (traced B)))" by (intro calm_ops) simp
  have "moves_ok base f0 r'" using moves_calm [OF inv calm r'] .
  then show ?thesis
    using r' by (cases x) (simp_all add: crash_loop_def catchS_def thenS_def bindS_def onR_def upd_stats_def sem_simps)
qed

lemma resume_inv:
  assumes "wpS m (\<lambda>x s'. conf_inv base f0 (next x, s')) (\<lambda>_ s'. moves_ok base f0 (sv_robot s')) s"
  shows "conf_inv base f0 (resume (traced B) (m s) next)"
  using assms crash_inv by (auto simp: resume_def wpS_def split: prod.splits sum.splits)

lemma loop_step_inv:
  assumes "conf_inv base f0 (pc, s)"
  shows "conf_inv base f0 (loop_step (traced B) k pc s)"
proof (cases pc)
  case AtTop
  have inv: "loop_inv base f0 {} (sv_robot s)" using assms AtTop by simp
  have pulls: "wpS pull (\<lambda>p s'. sv_robot s' = sv_robot s2) (\<lambda>_ s'. sv_robot s' = sv_robot s2) s2" for s2 :: "'a trace servo"
    by (auto simp: pull_def wpS_def bindS_def thenS_def sem_simps split: prod.splits sum.splits option.splits list.splits)
  have "wpS (pull_phase (traced B) (tk_read k))
      (\<lambda>x s'. conf_inv base f0 ((case x of (st, age, p) \<Rightarrow> AfterPull st age p), s'))
      (\<lambda>_ s'. moves_ok base f0 (sv_robot s')) s"
    unfolding pull_phase_def wpS_bind [of "read_backend X" for X]
  proof (rule wpS_I)
    fix st s1
    assume r: "read_backend (traced B) s = (Inr st, s1)"
    have "loop_inv base f0 {st} (sv_robot s1)"
      using loop_read [OF inv] read_call [OF r] by auto
    then show "wpS (thenS (modS (\<lambda>s. s\<lparr>sv_latest_state := Some st\<rparr>))
        (bindS pull (\<lambda>p. retS (st, (tk_read k - st_stamp st) * 1000, p))))
        (\<lambda>x s'. conf_inv base f0 ((case x of (st, age, p) \<Rightarrow> AfterPull st age p), s'))
        (\<lambda>_ s'. moves_ok base f0 (sv_robot s')) s1"
      unfolding wpS_then wpS_modS wpS_bind
      by (intro wpS_mono [OF pulls]) (auto simp: wp_simps loop_moves)
  next
    fix e s1
    assume r: "read_backend (traced B) s = (Inl e, s1)"
    then show "moves_ok base f0 (sv_robot s1)"
      using loop_moves [OF inv] read_call [OF r] by (auto simp: moves_ok_def)
  qed
  from resume_inv [OF this] show ?thesis
    using loop_moves [OF inv] by (simp add: AtTop)
next
  case (AfterPull st age p)
  have "wpS (store_phase (tk_store k) p) (\<lambda>_ s'. sv_robot s' = sv_robot s) (\<lambda>_ _. False) s"
    by (auto simp: store_phase_def wp_simps split: pulled.splits)
  then have "wpS (store_phase (tk_store k) p) (\<lambda>_ s'. conf_inv base f0 (AfterStore st age, s'))
      (\<lambda>_ s'. moves_ok base f0 (sv_robot s')) s"
    by (rule wpS_mono) (use assms AfterPull in auto)
  then show ?thesis unfolding AfterPull loop_step.simps by (rule resume_inv)
next
  case (AfterStore st age)
  have "wpS (snapshot_phase st age (tk_snapshot k)) (\<lambda>sn s'. conf_inv base f0 (AfterSnapshot sn, s'))
      (\<lambda>_ s'. moves_ok base f0 (sv_robot s')) s"
    using assms AfterStore by (simp add: snapshot_phase_def upd_stats_def wp_simps)
  then show ?thesis unfolding AfterStore loop_step.simps by (rule resume_inv)
next
  case (AfterSnapshot sn)
  have inv: "loop_inv base f0 {sn_state sn} (sv_robot s)" using assms AfterSnapshot by simp
  have "wpS (thenS (act_phase (traced B) sn) (diagnostics (tk_elapsed k) (tk_overran k)))
      (\<lambda>_ s'. conf_inv base f0 (AtTop, s')) (\<lambda>_ s'. moves_ok base f0 (sv_robot s')) s"
    unfolding wpS_then
    by (rule wpS_mono [OF wp_act [OF inv]])
      (auto simp: diagnostics_def upd_stats_def wp_simps intro: loop_inv_mono)
  then show ?thesis unfolding AfterSnapshot loop_step.simps by (rule resume_inv)
qed (use assms in simp)

lemma reach_inv:
  assumes "(servo_step (traced B))\<^sup>*\<^sup>* c c'" "conf_inv base f0 c"
  shows "conf_inv base f0 c'"
  using assms
proof (induction rule: rtranclp_induct)
  case (step c1 c2)
  from step.hyps(2) step.IH [OF step.prems] show ?case
    by (cases rule: servo_step.cases) (auto intro!: client_inv loop_step_inv simp del: conf_inv.simps)
qed simp

lemma loop_start:
  assumes "servo_start (traced B) now s0 = (Inr (), s)" "\<not> sv_running s0"
    and "caps_ok (f_p (r_filter (sv_robot s0)))" "box_ok (f_p (r_filter (sv_robot s0)))"
    and "EPS \<le> f_dt (r_filter (sv_robot s0))"
  shows "loop_inv (cmds (sv_robot s0)) (r_filter (sv_robot s0)) {} (sv_robot s)"
proof -
  let ?f = "r_filter (sv_robot s0)" and ?base = "cmds (sv_robot s0)"
  have init: "loop_inv ?base ?f {st} (r1\<lparr>r_filter := reset (Some st) None None (r_filter r1)\<rparr>)"
    if "r_filter r1 = ?f" "cmds r1 = ?base @ cs" "list_all no_stream cs" "CRead st \<in> set cs"
    for st cs and r1 :: "'a trace robot"
  proof -
    have "cart_inv (reset (Some st) None None ?f)" using assms(3-5) by (intro reset_cart_inv)
    moreover have "bounded_moves ?f cs" using bounded_append [OF bounded_Nil that(3)] by simp
    moreover have "origin cs (st_tcp_pose st)" using that(4) by (auto simp: origin_def)
    ultimately show ?thesis
      using that unfolding loop_inv_def
      by (intro conjI exI [of _ cs] exI [of _ "st_tcp_pose st"]) (simp_all add: reset_def cmds_def)
  qed
  obtain st1 s1 where r1: "read_backend (traced B) s0 = (Inr st1, s1)"
    and r2: "bindS (if is_cartesian (st_control_mode st1) then retS st1
                   else thenS (onR (start_cartesian_impedance (traced B) None False None None)) (read_backend (traced B))) (\<lambda>st.
            thenS (onR (modS (\<lambda>r. r\<lparr>r_filter := reset (Some st) None None (r_filter r)\<rparr>)))
              (modS (\<lambda>s. s\<lparr>sv_target_pose := Some (st_tcp_pose st), sv_target_q := Some (st_q st),
                     sv_cmd_stamp := now, sv_running := True, sv_thread := True\<rparr>))) s1 = (Inr (), s)"
    using assms(1,2) unfolding servo_start_def by (simp add: bindS_get) (erule bindS_InrE, blast)
  note R1 = read_call [OF r1]
  obtain st s2 where r3: "(if is_cartesian (st_control_mode st1) then retS st1
       else thenS (onR (start_cartesian_impedance (traced B) None False None None)) (read_backend (traced B))) s1 = (Inr st, s2)"
    and s: "sv_robot s = (sv_robot s2)\<lparr>r_filter := reset (Some st) None None (r_filter (sv_robot s2))\<rparr>"
    using r2 by (rule bindS_InrE) (auto simp: thenS_def bindS_def onR_def sem_simps)
  have "\<exists>cs. r_filter (sv_robot s2) = ?f \<and> cmds (sv_robot s2) = ?base @ cs \<and> list_all no_stream cs \<and> CRead st \<in> set cs"
  proof (cases "is_cartesian (st_control_mode st1)")
    case True
    then show ?thesis using r3 R1 by (auto simp: sem_simps intro!: exI [of _ "[CRead st]"])
  next
    case False
    then obtain u s' where m: "onR (start_cartesian_impedance (traced B) None False None None) s1 = (Inr u, s')"
      and r4: "read_backend (traced B) s' = (Inr st, s2)"
      using r3 by (auto elim: thenS_InrE simp del: is_cartesian_simps)
    have "start_cartesian_impedance (traced B) None False None None (sv_robot s1) = (Inr u, sv_robot s')"
      using m by (auto simp: onR_def split: prod.splits)
    from calmS_D [OF calm_modes(1) this] obtain cs where
      "r_filter (sv_robot s') = r_filter (sv_robot s1)" "cmds (sv_robot s') = cmds (sv_robot s1) @ cs" "list_all no_stream cs"
      by auto
    then show ?thesis
      using R1 read_call [OF r4] by (intro exI [of _ "CRead st1 # cs @ [CRead st]"]) auto
  qed
  then show ?thesis unfolding s using init loop_inv_mono by blast
qed

section \<open>Properties\<close>


definition demo_servo :: "fake trace servo" where
  "demo_servo = \<lparr>sv_robot = demo_robot (\<lambda>_. False), sv_hz = 100, sv_dt = 1/100, sv_cartesian = True,
     sv_target_pose = None, sv_target_q = None, sv_target_gripper = None, sv_cmd_stamp = 0,
     sv_chunk = None, sv_gens = (\<lambda>_. []), sv_next_gen = 0, sv_running = False, sv_thread = False,
     sv_latest_state = None, sv_stats = fresh_stats\<rparr>"

lemma demo_start: "\<exists>s. servo_start (traced fake_backend) 0 demo_servo = (Inr (), s)"
  by (simp add: servo_start_def demo_servo_def demo_robot_def bindS_def thenS_def sem_simps read_backend_def onR_def
      onB_def traced_def record_read_def fake_backend_def fake_read_state_def)

definition demo_clock :: tick_clock where
  "demo_clock = \<lparr>tk_read = 0, tk_store = 0, tk_snapshot = 0, tk_elapsed = 1/100, tk_overran = False\<rparr>"


text \<open>What the decide-and-write section gives the backend, when it does not chase the target.\<close>

lemma fault_poll:
  assumes "onR (onB (bk_in_fault (traced B))) s = (x, s1)"
  shows "cmds (sv_robot s1) = cmds (sv_robot s)" "r_filter (sv_robot s1) = r_filter (sv_robot s)"
    "sv_target_gripper s1 = sv_target_gripper s"
  using assms by (auto simp: onR_def onB_def traced_def unrecorded_def cmds_def split: prod.splits)

lemma stop_with_cmds:
  "stop_with (traced B) a b s = (x, s') \<Longrightarrow> cmds (sv_robot s') = cmds (sv_robot s) @ [CStop]"
  by (auto simp: stop_with_def upd_stats_def thenS_def bindS_def onR_def onB_def traced_def record_cmd_def
      cmds_def sem_simps split: prod.splits sum.splits)

definition held :: "robot_state \<Rightarrow> command \<Rightarrow> bool" where
  "held st c = (case c of CStream p w \<Rightarrow> p = st_tcp_pose st | CJoint q \<Rightarrow> q = st_q st
     | CGripper g \<Rightarrow> False | _ \<Rightarrow> True)"

lemma held_simps [simp]:
  "held st CStop" "held st (CSetMode m opts)" "held st (CStream p w) = (p = st_tcp_pose st)"
  "held st (CJoint q) = (q = st_q st)" "held st (CRead st')"
  by (simp_all add: held_def)

lemma hold_cmds:
  "hold_position (traced B) sn s = (x, s') \<Longrightarrow>
     \<exists>cs. cmds (sv_robot s') = cmds (sv_robot s) @ cs \<and> list_all (held (sn_state sn)) cs"
  by (auto simp: hold_position_def ensure_stream_mode_def start_cartesian_impedance_def start_joint_impedance_def
      upd_stats_def thenS_def bindS_def onR_def onB_def traced_def record_cmd_def cmds_def sem_simps
      simp del: is_cartesian_simps split: prod.splits sum.splits if_splits)

text \<open>What the section does once the fault flag has been read.\<close>

lemma act_phase_after:
  assumes "onR (onB (bk_in_fault (traced B))) s = (Inr fault, s1)" "act_phase (traced B) sn s = (x, s')"
  shows "fault \<Longrightarrow> stop_with (traced B) FAULT BACKEND_FAULT s1 = (x, s')"
    and "p_stop_on_stale_command (f_p (r_filter (sv_robot s))) \<Longrightarrow>
      p_command_timeout_ms (f_p (r_filter (sv_robot s))) / 1000 < sn_age sn \<Longrightarrow>
      (\<exists>st why. stop_with (traced B) st why s1 = (x, s')) \<or> hold_position (traced B) sn s1 = (x, s')"
proof -
  let ?p = "f_p (r_filter (sv_robot s))"
  have act: "(let stale = p_command_timeout_ms ?p / 1000 < sn_age sn;
          state_stale = (\<not> sr_ok (check_state_age (r_filter (sv_robot s)) (sn_state_age_ms sn)))
      in if fault then stop_with (traced B) FAULT BACKEND_FAULT
         else if state_stale then stop_with (traced B) STOPPED STALE_STATE
         else if stale \<and> p_stop_on_stale_command ?p
         then (case p_hold_timeout_ms ?p of
                 Some h \<Rightarrow> (if h / 1000 < sn_age sn then stop_with (traced B) STOPPED STALE_COMMAND
                            else hold_position (traced B) sn)
               | None \<Rightarrow> hold_position (traced B) sn)
         else if sn_cartesian sn
         then (case sn_target_pose sn of Some t \<Rightarrow> chase_pose (traced B) sn t | None \<Rightarrow> retS ())
         else (case sn_target_q sn of Some t \<Rightarrow> chase_joint (traced B) sn t | None \<Rightarrow> retS ())) s1 = (x, s')"
    using assms(2)
    unfolding act_phase_def bindS_Inr [where m = "onR (onB (bk_in_fault (traced B)))" and s = s, OF assms(1)]
      bindS_get fault_poll(2) [OF assms(1)] Let_def .
  show "fault \<Longrightarrow> stop_with (traced B) FAULT BACKEND_FAULT s1 = (x, s')" using act by simp
  show "p_stop_on_stale_command ?p \<Longrightarrow> p_command_timeout_ms ?p / 1000 < sn_age sn \<Longrightarrow>
      (\<exists>st why. stop_with (traced B) st why s1 = (x, s')) \<or> hold_position (traced B) sn s1 = (x, s')"
    using act by (auto simp: Let_def split: if_splits option.splits)
qed

text \<open>C8: The watchdog: with \<open>stop_on_stale_command\<close>, once the last command is older than the
  profile's timeout a tick commands no motion but the hold of the pose (or configuration) it
  measured, and no gripper; and when the backend reports a fault the only command is a stop,
  whatever the target and its age.\<close>

theorem stale_command_held:
  assumes "act_phase (traced B) sn s = (x, s')"
  shows "(p_stop_on_stale_command (f_p (r_filter (sv_robot s)))
        \<and> p_command_timeout_ms (f_p (r_filter (sv_robot s))) / 1000 < sn_age sn \<longrightarrow>
      (\<exists>cs. cmds (sv_robot s') = cmds (sv_robot s) @ cs \<and> list_all (held (sn_state sn)) cs))
    \<and> (fst (onR (onB (bk_in_fault (traced B))) s) = Inr True \<longrightarrow> cmds (sv_robot s') = cmds (sv_robot s) @ [CStop])"
proof -
  obtain a s1 where a: "onR (onB (bk_in_fault (traced B))) s = (a, s1)"
    by (cases "onR (onB (bk_in_fault (traced B))) s")
  note F = fault_poll [OF a]
  show ?thesis
  proof (cases a)
    case (Inl e)
    then have "s' = s1" using assms a by (simp add: act_phase_def bindS_def)
    then show ?thesis using Inl a F by (auto intro!: exI [of _ "[]"])
  next
    case (Inr fault)
    note after = act_phase_after [OF a [unfolded Inr] assms]
    have "\<exists>cs. cmds (sv_robot s') = cmds (sv_robot s) @ cs \<and> list_all (held (sn_state sn)) cs"
      if "(\<exists>st why. stop_with (traced B) st why s1 = (x, s')) \<or> hold_position (traced B) sn s1 = (x, s')"
      using that hold_cmds [of B sn s1 x s'] stop_with_cmds [of B _ _ s1 x s'] F(1) by fastforce
    moreover have "cmds (sv_robot s') = cmds (sv_robot s) @ [CStop]" if fault
      using after(1) [OF that] F(1) by (auto dest: stop_with_cmds)
    ultimately show ?thesis using Inr a after(2) by auto
  qed
qed

definition demo_snapshot :: snapshot where
  "demo_snapshot = \<lparr>sn_state = default_state, sn_state_age_ms = 0, sn_cartesian = True,
     sn_target_pose = Some (demo_pose (6/10)), sn_target_q = None, sn_gripper = Some default_gripper, sn_age = 1\<rparr>"

lemma stale_command_held_witness:
  "\<exists>cs. cmds (sv_robot (snd (act_phase (traced fake_backend) demo_snapshot demo_servo))) = cs
    \<and> list_all (held default_state) cs"
  using conjunct1 [OF stale_command_held [OF prod.collapse [symmetric],
      where B = fake_backend and sn = demo_snapshot and s = demo_servo]]
  by (auto simp: demo_snapshot_def demo_servo_def mk_filter_def demo_robot_def cmds_def default_profile_def)

text \<open>A client's update can be lost between two sections of a tick: after the loop pulled a
  setpoint of a chunk, a manual target that preempts the chunk is overwritten by that setpoint;
  and after it saw a chunk exhausted, a newly enqueued chunk is thrown away before its first
  setpoint is pulled.\<close>

theorem client_updates_lost:
  assumes "to_pose xs = Inr p" "client B (Enqueue now c) s = (Inr (), s2)"
  shows "sv_target_pose (snd (loop_step B k (AfterPull st age (Pulled sp)) (snd (client B (SetPose now xs g) s))))
      = Some (sp_pose sp)
    \<and> sv_chunk (snd (loop_step B k (AfterPull st age (Pulled sp)) (snd (client B (SetPose now xs g) s)))) = None
    \<and> sv_chunk s2 \<noteq> None \<and> sv_chunk (snd (loop_step B k (AfterPull st age Exhausted) s2)) = None"
proof (intro conjI)
  show "sv_target_pose (snd (loop_step B k (AfterPull st age (Pulled sp)) (snd (client B (SetPose now xs g) s))))
      = Some (sp_pose sp)"
    "sv_chunk (snd (loop_step B k (AfterPull st age (Pulled sp)) (snd (client B (SetPose now xs g) s)))) = None"
    using assms(1) by (simp_all add: resume_def store_phase_def set_cartesian_target_def thenS_def bindS_def sem_simps)
  show "sv_chunk s2 \<noteq> None"
    using assms(2) by (auto simp: sem_simps enqueue_chunk_def elim!: bindS_InrE)
  show "sv_chunk (snd (loop_step B k (AfterPull st age Exhausted) s2)) = None"
    by (simp add: resume_def store_phase_def sem_simps)
qed

lemma demo_enqueue:
  "\<exists>s2. client (traced fake_backend) (Enqueue 1 (chunk_of [demo_waypoint (6/10) 1])) demo_servo = (Inr (), s2)"
  by (simp add: enqueue_chunk_def demo_servo_def demo_robot_def bindS_def sem_simps read_backend_def onR_def onB_def
      traced_def record_read_def fake_backend_def fake_read_state_def for_execution_def resolve_to_absolute_def
      chunk_of_def horizon_exec_def mk_cart_interp_def)

lemma client_updates_lost_witness:
  "\<exists>s2. client (traced fake_backend) (Enqueue 1 (chunk_of [demo_waypoint (6/10) 1])) demo_servo = (Inr (), s2)
    \<and> sv_chunk s2 \<noteq> None \<and> sv_chunk (snd (loop_step (traced fake_backend) demo_clock (AfterPull default_state 0 Exhausted) s2)) = None"
proof -
  obtain s2 where e: "client (traced fake_backend) (Enqueue 1 (chunk_of [demo_waypoint (6/10) 1])) demo_servo
      = (Inr (), s2)" using demo_enqueue by blast
  have "to_pose [0, 0, 0, 1, 0, 0, 0] = Inr \<lparr>pos = Vec3 0 0 0, rot = Quat 1 0 0 0\<rparr>" by simp
  from client_updates_lost [OF this e] e show ?thesis by blast
qed

definition gripped :: "command list \<Rightarrow> gripper_command list" where
  "gripped cs = List.map_filter (\<lambda>c. case c of CGripper g \<Rightarrow> Some g | _ \<Rightarrow> None) cs"

lemma gripped_simps [simp]:
  "gripped [] = []" "gripped (as @ bs) = gripped as @ gripped bs" "gripped [CGripper g] = [g]"
  "gripped [CStream p w] = []" "gripped [CSetMode m opts] = []"
  by (simp_all add: gripped_def List.map_filter_def)

lemma ensure_cmds:
  assumes "ensure_stream_mode (traced B) st b s = (x, s')"
  shows "\<exists>cs. cmds (sv_robot s') = cmds (sv_robot s) @ cs \<and> gripped cs = [] \<and> streamed cs = []"
    and "r_filter (sv_robot s') = r_filter (sv_robot s)"
proof -
  show "\<exists>cs. cmds (sv_robot s') = cmds (sv_robot s) @ cs \<and> gripped cs = [] \<and> streamed cs = []"
    using assms
    by (auto simp: ensure_stream_mode_def start_cartesian_impedance_def start_joint_impedance_def bindS_def onR_def
        onB_def traced_def record_cmd_def cmds_def sem_simps streamed_other
        simp del: is_cartesian_simps split: prod.splits if_splits)
  show "r_filter (sv_robot s') = r_filter (sv_robot s)"
    using assms
    by (auto simp: ensure_stream_mode_def start_cartesian_impedance_def start_joint_impedance_def bindS_def onR_def
        onB_def sem_simps simp del: is_cartesian_simps split: prod.splits if_splits)
qed

text \<open>What an accepted tick gives the backend.\<close>

lemma chase_accepted:
  assumes "chase_pose (traced B) sn t s = (Inr (), s')"
    and "filter_cartesian t (sn_state sn) None (r_filter (sv_robot s)) = (Inr sr, f')" "sr_ok sr" "sr_pose sr = Some p"
  shows "\<exists>cs. cmds (sv_robot s') = cmds (sv_robot s) @ cs \<and> streamed cs = [p]
      \<and> gripped cs = (case sn_gripper sn of None \<Rightarrow> [] | Some g \<Rightarrow> [g])"
    and "sn_gripper sn = Some g \<Longrightarrow> sv_target_gripper s' = None"
proof -
  let ?s1 = "s\<lparr>sv_robot := (sv_robot s)\<lparr>r_filter := f'\<rparr>\<rparr>"
  have "thenS (ensure_stream_mode (traced B) (sn_state sn) True)
      (thenS (onR (onB (bk_stream_cartesian (traced B) p None)))
                (thenS (case sn_gripper sn of
                          None \<Rightarrow> retS ()
                        | Some g \<Rightarrow> thenS (onR (onB (bk_move_gripper (traced B) g)))
                                     (modS (\<lambda>s. s\<lparr>sv_target_gripper := None\<rparr>)))
                   (note_accepted sr))) ?s1 = (Inr (), s')"
    using assms by (simp add: chase_pose_def bindS_def onR_def onF_def)
  then obtain u s2 where e: "ensure_stream_mode (traced B) (sn_state sn) True ?s1 = (Inr u, s2)"
    and r: "thenS (onR (onB (bk_stream_cartesian (traced B) p None)))
                (thenS (case sn_gripper sn of
                          None \<Rightarrow> retS ()
                        | Some g \<Rightarrow> thenS (onR (onB (bk_move_gripper (traced B) g)))
                                     (modS (\<lambda>s. s\<lparr>sv_target_gripper := None\<rparr>)))
                   (note_accepted sr)) s2 = (Inr (), s')"
    by (rule thenS_InrE)
  obtain cs where cs: "cmds (sv_robot s2) = cmds (sv_robot s) @ cs" "gripped cs = []" "streamed cs = []"
    using ensure_cmds(1) [OF e] by (auto simp: cmds_def)
  have st: "cmds (sv_robot s') = cmds (sv_robot s2) @ CStream p None #
      (case sn_gripper sn of None \<Rightarrow> [] | Some g \<Rightarrow> [CGripper g])
      \<and> (sn_gripper sn = Some g \<longrightarrow> sv_target_gripper s' = None)" for g
    using r
    by (auto simp: note_accepted_def upd_stats_def thenS_def bindS_def onR_def onB_def traced_def record_cmd_def
        cmds_def sem_simps split: prod.splits sum.splits option.splits)
  have "streamed (CStream p None # (case sn_gripper sn of None \<Rightarrow> [] | Some g \<Rightarrow> [CGripper g])) = [p]"
    "gripped (CStream p None # (case sn_gripper sn of None \<Rightarrow> [] | Some g \<Rightarrow> [CGripper g]))
       = (case sn_gripper sn of None \<Rightarrow> [] | Some g \<Rightarrow> [g])"
    by (simp_all add: streamed_def gripped_def map_filter_simps split: option.splits)
  then show "\<exists>cs. cmds (sv_robot s') = cmds (sv_robot s) @ cs \<and> streamed cs = [p]
      \<and> gripped cs = (case sn_gripper sn of None \<Rightarrow> [] | Some g \<Rightarrow> [g])"
    using st cs by (intro exI [of _ "cs @ CStream p None # (case sn_gripper sn of None \<Rightarrow> [] | Some g \<Rightarrow> [CGripper g])"]) simp
  show "sn_gripper sn = Some g \<Longrightarrow> sv_target_gripper s' = None" using st by blast
qed

text \<open>Accepted ticks on the simulator, for the witnesses.\<close>

lemma chase_fake:
  assumes "filter_cartesian t (sn_state sn) None (r_filter (sv_robot s)) = (Inr sr, f')" "sr_ok sr"
    and "st_control_mode (sn_state sn) = IDLE"
  shows "\<exists>s'. chase_pose (traced fake_backend) sn t s = (Inr (), s')"
proof -
  obtain p where "sr_pose sr = Some p" using filter_cartesian_prev(2) [OF assms(1,2)] by blast
  then show ?thesis
    using assms
    by (auto simp: chase_pose_def ensure_stream_mode_def start_cartesian_impedance_def note_accepted_def upd_stats_def
        bindS_def thenS_def onR_def onF_def onB_def traced_def record_cmd_def fake_backend_def fake_set_mode_def
        fake_stream_cartesian_def fake_move_gripper_def sem_simps Let_def split: option.splits)
qed

lemma chase_joint_fake:
  assumes "filter_joint t (sn_state sn) (r_filter (sv_robot s)) = (Inr sr, f')" "sr_ok sr" "sr_q sr = Some q"
    and "st_control_mode (sn_state sn) = IDLE" "length (fk_q (fst (r_b (sv_robot s)))) = length q"
  shows "\<exists>s'. chase_joint (traced fake_backend) sn t s = (Inr (), s')"
  using assms
  by (auto simp: chase_joint_def ensure_stream_mode_def start_joint_impedance_def note_accepted_def upd_stats_def
      bindS_def thenS_def onR_def onF_def onB_def traced_def record_cmd_def fake_backend_def fake_set_mode_def
      fake_stream_joint_def no_opts_def sem_simps Let_def)

lemma demo_accepts:
  assumes "p_max_contact_wrench (f_p f) = [40, 40, 40, 5, 5, 5]" "p_workspace_action (f_p f) = ''clip''"
  shows "\<exists>sr f'. filter_cartesian t default_state None f = (Inr sr, f') \<and> sr_ok sr"
proof -
  have w: "np_any_abs_gt (st_wrench default_state) (p_max_contact_wrench (f_p f)) = Inr False"
    by (simp add: assms(1) np_any_abs_gt_def default_state_def eval_nat_numeral)
  obtain a where a: "limit_workspace (f_p f) (fresh_adjust t) = Some a"
    by (cases "limit_workspace (f_p f) (fresh_adjust t)")
      (use assms(2) in \<open>auto simp: limit_workspace_def Let_def split: if_splits\<close>)
  obtain r f' where c: "commit_motion default_state a f = (r, f')" by (cases "commit_motion default_state a f")
  then show ?thesis using w a commit_motion_ok [OF c] by (simp add: filter_cartesian_def)
qed

text \<open>A gripper command set between the snapshot and the decide-and-write section is dropped: the
  tick sends the command it saw and then clears the buffer, whatever it holds by then.\<close>

theorem gripper_update_lost:
  assumes "chase_pose (traced B) sn t (snd (set_cartesian_target now xs (Some g') s)) = (Inr (), s')"
    and "filter_cartesian t (sn_state sn) None (r_filter (sv_robot s)) = (Inr sr, f')" "sr_ok sr"
    and "sn_gripper sn = Some g" "to_pose xs = Inr p"
  shows "sv_target_gripper (snd (set_cartesian_target now xs (Some g') s)) = Some g' \<and> sv_target_gripper s' = None
    \<and> (\<exists>cs. cmds (sv_robot s') = cmds (sv_robot s) @ cs \<and> gripped cs = [g])"
proof -
  let ?s = "snd (set_cartesian_target now xs (Some g') s)"
  have r: "sv_robot ?s = sv_robot s" "sv_target_gripper ?s = Some g'"
    using assms(5) by (simp_all add: set_cartesian_target_def thenS_def bindS_def sem_simps)
  obtain q where q: "sr_pose sr = Some q" using filter_cartesian_prev(2) [OF assms(2,3)] by blast
  note A = chase_accepted [OF assms(1) assms(2) [folded r(1)] assms(3) q]
  show ?thesis using A(1) A(2) [OF assms(4)] r assms(4) by auto
qed

lemma gripper_update_lost_witness:
  "\<exists>s'. chase_pose (traced fake_backend) demo_snapshot (demo_pose (6/10))
      (snd (set_cartesian_target 1 [0, 0, 0, 1, 0, 0, 0] (Some (default_gripper\<lparr>g_grasp := True\<rparr>)) demo_servo)) = (Inr (), s')
    \<and> sv_target_gripper s' = None \<and> (\<exists>cs. cmds (sv_robot s') = cs \<and> gripped cs = [default_gripper])"
proof -
  let ?s = "snd (set_cartesian_target 1 [0, 0, 0, 1, 0, 0, 0] (Some (default_gripper\<lparr>g_grasp := True\<rparr>)) demo_servo)"
  have r: "sv_robot ?s = sv_robot demo_servo"
    by (simp add: set_cartesian_target_def thenS_def bindS_def sem_simps)
  have f: "r_filter (sv_robot demo_servo) = mk_filter default_profile (1/100)"
    by (simp add: demo_servo_def) (simp add: demo_robot_def)
  obtain sr f' where a: "filter_cartesian (demo_pose (6/10)) default_state None (r_filter (sv_robot demo_servo)) = (Inr sr, f')"
      "sr_ok sr"
  proof -
    have "p_max_contact_wrench (f_p (mk_filter default_profile (1/100))) = [40, 40, 40, 5, 5, 5]"
        "p_workspace_action (f_p (mk_filter default_profile (1/100))) = ''clip''"
      by (simp_all add: mk_filter_def default_profile_def)
    from demo_accepts [OF this, of "demo_pose (6/10)", folded f] show thesis using that by blast
  qed
  have st: "sn_state demo_snapshot = default_state" "sn_gripper demo_snapshot = Some default_gripper"
      "st_control_mode default_state = IDLE"
    by (simp_all add: demo_snapshot_def default_state_def)
  obtain s' where c: "chase_pose (traced fake_backend) demo_snapshot (demo_pose (6/10)) ?s = (Inr (), s')"
    using chase_fake [of "demo_pose (6/10)" demo_snapshot ?s] a st r by auto
  have p: "to_pose [0, 0, 0, 1, 0, 0, 0] = Inr \<lparr>pos = Vec3 0 0 0, rot = Quat 1 0 0 0\<rparr>" by simp
  have base: "cmds (sv_robot demo_servo) = []" by (simp add: demo_servo_def)
  from gripper_update_lost [OF c a(1) [folded st(1)] a(2) st(2) p] c base show ?thesis by auto
qed

text \<open>The filter's Cartesian reference is not re-anchored when the loop goes from joint targets
  back to a Cartesian one: after joint ticks moved the arm away, the pose streamed next is within
  one tick's step of the last Cartesian command, hence about as far from the measured pose as
  the arm has moved.\<close>

theorem stale_cartesian_anchor:
  assumes "cart_inv (r_filter (sv_robot s))" "f_prev_pose (r_filter (sv_robot s)) = Some c"
    and "chase_joint (traced B) sn q s = (Inr (), s1)" "sr_ok sr"
    and "filter_cartesian t (sn_state sn') None (r_filter (sv_robot s1)) = (Inr sr, f')"
    and "chase_pose (traced B) sn' t s1 = (Inr (), s2)"
  shows "\<exists>cs p. cmds (sv_robot s2) = cmds (sv_robot s1) @ cs \<and> streamed cs = [p]
    \<and> norm (pos p - tcp_position (sn_state sn')) \<ge> norm (pos c - tcp_position (sn_state sn'))
        - p_max_linear_speed (f_p (r_filter (sv_robot s))) * f_dt (r_filter (sv_robot s))"
proof -
  obtain a fj where fj: "filter_joint q (sn_state sn) (r_filter (sv_robot s)) = (a, fj)"
    by (cases "filter_joint q (sn_state sn) (r_filter (sv_robot s))")
  have fj': "\<exists>q. fj = (r_filter (sv_robot s))\<lparr>f_prev_q := q\<rparr>"
    using fj by (auto simp: filter_joint_def split: sum.splits prod.splits intro: exI [of _ "f_prev_q (r_filter (sv_robot s))"])
  have "r_filter (sv_robot s1) = fj"
    using assms(3) fj
    by (auto simp: chase_joint_def bindS_def thenS_def onR_def onF_def onB_def stop_with_def note_accepted_def
        upd_stats_def sem_simps dest!: ensure_cmds(2) split: prod.splits sum.splits option.splits if_splits)
  then have f: "f_prev_pose (r_filter (sv_robot s1)) = Some c" "cart_inv (r_filter (sv_robot s1))"
      "f_p (r_filter (sv_robot s1)) = f_p (r_filter (sv_robot s))" "f_dt (r_filter (sv_robot s1)) = f_dt (r_filter (sv_robot s))"
    using fj' assms(1,2) by (auto simp: cart_inv_def)
  obtain p where p: "sr_pose sr = Some p" using filter_cartesian_prev(2) [OF assms(5,4)] by blast
  have "cart_near (r_filter (sv_robot s1)) c p"
    using cart_step_facts(3) [OF f(2) assms(5,4) p] anchor_prev [OF f(1)] by simp
  then have n: "norm (pos p - pos c) \<le> p_max_linear_speed (f_p (r_filter (sv_robot s))) * f_dt (r_filter (sv_robot s))"
    using f(3,4) by (simp add: cart_near_def)
  have "norm (pos c - tcp_position (sn_state sn'))
      \<le> norm (pos p - pos c) + norm (pos p - tcp_position (sn_state sn'))"
    by (metis norm_minus_commute norm_triangle_le diff_add_cancel add_diff_eq order_refl)
  then show ?thesis using chase_accepted(1) [OF assms(6,5,4) p] n by fastforce
qed

lemma stale_cartesian_anchor_witness:
  "\<exists>s1 s2 cs p. chase_pose (traced fake_backend) demo_snapshot (demo_pose (6/10)) s1 = (Inr (), s2)
    \<and> cmds (sv_robot s2) = cmds (sv_robot s1) @ cs \<and> streamed cs = [p]
    \<and> norm (pos p - Vec3 0 0 0) \<ge> norm (Vec3 (1/2) 0 (3/10) - Vec3 0 0 0) - 25/100 * (1/100)"
proof -
  define f where "f = demo_joint_filter\<lparr>f_prev_pose := Some (demo_pose (1/2)), f_prev_lin_vel := Some 0\<rparr>"
  define s where "s = demo_servo\<lparr>sv_robot := (demo_robot (\<lambda>_. False))\<lparr>r_filter := f,
      r_b := ((mk_fake 2 None (Some [0, 0]) 1), [])\<rparr>\<rparr>"
  have sel: "r_filter (sv_robot s) = f" "fk_q (fst (r_b (sv_robot s))) = [0, 0]"
    by (simp_all add: s_def demo_robot_def mk_fake_def)
  have fp: "f_p f = default_profile\<lparr>p_joint_lower := [-1, -1], p_joint_upper := [1, 2]\<rparr>" "f_dt f = 1/100"
      "f_prev_pose f = Some (demo_pose (1/2))" "f_prev_q f = Some [0, 0]"
    by (simp_all add: f_def demo_joint_filter_def mk_filter_def)
  have ci: "cart_inv f"
    by (simp add: cart_inv_def fp caps_ok_def box_ok_def default_profile_def ws_lo_def ws_hi_def)
      (simp add: f_def)
  have ji: "joint_inv f"
    using demo_joint_filter_facts(1) by (simp add: f_def joint_inv_def max_joint_step_def)
  have adm: "joint_adm f ([0, 0], default_state)" by (simp add: joint_adm_def fp)
  have st: "sn_state demo_snapshot = default_state" "st_control_mode default_state = IDLE"
    by (simp_all add: demo_snapshot_def default_state_def)
  obtain sr q where fj: "filter_joint [0, 0] default_state f = (Inr sr, f\<lparr>f_prev_q := Some q\<rparr>)" "sr_ok sr" "sr_q sr = Some q"
      "joint_near f [0, 0] q"
    using filter_joint_facts [OF ji adm fp(4)] by blast
  then have len: "length q = 2" by (simp add: joint_near_def)
  obtain s1 where j: "chase_joint (traced fake_backend) demo_snapshot [0, 0] s = (Inr (), s1)"
    using chase_joint_fake [of "[0, 0]" demo_snapshot s sr _ q] fj st sel len by auto
  obtain sr' f' where a: "filter_cartesian (demo_pose (6/10)) default_state None (r_filter (sv_robot s1)) = (Inr sr', f')"
      "sr_ok sr'"
  proof -
    have rf: "r_filter (sv_robot s1) = f\<lparr>f_prev_q := Some q\<rparr>"
      using j fj st sel
      by (auto simp: chase_joint_def bindS_def thenS_def onR_def onF_def onB_def note_accepted_def
          upd_stats_def sem_simps dest!: ensure_cmds(2) split: prod.splits sum.splits)
    have "p_max_contact_wrench (f_p (f\<lparr>f_prev_q := Some q\<rparr>)) = [40, 40, 40, 5, 5, 5]"
        "p_workspace_action (f_p (f\<lparr>f_prev_q := Some q\<rparr>)) = ''clip''"
      by (simp_all add: fp default_profile_def)
    from demo_accepts [OF this, of "demo_pose (6/10)", folded rf] show thesis using that by blast
  qed
  obtain s2 where c: "chase_pose (traced fake_backend) demo_snapshot (demo_pose (6/10)) s1 = (Inr (), s2)"
    using chase_fake [of "demo_pose (6/10)" demo_snapshot s1] a st by auto
  have "tcp_position (sn_state demo_snapshot) = Vec3 0 0 0" "pos (demo_pose (1/2)) = Vec3 (1/2) 0 (3/10)"
      "p_max_linear_speed (f_p f) = 25/100"
    by (simp_all add: st default_state_def tcp_position_def demo_pose_def fp default_profile_def)
  note eqs = this fp(2)
  from stale_cartesian_anchor [of s "demo_pose (1/2)", unfolded sel, OF ci fp(3) j a(2) a(1) [folded st(1)] c]
  obtain cs p where "cmds (sv_robot s2) = cmds (sv_robot s1) @ cs" "streamed cs = [p]"
      "norm (pos p - Vec3 0 0 0) \<ge> norm (Vec3 (1/2) 0 (3/10) - Vec3 0 0 0) - 25/100 * (1/100)"
    unfolding eqs by blast
  with c show ?thesis by blast
qed


text \<open>What the loop stages depends on the waypoints, the representation and the horizon of a chunk.\<close>

abbreviation recap :: "real \<Rightarrow> real \<Rightarrow> string \<Rightarrow> chunk \<Rightarrow> chunk" where
  "recap l a n c \<equiv> c\<lparr>ck_max_tcp_linear_speed := l, ck_max_tcp_angular_speed := a, ck_safety_profile := n\<rparr>"

lemma chunk_post_init_recap:
  "chunk_post_init (recap l a n c) = bindR (chunk_post_init c) (\<lambda>c'. Inr (recap l a n c'))"
  by (simp add: chunk_post_init_def bindR_def)

lemma for_execution_recap:
  "for_execution (recap l a n c) sp = bindR (for_execution c sp) (\<lambda>c'. Inr (recap l a n c'))"
proof -
  have swap: "(recap l a n d)\<lparr>ck_waypoints := w, ck_representation := r\<rparr> = recap l a n (d\<lparr>ck_waypoints := w, ck_representation := r\<rparr>)"
    "(recap l a n d)\<lparr>ck_waypoints := w, ck_n_execute := x\<rparr> = recap l a n (d\<lparr>ck_waypoints := w, ck_n_execute := x\<rparr>)" for d w r x
    by simp_all
  have sel: "horizon_exec (recap l a n c) = horizon_exec c" "ck_waypoints (recap l a n d) = ck_waypoints d" for d
    by (simp_all add: horizon_exec_def split: option.split)
  have res: "resolve_to_absolute (recap l a n c) sp = bindR (resolve_to_absolute c sp) (\<lambda>c'. Inr (recap l a n c'))"
    by (simp add: resolve_to_absolute_def bindR_def chunk_post_init_def split: sum.splits)
  show ?thesis
    unfolding for_execution_def res
    by (cases "resolve_to_absolute c sp")
      (simp_all only: Let_def bindR_simps swap sel chunk_post_init_recap if_distrib [of "\<lambda>v. bindR v _"])
qed

lemma interp_from_chunk: "interp_from (ci\<lparr>ci_chunk := c\<rparr>) i p q ws = interp_from ci i p q ws"
  by (induction ws arbitrary: i p q) (simp_all add: segment_ticks_def Let_def split: sum.split)

lemma interp_iter_recap:
  "interp_iter (ci\<lparr>ci_chunk := recap l a n c\<rparr>) = interp_iter (ci\<lparr>ci_chunk := c\<rparr>)"
  by (simp add: interp_iter_def interp_from_chunk)

lemma interp_iter_recap':
  "interp_iter \<lparr>ci_chunk = recap l a n c, ci_hz = h, ci_dt = d, ci_start_pose = p, ci_max_linear_speed = x, ci_max_angular_speed = y\<rparr>
    = interp_iter \<lparr>ci_chunk = c, ci_hz = h, ci_dt = d, ci_start_pose = p, ci_max_linear_speed = x, ci_max_angular_speed = y\<rparr>"
  using interp_iter_recap [where ci = "\<lparr>ci_chunk = c, ci_hz = h, ci_dt = d, ci_start_pose = p, ci_max_linear_speed = x, ci_max_angular_speed = y\<rparr>" and c = c and l = l and a = a and n = n]
  by simp

text \<open>The loop's asynchronous chunks ignore the speed caps and the safety profile a chunk carries: the
  state after staging it is the same whatever they are.\<close>

theorem enqueue_ignores_caps:
  "enqueue_chunk B now (c\<lparr>ck_max_tcp_linear_speed := l, ck_max_tcp_angular_speed := a, ck_safety_profile := n\<rparr>) s
    = enqueue_chunk B now c s"
  unfolding enqueue_chunk_def for_execution_recap
  by (rule arg_cong [where f = "\<lambda>k. bindS (read_backend B) k s"], rule ext, rule ext)
    (auto simp: bindS_def sem_simps bindR_def mk_cart_interp_def interp_iter_recap' split: sum.splits prod.splits)

end
