(* ===== verification/Lease.thy ===== *)
theory Lease
  imports Arbiter "HOL-Library.Multiset"
begin

text \<open>
  \<^verbatim>\<open>server/lease.py\<close>: the single-writer lease with its time-to-live and the in-flight holds that
  pin it. Every operation is the sequence of the source's critical sections; the clock readings
  it makes are its arguments. \<open>lease_step\<close> interleaves the operations of all clients with the
  passage of time. The lease is an \<open>arbiter\<close>.
\<close>

section \<open>The lease\<close>

record lease_info =
  li_owner :: string
  li_acquired_at :: real
  li_expires_at :: real

record lease =
  l_ttl :: real
  l_info :: "lease_info option"
  l_holds :: int

definition mk_lease :: "real \<Rightarrow> lease" where
  "mk_lease ttl_seconds = \<lparr>l_ttl = ttl_seconds, l_info = None, l_holds = 0\<rparr>"

definition expire_if_stale :: "real \<Rightarrow> lease \<Rightarrow> lease" where
  "expire_if_stale now l =
     (if 0 < l_holds l then l
      else case l_info l of
             Some i \<Rightarrow> (if li_expires_at i < now then l\<lparr>l_info := None\<rparr> else l)
           | None \<Rightarrow> l)"

definition lease_owner :: "real \<Rightarrow> (lease, string) sem" where
  "lease_owner now =
     thenS (modS (expire_if_stale now))
       (getS (\<lambda>l. case l_info l of Some i \<Rightarrow> li_owner i | None \<Rightarrow> ''''))"

definition lease_info_of :: "real \<Rightarrow> (lease, lease_info option) sem" where
  "lease_info_of now = thenS (modS (expire_if_stale now)) (getS l_info)"

definition lease_check :: "string \<Rightarrow> real \<Rightarrow> (lease, unit) sem" where
  "lease_check owner now =
     thenS (modS (expire_if_stale now))
       (bindS (getS l_info) (\<lambda>i.
          case i of
            None \<Rightarrow> raiseS LeaseError
          | Some info \<Rightarrow> (if li_owner info \<noteq> owner then raiseS LeaseError else retS ())))"

text \<open>\<open>with lease.hold(owner)\<close>: the entry checks and counts, the exit uncounts and refreshes.\<close>

definition hold_enter :: "string \<Rightarrow> real \<Rightarrow> (lease, unit) sem" where
  "hold_enter owner now =
     thenS (lease_check owner now) (modS (\<lambda>l. l\<lparr>l_holds := l_holds l + 1\<rparr>))"

definition refresh :: "string \<Rightarrow> real \<Rightarrow> lease \<Rightarrow> lease" where
  "refresh owner now l =
     (case l_info l of
        Some i \<Rightarrow> (if li_owner i = owner then l\<lparr>l_info := Some (i\<lparr>li_expires_at := now + l_ttl l\<rparr>)\<rparr> else l)
      | None \<Rightarrow> l)"

definition hold_exit :: "string \<Rightarrow> real \<Rightarrow> (lease, unit) sem" where
  "hold_exit owner now = modS (\<lambda>l. refresh owner now (l\<lparr>l_holds := l_holds l - 1\<rparr>))"

definition with_hold :: "string \<Rightarrow> real \<Rightarrow> real \<Rightarrow> (lease, 'a) sem \<Rightarrow> (lease, 'a) sem" where
  "with_hold owner t t' body =
     thenS (hold_enter owner t)
       (finallyS body (\<lambda>r. thenS (hold_exit owner t') (retS r)))"

definition lease_acquire :: "string \<Rightarrow> bool \<Rightarrow> real \<Rightarrow> real \<Rightarrow> (lease, lease_info) sem" where
  "lease_acquire owner force t now =
     (if owner = '''' then raiseS LeaseError
      else thenS (modS (expire_if_stale t))
        (bindS (getS l_info) (\<lambda>i.
           if (case i of Some info \<Rightarrow> li_owner info \<noteq> owner \<and> \<not> force | None \<Rightarrow> False)
           then raiseS LeaseError
           else thenS (modS (\<lambda>l. l\<lparr>l_info := Some \<lparr>li_owner = owner, li_acquired_at = now,
                                    li_expires_at = now + l_ttl l\<rparr>\<rparr>))
                  (getS (\<lambda>l. the (l_info l))))))"

definition heartbeat :: "string \<Rightarrow> real \<Rightarrow> (lease, lease_info) sem" where
  "heartbeat owner now =
     bindS (getS l_info) (\<lambda>i.
       if (case i of None \<Rightarrow> True | Some info \<Rightarrow> li_owner info \<noteq> owner) then raiseS LeaseError
       else thenS (modS (refresh owner now)) (getS (\<lambda>l. the (l_info l))))"

definition lease_release :: "string \<Rightarrow> (lease, unit) sem" where
  "lease_release owner =
     bindS (getS l_info) (\<lambda>i.
       if (case i of Some info \<Rightarrow> li_owner info \<noteq> owner | None \<Rightarrow> False) then raiseS LeaseError
       else modS (\<lambda>l. l\<lparr>l_info := None\<rparr>))"

section \<open>Who holds the robot\<close>

text \<open>The abstraction: the owner of an unexpired or pinned lease, at a time.\<close>

definition holder_at :: "real \<Rightarrow> lease \<Rightarrow> string option" where
  "holder_at now l =
     (case l_info l of
        None \<Rightarrow> None
      | Some i \<Rightarrow> (if 0 < l_holds l \<or> now \<le> li_expires_at i then Some (li_owner i) else None))"

lemma expire_info: "l_info (expire_if_stale now l) =
    (if holder_at now l = None then None else l_info l)"
  by (auto simp: expire_if_stale_def holder_at_def split: option.splits)

lemma expire_sel [simp]:
  "l_ttl (expire_if_stale now l) = l_ttl l" "l_holds (expire_if_stale now l) = l_holds l"
  by (auto simp: expire_if_stale_def split: option.splits)

lemma expire_holder [simp]: "holder_at now (expire_if_stale now l) = holder_at now l"
  by (auto simp: expire_if_stale_def holder_at_def split: option.splits)

lemma refresh_sel [simp]:
  "l_ttl (refresh owner now l) = l_ttl l" "l_holds (refresh owner now l) = l_holds l"
  by (auto simp: refresh_def split: option.splits)

lemma refresh_holder:
  "holder_at now l = Some p \<Longrightarrow> 0 \<le> l_ttl l \<Longrightarrow> holder_at now (refresh owner now l) = Some p"
  by (auto simp: refresh_def holder_at_def split: option.splits if_splits)

lemma lease_check_eq:
  "lease_check owner now l =
     (if holder_at now l = Some owner then (Inr (), l) else (Inl LeaseError, expire_if_stale now l))"
  by (auto simp: lease_check_def sem_simps bindS_def expire_info expire_if_stale_def holder_at_def
      split: option.splits if_splits)

lemma lease_acquire_eq:
  assumes "owner \<noteq> ''''"
  shows "lease_acquire owner force t now l =
     (let l' = expire_if_stale t l; i = \<lparr>li_owner = owner, li_acquired_at = now, li_expires_at = now + l_ttl l\<rparr>
      in if force \<or> holder_at t l = None \<or> holder_at t l = Some owner
         then (Inr i, l'\<lparr>l_info := Some i\<rparr>) else (Inl LeaseError, l'))"
  using assms
  by (auto simp: lease_acquire_def sem_simps bindS_def expire_info Let_def holder_at_def
      split: option.splits if_splits)

lemma lease_acquire_denied_state:
  assumes "lease_acquire owner force t now l = (Inl e, l')" "owner \<noteq> ''''"
  shows "l' = l"
  using assms
  by (auto simp: lease_acquire_eq Let_def expire_if_stale_def holder_at_def split: option.splits if_splits)

section \<open>The lease as an arbiter\<close>

type_synonym timed_lease = "real \<times> lease"

definition tl_holder :: "timed_lease \<Rightarrow> string option" where
  "tl_holder s = holder_at (fst s) (snd s)"

definition on_lease :: "(real \<Rightarrow> (lease, 'a) sem) \<Rightarrow> timed_lease \<Rightarrow> timed_lease result" where
  "on_lease m s = (case m (fst s) (snd s) of (Inl e, _) \<Rightarrow> Inl e | (Inr _, l') \<Rightarrow> Inr (fst s, l'))"

definition tl_wf :: "timed_lease \<Rightarrow> bool" where
  "tl_wf s \<longleftrightarrow> 0 \<le> l_ttl (snd s)"

text \<open>
  Between two acquisitions or releases: time passes, owners send heartbeats, a sweep removes a
  stale lease, and in-flight requests begin and end.
\<close>

inductive tl_env :: "timed_lease \<Rightarrow> timed_lease \<Rightarrow> bool" where
  tick: "t \<le> t' \<Longrightarrow> tl_env (t, l) (t', l)"
| sweep: "tl_env (t, l) (t, expire_if_stale t l)"
| beat: "heartbeat p t l = (r, l') \<Longrightarrow> tl_env (t, l) (t, l')"
| enter: "hold_enter p t l = (r, l') \<Longrightarrow> tl_env (t, l) (t, l')"
| leave: "hold_exit p t l = (r, l') \<Longrightarrow> tl_env (t, l) (t, l')"

lemma tl_env_ok:
  assumes "tl_env s s'" "tl_wf s"
  shows "tl_wf s' \<and> (\<forall>p. tl_holder s = Some p \<longrightarrow> tl_holder s' = Some p \<or> tl_holder s' = None)"
  using assms
proof (cases rule: tl_env.cases)
  case (tick t t' l)
  then show ?thesis using assms(2)
    by (auto simp: tl_wf_def tl_holder_def holder_at_def split: option.splits if_splits)
next
  case (sweep t l)
  then show ?thesis using assms(2) by (simp add: tl_wf_def tl_holder_def)
next
  case (beat p t l r l')
  then show ?thesis using assms(2) refresh_holder
    by (auto simp: tl_wf_def tl_holder_def heartbeat_def bindS_def sem_simps split: option.splits if_splits)
next
  case (enter p t l r l')
  show ?thesis
  proof (cases "holder_at t l = Some p")
    case True
    then have "l' = l\<lparr>l_holds := l_holds l + 1\<rparr>"
      using enter(3) by (simp add: hold_enter_def lease_check_eq sem_simps)
    then show ?thesis using enter(1,2) assms(2)
      by (auto simp: tl_wf_def tl_holder_def holder_at_def split: option.splits if_splits)
  next
    case False
    then have "l' = expire_if_stale t l"
      using enter(3) by (simp add: hold_enter_def lease_check_eq sem_simps)
    then show ?thesis using enter(1,2) assms(2) by (simp add: tl_wf_def tl_holder_def)
  qed
next
  case (leave p t l r l')
  then show ?thesis using assms(2)
    by (auto simp: tl_wf_def tl_holder_def hold_exit_def sem_simps holder_at_def refresh_def
        split: option.splits if_splits)
qed

interpretation lease_arb: arbiter tl_holder
  "\<lambda>p force. on_lease (\<lambda>t. lease_acquire p force t t)" "\<lambda>p. on_lease (\<lambda>t. lease_release p)"
  tl_env tl_wf "\<lambda>s p. p \<noteq> ''''" "\<lambda>s p. True"
proof
  fix s s' p q force
  show "\<exists>s'. on_lease (\<lambda>t. lease_acquire p force t t) s = Inr s'"
    if "p \<noteq> ''''" "tl_holder s = None \<or> tl_holder s = Some p \<or> force"
    using that by (auto simp: on_lease_def lease_acquire_eq tl_holder_def Let_def)
  show "\<exists>e. on_lease (\<lambda>t. lease_acquire p False t t) s = Inl e"
    if "p \<noteq> ''''" "tl_holder s = Some q" "q \<noteq> p"
    using that by (auto simp: on_lease_def lease_acquire_eq tl_holder_def Let_def)
  show "tl_holder s' = Some p \<and> tl_wf s'"
    if "tl_wf s" "p \<noteq> ''''" "on_lease (\<lambda>t. lease_acquire p force t t) s = Inr s'"
    using that by (auto simp: on_lease_def lease_acquire_eq tl_holder_def tl_wf_def Let_def
        holder_at_def split: if_splits)
  show "\<exists>s'. on_lease (\<lambda>t. lease_release p) s = Inr s' \<and> tl_holder s' = None" if "tl_holder s = Some p"
    using that by (auto simp: on_lease_def lease_release_def bindS_def sem_simps tl_holder_def
        holder_at_def split: option.splits if_splits)
  show "tl_holder s' = Some q"
    if "tl_holder s = Some q" "q \<noteq> p" "on_lease (\<lambda>t. lease_release p) s = Inr s'"
    using that by (auto simp: on_lease_def lease_release_def bindS_def sem_simps tl_holder_def
        holder_at_def split: option.splits if_splits)
  show "tl_wf s' \<and> (tl_holder s = None \<longrightarrow> tl_holder s' = None)"
    if "tl_wf s" "on_lease (\<lambda>t. lease_release p) s = Inr s'"
    using that by (auto simp: on_lease_def lease_release_def bindS_def sem_simps tl_holder_def tl_wf_def
        holder_at_def split: option.splits if_splits)
  show "tl_wf s' \<and> (\<forall>p. tl_holder s = Some p \<longrightarrow> tl_holder s' = Some p \<or> tl_holder s' = None)"
    if "tl_wf s" "tl_env s s'"
    using tl_env_ok [OF that(2,1)] .
qed

section \<open>All clients of one lease\<close>

text \<open>
  The requests of all clients, in the order their critical sections run, with the requests in
  flight (the \<open>hold\<close> blocks entered and not yet left) and the clock.
\<close>

record lease_sys =
  ls_now :: real
  ls_lease :: lease
  ls_inflight :: "string multiset"

datatype lease_event =
    LAcquire string bool
  | LBeat string
  | LRelease string
  | LEnter string
  | LExit string
  | LTick real
  | LSweep

fun lease_exec :: "lease_event \<Rightarrow> lease_sys \<Rightarrow> lease_sys" where
  "lease_exec (LAcquire p f) s =
     s\<lparr>ls_lease := snd (lease_acquire p f (ls_now s) (ls_now s) (ls_lease s))\<rparr>"
| "lease_exec (LBeat p) s = s\<lparr>ls_lease := snd (heartbeat p (ls_now s) (ls_lease s))\<rparr>"
| "lease_exec (LRelease p) s = s\<lparr>ls_lease := snd (lease_release p (ls_lease s))\<rparr>"
| "lease_exec (LEnter p) s =
     (case hold_enter p (ls_now s) (ls_lease s) of
        (Inl e, l) \<Rightarrow> s\<lparr>ls_lease := l\<rparr>
      | (Inr _, l) \<Rightarrow> s\<lparr>ls_lease := l, ls_inflight := add_mset p (ls_inflight s)\<rparr>)"
| "lease_exec (LExit p) s =
     (if p \<in># ls_inflight s
      then s\<lparr>ls_lease := snd (hold_exit p (ls_now s) (ls_lease s)), ls_inflight := ls_inflight s - {#p#}\<rparr>
      else s)"
| "lease_exec (LTick t) s = (if ls_now s \<le> t then s\<lparr>ls_now := t\<rparr> else s)"
| "lease_exec LSweep s = s\<lparr>ls_lease := expire_if_stale (ls_now s) (ls_lease s)\<rparr>"

primrec lease_states :: "lease_event list \<Rightarrow> lease_sys \<Rightarrow> lease_sys list" where
  "lease_states [] s = [s]"
| "lease_states (e # es) s = s # lease_states es (lease_exec e s)"

definition sys_holder :: "lease_sys \<Rightarrow> string option" where
  "sys_holder s = holder_at (ls_now s) (ls_lease s)"

definition sys_inv :: "lease_sys \<Rightarrow> bool" where
  "sys_inv s \<longleftrightarrow> l_holds (ls_lease s) = int (size (ls_inflight s)) \<and> 0 \<le> l_ttl (ls_lease s)"

definition lease_init :: "real \<Rightarrow> real \<Rightarrow> lease_sys" where
  "lease_init ttl now = \<lparr>ls_now = now, ls_lease = mk_lease ttl, ls_inflight = {#}\<rparr>"

lemma hold_enter_eq:
  "hold_enter p now l =
     (if holder_at now l = Some p then (Inr (), l\<lparr>l_holds := l_holds l + 1\<rparr>)
      else (Inl LeaseError, expire_if_stale now l))"
  by (simp add: hold_enter_def lease_check_eq sem_simps)

lemma heartbeat_state: "snd (heartbeat p now l) = l \<or> snd (heartbeat p now l) = refresh p now l"
  by (auto simp: heartbeat_def bindS_def sem_simps split: option.splits)

lemma release_state:
  "snd (lease_release p l) = (case l_info l of Some i \<Rightarrow> if li_owner i = p then l\<lparr>l_info := None\<rparr> else l
     | None \<Rightarrow> l)"
  by (auto simp: lease_release_def bindS_def sem_simps split: option.splits)

lemma hold_exit_state: "snd (hold_exit p now l) = refresh p now (l\<lparr>l_holds := l_holds l - 1\<rparr>)"
  by (simp add: hold_exit_def sem_simps)

lemma acquire_state:
  "snd (lease_acquire p f t now l) = l \<or>
   (snd (lease_acquire p f t now l) = (expire_if_stale t l)\<lparr>l_info := Some \<lparr>li_owner = p,
       li_acquired_at = now, li_expires_at = now + l_ttl l\<rparr>\<rparr>
    \<and> (f \<or> holder_at t l = None \<or> holder_at t l = Some p) \<and> p \<noteq> '''')"
proof (cases "p = ''''")
  case False
  then show ?thesis
    using lease_acquire_denied_state [of p f t now l] lease_acquire_eq [OF False, of f t now l]
    by (cases "lease_acquire p f t now l") (auto simp: Let_def split: if_splits)
qed (simp add: lease_acquire_def sem_simps)

lemma sys_inv_exec: "sys_inv s \<Longrightarrow> sys_inv (lease_exec e s)"
proof (cases e)
  case (LAcquire p f)
  then show "sys_inv s \<Longrightarrow> ?thesis"
    using acquire_state [of p f "ls_now s" "ls_now s" "ls_lease s"] by (auto simp: sys_inv_def)
next
  case (LBeat p)
  then show "sys_inv s \<Longrightarrow> ?thesis"
    using heartbeat_state [of p "ls_now s" "ls_lease s"] by (auto simp: sys_inv_def)
next
  case (LExit p)
  have "0 < size (ls_inflight s)" if "p \<in># ls_inflight s"
    using that by (metis empty_iff gr0I set_mset_empty size_eq_0_iff_empty)
  then show "sys_inv s \<Longrightarrow> ?thesis"
    using LExit by (auto simp: sys_inv_def hold_exit_state size_Diff_singleton of_nat_diff)
qed (auto simp: sys_inv_def release_state hold_enter_eq split: option.splits)

lemma sys_inv_fold: "sys_inv s \<Longrightarrow> sys_inv (fold lease_exec es s)"
  by (induction es arbitrary: s) (simp_all add: sys_inv_exec)

lemma lease_init_inv: "0 \<le> ttl \<Longrightarrow> sys_inv (lease_init ttl now)"
  by (simp add: sys_inv_def lease_init_def mk_lease_def)

section \<open>A request in flight pins its owner\<close>

definition pinned :: "string \<Rightarrow> lease_sys \<Rightarrow> bool" where
  "pinned p s \<longleftrightarrow> sys_inv s \<and> p \<in># ls_inflight s
     \<and> (\<exists>i. l_info (ls_lease s) = Some i \<and> li_owner i = p)"

text \<open>The events that may end a pinned hold: a forced acquisition, the owner's own release, and
  the end of one of its requests.\<close>

definition harmless :: "string \<Rightarrow> lease_event \<Rightarrow> bool" where
  "harmless p e \<longleftrightarrow> (\<forall>q. e \<noteq> LAcquire q True) \<and> e \<noteq> LRelease p \<and> e \<noteq> LExit p"

lemma pinned_holder: "pinned p s \<Longrightarrow> sys_holder s = Some p"
  by (auto simp: pinned_def sys_holder_def holder_at_def sys_inv_def nonempty_has_size [symmetric])

lemma refresh_owner: "l_info l = Some i \<Longrightarrow> \<exists>i'. l_info (refresh q now l) = Some i' \<and> li_owner i' = li_owner i"
  by (simp add: refresh_def)

lemma pinned_exec:
  assumes "pinned p s" "harmless p e"
  shows "pinned p (lease_exec e s)"
proof -
  have inv: "sys_inv (lease_exec e s)" using assms(1) sys_inv_exec by (simp add: pinned_def)
  obtain i where i: "p \<in># ls_inflight s" "l_info (ls_lease s) = Some i" "li_owner i = p"
    using assms(1) by (auto simp: pinned_def)
  have h: "holder_at (ls_now s) (ls_lease s) = Some p"
    using pinned_holder [OF assms(1)] by (simp add: sys_holder_def)
  have sweep: "expire_if_stale (ls_now s) (ls_lease s) = ls_lease s"
    using h i(2) by (auto simp: expire_if_stale_def holder_at_def split: if_splits)
  show ?thesis
  proof (cases e)
    case (LAcquire q f)
    then show ?thesis
      using inv i h assms(2) sweep acquire_state [of q f "ls_now s" "ls_now s" "ls_lease s"]
      by (auto simp: pinned_def harmless_def)
  next
    case (LBeat q)
    then show ?thesis
      using inv i heartbeat_state [of q "ls_now s" "ls_lease s"] refresh_owner [OF i(2), of q "ls_now s"]
      by (auto simp: pinned_def)
  next
    case (LExit q)
    then show ?thesis
      using inv i assms(2) refresh_owner [of "(ls_lease s)\<lparr>l_holds := l_holds (ls_lease s) - 1\<rparr>" i q "ls_now s"]
      by (auto simp: pinned_def harmless_def hold_exit_state in_diff_count)
  qed (use inv i h sweep assms(2) in \<open>auto simp: pinned_def harmless_def release_state hold_enter_eq\<close>)
qed

section \<open>The event semantics as runs of the arbiter\<close>

definition timed :: "lease_sys \<Rightarrow> timed_lease" where
  "timed s = (ls_now s, ls_lease s)"

definition unforced :: "lease_event \<Rightarrow> bool" where
  "unforced e \<longleftrightarrow> (\<forall>q. e \<noteq> LAcquire q True)"

lemma on_lease_cases:
  "on_lease m s = (case m (fst s) (snd s) of (Inl e, _) \<Rightarrow> Inl e | (Inr _, l') \<Rightarrow> Inr (fst s, l'))"
  by (simp add: on_lease_def)

lemma timed_acquire:
  assumes "p \<noteq> ''''"
  shows "lease_arb.step (timed s) (Acquire p f)
    (ls_now s, snd (lease_acquire p f (ls_now s) (ls_now s) (ls_lease s)))"
proof -
  let ?t = "ls_now s" and ?l = "ls_lease s"
  obtain r l' where r: "lease_acquire p f ?t ?t ?l = (r, l')" by (cases "lease_acquire p f ?t ?t ?l")
  show ?thesis
  proof (cases r)
    case (Inl x)
    then have "l' = ?l" using lease_acquire_denied_state r assms by metis
    then show ?thesis
      using r Inl assms lease_arb.acq_err [where s = "timed s" and p = p and f = f and e = x]
      by (simp add: timed_def on_lease_def)
  next
    case (Inr x)
    then show ?thesis
      using r assms lease_arb.acq [where s = "timed s" and p = p and f = f and s' = "(?t, l')"]
      by (simp add: timed_def on_lease_def)
  qed
qed

lemma timed_release:
  "lease_arb.step (timed s) (Release p) (ls_now s, snd (lease_release p (ls_lease s)))"
proof -
  let ?l = "ls_lease s"
  obtain r l' where r: "lease_release p ?l = (r, l')" by (cases "lease_release p ?l")
  show ?thesis
  proof (cases r)
    case (Inl x)
    then have "l' = ?l"
      using r by (auto simp: lease_release_def bindS_def sem_simps split: if_splits)
    then show ?thesis
      using r Inl lease_arb.rel_err [where s = "timed s" and p = p and e = x]
      by (simp add: timed_def on_lease_def)
  next
    case (Inr x)
    then show ?thesis
      using r lease_arb.rel [where s = "timed s" and p = p and s' = "(ls_now s, l')"]
      by (simp add: timed_def on_lease_def)
  qed
qed

lemma exec_arb_step:
  assumes "unforced e"
  shows "\<exists>a. lease_arb.step (timed s) a (timed (lease_exec e s)) \<and> (\<forall>q. a \<noteq> Acquire q True)"
proof -
  let ?t = "ls_now s" and ?l = "ls_lease s"
  have env: "\<exists>a. lease_arb.step (timed s) a (t', l') \<and> (\<forall>q. a \<noteq> Acquire q True)"
    if "tl_env (?t, ?l) (t', l')" for t' l'
    using lease_arb.lapse [OF that] by (auto simp: timed_def)
  have same: "tl_env (?t, ?l) (?t, ?l)" by (rule tl_env.tick) simp
  show ?thesis
  proof (cases e)
    case (LAcquire p f)
    then show ?thesis
      using assms timed_acquire [of p s f] env [OF same]
      by (cases "p = ''''")
        (auto simp: timed_def unforced_def lease_acquire_def sem_simps intro!: exI [of _ "Acquire p f"])
  next
    case (LBeat p)
    show ?thesis
      using LBeat env [OF tl_env.beat [OF prod.collapse [symmetric]]] by (simp add: timed_def)
  next
    case (LRelease p)
    then show ?thesis
      using timed_release [of s p] by (auto simp: timed_def intro!: exI [of _ "Release p"])
  next
    case (LEnter p)
    obtain r l' where r: "hold_enter p ?t ?l = (r, l')" by (cases "hold_enter p ?t ?l")
    then show ?thesis
      using LEnter env [OF tl_env.enter [OF r]] by (cases r) (simp_all add: timed_def)
  next
    case (LExit p)
    show ?thesis
      using LExit env [OF tl_env.leave [where p = p and t = ?t and l = ?l, OF prod.collapse [symmetric]]] env [OF same]
      by (auto simp: timed_def)
  next
    case (LTick t)
    show ?thesis using LTick env [OF tl_env.tick [of ?t t ?l]] env [OF same] by (auto simp: timed_def)
  next
    case LSweep
    show ?thesis using LSweep env [OF tl_env.sweep [of ?t ?l]] by (simp add: timed_def)
  qed
qed

lemma lease_states_path:
  "list_all unforced es \<Longrightarrow> lease_arb.path (map timed (lease_states es s))"
proof (induction es arbitrary: s)
  case (Cons e es)
  obtain a where a: "lease_arb.step (timed s) a (timed (lease_exec e s))" "\<And>q. a \<noteq> Acquire q True"
    using exec_arb_step [of e s] Cons.prems by auto
  have "\<exists>ss. lease_states es (lease_exec e s) = lease_exec e s # ss" by (cases es) auto
  then obtain ss where ss: "lease_states es (lease_exec e s) = lease_exec e s # ss" by blast
  show ?case
    using lease_arb.more [OF a] Cons.IH [of "lease_exec e s"] Cons.prems ss by simp
qed (simp add: lease_arb.single)

lemma lease_states_ends:
  "hd (lease_states es s) = s" "last (lease_states es s) = fold lease_exec es s"
  "lease_states es s \<noteq> []"
proof -
  have ne: "lease_states es s \<noteq> []" for es s by (cases es) auto
  then show "lease_states es s \<noteq> []" .
  show "hd (lease_states es s) = s" by (cases es) auto
  show "last (lease_states es s) = fold lease_exec es s"
    using ne by (induction es arbitrary: s) auto
qed

section \<open>Properties\<close>

text \<open>C35: Across any interleaving of client requests, sweeps and the passage of time, without a forced
  acquisition the lease passes from one owner to a different one only through a moment at which
  nobody holds it.\<close>

theorem lease_handover:
  assumes "0 \<le> l_ttl (ls_lease s)" "list_all unforced es"
    and "sys_holder s = Some p" "sys_holder (fold lease_exec es s) = Some q" "p \<noteq> q"
  shows "\<exists>s' \<in> set (lease_states es s). sys_holder s' = None"
proof -
  have th: "tl_holder (timed s') = sys_holder s'" for s'
    by (simp add: tl_holder_def timed_def sys_holder_def)
  have "\<exists>x \<in> set (map timed (lease_states es s)). tl_holder x = None"
    using lease_arb.path_handover [OF lease_states_path [OF assms(2)], of s p q] assms
      lease_states_ends [of es s]
    by (auto simp: th hd_map last_map tl_wf_def) (simp add: timed_def)
  then show ?thesis by (auto simp: th)
qed

lemma lease_handover_witness:
  "\<exists>s' \<in> set (lease_states [LTick 5, LAcquire ''b'' False] (lease_exec (LAcquire ''a'' False) (lease_init 2 0))).
     sys_holder s' = None"
  by (rule lease_handover [of _ _ "''a''" "''b''"])
    (simp_all add: lease_init_def mk_lease_def lease_acquire_eq Let_def sys_holder_def holder_at_def
      expire_if_stale_def unforced_def)

text \<open>A request in flight pins its owner's lease: once \<open>hold\<close> has been entered, no sequence of other
  clients' requests and no amount of time takes the lease away, until a forced acquisition, the
  owner's own release, or the end of one of the owner's requests.\<close>

theorem hold_pins_lease:
  assumes "sys_inv s" "sys_holder s = Some p" "list_all (harmless p) es"
  shows "sys_holder (fold lease_exec es (lease_exec (LEnter p) s)) = Some p"
proof -
  have "pinned p (lease_exec (LEnter p) s)"
    using assms(1,2) sys_inv_exec [OF assms(1), of "LEnter p"]
    by (auto simp: pinned_def sys_holder_def hold_enter_eq holder_at_def split: option.splits if_splits)
  then have "pinned p (fold lease_exec es (lease_exec (LEnter p) s))"
    using assms(3) by (induction es arbitrary: s rule: rev_induct) (auto simp: pinned_exec)
  then show ?thesis by (rule pinned_holder)
qed

lemma hold_pins_lease_witness:
  "sys_holder (fold lease_exec [LTick 1000, LSweep, LAcquire ''b'' False, LRelease ''b'']
     (lease_exec (LEnter ''a'') (lease_exec (LAcquire ''a'' False) (lease_init 2 0)))) = Some ''a''"
proof (rule hold_pins_lease)
  show "sys_inv (lease_exec (LAcquire ''a'' False) (lease_init 2 0))"
    by (intro sys_inv_exec lease_init_inv) simp
  show "sys_holder (lease_exec (LAcquire ''a'' False) (lease_init 2 0)) = Some ''a''"
    by (simp add: lease_init_def mk_lease_def lease_acquire_eq Let_def sys_holder_def holder_at_def
        expire_if_stale_def)
qed (simp add: harmless_def)

text \<open>A dead owner does not brick the robot: with no request in flight and the expiry passed, a
  command of the old owner is refused and any client acquires the lease without force.\<close>

theorem lease_frees_itself:
  assumes "sys_inv s" "ls_inflight s = {#}" "l_info (ls_lease s) = Some i"
    and "li_expires_at i < ls_now s" "q \<noteq> ''''"
  shows "fst (lease_check p (ls_now s) (ls_lease s)) = Inl LeaseError
    \<and> sys_holder (lease_exec (LAcquire q False) s) = Some q"
proof -
  have "holder_at (ls_now s) (ls_lease s) = None"
    using assms by (simp add: holder_at_def sys_inv_def)
  then show ?thesis
    using assms by (simp add: lease_check_eq lease_acquire_eq Let_def sys_holder_def holder_at_def sys_inv_def)
qed

lemma lease_frees_itself_witness:
  "sys_holder (lease_exec (LAcquire ''b'' False)
     (lease_exec (LTick 5) (lease_exec (LAcquire ''a'' False) (lease_init 2 0)))) = Some ''b''"
proof -
  let ?s = "lease_exec (LTick 5) (lease_exec (LAcquire ''a'' False) (lease_init 2 0))"
  have "sys_inv ?s" by (intro sys_inv_exec lease_init_inv) simp
  moreover have "ls_inflight ?s = {#}" "ls_now ?s = 5"
    "l_info (ls_lease ?s) = Some \<lparr>li_owner = ''a'', li_acquired_at = 0, li_expires_at = 2\<rparr>"
    by (simp_all add: lease_init_def mk_lease_def lease_acquire_eq Let_def holder_at_def expire_if_stale_def)
  ultimately show ?thesis using lease_frees_itself [of ?s _ "''b''"] by simp
qed

text \<open>The in-flight count is not tied to an owner: after a forced takeover, a request of the
  previous owner that is still in flight keeps the new owner's lease from expiring, however long
  the new owner stays silent.\<close>

theorem stolen_lease_pinned:
  assumes "a \<noteq> ''''" "b \<noteq> ''''" "a \<noteq> b" "0 \<le> ttl" "0 \<le> t"
  shows "sys_holder (fold lease_exec [LAcquire a False, LEnter a, LAcquire b True, LTick t, LSweep,
      LAcquire a False] (lease_init ttl 0)) = Some b"
  using assms
  by (simp add: lease_init_def mk_lease_def lease_acquire_eq Let_def sys_holder_def holder_at_def
      hold_enter_eq expire_if_stale_def)

lemma stolen_lease_pinned_witness:
  "sys_holder (fold lease_exec [LAcquire ''a'' False, LEnter ''a'', LAcquire ''b'' True, LTick 1000,
      LSweep, LAcquire ''a'' False] (lease_init 2 0)) = Some ''b''"
  by (rule stolen_lease_pinned) simp_all

end
