(* ===== verification/Protocol.thy ===== *)
theory Protocol
  imports Action_Chunk
begin

text \<open>
  \<^verbatim>\<open>server/protocol.py\<close>: the conversion of the structured objects to and from the
  dictionaries that cross the wire as JSON. A decoder raises what the source raises, in the
  source's order: a missing required key, a failed conversion, the constructors' validation.
  A value is decoded at the type the source annotates; the source would carry a value of
  another type (a string where a number is stored unconverted) until its first use.
  The lemmas: every object survives the trip through its dictionary, and whatever
  dictionary arrives, a decoded chunk is well-formed.
\<close>

section \<open>Gripper command\<close>

definition gripper_dict :: "gripper_command \<Rightarrow> json" where
  "gripper_dict g = JObj [(''width'', JNum (g_width g)), (''force'', JNum (g_force g)),
     (''velocity'', JNum (g_velocity g)), (''grasp'', JBool (g_grasp g))]"

definition gripper_to_dict :: "gripper_command option \<Rightarrow> json" where
  "gripper_to_dict g = of_opt gripper_dict g"

definition gripper_read :: "json \<Rightarrow> gripper_command result" where
  "gripper_read d =
     bindR (jfield_or d ''width'' (JNum 0) jfloat) (\<lambda>w.
     bindR (jfield_or d ''force'' (JNum 20) jfloat) (\<lambda>f.
     bindR (jfield_or d ''velocity'' (JNum (1/10)) jfloat) (\<lambda>v.
     bindR (jfield_or d ''grasp'' (JBool False) jbool) (\<lambda>gr.
       Inr \<lparr>g_width = w, g_force = f, g_velocity = v, g_grasp = gr\<rparr>))))"

definition gripper_from_dict :: "json \<Rightarrow> gripper_command option result" where
  "gripper_from_dict d = to_opt gripper_read d"

section \<open>Robot state\<close>

definition enum_dec :: "('a \<Rightarrow> string) \<Rightarrow> 'a list \<Rightarrow> json \<Rightarrow> 'a result" where
  "enum_dec val members j = (case j of JStr s \<Rightarrow> enum_of val members s | _ \<Rightarrow> Inl ValueError)"

definition jpose :: "json \<Rightarrow> pose result" where
  "jpose j = bindR (jfloats j) to_pose"

definition state_to_dict :: "robot_state \<Rightarrow> json" where
  "state_to_dict s = JObj
     [(''stamp'', JNum (st_stamp s)),
      (''q'', of_floats (st_q s)),
      (''dq'', of_floats (st_dq s)),
      (''tau'', of_floats (st_tau s)),
      (''tcp_pose'', of_floats (of_pose (st_tcp_pose s))),
      (''tcp_vel'', of_floats (st_tcp_vel s)),
      (''wrench'', of_floats (st_wrench s)),
      (''gripper_width'', JNum (st_gripper_width s)),
      (''gripper_force'', JNum (st_gripper_force s)),
      (''gripper_is_moving'', JBool (st_gripper_is_moving s)),
      (''control_mode'', JStr (mode_value (st_control_mode s))),
      (''safety_status'', JStr (status_value (st_safety_status s))),
      (''stop_reason'', JStr (reason_value (st_stop_reason s))),
      (''active_owner'', JStr (st_active_owner s)),
      (''command_latency_ms'', JNum (st_command_latency_ms s)),
      (''loop_period_ms'', JNum (st_loop_period_ms s)),
      (''loop_jitter_us'', JNum (st_loop_jitter_us s)),
      (''missed_cycles'', JInt (st_missed_cycles s))]"

definition state_from_dict :: "json \<Rightarrow> robot_state result" where
  "state_from_dict d =
     bindR (jfield d ''stamp'' jfloat) (\<lambda>stamp.
     bindR (jfield d ''q'' jfloats) (\<lambda>q.
     bindR (jfield d ''dq'' jfloats) (\<lambda>dq.
     bindR (jfield d ''tau'' jfloats) (\<lambda>tau.
     bindR (jfield d ''tcp_pose'' jpose) (\<lambda>tcp_pose.
     bindR (jfield d ''tcp_vel'' jfloats) (\<lambda>tcp_vel.
     bindR (jfield d ''wrench'' jfloats) (\<lambda>wrench.
     bindR (jfield d ''gripper_width'' jfloat) (\<lambda>gw.
     bindR (jfield d ''gripper_force'' jfloat) (\<lambda>gf.
     bindR (jfield d ''gripper_is_moving'' jbool) (\<lambda>gm.
     bindR (jfield d ''control_mode'' (enum_dec mode_value all_modes)) (\<lambda>mode.
     bindR (jfield d ''safety_status'' (enum_dec status_value all_statuses)) (\<lambda>status.
     bindR (jfield d ''stop_reason'' (enum_dec reason_value all_reasons)) (\<lambda>reason.
     bindR (jfield_or d ''active_owner'' (JStr '''') jstr) (\<lambda>owner.
     bindR (jfield_or d ''command_latency_ms'' (JNum 0) jfloat) (\<lambda>lat.
     bindR (jfield_or d ''loop_period_ms'' (JNum 0) jfloat) (\<lambda>per.
     bindR (jfield_or d ''loop_jitter_us'' (JNum 0) jfloat) (\<lambda>jit.
     bindR (jfield_or d ''missed_cycles'' (JInt 0) jint) (\<lambda>missed.
       Inr \<lparr>st_stamp = stamp, st_q = q, st_dq = dq, st_tau = tau, st_tcp_pose = tcp_pose,
         st_tcp_vel = tcp_vel, st_wrench = wrench, st_gripper_width = gw, st_gripper_force = gf,
         st_gripper_is_moving = gm, st_control_mode = mode, st_safety_status = status,
         st_stop_reason = reason, st_active_owner = owner, st_command_latency_ms = lat,
         st_loop_period_ms = per, st_loop_jitter_us = jit,
         st_missed_cycles = missed\<rparr>))))))))))))))))))"

section \<open>Execution result\<close>

definition result_to_dict :: "exec_result \<Rightarrow> json" where
  "result_to_dict r = JObj
     [(''success'', JBool (er_success r)),
      (''clipped'', JBool (er_clipped r)),
      (''stop_reason'', JStr (er_stop_reason r)),
      (''executed_duration'', JNum (er_executed_duration r)),
      (''path_tracking_error'', JNum (er_path_tracking_error r)),
      (''max_tcp_speed'', JNum (er_max_tcp_speed r)),
      (''max_joint_speed'', JNum (er_max_joint_speed r)),
      (''max_wrench'', JNum (er_max_wrench r)),
      (''gripper_width_final'', JNum (er_gripper_width_final r)),
      (''final_state'', of_opt state_to_dict (er_final_state r)),
      (''log'', JObj (er_log r))]"

definition result_from_dict :: "json \<Rightarrow> exec_result result" where
  "result_from_dict d =
     bindR (jget_dflt d ''final_state'' JNull) (\<lambda>fs.
     bindR (jfield d ''success'' jbool) (\<lambda>success.
     bindR (jfield_or d ''clipped'' (JBool False) jbool) (\<lambda>clipped.
     bindR (jfield_or d ''stop_reason'' (JStr ''none'') jstr) (\<lambda>reason.
     bindR (jfield_or d ''executed_duration'' (JNum 0) jfloat) (\<lambda>dur.
     bindR (jfield_or d ''path_tracking_error'' (JNum 0) jfloat) (\<lambda>err.
     bindR (jfield_or d ''max_tcp_speed'' (JNum 0) jfloat) (\<lambda>tcp.
     bindR (jfield_or d ''max_joint_speed'' (JNum 0) jfloat) (\<lambda>jnt.
     bindR (jfield_or d ''max_wrench'' (JNum 0) jfloat) (\<lambda>wrench.
     bindR (jfield_or d ''gripper_width_final'' (JNum 0) jfloat) (\<lambda>width.
     bindR (to_opt state_from_dict fs) (\<lambda>final.
     bindR (jfield_or d ''log'' (JObj []) jobj) (\<lambda>log.
       Inr \<lparr>er_success = success, er_clipped = clipped, er_stop_reason = reason,
         er_executed_duration = dur, er_path_tracking_error = err, er_max_tcp_speed = tcp,
         er_max_joint_speed = jnt, er_max_wrench = wrench, er_gripper_width_final = width,
         er_final_state = final, er_log = log\<rparr>))))))))))))"

section \<open>Chunks\<close>

definition waypoint_to_dict :: "waypoint \<Rightarrow> json" where
  "waypoint_to_dict w = JObj
     [(''position'', of_floats (of_vec3 (wp_position w))),
      (''quaternion'', of_opt (\<lambda>q. of_floats (of_quat q)) (wp_quaternion w)),
      (''gripper'', gripper_to_dict (wp_gripper w)),
      (''n_frames'', of_opt JInt (wp_n_frames w)),
      (''duration'', of_opt JNum (wp_duration w)),
      (''frame'', JStr (wp_frame w))]"

definition waypoint_from_dict :: "json \<Rightarrow> waypoint result" where
  "waypoint_from_dict w =
     bindR (jfield w ''position'' jfloats) (\<lambda>position.
     bindR (jfield_opt w ''quaternion'' jfloats) (\<lambda>quaternion.
     bindR (bindR (jget_dflt w ''gripper'' JNull) gripper_from_dict) (\<lambda>gripper.
     bindR (jfield_opt w ''n_frames'' jint_only) (\<lambda>n_frames.
     bindR (jfield_opt w ''duration'' jfloat) (\<lambda>duration.
     bindR (jfield_or w ''frame'' (JStr ''base'') jstr) (\<lambda>frame.
       mk_waypoint position quaternion gripper n_frames duration frame))))))"

definition impedance_to_dict :: "impedance_params \<Rightarrow> json" where
  "impedance_to_dict i = JObj [(''stiffness'', of_floats (ip_stiffness i)),
     (''damping_ratio'', of_floats (ip_damping_ratio i))]"

definition impedance_from_dict :: "json \<Rightarrow> impedance_params result" where
  "impedance_from_dict imp =
     (if jtruthy imp
      then bindR (jfield imp ''stiffness'' jfloats) (\<lambda>k.
           bindR (jfield imp ''damping_ratio'' jfloats) (\<lambda>z.
             Inr \<lparr>ip_stiffness = k, ip_damping_ratio = z\<rparr>))
      else Inr default_impedance)"

definition force_to_dict :: "force_control_params \<Rightarrow> json" where
  "force_to_dict f = JObj [(''enabled_axes'', of_bools (fc_enabled_axes f)),
     (''target_wrench'', of_floats (fc_target_wrench f)), (''frame'', JStr (fc_frame f))]"

definition force_from_dict :: "json \<Rightarrow> force_control_params option result" where
  "force_from_dict fc =
     (if jtruthy fc
      then bindR (jfield fc ''enabled_axes'' jbools) (\<lambda>axes.
           bindR (jfield fc ''target_wrench'' jfloats) (\<lambda>w.
           bindR (jfield_or fc ''frame'' (JStr ''tcp'') jstr) (\<lambda>frame.
             Inr (Some \<lparr>fc_enabled_axes = axes, fc_target_wrench = w, fc_frame = frame\<rparr>))))
      else Inr None)"

definition all_representations :: "chunk_representation list" where
  "all_representations = [ABSOLUTE, RELATIVE_TO_START]"

definition chunk_to_dict :: "chunk \<Rightarrow> json" where
  "chunk_to_dict c = JObj
     [(''waypoints'', JList (map waypoint_to_dict (ck_waypoints c))),
      (''impedance'', impedance_to_dict (ck_impedance c)),
      (''force_control'', of_opt force_to_dict (ck_force_control c)),
      (''max_tcp_linear_speed'', JNum (ck_max_tcp_linear_speed c)),
      (''max_tcp_angular_speed'', JNum (ck_max_tcp_angular_speed c)),
      (''max_tcp_linear_acc'', JNum (ck_max_tcp_linear_acc c)),
      (''max_tcp_angular_acc'', JNum (ck_max_tcp_angular_acc c)),
      (''max_contact_wrench'', of_opt of_floats (ck_max_contact_wrench c)),
      (''contact_wrench_allowance'', of_opt of_floats (ck_contact_wrench_allowance c)),
      (''grip_tracking_gate_m'', of_opt JNum (ck_grip_tracking_gate_m c)),
      (''safety_profile'', JStr (ck_safety_profile c)),
      (''frame'', JStr (ck_frame c)),
      (''representation'', JStr (representation_value (ck_representation c))),
      (''n_execute'', of_opt JInt (ck_n_execute c))]"

definition chunk_from_dict :: "json \<Rightarrow> chunk result" where
  "chunk_from_dict d =
     bindR (jfield d ''waypoints'' (\<lambda>ws. bindR (jlist ws) (mapR waypoint_from_dict))) (\<lambda>wps.
     bindR (bindR (jget_dflt d ''impedance'' JNull) impedance_from_dict) (\<lambda>impedance.
     bindR (bindR (jget_dflt d ''force_control'' JNull) force_from_dict) (\<lambda>force.
     bindR (jfield_or d ''max_tcp_linear_speed'' (JNum (25/100)) jfloat) (\<lambda>lin.
     bindR (jfield_or d ''max_tcp_angular_speed'' (JNum (60/100)) jfloat) (\<lambda>ang.
     bindR (jfield_or d ''max_tcp_linear_acc'' (JNum 1) jfloat) (\<lambda>lin_acc.
     bindR (jfield_or d ''max_tcp_angular_acc'' (JNum 2) jfloat) (\<lambda>ang_acc.
     bindR (jfield_opt d ''max_contact_wrench'' jfloats) (\<lambda>wrench.
     bindR (jfield_opt d ''contact_wrench_allowance'' jfloats) (\<lambda>allowance.
     bindR (jfield_opt d ''grip_tracking_gate_m'' jfloat) (\<lambda>gate.
     bindR (jfield_or d ''safety_profile'' (JStr '''') jstr) (\<lambda>profile.
     bindR (jfield_or d ''frame'' (JStr ''base'') jstr) (\<lambda>frame.
     bindR (jfield_or d ''representation'' (JStr ''absolute'')
              (enum_dec representation_value all_representations)) (\<lambda>repr.
     bindR (jfield_opt d ''n_execute'' jint_only) (\<lambda>n_exec.
       chunk_post_init \<lparr>ck_waypoints = wps, ck_impedance = impedance, ck_force_control = force,
         ck_max_tcp_linear_speed = lin, ck_max_tcp_angular_speed = ang,
         ck_max_tcp_linear_acc = lin_acc, ck_max_tcp_angular_acc = ang_acc,
         ck_max_contact_wrench = wrench, ck_contact_wrench_allowance = allowance,
         ck_grip_tracking_gate_m = gate, ck_safety_profile = profile, ck_frame = frame,
         ck_representation = repr, ck_n_execute = n_exec\<rparr>))))))))))))))"

definition joint_waypoint_to_dict :: "joint_waypoint \<Rightarrow> json" where
  "joint_waypoint_to_dict w = JObj
     [(''positions'', of_floats (jw_positions w)),
      (''n_frames'', of_opt JInt (jw_n_frames w)),
      (''duration'', of_opt JNum (jw_duration w))]"

definition joint_waypoint_from_dict :: "json \<Rightarrow> joint_waypoint result" where
  "joint_waypoint_from_dict w =
     bindR (jfield w ''positions'' jfloats) (\<lambda>positions.
     bindR (jfield_opt w ''n_frames'' jint_only) (\<lambda>n_frames.
     bindR (jfield_opt w ''duration'' jfloat) (\<lambda>duration.
       jw_post_init \<lparr>jw_positions = positions, jw_n_frames = n_frames, jw_duration = duration\<rparr>)))"

definition joint_chunk_to_dict :: "joint_chunk \<Rightarrow> json" where
  "joint_chunk_to_dict c = JObj
     [(''waypoints'', JList (map joint_waypoint_to_dict (jc_waypoints c))),
      (''max_joint_speed_scale'', JNum (jc_max_joint_speed_scale c)),
      (''safety_profile'', JStr (jc_safety_profile c))]"

definition joint_chunk_from_dict :: "json \<Rightarrow> joint_chunk result" where
  "joint_chunk_from_dict d =
     bindR (jfield d ''waypoints'' (\<lambda>ws. bindR (jlist ws) (mapR joint_waypoint_from_dict))) (\<lambda>wps.
     bindR (jfield_or d ''max_joint_speed_scale'' (JNum (3/10)) jfloat) (\<lambda>scale.
     bindR (jfield_or d ''safety_profile'' (JStr '''') jstr) (\<lambda>profile.
       jc_post_init \<lparr>jc_waypoints = wps, jc_max_joint_speed_scale = scale,
         jc_safety_profile = profile\<rparr>)))"

section \<open>Round trips\<close>

text \<open>A codec is a pair whose decoder undoes its encoder on the valid objects.\<close>

locale codec =
  fixes enc :: "'a \<Rightarrow> json" and dec :: "json \<Rightarrow> 'a result" and valid :: "'a \<Rightarrow> bool"
  assumes dec_enc: "valid x \<Longrightarrow> dec (enc x) = Inr x"
begin

lemma enc_inj:
  assumes "valid x" "valid y" "enc x = enc y"
  shows "x = y"
proof -
  have "Inr x = dec (enc y)" using dec_enc [OF assms(1)] assms(3) by simp
  also have "\<dots> = Inr y" by (rule dec_enc [OF assms(2)])
  finally show ?thesis by simp
qed

lemma list_dec_enc:
  assumes "list_all valid xs"
  shows "mapR dec (map enc xs) = Inr xs"
  using assms by (intro mapR_map_Inr dec_enc) (auto simp: list_all_iff)

lemma opt_dec_enc:
  assumes "case x of None \<Rightarrow> True | Some y \<Rightarrow> valid y" "\<And>y. enc y \<noteq> JNull"
  shows "to_opt dec (of_opt enc x) = Inr x"
  using assms by (intro to_opt_of_opt) (auto simp: dec_enc)

end

lemma enum_dec_simps [simp]:
  "enum_dec mode_value all_modes (JStr (mode_value m)) = Inr m"
  "enum_dec status_value all_statuses (JStr (status_value s)) = Inr s"
  "enum_dec reason_value all_reasons (JStr (reason_value r)) = Inr r"
  by (simp_all add: enum_dec_def)

lemma enum_dec_repr [simp]:
  "enum_dec representation_value all_representations (JStr (representation_value r)) = Inr r"
  by (cases r) (simp_all add: enum_dec_def enum_of_def all_representations_def)

lemma jpose_of_pose [simp]: "jpose (of_floats (of_pose p)) = Inr p"
  by (simp add: jpose_def)

interpretation gripper_codec: codec gripper_dict gripper_read "\<lambda>_. True"
proof (unfold_locales)
  fix g :: gripper_command
  show "gripper_read (gripper_dict g) = Inr g"
    by (cases g) (simp add: gripper_read_def gripper_dict_def)
qed

lemma gripper_dict_not_null [simp]: "gripper_dict g \<noteq> JNull"
  by (simp add: gripper_dict_def)

lemma gripper_roundtrip [simp]: "gripper_from_dict (gripper_to_dict g) = Inr g"
  unfolding gripper_from_dict_def gripper_to_dict_def
  by (rule gripper_codec.opt_dec_enc) (simp_all split: option.split)

interpretation state_codec: codec state_to_dict state_from_dict "\<lambda>_. True"
proof (unfold_locales)
  fix s :: robot_state
  show "state_from_dict (state_to_dict s) = Inr s"
    by (cases s) (simp add: state_from_dict_def state_to_dict_def)
qed

lemma state_dict_not_null [simp]: "state_to_dict s \<noteq> JNull"
  by (simp add: state_to_dict_def)

lemma dict_truthy [simp]: "jtruthy (impedance_to_dict i)" "jtruthy (of_opt force_to_dict (Some f))"
  by (simp_all add: impedance_to_dict_def of_opt_def force_to_dict_def)

lemma impedance_roundtrip [simp]: "impedance_from_dict (impedance_to_dict i) = Inr i"
  unfolding impedance_from_dict_def using dict_truthy(1) [of i]
  by (cases i) (simp add: impedance_to_dict_def)

lemma force_roundtrip [simp]: "force_from_dict (of_opt force_to_dict f) = Inr f"
proof (cases f)
  case None
  then show ?thesis by (simp add: force_from_dict_def of_opt_def)
next
  case (Some g)
  then show ?thesis
    unfolding force_from_dict_def using dict_truthy(2) [of g]
    by (cases g) (simp add: of_opt_def force_to_dict_def)
qed

lemma quat_roundtrip [simp]:
  "to_opt jfloats (of_opt (\<lambda>q. of_floats (of_quat q)) q) = Inr (map_option of_quat q)"
  by (cases q) (simp_all add: to_opt_def of_opt_def)

interpretation waypoint_codec: codec waypoint_to_dict waypoint_from_dict wp_wf
proof (unfold_locales)
  fix w assume wf: "wp_wf w"
  have "mk_waypoint (of_vec3 (wp_position w)) (map_option of_quat (wp_quaternion w)) (wp_gripper w)
      (wp_n_frames w) (wp_duration w) (wp_frame w) = wp_post_init w"
    by (cases w; cases "wp_quaternion w") (simp_all add: mk_waypoint_def)
  moreover have "wp_post_init w = Inr w"
    using wf by (cases w) (auto simp: wp_post_init_def wp_wf_def EPS_def not_le split: option.splits)
  ultimately show "waypoint_from_dict (waypoint_to_dict w) = Inr w"
    by (simp add: waypoint_from_dict_def waypoint_to_dict_def)
qed

interpretation chunk_codec: codec chunk_to_dict chunk_from_dict chunk_wf
proof (unfold_locales)
  fix c assume wf: "chunk_wf c"
  have ws: "mapR waypoint_from_dict (map waypoint_to_dict (ck_waypoints c)) = Inr (ck_waypoints c)"
    using wf by (intro waypoint_codec.list_dec_enc) (simp add: chunk_wf_def)
  have post: "chunk_post_init c = Inr c" using wf by (rule chunk_post_init_ok)
  show "chunk_from_dict (chunk_to_dict c) = Inr c"
    unfolding chunk_from_dict_def chunk_to_dict_def
    using ws post by (cases c) simp
qed

text \<open>C40: A chunk survives the wire: decoding the dictionary of a well-formed chunk, as
  construction gives it, returns that chunk in every field.\<close>

theorem chunk_roundtrip:
  assumes "chunk_wf c"
  shows "chunk_from_dict (chunk_to_dict c) = Inr c"
  using assms by (rule chunk_codec.dec_enc)

text \<open>The gate of a grasp keeps its value, the absent ones stay absent.\<close>

lemma chunk_roundtrip_witness:
  "\<exists>w. wp_wf w \<and> chunk_from_dict (chunk_to_dict ((chunk_of [w])\<lparr>ck_grip_tracking_gate_m := Some (1/100)\<rparr>))
    = Inr ((chunk_of [w])\<lparr>ck_grip_tracking_gate_m := Some (1/100)\<rparr>)"
proof -
  define w where "w = \<lparr>wp_position = Vec3 1 0 0, wp_quaternion = Some (Quat 1 0 0 0), wp_gripper = Some default_gripper,
    wp_n_frames = Some 8, wp_duration = None, wp_frame = ''base''\<rparr>"
  have wf: "wp_wf w" by (simp add: w_def wp_wf_def)
  then have "chunk_wf ((chunk_of [w])\<lparr>ck_grip_tracking_gate_m := Some (1/100)\<rparr>)"
    by (simp add: chunk_wf_def chunk_of_def)
  from wf chunk_roundtrip [OF this] show ?thesis by blast
qed

interpretation result_codec: codec result_to_dict result_from_dict "\<lambda>_. True"
proof (unfold_locales)
  fix r :: exec_result
  have "to_opt state_from_dict (of_opt state_to_dict (er_final_state r)) = Inr (er_final_state r)"
    by (rule state_codec.opt_dec_enc) (simp_all split: option.split)
  then show "result_from_dict (result_to_dict r) = Inr r"
    by (cases r) (simp add: result_from_dict_def result_to_dict_def)
qed

text \<open>An execution report survives the wire: every field, with its final state and its log.\<close>

theorem result_roundtrip:
  "result_from_dict (result_to_dict r) = Inr r"
  by (rule result_codec.dec_enc) simp

definition jw_wf :: "joint_waypoint \<Rightarrow> bool" where
  "jw_wf w \<longleftrightarrow> jw_n_frames w \<noteq> None \<or> jw_duration w \<noteq> None"

interpretation joint_codec: codec joint_waypoint_to_dict joint_waypoint_from_dict jw_wf
proof (unfold_locales)
  fix w assume "jw_wf w"
  then show "joint_waypoint_from_dict (joint_waypoint_to_dict w) = Inr w"
    by (cases w) (auto simp: joint_waypoint_from_dict_def joint_waypoint_to_dict_def jw_post_init_def jw_wf_def)
qed

interpretation joint_chunk_codec: codec joint_chunk_to_dict joint_chunk_from_dict
  "\<lambda>c. jc_waypoints c \<noteq> [] \<and> list_all jw_wf (jc_waypoints c)"
proof (unfold_locales)
  fix c :: joint_chunk assume "jc_waypoints c \<noteq> [] \<and> list_all jw_wf (jc_waypoints c)"
  then show "joint_chunk_from_dict (joint_chunk_to_dict c) = Inr c"
    using joint_codec.list_dec_enc [of "jc_waypoints c"]
    by (cases c) (simp add: joint_chunk_from_dict_def joint_chunk_to_dict_def jc_post_init_def)
qed

section \<open>What is decoded is well-formed\<close>

lemma mapR_all:
  assumes "mapR f xs = Inr ys" "\<And>x y. f x = Inr y \<Longrightarrow> P y"
  shows "list_all P ys"
  using assms(1) by (induction xs arbitrary: ys) (auto simp: bindR_eq_Inr assms(2))

lemma waypoint_from_dict_wf: "waypoint_from_dict j = Inr w \<Longrightarrow> wp_wf w"
  by (auto simp: waypoint_from_dict_def mk_waypoint_def bindR_eq_Inr dest: wp_post_init_wf)

text \<open>C39: Whatever value arrives on the wire, a chunk decoded from it is well-formed: it has
  waypoints, each with a unit quaternion or none and with a positive frame count or a duration,
  wrench caps of six components, no negative allowance and no nonpositive gate. Everything else
  raises.\<close>

theorem decoded_chunk_wf:
  assumes "chunk_from_dict j = Inr c"
  shows "chunk_wf c"
proof -
  obtain wps rest where w: "mapR waypoint_from_dict rest = Inr wps"
    and c: "ck_waypoints c = wps" "chunk_post_init c = Inr c"
    using assms by (auto simp: chunk_from_dict_def bindR_eq_Inr jfield_def chunk_post_init_def split: if_splits)
  have "list_all wp_wf wps" using w waypoint_from_dict_wf by (rule mapR_all)
  then show ?thesis using c chunk_post_init_iff by auto
qed

lemma decoded_chunk_wf_witness:
  "\<exists>c. chunk_from_dict (JObj [(''waypoints'', JList [JObj [(''position'', JList [JNum 1, JInt 2, JNum 0]),
        (''quaternion'', JList [JNum 2, JNum 0, JNum 0, JNum 0]), (''n_frames'', JInt 5)]])]) = Inr c
    \<and> chunk_wf c"
proof -
  let ?w = "JObj [(''position'', JList [JNum 1, JInt 2, JNum 0]),
        (''quaternion'', JList [JNum 2, JNum 0, JNum 0, JNum 0]), (''n_frames'', JInt 5)]"
  have n: "norm (Quat 2 0 0 0) = 2" by (simp add: norm_quat_def)
  obtain w where w: "waypoint_from_dict ?w = Inr w"
    by (simp add: waypoint_from_dict_def mk_waypoint_def wp_post_init_def jfloats_def to_opt_def
        gripper_from_dict_def n EPS_def)
  have "\<exists>c. chunk_from_dict (JObj [(''waypoints'', JList [?w])]) = Inr c"
    using w by (simp add: chunk_from_dict_def impedance_from_dict_def force_from_dict_def enum_dec_def enum_of_def
        all_representations_def chunk_post_init_def reshape6_def)
  then show ?thesis using decoded_chunk_wf by blast
qed

end
