(* ===== verification/Server.thy ===== *)
theory Server
  imports Servo_Loop Lease Protocol
begin

text \<open>
  \<^verbatim>\<open>server/server.py\<close>: the control server. Its object \<open>'b server\<close> has the robot, the lease and the
  servo loop when one is installed (the loop shares the server's robot: the copy inside
  \<open>v_loop\<close> is ignored). A handler maps the request's parameters to the reply's result; \<open>dispatch\<close>
  is one request with its handler run to the end, the clock readings and lock probes it makes
  given by \<open>req_env\<close>. An error reply carries the class of the exception, not its text; owners,
  frames and names are strings. The lemmas: without the lease, and with a servo loop installed,
  a motion request does not reach the robot; every exception becomes an error reply; and what a
  forced takeover does to the new owner's first chunk.
\<close>

section \<open>The object\<close>

record 'b server =
  v_robot :: "'b robot"
  v_lease :: lease
  v_loop :: "'b servo option"

definition mk_server :: "'b robot \<Rightarrow> real \<Rightarrow> 'b server" where
  "mk_server robot lease_ttl = \<lparr>v_robot = robot, v_lease = mk_lease lease_ttl, v_loop = None\<rparr>"

text \<open>The readings of one request: times, probes of the robot lock, the waits of the gripper.\<close>

record req_env =
  rq_check :: real
  rq_now :: real
  rq_hold :: real
  rq_exit :: real
  rq_free :: bool
  rq_got1 :: bool
  rq_got2 :: bool
  rq_elapsed :: "(real \<times> real) list"

definition onRob :: "('b robot, 'a) sem \<Rightarrow> ('b server, 'a) sem" where
  "onRob m s = (case m (v_robot s) of (x, r') \<Rightarrow> (x, s\<lparr>v_robot := r'\<rparr>))"

definition onL :: "(lease, 'a) sem \<Rightarrow> ('b server, 'a) sem" where
  "onL m s = (case m (v_lease s) of (x, l') \<Rightarrow> (x, s\<lparr>v_lease := l'\<rparr>))"

text \<open>An operation of the installed loop, and of a loop object that is not (or no longer) installed.\<close>

definition onLoop :: "('b servo, 'a) sem \<Rightarrow> ('b server, 'a) sem" where
  "onLoop m s =
     (case v_loop s of
        None \<Rightarrow> (Inl RuntimeError, s)
      | Some l \<Rightarrow> (case m (l\<lparr>sv_robot := v_robot s\<rparr>) of
                     (x, l') \<Rightarrow> (x, s\<lparr>v_robot := sv_robot l', v_loop := Some l'\<rparr>)))"

definition on_detached :: "'b servo \<Rightarrow> ('b servo, 'a) sem \<Rightarrow> ('b server, 'a \<times> 'b servo) sem" where
  "on_detached l m s =
     (case m (l\<lparr>sv_robot := v_robot s\<rparr>) of
        (Inr x, l') \<Rightarrow> (Inr (x, l'), s\<lparr>v_robot := sv_robot l'\<rparr>)
      | (Inl e, l') \<Rightarrow> (Inl e, s\<lparr>v_robot := sv_robot l'\<rparr>))"

section \<open>Lease and motion lock\<close>

definition require_lease :: "req_env \<Rightarrow> json \<Rightarrow> ('b server, string) sem" where
  "require_lease k p =
     bindS (liftS (jfield_or p ''owner'' (JStr '''') jstr)) (\<lambda>owner.
     thenS (onL (lease_check owner (rq_check k)))
    (thenS (onL (heartbeat owner (rq_now k)))
    (thenS (onRob (modS (\<lambda>r. r\<lparr>r_owner := Some owner\<rparr>)))
       (retS owner))))"

text \<open>
  \<open>with self._motion_lock(owner)\<close>: the request refuses an installed loop, then holds the lease
  for the whole operation.
\<close>

definition motion_lock :: "req_env \<Rightarrow> string \<Rightarrow> ('b server, 'a) sem \<Rightarrow> ('b server, 'a) sem" where
  "motion_lock k owner body =
     bindS (getS (\<lambda>s. v_loop s \<noteq> None)) (\<lambda>streaming.
       if streaming then raiseS ServoLoopActive
       else if owner \<noteq> ''''
       then thenS (onL (hold_enter owner (rq_hold k)))
              (finallyS body (\<lambda>r. thenS (onL (hold_exit owner (rq_exit k))) (retS r)))
       else body)"

text \<open>\<open>loop, self._servo_loop = self._servo_loop, None\<close>, then \<open>loop.stop()\<close>.\<close>

definition drop_loop :: "'b backend \<Rightarrow> ('b server, unit) sem" where
  "drop_loop B =
     bindS (getS v_loop) (\<lambda>loop.
     thenS (modS (\<lambda>s. s\<lparr>v_loop := None\<rparr>))
       (case loop of
          None \<Rightarrow> retS ()
        | Some l \<Rightarrow> thenS (on_detached l (servo_stop B)) (retS ())))"

text \<open>The server's part of \<open>start\<close>; the rest of its life is in \<open>Server_Life\<close>.\<close>

definition server_start :: "'b backend \<Rightarrow> ('b server, unit) sem" where
  "server_start B = thenS (onRob (robot_connect B)) (onRob (modS (\<lambda>r. r\<lparr>r_owner := None\<rparr>)))"

section \<open>Handlers: lease, profile and state\<close>

definition flag :: "string \<Rightarrow> json" where
  "flag name = JObj [(name, JBool True)]"

definition h_acquire_lease :: "req_env \<Rightarrow> json \<Rightarrow> ('b server, json) sem" where
  "h_acquire_lease k p =
     bindS (liftS (jfield_or p ''force'' (JBool False) jbool)) (\<lambda>force.
     bindS (onL (lease_owner (rq_check k))) (\<lambda>prev.
     bindS (liftS (jfield_or p ''owner'' (JStr '''') jstr)) (\<lambda>owner.
     bindS (onL (lease_acquire owner force (rq_check k) (rq_now k))) (\<lambda>info.
     thenS (if force \<and> prev \<noteq> '''' \<and> prev \<noteq> li_owner info then onRob request_stop
            else if prev \<noteq> li_owner info then onRob clear_stop
            else retS ())
       (retS (JObj [(''owner'', JStr (li_owner info)), (''expires_at'', JNum (li_expires_at info))]))))))"

definition h_release_lease :: "'b backend \<Rightarrow> json \<Rightarrow> ('b server, json) sem" where
  "h_release_lease B p =
     bindS (liftS (jfield_or p ''owner'' (JStr '''') jstr)) (\<lambda>owner.
     thenS (onL (lease_release owner))
    (thenS (drop_loop B)
    (thenS (onRob (robot_stop B))
       (retS (flag ''released'')))))"

definition h_heartbeat :: "req_env \<Rightarrow> json \<Rightarrow> ('b server, json) sem" where
  "h_heartbeat k p =
     bindS (liftS (jfield_or p ''owner'' (JStr '''') jstr)) (\<lambda>owner.
     bindS (onL (heartbeat owner (rq_now k))) (\<lambda>info.
       retS (JObj [(''expires_at'', JNum (li_expires_at info))])))"

definition h_get_lease :: "req_env \<Rightarrow> json \<Rightarrow> ('b server, json) sem" where
  "h_get_lease k p = bindS (onL (lease_owner (rq_check k))) (\<lambda>o'. retS (JObj [(''owner'', JStr o')]))"

definition h_set_safety_profile ::
  "(string \<Rightarrow> safety_profile result) \<Rightarrow> req_env \<Rightarrow> json \<Rightarrow> ('b server, json) sem" where
  "h_set_safety_profile load k p =
     thenS (require_lease k p)
       (bindS (liftS (jfield p ''name'' jstr)) (\<lambda>name.
        thenS (onRob (robot_set_profile load name))
          (getS (\<lambda>s. JObj [(''profile'', JStr (p_name (r_profile (v_robot s))))]))))"

definition h_get_safety_profile :: "json \<Rightarrow> ('b server, json) sem" where
  "h_get_safety_profile p = getS (\<lambda>s. JObj [(''profile'', to_config_dict (r_profile (v_robot s)))])"

text \<open>
  Reading the state never waits for a chunk: the lock is only probed (\<open>rq_free\<close>). The owner is
  written into the object that was read, which is the robot's cached one unless the loop gave
  a copy.
\<close>

definition h_get_state :: "'b backend \<Rightarrow> req_env \<Rightarrow> json \<Rightarrow> ('b server, json) sem" where
  "h_get_state B k p =
     bindS (getS (\<lambda>s. v_loop s \<noteq> None)) (\<lambda>streaming.
     bindS (if streaming then onLoop (servo_get_state B)
            else if rq_free k then onRob (get_state B)
            else bindS (getS (\<lambda>s. peek_state (v_robot s))) (\<lambda>cached.
                 case cached of Some st \<Rightarrow> retS st | None \<Rightarrow> onRob (get_state B))) (\<lambda>st.
     bindS (onL (lease_owner (rq_check k))) (\<lambda>owner.
     (let st' = st\<lparr>st_active_owner := owner\<rparr> in
      thenS (if streaming then retS () else onRob (modS (\<lambda>r. r\<lparr>r_last_state := Some st'\<rparr>)))
        (retS (JObj [(''state'', state_to_dict st')]))))))"

section \<open>Handlers: modes and motion\<close>

definition h_start_cartesian_impedance :: "'b backend \<Rightarrow> req_env \<Rightarrow> json \<Rightarrow> ('b server, json) sem" where
  "h_start_cartesian_impedance B k p =
     bindS (require_lease k p) (\<lambda>owner.
     bindS (liftS (jhas p ''stiffness'')) (\<lambda>given.
     bindS (if \<not> given then retS None
            else bindS (liftS (jfield p ''stiffness'' jfloats)) (\<lambda>K.
                 bindS (liftS (jfield_or p ''damping_ratio'' (of_floats (replicate 6 (7/10))) jfloats)) (\<lambda>Z.
                 retS (Some \<lparr>ip_stiffness = K, ip_damping_ratio = Z\<rparr>)))) (\<lambda>imp.
     bindS (liftS (jfield_opt p ''nullspace_q'' jfloats)) (\<lambda>ns.
     thenS (motion_lock k owner
              (bindS (liftS (jfield_or p ''realtime'' (JBool False) jbool)) (\<lambda>rt.
                 onRob (start_cartesian_impedance B imp rt None ns))))
       (retS (flag ''started''))))))"

definition h_start_joint_impedance :: "'b backend \<Rightarrow> req_env \<Rightarrow> json \<Rightarrow> ('b server, json) sem" where
  "h_start_joint_impedance B k p =
     bindS (require_lease k p) (\<lambda>owner.
     thenS (motion_lock k owner
              (bindS (liftS (jfield_or p ''realtime'' (JBool False) jbool)) (\<lambda>rt.
                 onRob (start_joint_impedance B None rt))))
       (retS (flag ''started'')))"

definition reply_result :: "exec_result \<Rightarrow> json" where
  "reply_result r = JObj [(''result'', result_to_dict r)]"

definition h_servo_cartesian_delta :: "'b backend \<Rightarrow> req_env \<Rightarrow> json \<Rightarrow> ('b server, json) sem" where
  "h_servo_cartesian_delta B k p =
     bindS (require_lease k p) (\<lambda>owner.
     bindS (motion_lock k owner
              (bindS (liftS (jfield p ''delta'' jfloats)) (\<lambda>delta.
               bindS (liftS (jfield_opt p ''duration'' jfloat)) (\<lambda>duration.
               bindS (liftS (jfield_or p ''frame'' (JStr ''base'') jstr)) (\<lambda>frame.
               bindS (liftS (bindR (jget_dflt p ''gripper'' JNull) gripper_from_dict)) (\<lambda>gripper.
                 onRob (servo_cartesian_delta_raw B delta duration frame gripper))))))) (\<lambda>r.
     retS (reply_result r)))"

definition h_servo_cartesian_pose :: "'b backend \<Rightarrow> req_env \<Rightarrow> json \<Rightarrow> ('b server, json) sem" where
  "h_servo_cartesian_pose B k p =
     bindS (require_lease k p) (\<lambda>owner.
     bindS (motion_lock k owner
              (bindS (liftS (jfield p ''pose'' jfloats)) (\<lambda>pose.
               bindS (liftS (jfield_or p ''duration'' (JNum (2/10)) jfloat)) (\<lambda>duration.
               bindS (liftS (bindR (jget_dflt p ''gripper'' JNull) gripper_from_dict)) (\<lambda>gripper.
                 onRob (servo_cartesian_pose B pose duration gripper)))))) (\<lambda>r.
     retS (reply_result r)))"

definition h_execute_cartesian_chunk :: "'b backend \<Rightarrow> req_env \<Rightarrow> json \<Rightarrow> ('b server, json) sem" where
  "h_execute_cartesian_chunk B k p =
     bindS (require_lease k p) (\<lambda>owner.
     bindS (liftS (jfield p ''chunk'' chunk_from_dict)) (\<lambda>chunk.
     bindS (motion_lock k owner (onRob (execute_cartesian_chunk B default_args chunk))) (\<lambda>r.
     retS (reply_result r))))"

definition h_execute_joint_chunk :: "'b backend \<Rightarrow> req_env \<Rightarrow> json \<Rightarrow> ('b server, json) sem" where
  "h_execute_joint_chunk B k p =
     bindS (require_lease k p) (\<lambda>owner.
     bindS (liftS (jfield p ''chunk'' joint_chunk_from_dict)) (\<lambda>chunk.
     bindS (motion_lock k owner (onRob (execute_joint_chunk B False chunk))) (\<lambda>r.
     retS (reply_result r))))"

definition h_move_joint :: "'b backend \<Rightarrow> req_env \<Rightarrow> json \<Rightarrow> ('b server, json) sem" where
  "h_move_joint B k p =
     bindS (require_lease k p) (\<lambda>owner.
     bindS (motion_lock k owner
              (bindS (liftS (jfield p ''q'' jfloats)) (\<lambda>q.
               bindS (liftS (jfield_opt p ''duration'' jfloat)) (\<lambda>duration.
               bindS (liftS (jfield_opt p ''max_joint_speed'' jfloat)) (\<lambda>speed.
               bindS (liftS (jfield_or p ''realtime'' (JBool False) jbool)) (\<lambda>rt.
                 onRob (move_joint B q duration speed rt))))))) (\<lambda>r.
     retS (reply_result r)))"

definition h_command_gripper :: "'b backend \<Rightarrow> req_env \<Rightarrow> json \<Rightarrow> ('b server, json) sem" where
  "h_command_gripper B k p =
     bindS (require_lease k p) (\<lambda>owner.
     bindS (liftS (jfield p ''gripper'' gripper_from_dict)) (\<lambda>g.
     bindS (liftS (jfield_or p ''wait'' (JBool False) jbool)) (\<lambda>wait.
     bindS (motion_lock k owner
              (bindS (liftS (jfield_or p ''timeout'' (JNum 5) jfloat)) (\<lambda>timeout.
                 onRob (command_gripper B (case g of Some g' \<Rightarrow> g' | None \<Rightarrow> default_gripper) wait timeout
                          (rq_elapsed k))))) (\<lambda>w.
     retS (JObj [(''ok'', JBool True), (''final_width'', of_opt JNum w)])))))"

definition h_home :: "'b backend \<Rightarrow> req_env \<Rightarrow> json \<Rightarrow> ('b server, json) sem" where
  "h_home B k p =
     bindS (require_lease k p) (\<lambda>owner.
     bindS (liftS (jfield_opt p ''q'' jfloats)) (\<lambda>q.
     thenS (motion_lock k owner
              (bindS (liftS (jfield_opt p ''max_joint_speed'' jfloat)) (\<lambda>speed.
               bindS (liftS (jfield_opt p ''duration'' jfloat)) (\<lambda>duration.
                 onRob (robot_home B q speed duration (rq_elapsed k))))))
       (retS (flag ''ok''))))"

definition h_zero_ft_sensor :: "'b backend \<Rightarrow> req_env \<Rightarrow> json \<Rightarrow> ('b server, json) sem" where
  "h_zero_ft_sensor B k p =
     bindS (require_lease k p) (\<lambda>owner.
     thenS (motion_lock k owner (onRob (robot_zero_ft_sensor B)))
       (retS (flag ''ok'')))"

definition h_go_home_safe :: "'b backend \<Rightarrow> req_env \<Rightarrow> json \<Rightarrow> ('b server, json) sem" where
  "h_go_home_safe B k p =
     bindS (require_lease k p) (\<lambda>owner.
     bindS (liftS (jfield_opt p ''q_home'' jfloats)) (\<lambda>q.
     bindS (motion_lock k owner
              (bindS (liftS (jfield_or p ''lift_m'' (JNum (10/100)) jfloat)) (\<lambda>lift.
               bindS (liftS (jfield_opt p ''open_gripper_width'' jfloat)) (\<lambda>width.
               bindS (liftS (jfield_or p ''max_tcp_speed'' (JNum (10/100)) jfloat)) (\<lambda>tcp.
               bindS (liftS (jfield_or p ''max_joint_speed'' (JNum (3/10)) jfloat)) (\<lambda>speed.
                 onRob (go_home_safe B q lift width tcp speed (rq_elapsed k)))))))) (\<lambda>r.
     retS (reply_result r))))"

text \<open>Stop needs no lease; \<open>rq_got1\<close> and \<open>rq_got2\<close> say whether its timed waits got the lock.\<close>

definition h_stop :: "'b backend \<Rightarrow> req_env \<Rightarrow> json \<Rightarrow> ('b server, json) sem" where
  "h_stop B k p =
     thenS (onRob request_stop)
    (thenS (if rq_got1 k
            then thenS (drop_loop B) (onRob (if rq_got2 k then robot_stop B else request_stop))
            else onRob request_stop)
       (retS (flag ''stopped'')))"

section \<open>Handlers: the servo loop\<close>

text \<open>\<open>float(control_hz or robot.control_hz)\<close>\<close>

definition read_hz :: "json \<Rightarrow> real option result" where
  "read_hz j = (if jtruthy j then bindR (jfloat j) (\<lambda>h. Inr (Some h)) else Inr None)"

definition h_start_servo_loop :: "'b backend \<Rightarrow> req_env \<Rightarrow> json \<Rightarrow> ('b server, json) sem" where
  "h_start_servo_loop B k p =
     thenS (require_lease k p)
       (bindS (getS (\<lambda>s. v_loop s \<noteq> None)) (\<lambda>streaming.
        thenS (if streaming then retS ()
               else bindS (liftS (bindR (jget_dflt p ''control_hz'' JNull) read_hz)) (\<lambda>hz.
                    bindS (getS (\<lambda>s. mk_servo (v_robot s) hz)) (\<lambda>made.
                    bindS (liftS made) (\<lambda>l.
                    bindS (on_detached l (servo_start B (rq_now k))) (\<lambda>(_, l').
                      modS (\<lambda>s. s\<lparr>v_loop := Some l'\<rparr>))))))
          (retS (flag ''started''))))"

text \<open>The stream handlers refuse a missing loop and a dead one.\<close>

definition live_loop :: "('b server, unit) sem" where
  "live_loop =
     bindS (getS v_loop) (\<lambda>loop.
       case loop of
         None \<Rightarrow> raiseS RuntimeError
       | Some l \<Rightarrow> (if servo_alive l then retS () else raiseS RuntimeError))"

definition h_servo_stream :: "req_env \<Rightarrow> json \<Rightarrow> ('b server, json) sem" where
  "h_servo_stream k p =
     thenS (require_lease k p)
    (thenS live_loop
       (bindS (liftS (jfield p ''pose'' jfloats)) (\<lambda>pose.
        bindS (liftS (bindR (jget_dflt p ''gripper'' JNull) gripper_from_dict)) (\<lambda>gripper.
        thenS (onLoop (set_cartesian_target (rq_hold k) pose gripper))
          (retS (flag ''ok''))))))"

definition h_servo_stream_joint :: "req_env \<Rightarrow> json \<Rightarrow> ('b server, json) sem" where
  "h_servo_stream_joint k p =
     thenS (require_lease k p)
    (thenS live_loop
       (bindS (liftS (jfield p ''q'' jfloats)) (\<lambda>q.
        thenS (onLoop (set_joint_target (rq_hold k) q))
          (retS (flag ''ok'')))))"

definition h_stop_servo_loop :: "'b backend \<Rightarrow> req_env \<Rightarrow> json \<Rightarrow> ('b server, json) sem" where
  "h_stop_servo_loop B k p =
     thenS (require_lease k p) (thenS (drop_loop B) (retS (flag ''stopped'')))"

section \<open>Dispatch\<close>

definition handlers ::
  "'b backend \<Rightarrow> (string \<Rightarrow> safety_profile result) \<Rightarrow> req_env \<Rightarrow> (string \<times> (json \<Rightarrow> ('b server, json) sem)) list" where
  "handlers B load k =
     [(''ping'', \<lambda>p. retS (flag ''pong'')),
      (''acquire_lease'', h_acquire_lease k),
      (''release_lease'', h_release_lease B),
      (''heartbeat'', h_heartbeat k),
      (''get_lease'', h_get_lease k),
      (''set_safety_profile'', h_set_safety_profile load k),
      (''get_safety_profile'', h_get_safety_profile),
      (''get_state'', h_get_state B k),
      (''start_cartesian_impedance'', h_start_cartesian_impedance B k),
      (''start_joint_impedance'', h_start_joint_impedance B k),
      (''servo_cartesian_delta'', h_servo_cartesian_delta B k),
      (''servo_cartesian_pose'', h_servo_cartesian_pose B k),
      (''execute_cartesian_chunk'', h_execute_cartesian_chunk B k),
      (''execute_joint_chunk'', h_execute_joint_chunk B k),
      (''move_joint'', h_move_joint B k),
      (''command_gripper'', h_command_gripper B k),
      (''home'', h_home B k),
      (''go_home_safe'', h_go_home_safe B k),
      (''zero_ft_sensor'', h_zero_ft_sensor B k),
      (''stop'', h_stop B k),
      (''start_servo_loop'', h_start_servo_loop B k),
      (''servo_stream'', h_servo_stream k),
      (''servo_stream_joint'', h_servo_stream_joint k),
      (''stop_servo_loop'', h_stop_servo_loop B k)]"

text \<open>The class of an exception as the error text names it.\<close>

fun error_name :: "py_error \<Rightarrow> string" where
  "error_name ValueError = ''ValueError''"
| "error_name RuntimeError = ''RuntimeError''"
| "error_name TypeError = ''TypeError''"
| "error_name KeyError = ''KeyError''"
| "error_name ZeroDivisionError = ''ZeroDivisionError''"
| "error_name FileNotFoundError = ''FileNotFoundError''"
| "error_name NotImplementedError = ''NotImplementedError''"
| "error_name LeaseError = ''lease''"
| "error_name HostLockError = ''HostLockError''"
| "error_name ServoLoopActive = ''servo loop active''"
| "error_name ChunkStoppedError = ''ChunkStoppedError''"
| "error_name RemoteRobotError = ''RemoteRobotError''"
| "error_name OSError = ''OSError''"
| "error_name IndexError = ''IndexError''"
| "error_name AttributeError = ''AttributeError''"
| "error_name ImportError = ''ImportError''"

definition ok_reply :: "json \<Rightarrow> json \<Rightarrow> json" where
  "ok_reply rid result = JObj [(''id'', rid), (''ok'', JBool True), (''result'', result)]"

definition error_reply :: "json \<Rightarrow> string \<Rightarrow> json" where
  "error_reply rid msg = JObj [(''id'', rid), (''ok'', JBool False), (''error'', JStr msg)]"

text \<open>A method name that cannot be a dictionary key raises before the \<open>try\<close>.\<close>

definition lookup_handler ::
  "(string \<times> 'h) list \<Rightarrow> json \<Rightarrow> 'h option result" where
  "lookup_handler hs m =
     (case m of
        JStr name \<Rightarrow> Inr (map_of hs name)
      | JList _ \<Rightarrow> Inl TypeError
      | JObj _ \<Rightarrow> Inl TypeError
      | _ \<Rightarrow> Inr None)"

definition dispatch ::
  "'b backend \<Rightarrow> (string \<Rightarrow> safety_profile result) \<Rightarrow> req_env \<Rightarrow> json \<Rightarrow> ('b server, json) sem" where
  "dispatch B load k req =
     bindS (liftS (jget_dflt req ''id'' (JInt (- 1)))) (\<lambda>rid.
     bindS (liftS (jget_dflt req ''method'' (JStr ''''))) (\<lambda>method.
     bindS (liftS (jget_dflt req ''params'' (JObj []))) (\<lambda>params.
     (let p = (if jtruthy params then params else JObj []) in
      bindS (liftS (lookup_handler (handlers B load k) method)) (\<lambda>h.
        case h of
          None \<Rightarrow> retS (error_reply rid ''unknown method'')
        | Some handler \<Rightarrow>
            catchS (bindS (handler p) (\<lambda>result. retS (ok_reply rid result)))
              (\<lambda>e. retS (error_reply rid (error_name e))))))))"

text \<open>The connection loop's treatment of a line that is not JSON.\<close>

definition serve_line ::
  "'b backend \<Rightarrow> (string \<Rightarrow> safety_profile result) \<Rightarrow> req_env \<Rightarrow> json option \<Rightarrow> ('b server, json) sem" where
  "serve_line B load k line =
     (case line of
        None \<Rightarrow> retS (error_reply (JInt (- 1)) ''bad json'')
      | Some req \<Rightarrow> dispatch B load k req)"

end
