(* ===== verification/Remote.thy ===== *)
theory Remote
  imports Server
begin

text \<open>
  \<^verbatim>\<open>client/remote_robot.py\<close>: the \<open>Robot\<close> interface over the wire. The client's object \<open>'w remote\<close>
  carries the world \<open>'w\<close> on the other side of its socket; \<open>rpc\<close> writes one request line and reads
  one reply line (\<open>None\<close>: the server closed the connection; an exception: the socket's). The
  heartbeat thread is given by one iteration of its loop. Here an exchange is atomic, and one that times out raises; \<open>Wire\<close>
  takes it apart. \<^verbatim>\<open>policy_client.py\<close> is the policy seam
  over HTTP, with the exchange as its parameter.
\<close>

section \<open>The object\<close>

record 'w remote =
  c_owner :: string
  c_next_id :: int
  c_connected :: bool
  c_has_lease :: bool
  c_hb_running :: bool
  c_world :: 'w

definition mk_remote :: "string \<Rightarrow> 'w \<Rightarrow> 'w remote" where
  "mk_remote owner w = \<lparr>c_owner = owner, c_next_id = 0, c_connected = False, c_has_lease = False,
     c_hb_running = False, c_world = w\<rparr>"

type_synonym 'w rpc = "json \<Rightarrow> ('w, json option) sem"

definition onW :: "('w, 'a) sem \<Rightarrow> ('w remote, 'a) sem" where
  "onW m c = (case m (c_world c) of (x, w') \<Rightarrow> (x, c\<lparr>c_world := w'\<rparr>))"

text \<open>\<open>resp.get("id") != rid\<close>: numbers compare across their types.\<close>

fun id_is :: "json \<Rightarrow> int \<Rightarrow> bool" where
  "id_is (JInt n) rid = (n = rid)"
| "id_is (JNum x) rid = (x = of_int rid)"
| "id_is (JBool b) rid = ((if b then 1 else 0) = rid)"
| "id_is _ rid = False"

definition call :: "'w rpc \<Rightarrow> string \<Rightarrow> (string \<times> json) list \<Rightarrow> ('w remote, json) sem" where
  "call rpc method params =
     bindS (getS c_connected) (\<lambda>connected.
       if \<not> connected then raiseS RemoteRobotError
       else
         thenS (modS (\<lambda>c. c\<lparr>c_next_id := c_next_id c + 1\<rparr>))
        (bindS (getS c_next_id) (\<lambda>rid.
         bindS (onW (rpc (JObj [(''id'', JInt rid), (''method'', JStr method), (''params'', JObj params)]))) (\<lambda>line.
           case line of
             None \<Rightarrow> raiseS RemoteRobotError
           | Some resp \<Rightarrow>
               bindS (liftS (jget_dflt resp ''id'' JNull)) (\<lambda>i.
                 if \<not> id_is i rid then raiseS RemoteRobotError
                 else bindS (liftS (jget_dflt resp ''ok'' (JBool False))) (\<lambda>ok.
                   if \<not> jtruthy ok then raiseS RemoteRobotError
                   else liftS (jget_dflt resp ''result'' (JObj []))))))))"

text \<open>Every call names its owner.\<close>

definition owned :: "'w rpc \<Rightarrow> string \<Rightarrow> (string \<times> json) list \<Rightarrow> ('w remote, json) sem" where
  "owned rpc method params = bindS (getS c_owner) (\<lambda>owner. call rpc method ((''owner'', JStr owner) # params))"

section \<open>Connection and lease\<close>

definition remote_connect :: "'w rpc \<Rightarrow> ('w remote, unit) sem" where
  "remote_connect rpc = thenS (modS (\<lambda>c. c\<lparr>c_connected := True\<rparr>)) (thenS (call rpc ''ping'' []) (retS ()))"

definition remote_acquire_lease :: "'w rpc \<Rightarrow> string option \<Rightarrow> bool \<Rightarrow> ('w remote, unit) sem" where
  "remote_acquire_lease rpc owner force =
     thenS (modS (\<lambda>c. case owner of None \<Rightarrow> c | Some name \<Rightarrow> c\<lparr>c_owner := name\<rparr>))
    (thenS (owned rpc ''acquire_lease'' [(''force'', JBool force)])
       (modS (\<lambda>c. c\<lparr>c_has_lease := True, c_hb_running := True\<rparr>)))"

definition remote_release_lease :: "'w rpc \<Rightarrow> ('w remote, unit) sem" where
  "remote_release_lease rpc =
     thenS (modS (\<lambda>c. c\<lparr>c_hb_running := False\<rparr>))
    (thenS (owned rpc ''release_lease'' [])
       (modS (\<lambda>c. c\<lparr>c_has_lease := False\<rparr>)))"

definition remote_close :: "'w rpc \<Rightarrow> ('w remote, unit) sem" where
  "remote_close rpc =
     thenS (modS (\<lambda>c. c\<lparr>c_hb_running := False\<rparr>))
       (catchS (bindS (getS c_has_lease) (\<lambda>l. if l then remote_release_lease rpc else retS ()))
          (\<lambda>e. retS ()))"

text \<open>
  One iteration of the heartbeat loop after its sleep: the value is the new failure count, or
  \<open>None\<close> when the thread gives up.
\<close>

definition give_up :: "('w remote, int option) sem" where
  "give_up = thenS (modS (\<lambda>c. c\<lparr>c_has_lease := False, c_hb_running := False\<rparr>)) (retS None)"

definition heartbeat_step :: "'w rpc \<Rightarrow> int \<Rightarrow> int \<Rightarrow> ('w remote, int option) sem" where
  "heartbeat_step rpc max_failures failures =
     bindS (getS c_hb_running) (\<lambda>running.
       if \<not> running then retS None
       else catchS (thenS (owned rpc ''heartbeat'' []) (retS (Some 0)))
              (\<lambda>e. if e = RemoteRobotError
                   then catchS (thenS (owned rpc ''acquire_lease'' [(''force'', JBool False)]) (retS (Some 0)))
                          (\<lambda>e. give_up)
                   else if max_failures \<le> failures + 1 then give_up
                   else retS (Some (failures + 1))))"

text \<open>The heartbeat thread up to a number of iterations: whether it is still beating.\<close>

fun heartbeat_loop :: "'w rpc \<Rightarrow> int \<Rightarrow> nat \<Rightarrow> int \<Rightarrow> ('w remote, bool) sem" where
  "heartbeat_loop rpc max_failures 0 failures = retS True"
| "heartbeat_loop rpc max_failures (Suc n) failures =
     bindS (heartbeat_step rpc max_failures failures) (\<lambda>next.
       case next of None \<Rightarrow> retS False | Some failures' \<Rightarrow> heartbeat_loop rpc max_failures n failures')"

text \<open>The \<open>with\<close> block: what \<open>__enter__\<close> raises leaves without \<open>__exit__\<close>.\<close>

definition with_remote :: "'w rpc \<Rightarrow> ('w remote, 'a) sem \<Rightarrow> ('w remote, 'a) sem" where
  "with_remote rpc body =
     thenS (remote_connect rpc)
    (thenS (remote_acquire_lease rpc None False)
       (finallyS body (\<lambda>out. thenS (remote_close rpc) (retS out))))"

section \<open>The mirrored interface\<close>

definition read_result :: "json \<Rightarrow> ('w remote, exec_result) sem" where
  "read_result r = liftS (jfield r ''result'' result_from_dict)"

definition remote_set_safety_profile :: "'w rpc \<Rightarrow> string \<Rightarrow> ('w remote, unit) sem" where
  "remote_set_safety_profile rpc name =
     thenS (owned rpc ''set_safety_profile'' [(''name'', JStr name)]) (retS ())"

definition remote_get_safety_profile :: "'w rpc \<Rightarrow> ('w remote, safety_profile) sem" where
  "remote_get_safety_profile rpc =
     bindS (call rpc ''get_safety_profile'' []) (\<lambda>r. liftS (jfield r ''profile'' profile_from_dict))"

definition remote_get_state :: "'w rpc \<Rightarrow> ('w remote, robot_state) sem" where
  "remote_get_state rpc = bindS (call rpc ''get_state'' []) (\<lambda>r. liftS (jfield r ''state'' state_from_dict))"

definition given :: "string \<Rightarrow> real list option \<Rightarrow> (string \<times> json) list" where
  "given key x = (case x of None \<Rightarrow> [] | Some v \<Rightarrow> [(key, of_floats v)])"

definition remote_start_cartesian_impedance ::
  "'w rpc \<Rightarrow> bool \<Rightarrow> real list option \<Rightarrow> real list option \<Rightarrow> real list option \<Rightarrow> ('w remote, unit) sem" where
  "remote_start_cartesian_impedance rpc realtime stiffness damping_ratio nullspace_q =
     thenS (owned rpc ''start_cartesian_impedance''
              ((''realtime'', JBool realtime) # given ''stiffness'' stiffness
                 @ given ''damping_ratio'' damping_ratio @ given ''nullspace_q'' nullspace_q))
       (retS ())"

definition remote_start_joint_impedance :: "'w rpc \<Rightarrow> bool \<Rightarrow> ('w remote, unit) sem" where
  "remote_start_joint_impedance rpc realtime =
     thenS (owned rpc ''start_joint_impedance'' [(''realtime'', JBool realtime)]) (retS ())"

definition remote_servo_cartesian_delta ::
  "'w rpc \<Rightarrow> real list \<Rightarrow> real option \<Rightarrow> string \<Rightarrow> gripper_command option \<Rightarrow> ('w remote, exec_result) sem" where
  "remote_servo_cartesian_delta rpc delta duration frame gripper =
     bindS (owned rpc ''servo_cartesian_delta''
              [(''delta'', of_floats delta), (''duration'', of_opt JNum duration), (''frame'', JStr frame),
               (''gripper'', gripper_to_dict gripper)]) read_result"

definition remote_servo_cartesian_pose ::
  "'w rpc \<Rightarrow> real list \<Rightarrow> real \<Rightarrow> gripper_command option \<Rightarrow> ('w remote, exec_result) sem" where
  "remote_servo_cartesian_pose rpc pose duration gripper =
     bindS (owned rpc ''servo_cartesian_pose''
              [(''pose'', of_floats pose), (''duration'', JNum duration), (''gripper'', gripper_to_dict gripper)])
       read_result"

definition remote_raise :: "bool \<Rightarrow> exec_result \<Rightarrow> ('w remote, exec_result) sem" where
  "remote_raise raise_on_stop res =
     (if raise_on_stop \<and> \<not> er_success res then raiseS ChunkStoppedError else retS res)"

definition remote_execute_cartesian_chunk :: "'w rpc \<Rightarrow> bool \<Rightarrow> chunk \<Rightarrow> ('w remote, exec_result) sem" where
  "remote_execute_cartesian_chunk rpc raise_on_stop c =
     bindS (bindS (owned rpc ''execute_cartesian_chunk'' [(''chunk'', chunk_to_dict c)]) read_result)
       (remote_raise raise_on_stop)"

definition remote_execute_joint_chunk :: "'w rpc \<Rightarrow> bool \<Rightarrow> joint_chunk \<Rightarrow> ('w remote, exec_result) sem" where
  "remote_execute_joint_chunk rpc raise_on_stop c =
     bindS (bindS (owned rpc ''execute_joint_chunk'' [(''chunk'', joint_chunk_to_dict c)]) read_result)
       (remote_raise raise_on_stop)"

definition remote_move_joint ::
  "'w rpc \<Rightarrow> real list \<Rightarrow> real option \<Rightarrow> real option \<Rightarrow> bool \<Rightarrow> ('w remote, exec_result) sem" where
  "remote_move_joint rpc q duration max_joint_speed realtime =
     bindS (owned rpc ''move_joint''
              [(''q'', of_floats q), (''duration'', of_opt JNum duration),
               (''max_joint_speed'', of_opt JNum max_joint_speed), (''realtime'', JBool realtime)]) read_result"

definition remote_command_gripper ::
  "'w rpc \<Rightarrow> gripper_command \<Rightarrow> bool \<Rightarrow> real \<Rightarrow> ('w remote, real option) sem" where
  "remote_command_gripper rpc cmd wait timeout =
     bindS (owned rpc ''command_gripper''
              [(''gripper'', gripper_to_dict (Some cmd)), (''wait'', JBool wait), (''timeout'', JNum timeout)])
       (\<lambda>r. liftS (jfield_opt r ''final_width'' jfloat))"

definition remote_home ::
  "'w rpc \<Rightarrow> real list option \<Rightarrow> real option \<Rightarrow> real option \<Rightarrow> ('w remote, unit) sem" where
  "remote_home rpc q max_joint_speed duration =
     thenS (owned rpc ''home'' [(''q'', of_opt of_floats q), (''max_joint_speed'', of_opt JNum max_joint_speed),
              (''duration'', of_opt JNum duration)]) (retS ())"

definition remote_zero_ft_sensor :: "'w rpc \<Rightarrow> ('w remote, unit) sem" where
  "remote_zero_ft_sensor rpc = thenS (owned rpc ''zero_ft_sensor'' []) (retS ())"

definition remote_go_home_safe ::
  "'w rpc \<Rightarrow> real list option \<Rightarrow> real \<Rightarrow> real option \<Rightarrow> real \<Rightarrow> real \<Rightarrow> ('w remote, exec_result) sem" where
  "remote_go_home_safe rpc q_home lift_m open_width max_tcp_speed max_joint_speed =
     bindS (owned rpc ''go_home_safe''
              [(''q_home'', of_opt of_floats q_home), (''lift_m'', JNum lift_m),
               (''open_gripper_width'', of_opt JNum open_width), (''max_tcp_speed'', JNum max_tcp_speed),
               (''max_joint_speed'', JNum max_joint_speed)]) read_result"

definition remote_stop :: "'w rpc \<Rightarrow> ('w remote, unit) sem" where
  "remote_stop rpc = thenS (owned rpc ''stop'' []) (retS ())"

definition remote_start_servo_loop :: "'w rpc \<Rightarrow> real option \<Rightarrow> ('w remote, unit) sem" where
  "remote_start_servo_loop rpc control_hz =
     thenS (owned rpc ''start_servo_loop'' (case control_hz of None \<Rightarrow> [] | Some h \<Rightarrow> [(''control_hz'', JNum h)]))
       (retS ())"

definition remote_servo_stream :: "'w rpc \<Rightarrow> real list \<Rightarrow> gripper_command option \<Rightarrow> ('w remote, unit) sem" where
  "remote_servo_stream rpc pose gripper =
     bindS (liftS (to_pose pose)) (\<lambda>p.
     thenS (owned rpc ''servo_stream'' [(''pose'', of_floats (of_pose p)), (''gripper'', gripper_to_dict gripper)])
       (retS ()))"

definition remote_servo_stream_joint :: "'w rpc \<Rightarrow> real list \<Rightarrow> ('w remote, unit) sem" where
  "remote_servo_stream_joint rpc q = thenS (owned rpc ''servo_stream_joint'' [(''q'', of_floats q)]) (retS ())"

definition remote_stop_servo_loop :: "'w rpc \<Rightarrow> ('w remote, unit) sem" where
  "remote_stop_servo_loop rpc = thenS (owned rpc ''stop_servo_loop'' []) (retS ())"

section \<open>The policy client\<close>

text \<open>\<open>post\<close> is the HTTP exchange: the body of the POST to the decoded body of the answer.\<close>

definition infer ::
  "(json \<Rightarrow> ('w, json) sem) \<Rightarrow> string option \<Rightarrow> robot_state \<Rightarrow> ('w, chunk option) sem" where
  "infer post instruction obs =
     bindS (post (JObj [(''observation'', state_to_dict obs), (''instruction'', of_opt JStr instruction)])) (\<lambda>data.
     bindS (liftS (jget_dflt data ''chunk'' JNull)) (\<lambda>chunk.
     liftS (to_opt chunk_from_dict chunk)))"

end
