(* ===== verification/Server_Proofs.thy ===== *)
theory Server_Proofs
  imports Server
begin

text \<open>
  What the control server guarantees request by request: the lease guards every motion and mode
  request, an installed servo loop keeps the blocking ones out, every request is answered, a stop
  is heard whatever the lock does, and the two places where ownership and the latched cancel
  interact.
\<close>

section \<open>Rules for the server's world\<close>

lemma wpS_onRob [wp_simps]:
  "wpS (onRob m) Q E s = wpS m (\<lambda>x r. Q x (s\<lparr>v_robot := r\<rparr>)) (\<lambda>e r. E e (s\<lparr>v_robot := r\<rparr>)) (v_robot s)"
  by (simp add: wpS_def onRob_def split: prod.splits sum.splits)

lemma wpS_onL [wp_simps]:
  "wpS (onL m) Q E s = wpS m (\<lambda>x l. Q x (s\<lparr>v_lease := l\<rparr>)) (\<lambda>e l. E e (s\<lparr>v_lease := l\<rparr>)) (v_lease s)"
  by (simp add: wpS_def onL_def split: prod.splits sum.splits)

lemma wpS_detached [wp_simps]:
  "wpS (on_detached l m) Q E s = wpS m (\<lambda>x l'. Q (x, l') (s\<lparr>v_robot := sv_robot l'\<rparr>))
     (\<lambda>e l'. E e (s\<lparr>v_robot := sv_robot l'\<rparr>)) (l\<lparr>sv_robot := v_robot s\<rparr>)"
  by (simp add: wpS_def on_detached_def split: prod.splits sum.splits)

text \<open>What a request reads, and the reply the client will see.\<close>

definition request :: "json \<Rightarrow> string \<Rightarrow> json \<Rightarrow> json" where
  "request rid m p = JObj [(''id'', rid), (''method'', JStr m), (''params'', p)]"

lemma dispatch_request:
  assumes "map_of (handlers B load k) m = Some h"
  shows "dispatch B load k (request rid m p) s =
    (case h (if jtruthy p then p else JObj []) s of
       (Inr x, s') \<Rightarrow> (Inr (ok_reply rid x), s')
     | (Inl e, s') \<Rightarrow> (Inr (error_reply rid (error_name e)), s'))"
  using assms
  by (simp add: dispatch_def request_def lookup_handler_def bindS_def catchS_def sem_simps Let_def
      split: prod.splits sum.splits)

section \<open>The lease guards motion\<close>

definition leased_methods :: "string list" where
  "leased_methods =
     [''set_safety_profile'', ''start_cartesian_impedance'', ''start_joint_impedance'',
      ''servo_cartesian_delta'', ''servo_cartesian_pose'', ''execute_cartesian_chunk'',
      ''execute_joint_chunk'', ''move_joint'', ''command_gripper'', ''home'', ''go_home_safe'',
      ''zero_ft_sensor'', ''start_servo_loop'', ''servo_stream'', ''servo_stream_joint'', ''stop_servo_loop'']"

definition motion_methods :: "string list" where
  "motion_methods =
     [''start_cartesian_impedance'', ''start_joint_impedance'', ''servo_cartesian_delta'',
      ''servo_cartesian_pose'', ''execute_cartesian_chunk'', ''execute_joint_chunk'', ''move_joint'',
      ''command_gripper'', ''home'', ''go_home_safe'', ''zero_ft_sensor'']"

lemmas handler_defs = h_set_safety_profile_def h_start_cartesian_impedance_def h_start_joint_impedance_def
  h_servo_cartesian_delta_def h_servo_cartesian_pose_def h_execute_cartesian_chunk_def
  h_execute_joint_chunk_def h_move_joint_def h_command_gripper_def h_home_def h_go_home_safe_def
  h_zero_ft_sensor_def h_start_servo_loop_def h_servo_stream_def h_servo_stream_joint_def
  h_stop_servo_loop_def

text \<open>Every one of these handlers begins with the lease.\<close>

definition leased :: "req_env \<Rightarrow> (json \<Rightarrow> ('b server, json) sem) \<Rightarrow> bool" where
  "leased k h \<longleftrightarrow> (\<forall>p. \<exists>K. h p = bindS (require_lease k p) K)"

lemma leased_handlers:
  "leased k (h_set_safety_profile load k)" "leased k (h_start_cartesian_impedance B k)"
  "leased k (h_start_joint_impedance B k)" "leased k (h_servo_cartesian_delta B k)"
  "leased k (h_servo_cartesian_pose B k)" "leased k (h_execute_cartesian_chunk B k)"
  "leased k (h_execute_joint_chunk B k)" "leased k (h_move_joint B k)" "leased k (h_command_gripper B k)"
  "leased k (h_home B k)" "leased k (h_go_home_safe B k)" "leased k (h_zero_ft_sensor B k)"
  "leased k (h_start_servo_loop B k)" "leased k (h_servo_stream k)" "leased k (h_servo_stream_joint k)"
  "leased k (h_stop_servo_loop B k)"
  unfolding leased_def handler_defs thenS_def by (rule allI, rule exI, rule refl)+

lemma leased_handler:
  assumes "m \<in> set leased_methods"
  shows "\<exists>h. map_of (handlers B load k) m = Some h \<and> leased k h"
proof -
  have "list_all (\<lambda>m. \<exists>h. map_of (handlers B load k) m = Some h \<and> leased k h) leased_methods"
    unfolding leased_methods_def handlers_def by (simp add: leased_handlers)
  then show ?thesis using assms by (auto simp: list_all_iff)
qed

lemma require_lease_denied:
  assumes "jfield_or p ''owner'' (JStr '''') jstr = Inr owner"
    and "holder_at (rq_check k) (v_lease s) \<noteq> Some owner"
  shows "require_lease k p s = (Inl LeaseError, s\<lparr>v_lease := expire_if_stale (rq_check k) (v_lease s)\<rparr>)"
  using assms by (simp add: require_lease_def bindS_def sem_simps onL_def lease_check_eq)

text \<open>C13: A mode, motion or streaming request from a client that does not hold the lease, because nobody
  or somebody else holds it or its own has expired, is answered with a lease error and touches
  neither the robot nor the servo loop.\<close>

theorem unleased_refused:
  assumes "m \<in> set leased_methods"
    and "jfield_or (if jtruthy p then p else JObj []) ''owner'' (JStr '''') jstr = Inr owner"
    and "holder_at (rq_check k) (v_lease s) \<noteq> Some owner"
  shows "\<exists>s'. dispatch B load k (request rid m p) s = (Inr (error_reply rid ''lease''), s')
    \<and> v_robot s' = v_robot s \<and> v_loop s' = v_loop s"
proof -
  obtain h K where "map_of (handlers B load k) m = Some h"
      and "h (if jtruthy p then p else JObj []) = bindS (require_lease k (if jtruthy p then p else JObj [])) K"
    using leased_handler [OF assms(1)] unfolding leased_def by blast
  then show ?thesis
    using require_lease_denied [OF assms(2,3)] by (simp add: dispatch_request bindS_def)
qed

section \<open>An installed servo loop keeps blocking motion out\<close>

lemma wpS_require_lease:
  assumes "\<And>owner l. Q owner (s\<lparr>v_lease := l, v_robot := (v_robot s)\<lparr>r_owner := Some owner\<rparr>\<rparr>)"
    and "\<And>e l. E e (s\<lparr>v_lease := l\<rparr>)"
  shows "wpS (require_lease k p) Q E s"
proof -
  have "E e s" for e using assms(2) [of e "v_lease s"] by simp
  then show ?thesis
    using assms by (auto simp: require_lease_def wp_simps wpS_I split: sum.split)
qed

lemma wpS_motion_streaming [wp_simps]:
  "v_loop s \<noteq> None \<Longrightarrow> wpS (motion_lock k owner body) Q E s = E ServoLoopActive s"
  by (simp add: motion_lock_def wp_simps)

text \<open>The robot as it was, but for the owner it remembers.\<close>

definition untouched :: "'b server \<Rightarrow> 'b server \<Rightarrow> bool" where
  "untouched s s' \<longleftrightarrow> v_loop s' = v_loop s \<and> (\<exists>o'. v_robot s' = (v_robot s)\<lparr>r_owner := o'\<rparr>)"

lemma untouched_lease [simp]: "untouched s (s\<lparr>v_lease := l\<rparr>)"
  by (auto simp: untouched_def intro: exI [of _ "r_owner (v_robot s)"])

lemma untouched_owner [simp]: "untouched s (s\<lparr>v_lease := l, v_robot := (v_robot s)\<lparr>r_owner := o'\<rparr>\<rparr>)"
  by (auto simp: untouched_def)

definition excluded :: "(json \<Rightarrow> ('b server, json) sem) \<Rightarrow> bool" where
  "excluded h \<longleftrightarrow> (\<forall>p s. v_loop s \<noteq> None \<longrightarrow> wpS (h p) (\<lambda>_ _. False) (\<lambda>_. untouched s) s)"

lemma excluded_handlers:
  "excluded (h_start_cartesian_impedance B k)" "excluded (h_start_joint_impedance B k)"
  "excluded (h_servo_cartesian_delta B k)" "excluded (h_servo_cartesian_pose B k)"
  "excluded (h_execute_cartesian_chunk B k)" "excluded (h_execute_joint_chunk B k)"
  "excluded (h_move_joint B k)" "excluded (h_command_gripper B k)" "excluded (h_home B k)"
  "excluded (h_go_home_safe B k)" "excluded (h_zero_ft_sensor B k)"
  unfolding excluded_def handler_defs
  by (auto simp: wp_simps intro!: wpS_require_lease split: sum.split)

lemma excluded_handler:
  assumes "m \<in> set motion_methods"
  shows "\<exists>h. map_of (handlers B load k) m = Some h \<and> excluded h"
proof -
  have "list_all (\<lambda>m. \<exists>h. map_of (handlers B load k) m = Some h \<and> excluded h) motion_methods"
    unfolding motion_methods_def handlers_def by (simp add: excluded_handlers)
  then show ?thesis using assms by (auto simp: list_all_iff)
qed

text \<open>C14: While the servo loop is installed, a blocking mode or motion request, from whomever, is answered with
  an error; the backend, the safety filter, the pending stop and the loop are as before.\<close>

theorem streaming_excludes_motion:
  assumes "m \<in> set motion_methods" "v_loop s \<noteq> None"
  shows "\<exists>msg s'. dispatch B load k (request rid m p) s = (Inr (error_reply rid msg), s') \<and> v_loop s' = v_loop s
    \<and> (\<exists>o'. v_robot s' = (v_robot s)\<lparr>r_owner := o'\<rparr>)"
proof -
  obtain h where h: "map_of (handlers B load k) m = Some h" "excluded h"
    using excluded_handler [OF assms(1)] by blast
  obtain x s' where e: "h (if jtruthy p then p else JObj []) s = (x, s')"
    by (cases "h (if jtruthy p then p else JObj []) s")
  have "wpS (h (if jtruthy p then p else JObj [])) (\<lambda>_ _. False) (\<lambda>_. untouched s) s"
    using h(2) assms(2) by (simp add: excluded_def)
  then show ?thesis
    using e h(1) by (auto simp: dispatch_request wpS_def untouched_def split: sum.splits)
qed

section \<open>Every request is answered\<close>

lemma bind_lift: "bindS (liftS (Inr x)) f s = f x s" "bindS (liftS (Inl e)) f s = (Inl e, s)"
  by (simp_all add: bindS_def sem_simps)

lemma reply_fields [simp]:
  "jget (ok_reply rid x) ''id'' = Inr rid" "jget (ok_reply rid x) ''ok'' = Inr (JBool True)"
  "jget (ok_reply rid x) ''result'' = Inr x"
  "jget (error_reply rid msg) ''id'' = Inr rid" "jget (error_reply rid msg) ''ok'' = Inr (JBool False)"
  "jget (error_reply rid msg) ''error'' = Inr (JStr msg)"
  by (simp_all add: ok_reply_def error_reply_def)

text \<open>C38: A request that is a dictionary with a usable method name is answered, whatever its handler
  does: the reply has the request's id and a flag, an exception having become an error text. A
  request that is not a dictionary, or whose method is a list or a dictionary, is not answered:
  the exception escapes to the connection.\<close>

theorem dispatch_answers:
  "case req of
     JObj d \<Rightarrow>
       (case get_default d ''method'' (JStr '''') of
          JList _ \<Rightarrow> dispatch B load k req s = (Inl TypeError, s)
        | JObj _ \<Rightarrow> dispatch B load k req s = (Inl TypeError, s)
        | _ \<Rightarrow> (\<exists>reply. fst (dispatch B load k req s) = Inr reply
                 \<and> jget reply ''id'' = Inr (get_default d ''id'' (JInt (- 1)))
                 \<and> ((\<exists>x. jget reply ''ok'' = Inr (JBool True) \<and> jget reply ''result'' = Inr x)
                    \<or> (\<exists>msg. jget reply ''ok'' = Inr (JBool False) \<and> jget reply ''error'' = Inr (JStr msg)))))
   | _ \<Rightarrow> dispatch B load k req s = (Inl AttributeError, s)"
proof (cases req)
  case (JObj d)
  have answered: "\<exists>reply. fst (catchS (bindS m (\<lambda>x. retS (ok_reply rid x))) (\<lambda>e. retS (error_reply rid (error_name e))) t)
        = Inr reply \<and> jget reply ''id'' = Inr rid
      \<and> (jget reply ''ok'' = Inr (JBool True) \<and> (\<exists>x. jget reply ''result'' = Inr x)
         \<or> jget reply ''ok'' = Inr (JBool False) \<and> (\<exists>msg. jget reply ''error'' = Inr (JStr msg)))"
    for m :: "('a server, json) sem" and rid t
    by (cases "m t"; cases "fst (m t)") (auto simp: catchS_def bindS_def sem_simps)
  show ?thesis
    unfolding JObj
    by (cases "get_default d ''method'' (JStr '''')")
      (auto simp: dispatch_def lookup_handler_def bind_lift retS_def Let_def
        intro!: answered split: option.split)
qed (simp_all add: dispatch_def bindS_def sem_simps)

section \<open>Stop\<close>

definition heard :: "req_env \<Rightarrow> 'b server \<Rightarrow> bool" where
  "heard k s \<longleftrightarrow> r_cancel (v_robot s) \<and> (rq_got1 k \<longrightarrow> v_loop s = None)"

declare wpS_onB [wp_simps]

lemma stop_handler: "wpS (h_stop B k p) (\<lambda>_. heard k) (\<lambda>_. heard k) s"
  by (auto simp: h_stop_def drop_loop_def servo_stop_def robot_stop_def request_stop_def heard_def wp_simps
      intro!: wpS_any split: option.split)

text \<open>C15: A stop request, which needs no lease, is heard whatever the state of the lock and whatever the
  backend raises: afterwards the cancel is pending and, where the lock was obtained, the servo
  loop is gone; so the next chunk that runs reaches no motion and reports a user stop.\<close>

theorem stop_is_heard:
  assumes "dispatch (traced B) load k (request rid ''stop'' p) s = (out, s')"
    and "execute_cartesian_chunk (traced B) args c (v_robot s') = (res, r')"
  shows "r_cancel (v_robot s') \<and> (rq_got1 k \<longrightarrow> v_loop s' = None)
    \<and> (\<exists>cs. cmds r' = cmds (v_robot s') @ cs \<and> list_all (\<lambda>c. \<exists>st. c = CRead st) cs)
    \<and> (\<forall>x. res = Inr x \<longrightarrow> \<not> er_success x \<and> er_stop_reason x = ''user'')"
proof -
  have h: "map_of (handlers (traced B) load k) ''stop'' = Some (h_stop (traced B) k)"
    by (simp add: handlers_def)
  have "heard k s'"
    using stop_handler [of "traced B" k "if jtruthy p then p else JObj []" s] assms(1)
    by (auto simp: dispatch_request [OF h] wpS_def split: prod.splits sum.splits)
  then show ?thesis using cancelled_chunk [OF _ assms(2)] by (simp add: heard_def)
qed

section \<open>A forced takeover\<close>

lemma lease_owner_eq:
  "lease_owner now l = (Inr (case holder_at now l of Some p \<Rightarrow> p | None \<Rightarrow> ''''), expire_if_stale now l)"
  by (auto simp: lease_owner_def sem_simps expire_info holder_at_def split: option.splits)

text \<open>Taking the lease by force from another holder latches a cancel even when nothing of the victim is
  moving, so the first chunk of the new owner is the one that is aborted: it only reads the state
  and reports a user stop.\<close>

theorem takeover_aborts_own_chunk:
  assumes "holder_at (rq_check k) (v_lease s) = Some victim" "victim \<notin> {'''', thief}" "thief \<noteq> ''''"
    and "dispatch (traced B) load k (request rid ''acquire_lease'' (JObj [(''owner'', JStr thief), (''force'', JBool True)])) s
      = (out, s')"
    and "execute_cartesian_chunk (traced B) args c (v_robot s') = (res, r')"
  shows "(\<exists>x. out = Inr (ok_reply rid x)) \<and> cmds (v_robot s') = cmds (v_robot s)
    \<and> (\<exists>cs. cmds r' = cmds (v_robot s') @ cs \<and> list_all (\<lambda>c. \<exists>st. c = CRead st) cs)
    \<and> (\<forall>x. res = Inr x \<longrightarrow> \<not> er_success x \<and> er_stop_reason x = ''user'')"
proof -
  let ?p = "JObj [(''owner'', JStr thief), (''force'', JBool True)]"
  have h: "map_of (handlers (traced B) load k) ''acquire_lease'' = Some (h_acquire_lease k)"
    by (simp add: handlers_def)
  have "wpS (h_acquire_lease k ?p) (\<lambda>_ s'. r_cancel (v_robot s') \<and> cmds (v_robot s') = cmds (v_robot s))
      (\<lambda>_ _. False) s"
    using assms(1,2,3)
    by (auto simp: h_acquire_lease_def request_stop_def wp_simps lease_owner_eq wpS_def lease_acquire_eq Let_def
        sem_simps bindS_def onL_def onRob_def cmds_def split: prod.splits sum.splits)
  then have "(\<exists>x. out = Inr (ok_reply rid x)) \<and> r_cancel (v_robot s') \<and> cmds (v_robot s') = cmds (v_robot s)"
    using assms(4) by (auto simp: dispatch_request [OF h] wpS_def split: prod.splits sum.splits)
  then show ?thesis using cancelled_chunk [OF _ assms(5)] by auto
qed


section \<open>The properties at concrete requests\<close>

definition demo_env :: req_env where
  "demo_env = \<lparr>rq_check = 1, rq_now = 1, rq_hold = 1, rq_exit = 2, rq_free = True, rq_got1 = True, rq_got2 = False,
     rq_elapsed = []\<rparr>"

definition demo_server :: "fake trace server" where
  "demo_server = \<lparr>v_robot = demo_robot (\<lambda>_. False),
     v_lease = \<lparr>l_ttl = 2, l_info = Some \<lparr>li_owner = ''a'', li_acquired_at = 0, li_expires_at = 2\<rparr>, l_holds = 0\<rparr>,
     v_loop = None\<rparr>"

lemma demo_server_sel [simp]:
  "holder_at 1 (v_lease demo_server) = Some ''a''" "v_loop demo_server = None"
  "v_robot demo_server = demo_robot (\<lambda>_. False)" "l_ttl (v_lease demo_server) = 2"
  by (simp_all add: demo_server_def holder_at_def)

lemma demo_env_sel [simp]: "rq_check demo_env = 1" "rq_now demo_env = 1" "rq_hold demo_env = 1" "rq_got1 demo_env"
  by (simp_all add: demo_env_def)

lemma unleased_refused_witness:
  "\<exists>s'. dispatch (traced fake_backend) (\<lambda>_. Inr default_profile) demo_env
      (request (JInt 7) ''home'' (JObj [(''owner'', JStr ''b'')])) demo_server
      = (Inr (error_reply (JInt 7) ''lease''), s') \<and> v_robot s' = v_robot demo_server \<and> v_loop s' = None"
  using unleased_refused [of "''home''" "JObj [(''owner'', JStr ''b'')]" "''b''" demo_env demo_server]
  by (simp add: leased_methods_def)

lemma streaming_excludes_motion_witness:
  "\<exists>msg s'. dispatch (traced fake_backend) (\<lambda>_. Inr default_profile) demo_env
      (request (JInt 7) ''home'' (JObj [(''owner'', JStr ''a'')])) (demo_server\<lparr>v_loop := Some demo_servo\<rparr>)
      = (Inr (error_reply (JInt 7) msg), s') \<and> v_loop s' = Some demo_servo"
  using streaming_excludes_motion [of "''home''" "demo_server\<lparr>v_loop := Some demo_servo\<rparr>"]
  by (fastforce simp: motion_methods_def)

lemma stop_is_heard_witness:
  "\<exists>out s'. dispatch (traced fake_backend) (\<lambda>_. Inr default_profile) demo_env (request (JInt 7) ''stop'' (JObj []))
      (demo_server\<lparr>v_loop := Some demo_servo\<rparr>) = (out, s') \<and> r_cancel (v_robot s') \<and> v_loop s' = None"
  using stop_is_heard [OF prod.collapse [symmetric] prod.collapse [symmetric], where B = fake_backend and k = demo_env
      and s = "demo_server\<lparr>v_loop := Some demo_servo\<rparr>"]
  by (metis demo_env_sel(4) prod.collapse)

lemma takeover_aborts_own_chunk_witness:
  "\<exists>x. fst (dispatch (traced fake_backend) (\<lambda>_. Inr default_profile) demo_env (request (JInt 7) ''acquire_lease''
      (JObj [(''owner'', JStr ''b''), (''force'', JBool True)])) demo_server) = Inr (ok_reply (JInt 7) x)"
  using takeover_aborts_own_chunk [OF _ _ _ prod.collapse [symmetric] prod.collapse [symmetric], where B = fake_backend
      and k = demo_env and s = demo_server and victim = "''a''" and thief = "''b''"]
  by simp


end
