(* ===== verification/Remote_Proofs.thy ===== *)
theory Remote_Proofs
  imports Remote Server_Proofs
begin

text \<open>
  The client against the server: a call of the remote robot is the call of the local one, carried
  out on the server's robot under the caller's lease. The wire is the server's dispatcher; an
  exception that escapes it closes the connection.
\<close>

section \<open>The wire\<close>

definition server_rpc ::
  "'b backend \<Rightarrow> (string \<Rightarrow> safety_profile result) \<Rightarrow> req_env \<Rightarrow> 'b server rpc" where
  "server_rpc B load k req s =
     (case dispatch B load k req s of
        (Inr reply, s') \<Rightarrow> (Inr (Some reply), s')
      | (Inl e, s') \<Rightarrow> (Inr None, s'))"

text \<open>The motion calls that return a report, on the client and on the robot.\<close>

datatype motion_call =
    RunChunk chunk
  | RunJointChunk joint_chunk
  | MoveJoint "real list" "real option" "real option" bool
  | ServoDelta "real list" "real option" string "gripper_command option"
  | ServoPose "real list" real "gripper_command option"
  | GoHomeSafe "real list option" real "real option" real real

fun remote_op :: "'w rpc \<Rightarrow> motion_call \<Rightarrow> ('w remote, exec_result) sem" where
  "remote_op rpc (RunChunk c) = remote_execute_cartesian_chunk rpc False c"
| "remote_op rpc (RunJointChunk c) = remote_execute_joint_chunk rpc False c"
| "remote_op rpc (MoveJoint q d v rt) = remote_move_joint rpc q d v rt"
| "remote_op rpc (ServoDelta xs d f g) = remote_servo_cartesian_delta rpc xs d f g"
| "remote_op rpc (ServoPose xs d g) = remote_servo_cartesian_pose rpc xs d g"
| "remote_op rpc (GoHomeSafe q l w t j) = remote_go_home_safe rpc q l w t j"

fun local_op :: "'b backend \<Rightarrow> req_env \<Rightarrow> motion_call \<Rightarrow> ('b robot, exec_result) sem" where
  "local_op B k (RunChunk c) = execute_cartesian_chunk B default_args c"
| "local_op B k (RunJointChunk c) = execute_joint_chunk B False c"
| "local_op B k (MoveJoint q d v rt) = move_joint B q d v rt"
| "local_op B k (ServoDelta xs d f g) = servo_cartesian_delta_raw B xs d f g"
| "local_op B k (ServoPose xs d g) = servo_cartesian_pose B xs d g"
| "local_op B k (GoHomeSafe q l w t j) = go_home_safe B q l w t j (rq_elapsed k)"

fun valid_call :: "motion_call \<Rightarrow> bool" where
  "valid_call (RunChunk c) = chunk_wf c"
| "valid_call (RunJointChunk c) = (jc_waypoints c \<noteq> [] \<and> list_all jw_wf (jc_waypoints c))"
| "valid_call _ = True"

section \<open>A leased motion request\<close>

definition lease_ready :: "req_env \<Rightarrow> string \<Rightarrow> lease \<Rightarrow> bool" where
  "lease_ready k owner l \<longleftrightarrow> owner \<noteq> '''' \<and> holder_at (rq_check k) l = Some owner
     \<and> rq_hold k \<le> rq_now k + l_ttl l"

lemma require_lease_ok:
  assumes "lease_ready k owner (v_lease s)" "jfield_or p ''owner'' (JStr '''') jstr = Inr owner"
  shows "require_lease k p s = (Inr owner, s\<lparr>v_lease := refresh owner (rq_now k) (v_lease s),
           v_robot := (v_robot s)\<lparr>r_owner := Some owner\<rparr>\<rparr>)"
  using assms
  by (auto simp: require_lease_def bindS_def sem_simps onL_def onRob_def lease_check_eq heartbeat_def
      lease_ready_def holder_at_def split: option.splits if_splits)

lemma ready_hold:
  assumes "lease_ready k owner l"
  shows "holder_at (rq_hold k) (refresh owner (rq_now k) l) = Some owner"
  using assms by (auto simp: lease_ready_def holder_at_def refresh_def split: option.splits if_splits)

lemma motion_lock_run:
  assumes "v_loop s = None" "owner \<noteq> ''''" "holder_at (rq_hold k) (v_lease s) = Some owner"
    and "m (v_robot s) = (out, r')"
  shows "\<exists>l. motion_lock k owner (onRob m) s = (out, s\<lparr>v_robot := r', v_lease := l\<rparr>)"
  using assms
  by (cases out)
    (auto simp: motion_lock_def hold_enter_def hold_exit_def lease_check_eq bindS_def finallyS_def sem_simps
      onL_def onRob_def)

lemma bind_liftS: "bindS (liftS (Inr x)) f = f x"
  by (rule ext) (simp add: bindS_def sem_simps)

text \<open>What the six handlers have in common.\<close>

lemma leased_motion:
  assumes "lease_ready k owner (v_lease s)" "jfield_or p ''owner'' (JStr '''') jstr = Inr owner" "v_loop s = None"
    and "m ((v_robot s)\<lparr>r_owner := Some owner\<rparr>) = (out, r')"
    and "h p = bindS (require_lease k p) (\<lambda>owner. bindS (motion_lock k owner (onRob m)) (\<lambda>r. retS (reply_result r)))"
  shows "\<exists>l. h p s = (case out of Inl e \<Rightarrow> Inl e | Inr x \<Rightarrow> Inr (reply_result x), s\<lparr>v_robot := r', v_lease := l\<rparr>)"
proof -
  let ?s = "s\<lparr>v_lease := refresh owner (rq_now k) (v_lease s), v_robot := (v_robot s)\<lparr>r_owner := Some owner\<rparr>\<rparr>"
  obtain l where "motion_lock k owner (onRob m) ?s = (out, ?s\<lparr>v_robot := r', v_lease := l\<rparr>)"
    using motion_lock_run [of ?s owner k m out r'] assms ready_hold [OF assms(1)] by (auto simp: lease_ready_def)
  then show ?thesis
    by (intro exI [of _ l], cases out) (simp_all add: assms(5) bindS_def require_lease_ok [OF assms(1,2)] retS_def)
qed

fun params_of :: "motion_call \<Rightarrow> (string \<times> json) list" where
  "params_of (RunChunk c) = [(''chunk'', chunk_to_dict c)]"
| "params_of (RunJointChunk c) = [(''chunk'', joint_chunk_to_dict c)]"
| "params_of (MoveJoint q d v rt) = [(''q'', of_floats q), (''duration'', of_opt JNum d),
     (''max_joint_speed'', of_opt JNum v), (''realtime'', JBool rt)]"
| "params_of (ServoDelta xs d f g) = [(''delta'', of_floats xs), (''duration'', of_opt JNum d), (''frame'', JStr f),
     (''gripper'', gripper_to_dict g)]"
| "params_of (ServoPose xs d g) = [(''pose'', of_floats xs), (''duration'', JNum d), (''gripper'', gripper_to_dict g)]"
| "params_of (GoHomeSafe q l w t j) = [(''q_home'', of_opt of_floats q), (''lift_m'', JNum l),
     (''open_gripper_width'', of_opt JNum w), (''max_tcp_speed'', JNum t), (''max_joint_speed'', JNum j)]"

fun method_of :: "motion_call \<Rightarrow> string" where
  "method_of (RunChunk c) = ''execute_cartesian_chunk''"
| "method_of (RunJointChunk c) = ''execute_joint_chunk''"
| "method_of (MoveJoint q d v rt) = ''move_joint''"
| "method_of (ServoDelta xs d f g) = ''servo_cartesian_delta''"
| "method_of (ServoPose xs d g) = ''servo_cartesian_pose''"
| "method_of (GoHomeSafe q l w t j) = ''go_home_safe''"

fun handler_of :: "'b backend \<Rightarrow> req_env \<Rightarrow> motion_call \<Rightarrow> json \<Rightarrow> ('b server, json) sem" where
  "handler_of B k (RunChunk c) = h_execute_cartesian_chunk B k"
| "handler_of B k (RunJointChunk c) = h_execute_joint_chunk B k"
| "handler_of B k (MoveJoint q d v rt) = h_move_joint B k"
| "handler_of B k (ServoDelta xs d f g) = h_servo_cartesian_delta B k"
| "handler_of B k (ServoPose xs d g) = h_servo_cartesian_pose B k"
| "handler_of B k (GoHomeSafe q l w t j) = h_go_home_safe B k"

lemma handler_of_lookup: "map_of (handlers B load k) (method_of mc) = Some (handler_of B k mc)"
  by (cases mc) (simp_all add: handlers_def)

lemma remote_op_eq: "remote_op rpc mc = bindS (owned rpc (method_of mc) (params_of mc)) read_result"
proof -
  have "bindS m (remote_raise False) = m" for m :: "('w remote, exec_result) sem"
    by (rule ext) (simp add: bindS_def remote_raise_def retS_def split: prod.split sum.split)
  then show ?thesis
    by (cases mc) (simp_all add: remote_execute_cartesian_chunk_def remote_execute_joint_chunk_def
        remote_move_joint_def remote_servo_cartesian_delta_def remote_servo_cartesian_pose_def remote_go_home_safe_def)
qed

text \<open>Decoding the parameters the client sends leaves the robot's own call under the lock.\<close>

lemma handler_body:
  assumes "valid_call mc"
  shows "handler_of B k mc (JObj ((''owner'', JStr owner) # params_of mc)) =
    bindS (require_lease k (JObj ((''owner'', JStr owner) # params_of mc)))
      (\<lambda>owner. bindS (motion_lock k owner (onRob (local_op B k mc))) (\<lambda>r. retS (reply_result r)))"
proof (cases mc)
  case (RunChunk c)
  then have "chunk_from_dict (chunk_to_dict c) = Inr c" using assms by (simp add: chunk_codec.dec_enc)
  then show ?thesis using RunChunk by (simp add: h_execute_cartesian_chunk_def bind_liftS)
next
  case (RunJointChunk c)
  then have "joint_chunk_from_dict (joint_chunk_to_dict c) = Inr c" using assms by (simp add: joint_chunk_codec.dec_enc)
  then show ?thesis using RunJointChunk by (simp add: h_execute_joint_chunk_def bind_liftS)
qed (simp_all add: h_move_joint_def h_servo_cartesian_delta_def h_servo_cartesian_pose_def h_go_home_safe_def bind_liftS)

text \<open>A \<open>with\<close> block whose lease is refused leaves its connection open.\<close>

lemma call_connected: "keepsS c_connected (call rpc method params)"
  unfolding call_def
  by (auto simp: keepsS_def bindS_def thenS_eq sem_simps onW_def split: prod.splits sum.splits option.splits)

lemma refused_entry_stays_connected:
  assumes "remote_connect rpc c = (Inr (), c1)" "remote_acquire_lease rpc None False c1 = (Inl e, c2)"
  shows "with_remote rpc body c = (Inl e, c2) \<and> c_connected c2"
proof
  show "with_remote rpc body c = (Inl e, c2)" using assms by (simp add: with_remote_def thenS_eq)
  have "keepsS c_connected (remote_acquire_lease rpc None False)"
    unfolding remote_acquire_lease_def owned_def
    by (intro keepsS_then keepsS_bind call_connected keepsS_base) (simp_all add: keepsS_def modS_def)
  moreover have "c_connected c1"
    using assms(1) keepsS_D [OF call_connected, of "c\<lparr>c_connected := True\<rparr>"]
    by (auto simp: remote_connect_def thenS_eq sem_simps split: prod.splits sum.splits) (metis remote.simps snd_conv)
  ultimately show "c_connected c2" using assms(2) keepsS_D by (metis snd_conv)
qed


definition demo_client :: "fake trace server remote" where
  "demo_client = (mk_remote ''a'' demo_server)\<lparr>c_connected := True\<rparr>"



end
