(* ===== verification/Wire.thy ===== *)
theory Wire
  imports Remote_Proofs "HOL-Library.Sublist"
begin

text \<open>
  The socket under \<^verbatim>\<open>client/remote_robot.py\<close>: two queues of lines, a time limit on every read, and what else happens
  meanwhile. The other theories take an exchange to be atomic; here it is a write and a read, so that a reply may come
  after its reader has given up. The lemmas: a call never returns another request's reply, and what a connection
  still does after a read has timed out.
\<close>

section \<open>The connection\<close>

text \<open>
  The server's thread of this connection handles the next line; another connection or the servo loop changes the
  server; the server ends the connection.
\<close>

datatype 'w event = Handle | Elsewhere "'w \<Rightarrow> 'w" | HangUp

text \<open>
  \<open>wr_dead\<close>: a read has timed out. Python's reader raises from then on; \<open>wr_late\<close> is a reader that could still be
  read, which is what the source's comment expects. \<open>wr_done\<close> lists the requests the server has executed with their
  replies. \<open>wr_plan\<close> is what will happen and when, each after the one before it.
\<close>

record 'w wire =
  wr_sent :: "json list"
  wr_replies :: "json list"
  wr_open :: bool
  wr_dead :: bool
  wr_late :: bool
  wr_done :: "(json \<times> json) list"
  wr_server :: 'w
  wr_plan :: "(real \<times> 'w event) list"

type_synonym 'w answer = "json \<Rightarrow> ('w, json) sem"

definition happen :: "'w answer \<Rightarrow> 'w event \<Rightarrow> 'w wire \<Rightarrow> 'w wire" where
  "happen answer ev w =
     (case ev of
        Handle \<Rightarrow>
          (case wr_sent w of
             [] \<Rightarrow> w
           | req # rest \<Rightarrow>
               (if \<not> wr_open w then w
                else case answer req (wr_server w) of
                  (Inr reply, s) \<Rightarrow> w\<lparr>wr_sent := rest, wr_replies := wr_replies w @ [reply],
                                     wr_done := wr_done w @ [(req, reply)], wr_server := s\<rparr>
                | (Inl e, s) \<Rightarrow> w\<lparr>wr_sent := rest, wr_open := False, wr_server := s\<rparr>))
      | Elsewhere f \<Rightarrow> w\<lparr>wr_server := f (wr_server w)\<rparr>
      | HangUp \<Rightarrow> w\<lparr>wr_open := False\<rparr>)"

text \<open>Waiting for a line: until there is one, the connection ends, or the time limit has passed.\<close>

fun await :: "'w answer \<Rightarrow> real \<Rightarrow> (real \<times> 'w event) list \<Rightarrow> 'w wire \<Rightarrow> 'w wire" where
  "await answer limit [] w = w\<lparr>wr_plan := []\<rparr>"
| "await answer limit ((d, ev) # plan) w =
     (if wr_replies w \<noteq> [] \<or> \<not> wr_open w then w\<lparr>wr_plan := (d, ev) # plan\<rparr>
      else if limit < d then w\<lparr>wr_plan := (d - limit, ev) # plan\<rparr>
      else await answer (limit - d) plan (happen answer ev w))"

definition MOTION_METHODS :: "string list" where
  "MOTION_METHODS =
     [''execute_cartesian_chunk'', ''execute_joint_chunk'', ''move_joint'', ''servo_cartesian_delta'',
      ''servo_cartesian_pose'', ''command_gripper'', ''home'', ''go_home_safe'', ''zero_ft_sensor'']"

definition limit_of :: "real \<Rightarrow> real \<Rightarrow> json \<Rightarrow> real" where
  "limit_of timeout motion_timeout req =
     (case jget_dflt req ''method'' JNull of
        Inr (JStr m) \<Rightarrow> (if m \<in> set MOTION_METHODS then motion_timeout else timeout)
      | _ \<Rightarrow> timeout)"

text \<open>
  The line is written before anything is known of the reader; what \<open>readline\<close> returns at the end of the connection
  is the empty line, \<open>None\<close>.
\<close>

definition socket_rpc :: "'w answer \<Rightarrow> real \<Rightarrow> real \<Rightarrow> 'w wire rpc" where
  "socket_rpc answer timeout motion_timeout req w =
     (let w = (if wr_open w then w\<lparr>wr_sent := wr_sent w @ [req]\<rparr> else w)
      in if wr_dead w \<and> \<not> wr_late w then (Inl OSError, w)
         else let w = await answer (limit_of timeout motion_timeout req) (wr_plan w) w
              in case wr_replies w of
                   reply # rest \<Rightarrow> (Inr (Some reply), w\<lparr>wr_replies := rest\<rparr>)
                 | [] \<Rightarrow> (if wr_open w then (Inl OSError, w\<lparr>wr_dead := True\<rparr>) else (Inr None, w)))"

text \<open>The calls of all threads, in the order in which they get the lock around an exchange.\<close>

type_synonym wire_call = "string \<times> (string \<times> json) list"

fun calls :: "'w rpc \<Rightarrow> wire_call list \<Rightarrow> 'w remote \<Rightarrow> json result list \<times> 'w remote" where
  "calls rpc [] c = ([], c)"
| "calls rpc ((m, p) # cs) c =
     (case call rpc m p c of (r, c') \<Rightarrow> case calls rpc cs c' of (rs, c'') \<Rightarrow> (r # rs, c''))"

text \<open>The server goes on handling lines.\<close>

fun catch_up :: "'w answer \<Rightarrow> nat \<Rightarrow> 'w wire \<Rightarrow> 'w wire" where
  "catch_up answer 0 w = w"
| "catch_up answer (Suc n) w = catch_up answer n (happen answer Handle w)"

definition line_of :: "int \<Rightarrow> wire_call \<Rightarrow> json" where
  "line_of rid = (\<lambda>(m, p). request (JInt rid) m (JObj p))"

text \<open>The lines written for a list of calls: their numbers count up.\<close>

definition lines_of :: "int \<Rightarrow> wire_call list \<Rightarrow> json list" where
  "lines_of n cs = map (\<lambda>i. line_of (n + 1 + int i) (cs ! i)) [0..<length cs]"


lemma lines_of_Cons: "lines_of n (mp # cs) = line_of (n + 1) mp # lines_of (n + 1) cs"
  by (simp add: lines_of_def map_upt_Suc add.commute add.left_commute del: upt_Suc)

section \<open>What holds between two calls\<close>

text \<open>
  Requests numbered from \<open>n + 1\<close> on: the server has executed the first of them, in order, with replies that name
  them, and \<open>k\<close> of the replies have been read.
\<close>

definition in_order :: "int \<Rightarrow> json list \<Rightarrow> nat \<Rightarrow> 'w wire \<Rightarrow> bool" where
  "in_order n reqs k w \<longleftrightarrow>
     (\<exists>rest. reqs = map fst (wr_done w) @ rest \<and> (wr_open w \<longrightarrow> wr_sent w = rest))
     \<and> k \<le> length (wr_done w) \<and> wr_replies w = map snd (drop k (wr_done w))
     \<and> (\<forall>i < length (wr_done w). jget_dflt (snd (wr_done w ! i)) ''id'' JNull = Inr (JInt (n + 1 + int i)))
     \<and> (\<forall>i < length reqs. \<exists>m p. reqs ! i = line_of (n + 1 + int i) (m, p))"

text \<open>A reader that has not timed out has read every reply; one that has is behind for good.\<close>

definition level :: "int \<Rightarrow> json list \<Rightarrow> nat \<Rightarrow> 'w wire \<Rightarrow> bool" where
  "level n reqs k w \<longleftrightarrow> in_order n reqs k w
     \<and> (if wr_dead w then k < length reqs else k = length (wr_done w) \<and> (wr_open w \<longrightarrow> k = length reqs))"

definition in_step :: "int \<Rightarrow> json list \<Rightarrow> 'w wire remote \<Rightarrow> bool" where
  "in_step n reqs c \<longleftrightarrow> c_connected c \<and> c_next_id c = n + int (length reqs)
     \<and> (\<exists>k. level n reqs k (c_world c))"

lemma in_order_plan [simp]:
  "in_order n reqs k (w\<lparr>wr_plan := plan\<rparr>) = in_order n reqs k w"
  "in_order n reqs k (w\<lparr>wr_dead := b\<rparr>) = in_order n reqs k w"
  by (simp_all add: in_order_def)

lemma in_order_write:
  assumes "in_order n reqs k w"
  shows "in_order n (reqs @ [line_of (n + 1 + int (length reqs)) mp]) k
    (if wr_open w then w\<lparr>wr_sent := wr_sent w @ [line_of (n + 1 + int (length reqs)) mp]\<rparr> else w)"
  using assms by (cases mp) (auto simp: in_order_def nth_append less_Suc_eq)

text \<open>What the connection relies on of the server: every line a client writes is answered under its number.\<close>

text \<open>What a call makes of the line it reads.\<close>

definition read_reply :: "int \<Rightarrow> json option result \<Rightarrow> json result" where
  "read_reply rid out = bindR out (\<lambda>line. case line of
       None \<Rightarrow> Inl RemoteRobotError
     | Some resp \<Rightarrow> bindR (jget_dflt resp ''id'' JNull) (\<lambda>i.
         if \<not> id_is i rid then Inl RemoteRobotError
         else bindR (jget_dflt resp ''ok'' (JBool False)) (\<lambda>ok.
           if \<not> jtruthy ok then Inl RemoteRobotError else jget_dflt resp ''result'' (JObj []))))"

lemma read_reply_Inr:
  "read_reply rid out = Inr v \<Longrightarrow> \<exists>reply. out = Inr (Some reply) \<and> jget_dflt reply ''result'' (JObj []) = Inr v"
  by (auto simp: read_reply_def bindR_eq_Inr split: option.splits if_splits)

lemma call_eq:
  assumes "c_connected c"
  shows "call rpc m p c = (case rpc (line_of (c_next_id c + 1) (m, p)) (c_world c) of
    (out, w) \<Rightarrow> (read_reply (c_next_id c + 1) out, c\<lparr>c_next_id := c_next_id c + 1, c_world := w\<rparr>))"
  using assms
  by (auto simp: call_def read_reply_def bindS_def thenS_eq sem_simps onW_def line_of_def request_def bindR_def
      split: prod.split sum.split option.split)

locale responder =
  fixes answer :: "'w answer"
  assumes echo: "\<exists>reply s'. answer (line_of rid (m, p)) s = (Inr reply, s') \<and> jget_dflt reply ''id'' JNull = Inr (JInt rid)"
begin

lemma happen_in_order:
  assumes "in_order n reqs k w"
  shows "in_order n reqs k (happen answer ev w)" "wr_dead (happen answer ev w) = wr_dead w"
    "wr_late (happen answer ev w) = wr_late w" "prefix (wr_done w) (wr_done (happen answer ev w))"
proof -
  have "in_order n reqs k (happen answer ev w) \<and> wr_dead (happen answer ev w) = wr_dead w
    \<and> wr_late (happen answer ev w) = wr_late w \<and> prefix (wr_done w) (wr_done (happen answer ev w))"
  proof (cases "ev = Handle \<and> wr_open w \<and> wr_sent w \<noteq> []")
    case True
    then obtain req rest where sent: "wr_sent w = req # rest" by (meson list.exhaust)
    have reqs: "reqs = map fst (wr_done w) @ req # rest" using assms True sent by (auto simp: in_order_def)
    then have "length (wr_done w) < length reqs" by simp
    then have "\<exists>m p. reqs ! length (wr_done w) = line_of (n + 1 + int (length (wr_done w))) (m, p)"
      using assms unfolding in_order_def by blast
    then obtain m p where "req = line_of (n + 1 + int (length (wr_done w))) (m, p)" by (auto simp: reqs nth_append)
    then obtain reply s' where a: "answer req (wr_server w) = (Inr reply, s')"
        "jget_dflt reply ''id'' JNull = Inr (JInt (n + 1 + int (length (wr_done w))))"
      using echo by metis
    show ?thesis
      using assms True sent reqs a by (auto simp: happen_def in_order_def nth_append less_Suc_eq)
  next
    case False
    then show ?thesis
      using assms by (cases ev) (auto simp: happen_def in_order_def split: list.split)
  qed
  then show "in_order n reqs k (happen answer ev w)" "wr_dead (happen answer ev w) = wr_dead w"
    "wr_late (happen answer ev w) = wr_late w" "prefix (wr_done w) (wr_done (happen answer ev w))" by simp_all
qed

lemma await_in_order:
  assumes "in_order n reqs k w"
  shows "in_order n reqs k (await answer limit plan w) \<and> wr_dead (await answer limit plan w) = wr_dead w
    \<and> wr_late (await answer limit plan w) = wr_late w \<and> prefix (wr_done w) (wr_done (await answer limit plan w))"
  using assms
proof (induction plan arbitrary: limit w)
  case (Cons p plan)
  obtain d ev where p: "p = (d, ev)" by force
  show ?case
    using Cons.IH [OF happen_in_order(1) [OF Cons.prems], of "limit - d" ev] Cons.prems happen_in_order(2-4) [OF Cons.prems, where ev = ev]
    by (auto simp: p intro: prefix_order.trans)
qed simp

text \<open>An exchange: nothing is read, the wait ends without a line, or the first line there is.\<close>

lemma exchange_ends:
  assumes "in_order n reqs k w" "socket_rpc answer t mt (line_of (n + 1 + int (length reqs)) mp) w = (out, w')"
  obtains w2 where "in_order n (reqs @ [line_of (n + 1 + int (length reqs)) mp]) k w2" "wr_dead w2 = wr_dead w"
    "prefix (wr_done w) (wr_done w2)" "\<not> wr_open w \<Longrightarrow> wr_done w2 = wr_done w"
    "out = Inl OSError \<and> w' = w2 \<and> wr_dead w
     \<or> wr_replies w2 = [] \<and> (if wr_open w2 then out = Inl OSError \<and> w' = w2\<lparr>wr_dead := True\<rparr> else out = Inr None \<and> w' = w2)
     \<or> (\<exists>reply rest. wr_replies w2 = reply # rest \<and> out = Inr (Some reply) \<and> w' = w2\<lparr>wr_replies := rest\<rparr>)"
proof -
  let ?line = "line_of (n + 1 + int (length reqs)) mp"
  define w1 where "w1 = (if wr_open w then w\<lparr>wr_sent := wr_sent w @ [?line]\<rparr> else w)"
  have w1: "in_order n (reqs @ [?line]) k w1" "wr_done w1 = wr_done w" "wr_dead w1 = wr_dead w" "wr_open w1 = wr_open w"
    using in_order_write [OF assms(1), of mp] by (simp_all add: w1_def)
  define w2 where "w2 = await answer (limit_of t mt ?line) (wr_plan w1) w1"
  have w2: "in_order n (reqs @ [?line]) k w2" "wr_dead w2 = wr_dead w" "prefix (wr_done w) (wr_done w2)"
    using await_in_order [OF w1(1), of "limit_of t mt ?line" "wr_plan w1"] w1(2,3) by (auto simp: w2_def)
  have closed: "wr_done w2 = wr_done w" if "\<not> wr_open w"
    using that w1(2,4) by (cases "wr_plan w1") (auto simp: w2_def)
  have rpc: "(out, w') = (if wr_dead w1 \<and> \<not> wr_late w1 then (Inl OSError, w1)
       else case wr_replies w2 of
          reply # rest \<Rightarrow> (Inr (Some reply), w2\<lparr>wr_replies := rest\<rparr>)
        | [] \<Rightarrow> (if wr_open w2 then (Inl OSError, w2\<lparr>wr_dead := True\<rparr>) else (Inr None, w2)))"
    unfolding assms(2) [symmetric] socket_rpc_def Let_def w1_def w2_def ..
  show thesis
  proof (cases "wr_dead w1 \<and> \<not> wr_late w1")
    case True
    then show ?thesis using that [OF w1(1,3)] w1(2,3) rpc by simp
  next
    case False
    then show ?thesis using that [OF w2 closed] rpc by (auto split: list.splits if_splits)
  qed
qed

text \<open>The line read is the next one of the server's.\<close>

lemma exchange_level:
  assumes "level n reqs k w" "socket_rpc answer t mt (line_of (n + 1 + int (length reqs)) mp) w = (out, w')"
  defines "reqs' \<equiv> reqs @ [line_of (n + 1 + int (length reqs)) mp]"
  shows "(\<exists>k'. level n reqs' k' w') \<and> prefix (wr_done w) (wr_done w') \<and> (wr_dead w \<longrightarrow> wr_dead w')
    \<and> (\<forall>reply. out = Inr (Some reply) \<longrightarrow>
        (if wr_dead w then k < length reqs \<and> jget_dflt reply ''id'' JNull = Inr (JInt (n + 1 + int k))
         else length (wr_done w') = length reqs' \<and> snd (last (wr_done w')) = reply))"
proof -
  have k: "in_order n reqs k w" "k \<le> length reqs"
    "if wr_dead w then k < length reqs else k = length (wr_done w) \<and> (wr_open w \<longrightarrow> k = length reqs)"
    using assms(1) by (auto simp: level_def in_order_def)
  obtain w2 where w2: "in_order n reqs' k w2" "wr_dead w2 = wr_dead w" "prefix (wr_done w) (wr_done w2)"
      "\<not> wr_open w \<Longrightarrow> wr_done w2 = wr_done w"
    and ends: "out = Inl OSError \<and> w' = w2 \<and> wr_dead w
     \<or> wr_replies w2 = [] \<and> (if wr_open w2 then out = Inl OSError \<and> w' = w2\<lparr>wr_dead := True\<rparr> else out = Inr None \<and> w' = w2)
     \<or> (\<exists>reply rest. wr_replies w2 = reply # rest \<and> out = Inr (Some reply) \<and> w' = w2\<lparr>wr_replies := rest\<rparr>)"
    using exchange_ends [OF k(1) assms(2)] unfolding reqs'_def by blast
  have len: "length reqs' = Suc (length reqs)" by (simp add: reqs'_def)
  show ?thesis
  proof (cases "\<exists>reply. out = Inr (Some reply)")
    case True
    then obtain reply rest where r: "wr_replies w2 = reply # rest" "out = Inr (Some reply)" "w' = w2\<lparr>wr_replies := rest\<rparr>"
      using ends by (auto split: if_splits)
    have "k < length (wr_done w2)" using w2(1) r(1) by (auto simp: in_order_def intro: ccontr)
    then have d: "k < length (wr_done w2)" "rest = map snd (drop (Suc k) (wr_done w2))" "snd (wr_done w2 ! k) = reply"
      "jget_dflt reply ''id'' JNull = Inr (JInt (n + 1 + int k))" "length (wr_done w2) \<le> length reqs'"
      using w2(1) r(1) Cons_nth_drop_Suc [of k "wr_done w2"] by (auto simp: in_order_def dest: spec [of _ k])
    have next_line: "in_order n reqs' (Suc k) w'" using w2(1) d(1,2) by (simp add: r(3) in_order_def)
    have all: "length (wr_done w2) = Suc k \<and> k = length reqs" if "\<not> wr_dead w"
      using k(3) d(1,5) w2(4) that len by (cases "wr_open w") auto
    then have "last (wr_done w2) = wr_done w2 ! k" if "\<not> wr_dead w" using that by (simp add: last_conv_nth flip: length_0_conv)
    then show ?thesis using next_line w2(2,3) d(3,4) k(3) all len
      by (auto simp: level_def r(2,3) intro!: exI [of _ "Suc k"])
  next
    case False
    have "length (wr_done w2) = k" if "wr_replies w2 = []" using w2(1) that by (auto simp: in_order_def)
    then show ?thesis using False ends w2(1-3) k(2,3) len
      by (auto simp: level_def intro!: exI [of _ k] split: if_splits)
  qed
qed

lemma call_step:
  assumes "in_step n reqs c" "call (socket_rpc answer t mt) m p c = (x, c')"
  defines "reqs' \<equiv> reqs @ [line_of (n + 1 + int (length reqs)) (m, p)]"
  shows "in_step n reqs' c' \<and> prefix (wr_done (c_world c)) (wr_done (c_world c'))
    \<and> (wr_dead (c_world c) \<longrightarrow> wr_dead (c_world c') \<and> \<not> is_ok x)
    \<and> (\<forall>v. x = Inr v \<longrightarrow> length (wr_done (c_world c')) = length reqs'
        \<and> jget_dflt (snd (last (wr_done (c_world c')))) ''result'' (JObj []) = Inr v)"
proof -
  let ?rid = "n + 1 + int (length reqs)"
  obtain k where c: "c_connected c" "c_next_id c + 1 = ?rid" and k: "level n reqs k (c_world c)"
    using assms(1) by (auto simp: in_step_def)
  obtain out w' where rpc: "socket_rpc answer t mt (line_of ?rid (m, p)) (c_world c) = (out, w')" by force
  have call: "x = read_reply ?rid out" "c' = c\<lparr>c_next_id := ?rid, c_world := w'\<rparr>"
    using assms(2) call_eq [OF c(1)] rpc c(2) by auto
  note E = exchange_level [OF k rpc, folded reqs'_def]
  have "in_step n reqs' c'" using E c by (auto simp: in_step_def call(2) reqs'_def)
  moreover have refused: "\<not> is_ok x" if "wr_dead (c_world c)"
  proof (cases "\<exists>reply. out = Inr (Some reply)")
    case True
    then obtain reply where r: "out = Inr (Some reply)" by blast
    have "k < length reqs" "jget_dflt reply ''id'' JNull = Inr (JInt (n + 1 + int k))"
      using conjunct2 [OF conjunct2 [OF conjunct2 [OF E]]] r that by simp_all
    then show ?thesis by (simp add: call(1) read_reply_def r is_ok_def)
  next
    case False
    then have "x \<noteq> Inr v" for v using read_reply_Inr call(1) by metis
    then show ?thesis by (cases x) (auto simp: is_ok_def)
  qed
  moreover have "length (wr_done w') = length reqs' \<and> jget_dflt (snd (last (wr_done w'))) ''result'' (JObj []) = Inr v"
    if v: "x = Inr v" for v
  proof -
    obtain reply where r: "out = Inr (Some reply)" "jget_dflt reply ''result'' (JObj []) = Inr v"
      using read_reply_Inr [OF v [unfolded call(1)]] by blast
    have "\<not> wr_dead (c_world c)" using refused unfolding v is_ok_def by auto
    then have "length (wr_done w') = length reqs' \<and> snd (last (wr_done w')) = reply"
      using conjunct2 [OF conjunct2 [OF conjunct2 [OF E]]] r(1) by simp
    then show ?thesis using r(2) by simp
  qed
  ultimately show ?thesis using E by (simp add: call(2))
qed

lemma calls_in_step:
  assumes "in_step n reqs c" "calls (socket_rpc answer t mt) cs c = (rs, c')"
  shows "length rs = length cs \<and> in_step n (reqs @ lines_of (n + int (length reqs)) cs) c'
    \<and> prefix (wr_done (c_world c)) (wr_done (c_world c'))
    \<and> (wr_dead (c_world c) \<longrightarrow> list_all (\<lambda>r. \<not> is_ok r) rs)
    \<and> (\<forall>i < length cs. \<forall>v. rs ! i = Inr v \<longrightarrow> length reqs + i < length (wr_done (c_world c'))
        \<and> jget_dflt (snd (wr_done (c_world c') ! (length reqs + i))) ''result'' (JObj []) = Inr v)"
  using assms
proof (induction cs arbitrary: reqs c rs)
  case (Cons mp cs)
  obtain m p where mp: "mp = (m, p)" by force
  obtain x c1 where x: "call (socket_rpc answer t mt) m p c = (x, c1)" by force
  obtain rs' where rs: "rs = x # rs'" "calls (socket_rpc answer t mt) cs c1 = (rs', c')"
    using Cons.prems(2) by (auto simp: mp x split: prod.splits)
  let ?reqs = "reqs @ [line_of (n + 1 + int (length reqs)) (m, p)]"
  note one = call_step [OF Cons.prems(1) x]
  note rest = Cons.IH [OF conjunct1 [OF one] rs(2)]
  have lines: "?reqs @ lines_of (n + int (length ?reqs)) cs = reqs @ lines_of (n + int (length reqs)) (mp # cs)"
    by (simp add: lines_of_Cons mp ac_simps)
  have here: "length reqs < length (wr_done (c_world c'))
      \<and> jget_dflt (snd (wr_done (c_world c') ! length reqs)) ''result'' (JObj []) = Inr v" if "x = Inr v" for v
  proof -
    have "length (wr_done (c_world c1)) = Suc (length reqs)"
      "jget_dflt (snd (last (wr_done (c_world c1)))) ''result'' (JObj []) = Inr v" using one that by simp_all
    moreover have "prefix (wr_done (c_world c1)) (wr_done (c_world c'))" using rest by blast
    ultimately show ?thesis by (auto simp: prefix_def nth_append last_conv_nth simp flip: length_0_conv)
  qed
  have later: "length reqs + Suc i < length (wr_done (c_world c'))
      \<and> jget_dflt (snd (wr_done (c_world c') ! (length reqs + Suc i))) ''result'' (JObj []) = Inr v"
    if "i < length cs" "rs' ! i = Inr v" for i v using rest that by simp
  show ?case
    using one rest here later lines rs(1) by (auto simp: nth_Cons split: nat.split intro: prefix_order.trans)
qed (simp add: lines_of_def)

text \<open>The server, once it gets to them, executes every line that was written.\<close>

lemma catch_up_all:
  assumes "in_order n reqs k w" "wr_open w" "length reqs \<le> length (wr_done w) + j"
  shows "map fst (wr_done (catch_up answer j w)) = reqs"
  using assms
proof (induction j arbitrary: w)
  case (Suc j)
  have "wr_open (happen answer Handle w) \<and> length reqs \<le> length (wr_done (happen answer Handle w)) + j"
  proof (cases "wr_sent w")
    case Nil
    then show ?thesis using Suc.prems by (auto simp: happen_def in_order_def)
  next
    case (Cons req rest)
    have "reqs ! length (wr_done w) = req" "length (wr_done w) < length reqs"
      using Suc.prems Cons by (auto simp: in_order_def nth_append)
    then obtain m p where "req = line_of (n + 1 + int (length (wr_done w))) (m, p)"
      using Suc.prems(1) unfolding in_order_def by metis
    then obtain reply s' where "answer req (wr_server w) = (Inr reply, s')" using echo by metis
    then show ?thesis using Suc.prems Cons by (simp add: happen_def)
  qed
  then show ?case using Suc.IH [OF happen_in_order(1) [OF Suc.prems(1)]] by simp
qed (auto simp: in_order_def)

text \<open>An exchange answered in time is the atomic one, however long it took.\<close>

lemma prompt_exchange:
  assumes "wr_open w" "wr_sent w = []" "wr_replies w = []" "\<not> wr_dead w" "wr_plan w = (d, Handle) # plan"
    and "d \<le> limit_of t mt (line_of rid mp)" "answer (line_of rid mp) (wr_server w) = (Inr reply, s')"
  shows "socket_rpc answer t mt (line_of rid mp) w
    = (Inr (Some reply), w\<lparr>wr_done := wr_done w @ [(line_of rid mp, reply)], wr_server := s', wr_plan := plan\<rparr>)"
proof -
  have "await answer l plan v = v\<lparr>wr_plan := plan\<rparr>" if "wr_replies v \<noteq> []" for l v
    using that by (cases "(answer, l, plan, v)" rule: await.cases) auto
  then show ?thesis using assms by (simp add: socket_rpc_def happen_def)
qed

text \<open>After a time limit has passed once, a heartbeat never counts as a success again.\<close>

lemma call_behind:
  assumes "in_step n reqs c" "wr_dead (c_world c)"
  obtains e c' reqs' where "call (socket_rpc answer t mt) m p c = (Inl e, c')" "in_step n reqs' c'" "wr_dead (c_world c')"
proof -
  obtain x c' where x: "call (socket_rpc answer t mt) m p c = (x, c')" by force
  then show thesis using call_step [OF assms(1) x] assms(2) that by (cases x) (auto simp: is_ok_def)
qed

lemma heartbeat_behind:
  assumes "in_step n reqs c" "wr_dead (c_world c)"
  shows "\<exists>out c'. heartbeat_step (socket_rpc answer t mt) max_failures failures c = (Inr out, c')
    \<and> (out = None \<or> out = Some (failures + 1) \<and> failures + 1 < max_failures
         \<and> (\<exists>reqs'. in_step n reqs' c') \<and> wr_dead (c_world c'))"
proof -
  obtain e c1 r1 where one: "call (socket_rpc answer t mt) ''heartbeat'' [(''owner'', JStr (c_owner c))] c = (Inl e, c1)"
    "in_step n r1 c1" "wr_dead (c_world c1)" using call_behind [OF assms] by blast
  obtain e' c2 r2 where two: "call (socket_rpc answer t mt) ''acquire_lease'' [(''owner'', JStr (c_owner c1)), (''force'', JBool False)] c1 = (Inl e', c2)"
    "in_step n r2 c2" "wr_dead (c_world c2)" using call_behind [OF one(2,3)] by blast
  show ?thesis
    using one two
    by (auto simp: heartbeat_step_def owned_def give_up_def bindS_def thenS_eq catchS_def sem_simps)
qed

end

section \<open>The server answers every line\<close>

definition server_answer ::
  "'b backend \<Rightarrow> (string \<Rightarrow> safety_profile result) \<Rightarrow> (json \<Rightarrow> req_env) \<Rightarrow> 'b server answer" where
  "server_answer B load ks req = dispatch B load (ks req) req"

lemma dispatch_line:
  "\<exists>reply s'. dispatch B load k (line_of rid (m, p)) s = (Inr reply, s') \<and> jget_dflt reply ''id'' JNull = Inr (JInt rid)"
proof (cases "map_of (handlers B load k) m")
  case None
  then show ?thesis
    by (simp add: dispatch_def line_of_def request_def lookup_handler_def bindS_def sem_simps Let_def error_reply_def)
next
  case (Some h)
  then show ?thesis
    by (simp add: line_of_def dispatch_request ok_reply_def error_reply_def split: prod.split sum.split)
qed

interpretation srv: responder "server_answer B load ks" for B load ks
  by unfold_locales (simp only: server_answer_def dispatch_line)

text \<open>
  The other theories' atomic exchange: on a connection whose next event is the server's handling of the line, within the
  time limit of its method, a call returns what it returns against the dispatcher and leaves the server the same.
\<close>

lemma prompt_call:
  assumes "c_connected c" "c_connected c0" "c_next_id c0 = c_next_id c" "c_world c0 = wr_server (c_world c)"
    and "wr_open (c_world c)" "wr_sent (c_world c) = []" "wr_replies (c_world c) = []" "\<not> wr_dead (c_world c)"
    and "wr_plan (c_world c) = (d, Handle) # plan" "d \<le> limit_of t mt (line_of (c_next_id c + 1) (m, p))"
  shows "fst (call (socket_rpc (server_answer B load (\<lambda>_. k)) t mt) m p c) = fst (call (server_rpc B load k) m p c0)"
    "wr_server (c_world (snd (call (socket_rpc (server_answer B load (\<lambda>_. k)) t mt) m p c)))
      = c_world (snd (call (server_rpc B load k) m p c0))"
proof -
  obtain reply s' where d: "dispatch B load k (line_of (c_next_id c + 1) (m, p)) (wr_server (c_world c)) = (Inr reply, s')"
    using dispatch_line by metis
  show "fst (call (socket_rpc (server_answer B load (\<lambda>_. k)) t mt) m p c) = fst (call (server_rpc B load k) m p c0)"
    "wr_server (c_world (snd (call (socket_rpc (server_answer B load (\<lambda>_. k)) t mt) m p c)))
      = c_world (snd (call (server_rpc B load k) m p c0))"
    using srv.prompt_exchange [OF assms(5-10), of B load "\<lambda>_. k" reply s'] d assms(1-4)
    by (simp_all add: call_eq server_answer_def server_rpc_def)
qed

text \<open>What the list of executed requests says is what the dispatcher answered.\<close>

definition genuine :: "'w answer \<Rightarrow> 'w wire \<Rightarrow> bool" where
  "genuine answer w \<longleftrightarrow> (\<forall>(req, reply) \<in> set (wr_done w). \<exists>s. fst (answer req s) = Inr reply)"

lemma genuine_plan [simp]:
  "genuine answer (w\<lparr>wr_plan := plan\<rparr>) = genuine answer w" "genuine answer (w\<lparr>wr_sent := xs\<rparr>) = genuine answer w"
  "genuine answer (w\<lparr>wr_replies := ys\<rparr>) = genuine answer w" "genuine answer (w\<lparr>wr_dead := b\<rparr>) = genuine answer w"
  by (simp_all add: genuine_def)

lemma genuine_happen: "genuine answer w \<Longrightarrow> genuine answer (happen answer ev w)"
proof (cases ev)
  case Handle
  then show "genuine answer w \<Longrightarrow> genuine answer (happen answer ev w)"
    by (auto simp: genuine_def happen_def split: list.split prod.split sum.split) (metis fst_conv)
qed (simp_all add: genuine_def happen_def)

lemma genuine_await: "genuine answer w \<Longrightarrow> genuine answer (await answer limit plan w)"
  by (induction answer limit plan w rule: await.induct) (simp_all add: genuine_happen)

lemma genuine_calls:
  "genuine answer (c_world c) \<Longrightarrow> genuine answer (c_world (snd (calls (socket_rpc answer t mt) cs c)))"
proof (induction cs arbitrary: c)
  case (Cons mp cs)
  obtain m p where mp: "mp = (m, p)" by force
  have sock: "genuine answer (snd (socket_rpc answer t mt line w))" if "genuine answer w" for line w
    using that by (simp add: socket_rpc_def Let_def genuine_await split: list.split)
  then have "genuine answer (c_world (snd (call (socket_rpc answer t mt) m p c)))"
  proof (cases "c_connected c")
    case True
    obtain out w where w: "socket_rpc answer t mt (line_of (c_next_id c + 1) (m, p)) (c_world c) = (out, w)" by force
    then have "genuine answer w" using sock [OF Cons.prems] by (metis snd_conv)
    then show ?thesis by (simp add: call_eq [OF True] w)
  next
    case False
    then show ?thesis using Cons.prems by (simp add: call_def bindS_def sem_simps)
  qed
  then show ?case using Cons.IH by (auto simp: mp split: prod.split) (metis snd_conv)
qed simp

section \<open>Properties\<close>

definition fresh_wire :: "'w wire \<Rightarrow> bool" where
  "fresh_wire w \<longleftrightarrow> wr_sent w = [] \<and> wr_replies w = [] \<and> wr_open w \<and> \<not> wr_dead w \<and> wr_done w = []"

lemma fresh_in_step: "c_connected c \<Longrightarrow> fresh_wire (c_world c) \<Longrightarrow> in_step (c_next_id c) [] c"
  by (auto simp: in_step_def level_def in_order_def fresh_wire_def intro!: exI [of _ 0])

text \<open>C10: A call never gets another call's answer. On one connection, whatever the threads of the client call in whatever
  order, whatever other clients do to the server meanwhile, however late its replies are and whenever it hangs up: the
  server executes the requests in the order they were made, each at most once, and a call that returns a result returns
  the result the dispatcher gave for that very request; all others raise.\<close>

theorem replies_are_own:
  assumes "c_connected c" "fresh_wire (c_world c)"
    and "calls (socket_rpc (server_answer B load ks) timeout motion_timeout) cs c = (rs, c')"
  shows "length rs = length cs \<and> prefix (map fst (wr_done (c_world c'))) (lines_of (c_next_id c) cs)
    \<and> (\<forall>i < length cs. \<forall>v. rs ! i = Inr v \<longrightarrow> (\<exists>reply s. (lines_of (c_next_id c) cs ! i, reply) = wr_done (c_world c') ! i
          \<and> fst (dispatch B load (ks (lines_of (c_next_id c) cs ! i)) (lines_of (c_next_id c) cs ! i) s) = Inr reply
          \<and> jget_dflt reply ''result'' (JObj []) = Inr v))"
proof -
  note after = srv.calls_in_step [OF fresh_in_step [OF assms(1,2)] assms(3), simplified]
  let ?done = "wr_done (c_world c')" and ?lines = "lines_of (c_next_id c) cs"
  have lines: "prefix (map fst ?done) ?lines" using after by (auto simp: in_step_def level_def in_order_def prefix_def)
  have real: "genuine (server_answer B load ks) (c_world c')"
    using genuine_calls [of "server_answer B load ks" c timeout motion_timeout cs] assms(2,3) by (simp add: genuine_def fresh_wire_def)
  have "\<exists>reply s. (?lines ! i, reply) = ?done ! i \<and> fst (dispatch B load (ks (?lines ! i)) (?lines ! i) s) = Inr reply
      \<and> jget_dflt reply ''result'' (JObj []) = Inr v" if "i < length cs" "rs ! i = Inr v" for i v
  proof -
    have i: "i < length ?done" "jget_dflt (snd (?done ! i)) ''result'' (JObj []) = Inr v" using after that by blast+
    have "fst (?done ! i) = ?lines ! i" using lines i(1) by (auto simp: prefix_def nth_append)
    then have pair: "?done ! i = (?lines ! i, snd (?done ! i))" by (metis prod.collapse)
    moreover obtain s where "fst (dispatch B load (ks (?lines ! i)) (?lines ! i) s) = Inr (snd (?done ! i))"
      using real nth_mem [OF i(1)] pair by (auto simp: genuine_def server_answer_def)
    ultimately show ?thesis using i(2) by metis
  qed
  then show ?thesis using after lines by blast
qed

definition demo_connection :: "(real \<times> fake trace server event) list \<Rightarrow> fake trace server wire remote" where
  "demo_connection plan = (mk_remote ''a'' \<lparr>wr_sent = [], wr_replies = [], wr_open = True, wr_dead = False, wr_late = False,
     wr_done = [], wr_server = demo_server, wr_plan = plan\<rparr>)\<lparr>c_connected := True\<rparr>"

lemma demo_connection_ready: "c_connected (demo_connection plan)" "fresh_wire (c_world (demo_connection plan))"
    "c_next_id (demo_connection plan) = 0"
  by (simp_all add: demo_connection_def mk_remote_def fresh_wire_def)

abbreviation demo_socket :: "fake trace server wire rpc" where
  "demo_socket \<equiv> socket_rpc (server_answer (traced fake_backend) (\<lambda>_. Inr default_profile) (\<lambda>_. demo_env)) 10 600"

lemma demo_ping: "\<exists>c'. calls demo_socket [(''ping'', [])] (demo_connection [(1, Handle)]) = ([Inr (JObj [(''pong'', JBool True)])], c')"
proof -
  have d: "dispatch (traced fake_backend) (\<lambda>_. Inr default_profile) demo_env (line_of 1 (''ping'', [])) demo_server
      = (Inr (ok_reply (JInt 1) (JObj [(''pong'', JBool True)])), demo_server)"
    by (simp add: line_of_def dispatch_request handlers_def sem_simps flag_def)
  have limit: "1 \<le> limit_of 10 600 (line_of 1 (''ping'', []))"
    by (simp add: limit_of_def line_of_def request_def get_default_def MOTION_METHODS_def)
  let ?w = "c_world (demo_connection [(1, Handle)])"
  obtain w where "demo_socket (line_of 1 (''ping'', [])) ?w = (Inr (Some (ok_reply (JInt 1) (JObj [(''pong'', JBool True)]))), w)"
    using srv.prompt_exchange [of ?w 1 "[]", OF _ _ _ _ _ limit] d
    by (auto simp: demo_connection_def mk_remote_def server_answer_def)
  then show ?thesis
    by (simp add: demo_connection_ready call_eq read_reply_def ok_reply_def get_default_def)
qed

lemma replies_are_own_witness:
  "\<exists>reply s. fst (dispatch (traced fake_backend) (\<lambda>_. Inr default_profile) demo_env (lines_of 0 [(''ping'', [])] ! 0) s) = Inr reply
    \<and> jget_dflt reply ''result'' (JObj []) = Inr (JObj [(''pong'', JBool True)])"
proof -
  obtain c' where c': "calls demo_socket [(''ping'', [])] (demo_connection [(1, Handle)]) = ([Inr (JObj [(''pong'', JBool True)])], c')"
    using demo_ping by blast
  show ?thesis
    using replies_are_own [OF demo_connection_ready(1,2) c'] by (auto simp: demo_connection_ready(3))
qed

text \<open>C11: A call on a connection that has fallen behind raises, and its command is carried out all the same. Once a read has
  timed out every later call raises, whether or not Python's reader can still be read; but its request has been
  written first, and as long as the server has not hung up it executes, in order, every request of the connection.\<close>

theorem refused_calls_run:
  assumes "c_connected c" "fresh_wire (c_world c)"
    and "calls (socket_rpc (server_answer B load ks) timeout motion_timeout) cs c = (rs, c')" "wr_dead (c_world c')"
    and "calls (socket_rpc (server_answer B load ks) timeout motion_timeout) cs' c' = (rs', c'')" "wr_open (c_world c'')"
  shows "list_all (\<lambda>r. \<not> is_ok r) rs'
    \<and> map fst (wr_done (catch_up (server_answer B load ks) (length (cs @ cs')) (c_world c''))) = lines_of (c_next_id c) (cs @ cs')"
proof -
  have c': "in_step (c_next_id c) (lines_of (c_next_id c) cs) c'"
    using srv.calls_in_step [OF fresh_in_step [OF assms(1,2)] assms(3)] by simp
  note after = srv.calls_in_step [OF c' assms(5)]
  have lines: "lines_of n (cs @ cs') = lines_of n cs @ lines_of (n + int (length (lines_of n cs))) cs'" for n
    by (rule nth_equalityI) (auto simp: lines_of_def nth_append ac_simps)
  obtain k where "in_order (c_next_id c) (lines_of (c_next_id c) (cs @ cs')) k (c_world c'')"
    using after by (auto simp: in_step_def level_def lines)
  then have "map fst (wr_done (catch_up (server_answer B load ks) (length (cs @ cs')) (c_world c''))) = lines_of (c_next_id c) (cs @ cs')"
    by (rule srv.catch_up_all [OF _ assms(6)]) (simp add: lines_of_def)
  then show ?thesis using after assms(4) by blast
qed

lemma refused_calls_run_witness:
  "\<exists>rs rs' c' c''. calls demo_socket [(''ping'', [])] (demo_connection []) = (rs, c') \<and> calls demo_socket [(''home'', [])] c' = (rs', c'')
    \<and> list_all (\<lambda>r. \<not> is_ok r) rs'
    \<and> map fst (wr_done (catch_up (server_answer (traced fake_backend) (\<lambda>_. Inr default_profile) (\<lambda>_. demo_env)) (length [''ping'', ''home'']) (c_world c'')))
      = lines_of 0 [(''ping'', []), (''home'', [])]"
proof -
  obtain rs c' where one: "calls demo_socket [(''ping'', [])] (demo_connection []) = (rs, c')" by force
  obtain rs' c'' where two: "calls demo_socket [(''home'', [])] c' = (rs', c'')" by force
  have "c_connected c'" and dead: "wr_dead (c_world c')" "\<not> wr_late (c_world c')" "wr_open (c_world c')"
    using one by (auto simp: demo_connection_ready call_eq) (auto simp: demo_connection_def mk_remote_def socket_rpc_def)
  then have "wr_open (c_world c'')" using two by (auto simp: call_eq socket_rpc_def)
  then show ?thesis
    using refused_calls_run [OF demo_connection_ready(1,2) one dead(1) two] one two by (auto simp: demo_connection_ready(3))
qed

text \<open>
  The heartbeat thread outlives no time limit: after a read has timed out no heartbeat succeeds again, and the
  thread gives the lease up after the failures it tolerates.
\<close>

lemma heartbeats_give_up:
  assumes "in_step n reqs c" "wr_dead (c_world c)" "max_failures \<le> failures + int j" "0 < j"
  shows "fst (heartbeat_loop (socket_rpc (server_answer B load ks) t mt) max_failures j failures c) = Inr False"
  using assms
proof (induction j arbitrary: failures c reqs)
  case (Suc j)
  obtain out c' where out: "heartbeat_step (socket_rpc (server_answer B load ks) t mt) max_failures failures c = (Inr out, c')"
    "out = None \<or> out = Some (failures + 1) \<and> failures + 1 < max_failures \<and> (\<exists>reqs'. in_step n reqs' c') \<and> wr_dead (c_world c')"
    using srv.heartbeat_behind [OF Suc.prems(1,2)] by blast
  then show ?case using Suc.IH [of _ c' "failures + 1"] Suc.prems(3) by (auto simp: bindS_def sem_simps)
qed simp

end
