(* ===== verification/Call_Bounds.thy ===== *)
theory Call_Bounds
  imports Robot_Proofs
begin

text \<open>
  What a sequence of calls of the robot commands: the settings each call leaves alone, and the trace as
  a sequence of calls each bounded from a pose it read on. Shared by the clients of the robot.
\<close>

text \<open>What the robot keeps across calls.\<close>

definition under :: "'b robot \<Rightarrow> (robot_config \<times> real \<times> real \<times> safety_profile) \<times> safety_profile \<times> real" where
  "under r = (settings r, f_p (r_filter r), f_dt (r_filter r))"

abbreviation keeps_under :: "('b trace robot, 'a) sem \<Rightarrow> bool" where
  "keeps_under \<equiv> frameS under (\<lambda>_. True)"

lemma calm_under: "calmS K m \<Longrightarrow> keeps_under m"
  by (rule frameS_weaken [where g = "\<lambda>(f, s). (s, f_p f, f_dt f)"]) (auto simp: under_def)

lemma under_calm_ops:
  "keeps_under (get_state (traced B))" "keeps_under (onB (bk_in_fault (traced B)))" "keeps_under (stop_run (traced B) reason x)"
  "keeps_under auto_lease" "keeps_under poll_cancel" "keeps_under clear_stop"
  "keeps_under (onB (bk_set_mode (traced B) m opts))" "keeps_under (onB (bk_stream_cartesian (traced B) p w))"
  "keeps_under (onB (bk_set_contact_wrench_limit (traced B) v))"
  "keeps_under (resolve_pending (traced B) env st x)" "keeps_under (handle_grip (traced B) env n st g x)"
  "keeps_under (finish_pending (traced B) env x)" "keeps_under (restore_wrench (traced B) relaxed r)"
  by (rule calm_under [OF calm_get_state [where K = "\<lambda>_. True"]], simp,
      rule calm_under [where K = "\<lambda>_. True"], rule calm_ops,
      rule calm_under [OF calm_stop_run],
      rule calm_under [OF calm_events(1)], rule calm_under [OF calm_events(2)], rule calm_under [OF calm_events(3)],
      rule calm_under [where K = "\<lambda>_. True"], rule calm_ops, simp,
      rule calm_under [where K = "\<lambda>_. True"], rule calm_ops, simp,
      rule calm_under [where K = "\<lambda>_. True"], rule calm_ops, simp,
      rule calm_under [OF calm_resolve], rule calm_under [OF calm_grip], rule calm_under [OF calm_finish],
      rule calm_under [OF calm_restore])

lemma under_filter: "keeps_under (onF (filter_cartesian t st cap))"
  unfolding frameS_def
  by (auto simp: onF_def under_def settings_def cmds_def split: prod.splits dest: filter_cartesian_params)

lemma under_reset: "keeps_under (modS (\<lambda>r. r\<lparr>r_filter := reset s p q (r_filter r)\<rparr>))"
  by (auto simp: frameS_def sem_simps under_def settings_def cmds_def reset_def Let_def split: option.split)

lemma under_filter_tick: "keeps_under (filter_tick (traced B) env sp st x)"
  unfolding filter_tick_def stream_tick_def
  by (auto intro!: under_filter under_calm_ops frameS_base frameS_bind frameS_then split: option.split)

lemma under_chunk_loop: "keeps_under (chunk_loop (traced B) env sps x)"
proof (induction sps arbitrary: x)
  case (Cons i sps)
  show ?case
    using Cons
    by (cases i) (auto simp: chunk_tick_def Let_def intro!: under_filter_tick under_calm_ops frameS_base frameS_bind frameS_then)
qed auto

lemma under_execute: "keeps_under (execute_cartesian_chunk (traced B) args c)"
  unfolding execute_cartesian_chunk_def abort_at_entry_def verify_chunk_profile_def enter_cartesian_def run_chunk_def
    start_cartesian_impedance_def raise_if_stopped_def
  by (auto simp: Let_def intro!: under_chunk_loop under_reset under_calm_ops frameS_base frameS_bind frameS_then frameS_finally
      split: prod.split)


lemma under_wf: "under r' = under r \<Longrightarrow> robot_wf r \<Longrightarrow> robot_wf r' \<and> r_profile r' = r_profile r \<and> r_dt r' = r_dt r"
  by (simp add: under_def settings_def robot_wf_def)

text \<open>The trace is a sequence of calls, each bounded from a pose it read on.\<close>

definition bounded_call :: "safety_profile \<Rightarrow> real \<Rightarrow> command list \<Rightarrow> bool" where
  "bounded_call p dt ev \<longleftrightarrow> (streamed ev \<noteq> [] \<longrightarrow> (\<exists>st. CRead st \<in> set ev
      \<and> successively (\<lambda>a b. norm (pos b - pos a) \<le> p_max_linear_speed p * dt
           \<and> norm (pos b - pos a) \<le> p_max_pose_jump_linear p
           \<and> quat_angle (rot a) (rot b) \<le> p_max_angular_speed p * dt / SLERP_SLACK) (st_tcp_pose st # streamed ev)))"

definition run_ok :: "'b trace robot \<Rightarrow> 'b trace robot \<Rightarrow> bool" where
  "run_ok r0 r \<longleftrightarrow> under r = under r0
     \<and> (\<exists>evs. cmds r = cmds r0 @ concat evs \<and> list_all (bounded_call (r_profile r0) (r_dt r0)) evs)"

lemma run_ok_extend:
  assumes "run_ok r0 r" "under r' = under r" "cmds r' = cmds r @ ev" "bounded_call (r_profile r0) (r_dt r0) ev"
  shows "run_ok r0 r'"
proof -
  obtain evs where "cmds r = cmds r0 @ concat evs" "list_all (bounded_call (r_profile r0) (r_dt r0)) evs"
    using assms(1) by (auto simp: run_ok_def)
  then have "cmds r' = cmds r0 @ concat (evs @ [ev])" "list_all (bounded_call (r_profile r0) (r_dt r0)) (evs @ [ev])"
    using assms(3,4) by simp_all
  moreover have "under r' = under r0" using assms(1,2) by (simp add: run_ok_def)
  ultimately show ?thesis unfolding run_ok_def by blast
qed

lemma run_ok_chunk:
  assumes "robot_wf r0" "run_ok r0 r"
  shows "wpS (execute_cartesian_chunk (traced B) args c) (\<lambda>_. run_ok r0) (\<lambda>_. run_ok r0) r"
proof -
  obtain out r' where e: "execute_cartesian_chunk (traced B) args c r = (out, r')"
    by (cases "execute_cartesian_chunk (traced B) args c r")
  have u: "under r = under r0" "under r' = under r"
    using assms(2) frameS_D(1) [OF under_execute e] by (auto simp: run_ok_def)
  note wf = under_wf [OF u(1) assms(1)]
  have "\<exists>ev. cmds r' = cmds r @ ev \<and> bounded_call (r_profile r) (r_dt r) ev"
    unfolding bounded_call_def using chunk_call_bounded [OF conjunct1 [OF wf] e] by blast
  then obtain ev where "cmds r' = cmds r @ ev" "bounded_call (r_profile r0) (r_dt r0) ev"
    using wf by auto
  then have "run_ok r0 r'" by (rule run_ok_extend [OF assms(2) u(2)])
  then show ?thesis by (cases out) (simp_all add: wpS_def e)
qed

lemma run_ok_get_state:
  assumes "run_ok r0 r"
  shows "wpS (get_state (traced B)) (\<lambda>_. run_ok r0) (\<lambda>_. run_ok r0) r"
proof -
  obtain out r' where e: "get_state (traced B) r = (out, r')" by (cases "get_state (traced B) r")
  obtain cs where cs: "cmds r' = cmds r @ cs" "list_all no_stream cs"
    using calmS_D(3) [OF calm_get_state [where K = no_stream] e] by auto
  have "bounded_call p dt cs" for p dt using streamed_calm [OF cs(2)] by (simp add: bounded_call_def)
  then have "run_ok r0 r'"
    using run_ok_extend [OF assms frameS_D(1) [OF under_calm_ops(1) e] cs(1)] by simp
  then show ?thesis by (cases out) (simp_all add: wpS_def e)
qed

lemma run_ok_calm:
  assumes "run_ok r0 r" "keeps_under m" "calmS no_stream m" "\<And>x r'. run_ok r0 r' \<Longrightarrow> Q x r'" "\<And>e r'. run_ok r0 r' \<Longrightarrow> E e r'"
  shows "wpS m Q E r"
proof -
  obtain out r' where e: "m r = (out, r')" by (cases "m r")
  obtain cs where cs: "cmds r' = cmds r @ cs" "list_all no_stream cs" using calmS_D(3) [OF assms(3) e] by auto
  have "bounded_call p dt cs" for p dt using streamed_calm [OF cs(2)] by (simp add: bounded_call_def)
  then have "run_ok r0 r'" using run_ok_extend [OF assms(1) frameS_D(1) [OF assms(2) e] cs(1)] by simp
  then show ?thesis using e assms(4,5) by (cases out) (simp_all add: wpS_def)
qed

lemma run_ok_servo:
  assumes "robot_wf r0" "run_ok r0 r"
  shows "wpS (servo_cartesian_delta_raw (traced B) d t f g) (\<lambda>_. run_ok r0) (\<lambda>_. run_ok r0) r"
proof -
  have lease: "wpS auto_lease Q E r" if "run_ok r0 r" "\<And>x r'. run_ok r0 r' \<Longrightarrow> Q x r'" "\<And>e r'. run_ok r0 r' \<Longrightarrow> E e r'"
    for Q E and r :: "'a trace robot"
    using that by (intro run_ok_calm [OF that(1)] under_calm_ops calm_events)
  have state: "wpS (get_state (traced B)) Q E r" if "run_ok r0 r" "\<And>x r'. run_ok r0 r' \<Longrightarrow> Q x r'" "\<And>e r'. run_ok r0 r' \<Longrightarrow> E e r'"
    for Q E r
    by (rule wpS_mono [OF run_ok_get_state [OF that(1)]]) (simp_all add: that)
  have exec: "wpS (execute_cartesian_chunk (traced B) args c) Q E r"
    if "run_ok r0 r" "\<And>x r'. run_ok r0 r' \<Longrightarrow> Q x r'" "\<And>e r'. run_ok r0 r' \<Longrightarrow> E e r'" for Q E r c args
    by (rule wpS_mono [OF run_ok_chunk [OF assms(1) that(1)]]) (simp_all add: that)
  show ?thesis
    using assms(2)
    by (auto simp: servo_cartesian_delta_raw_def servo_cartesian_delta_def wpS_bind wpS_then wpS_base intro!: lease state exec
        split: sum.split)
qed

end
