(* ===== verification/Py_Loop.thy ===== *)
theory Py_Loop
  imports Py_Prelude
begin

text \<open>
  A \<open>while\<close> loop whose body may break and may raise. It may run forever, so it is a partial function
  whose value \<open>None\<close> is not returning; a counting loop with a limit returns, and what every pass keeps
  holds when the loop returns.
\<close>

section \<open>The loop\<close>

text \<open>\<open>while cont(steps): body\<close>, where the body may break.\<close>

partial_function (option) while_from ::
  "(nat \<Rightarrow> bool) \<Rightarrow> (nat \<Rightarrow> ('w, nat \<times> bool) sem) \<Rightarrow> nat \<Rightarrow> 'w \<Rightarrow> (nat result \<times> 'w) option" where
  "while_from cont body steps w =
     (if \<not> cont steps then Some (Inr steps, w)
      else case body steps w of
             (Inl e, w') \<Rightarrow> Some (Inl e, w')
           | (Inr (n, go), w') \<Rightarrow> (if go then while_from cont body n w' else Some (Inr n, w')))"

text \<open>What a pass does to the count: at most one step, and one if it goes on.\<close>

definition counts :: "(nat \<Rightarrow> ('w, nat \<times> bool) sem) \<Rightarrow> bool" where
  "counts body \<longleftrightarrow> (\<forall>steps w n go w'. body steps w = (Inr (n, go), w') \<longrightarrow>
     n \<in> {steps, Suc steps} \<and> (go \<longrightarrow> n = Suc steps))"

lemma while_step:
  "cont n \<Longrightarrow> body n w = (Inr (k, True), w') \<Longrightarrow> while_from cont body n w = while_from cont body k w'"
  by (subst while_from.simps) simp

lemma while_stop: "\<not> cont n \<Longrightarrow> while_from cont body n w = Some (Inr n, w)"
  by (subst while_from.simps) simp

lemma while_returns:
  assumes "counts body" and bound: "\<And>n. cont n \<Longrightarrow> int n < m"
  shows "\<exists>out w'. while_from cont body steps w = Some (out, w')
    \<and> (\<forall>n. out = Inr n \<longrightarrow> steps \<le> n \<and> int n \<le> max m (int steps))"
proof (induction "nat (m - int steps)" arbitrary: steps w)
  case 0
  then have "\<not> cont steps" using bound [of steps] by auto
  then show ?case by (subst while_from.simps) simp
next
  case (Suc d)
  show ?case
  proof (cases "cont steps")
    case True
    then have more: "int steps < m" by (rule bound)
    obtain r w' where b: "body steps w = (r, w')" by (cases "body steps w")
    show ?thesis
    proof (cases r)
      case (Inl e)
      then show ?thesis using b True by (subst while_from.simps) simp
    next
      case (Inr x)
      obtain n go where x: "x = (n, go)" by (cases x)
      have n: "n \<in> {steps, Suc steps}" "go \<longrightarrow> n = Suc steps"
        using assms(1) [unfolded counts_def, rule_format, OF b [unfolded Inr x]] by auto
      show ?thesis
      proof (cases go)
        case go: True
        then have "d = nat (m - int n)" using Suc.hyps(2) n(2) by simp
        from Suc.hyps(1) [OF this, of w'] obtain out w'' where
          "while_from cont body n w' = Some (out, w'')" "\<forall>k. out = Inr k \<longrightarrow> n \<le> k \<and> int k \<le> max m (int n)" by auto
        then show ?thesis using b True more Inr x go n(2) by (subst while_from.simps) auto
      next
        case False
        then show ?thesis using b True more Inr x n(1) by (subst while_from.simps) auto
      qed
    qed
  next
    case False
    then show ?thesis by (subst while_from.simps) simp
  qed
qed

section \<open>Invariants of the loop\<close>

text \<open>What holds before every pass and what a pass leaves give what holds when the loop returns.\<close>

lemma while_rule:
  assumes pass: "\<And>n w. I n w \<Longrightarrow> cont n \<Longrightarrow> wpS (body n) (\<lambda>(k, go) w'. if go then I k w' else Q k w') (\<lambda>_. E) w"
    and done': "\<And>n w. I n w \<Longrightarrow> \<not> cont n \<Longrightarrow> Q n w"
    and run: "while_from cont body steps w = Some (out, w')" "I steps w"
  shows "case out of Inr n \<Rightarrow> Q n w' | Inl e \<Rightarrow> E w'"
proof -
  let ?P = "\<lambda>cont' body' n v r. cont' = cont \<longrightarrow> body' = body \<longrightarrow> I n v \<longrightarrow>
      (case fst r of Inr n \<Rightarrow> Q n (snd r) | Inl e \<Rightarrow> E (snd r))"
  have step: "?P cont' body' n v r"
    if ih: "\<And>body' n v r. rec' cont' body' n v = Some r \<Longrightarrow> ?P cont' body' n v r"
      and r: "(if \<not> cont' n then Some (Inr n, v) else case body' n v of (Inl e, w') \<Rightarrow> Some (Inl e, w')
          | (Inr (k, go), w') \<Rightarrow> if go then rec' cont' body' k w' else Some (Inr k, w')) = Some r"
    for rec' cont' body' n v r
  proof (intro impI)
    assume eq: "cont' = cont" "body' = body" "I n v"
    show "case fst r of Inr n \<Rightarrow> Q n (snd r) | Inl e \<Rightarrow> E (snd r)"
    proof (cases "cont n")
      case False
      then show ?thesis using r eq done' [OF eq(3)] by auto
    next
      case True
      obtain a v' where b: "body n v = (a, v')" by (cases "body n v")
      show ?thesis
      proof (cases a)
        case (Inl e)
        then show ?thesis using pass [OF eq(3) True] b r eq True by (auto simp: wpS_def)
      next
        case (Inr x)
        obtain k go where x: "x = (k, go)" by (cases x)
        then show ?thesis
          using pass [OF eq(3) True] b r eq True Inr ih [of body k v' r]
          by (cases go) (auto simp: wpS_def)
      qed
    qed
  qed
  have "?P cont body steps w (out, w')"
    by (rule while_from.raw_induct [of ?P, OF step run(1)])
  then show ?thesis using run(2) by (cases out) simp_all
qed

end
