(* ===== verification/Recede.thy ===== *)
theory Recede
  imports Call_Bounds Py_Loop
begin

text \<open>
  \<^verbatim>\<open>recede.py\<close>: the receding-horizon runner. The policy, the observer and the callbacks are the
  user's: parameters on a world \<open>'w\<close> that holds the robot and whatever state they keep. The loop may
  run forever, so it is a partial function whose value \<open>None\<close> is not returning. The lemmas: with
  \<open>max_steps\<close> it returns after at most that many chunks; a chunk is executed only when the
  confirmation before it said yes; and, over any backend, everything a run streams is made of
  bounded chunk calls under the settings the robot started with.
\<close>

section \<open>The runner\<close>

record ('w, 'o) runner =
  rn_get_state :: "('w, 'o) sem"
  rn_execute :: "chunk \<Rightarrow> ('w, exec_result) sem"
  rn_policy :: "'o \<Rightarrow> ('w, chunk option) sem"
  rn_max_steps :: "int option"
  rn_observe :: "('w, 'o) sem option"

type_synonym 'w on_step = "nat \<Rightarrow> chunk \<Rightarrow> exec_result \<Rightarrow> ('w, bool option) sem"
type_synonym 'w on_propose = "nat \<Rightarrow> chunk \<Rightarrow> ('w, bool) sem"

text \<open>\<open>self.max_steps is None or steps < self.max_steps\<close>\<close>

definition more_steps :: "int option \<Rightarrow> nat \<Rightarrow> bool" where
  "more_steps max_steps steps = (case max_steps of None \<Rightarrow> True | Some m \<Rightarrow> int steps < m)"

text \<open>One pass of the loop: the steps done and whether it goes on.\<close>

definition run_cycle ::
  "('w, 'o) runner \<Rightarrow> 'w on_step option \<Rightarrow> 'w on_propose option \<Rightarrow> nat \<Rightarrow> ('w, nat \<times> bool) sem" where
  "run_cycle R on_step on_propose steps =
     bindS (case rn_observe R of Some observe \<Rightarrow> observe | None \<Rightarrow> rn_get_state R) (\<lambda>obs.
     bindS (rn_policy R obs) (\<lambda>chunk.
       case chunk of
         None \<Rightarrow> retS (steps, False)
       | Some c \<Rightarrow>
           bindS (case on_propose of None \<Rightarrow> retS True | Some f \<Rightarrow> f (steps + 1) c) (\<lambda>go.
             if \<not> go then retS (steps, False)
             else bindS (rn_execute R c) (\<lambda>result.
                  bindS (case on_step of None \<Rightarrow> retS None | Some f \<Rightarrow> f (steps + 1) c result) (\<lambda>verdict.
                  retS (steps + 1, verdict \<noteq> Some False))))))"

definition run_receding ::
  "('w, 'o) runner \<Rightarrow> 'w on_step option \<Rightarrow> 'w on_propose option \<Rightarrow> 'w \<Rightarrow> (nat result \<times> 'w) option" where
  "run_receding R on_step on_propose =
     while_from (more_steps (rn_max_steps R)) (run_cycle R on_step on_propose) 0"

text \<open>
  Over a servo loop: \<open>get_state\<close> and \<open>enqueue\<close> are the loop's operations (\<open>servo_get_state\<close> and
  \<open>enqueue_chunk\<close> among its clients).
\<close>

definition stream_cycle ::
  "('w, 'o) sem \<Rightarrow> (chunk \<Rightarrow> ('w, unit) sem) \<Rightarrow> ('o \<Rightarrow> ('w, chunk option) sem) \<Rightarrow> nat \<Rightarrow> ('w, nat \<times> bool) sem" where
  "stream_cycle get enqueue policy steps =
     bindS get (\<lambda>obs.
     bindS (policy obs) (\<lambda>chunk.
       case chunk of
         None \<Rightarrow> retS (steps, False)
       | Some c \<Rightarrow> thenS (enqueue c) (retS (steps + 1, True))))"

definition run_streaming ::
  "('w, 'o) sem \<Rightarrow> (chunk \<Rightarrow> ('w, unit) sem) \<Rightarrow> ('o \<Rightarrow> ('w, chunk option) sem) \<Rightarrow> int option \<Rightarrow> real
   \<Rightarrow> 'w \<Rightarrow> (nat result \<times> 'w) option" where
  "run_streaming get enqueue policy max_steps replan_hz w =
     (if replan_hz = 0 then Some (Inl ZeroDivisionError, w)
      else while_from (more_steps max_steps) (stream_cycle get enqueue policy) 0 w)"

section \<open>The number of passes\<close>

lemma limited_returns:
  "counts body \<Longrightarrow> \<exists>out w'. while_from (more_steps (Some m)) body 0 w = Some (out, w') \<and> (\<forall>n. out = Inr n \<longrightarrow> int n \<le> max m 0)"
  using while_returns [of body "more_steps (Some m)" m 0 w] by (simp add: more_steps_def)

lemma run_cycle_counts: "counts (run_cycle R on_step on_propose)"
  unfolding counts_def
  by (auto simp: run_cycle_def bindS_def sem_simps split: prod.splits sum.splits option.splits if_splits)

lemma stream_cycle_counts: "counts (stream_cycle get enqueue policy)"
  unfolding counts_def
  by (auto simp: stream_cycle_def bindS_def sem_simps split: prod.splits sum.splits option.splits if_splits)

text \<open>C18: With a step limit the runner returns, whatever the policy, the callbacks and the robot do, and
  reports at most that many chunks; so does the streaming loop.\<close>

theorem receding_run_returns:
  assumes "rn_max_steps R = Some m"
  shows "(\<exists>out w'. run_receding R on_step on_propose w = Some (out, w') \<and> (\<forall>n. out = Inr n \<longrightarrow> int n \<le> max m 0))
    \<and> (\<exists>out w'. run_streaming get enqueue policy (Some m) hz v = Some (out, w') \<and> (\<forall>n. out = Inr n \<longrightarrow> int n \<le> max m 0))"
  using limited_returns [OF run_cycle_counts, of m R on_step on_propose w]
    limited_returns [OF stream_cycle_counts, of m get enqueue policy v] assms
  by (auto simp: run_receding_def run_streaming_def)

section \<open>The confirmation gate\<close>

text \<open>
  A world that also lists what was proposed, with the answer, and what was executed; the user's
  other operations do not write it.
\<close>

datatype event = Proposed nat chunk bool | Executed chunk

definition plain :: "('w, 'a) sem \<Rightarrow> ('w \<times> event list, 'a) sem" where
  "plain m v = (case m (fst v) of (x, w') \<Rightarrow> (x, (w', snd v)))"

definition executing :: "(chunk \<Rightarrow> ('w, 'a) sem) \<Rightarrow> chunk \<Rightarrow> ('w \<times> event list, 'a) sem" where
  "executing f c v = plain (f c) (fst v, snd v @ [Executed c])"

definition proposing :: "(nat \<Rightarrow> chunk \<Rightarrow> ('w, bool) sem) \<Rightarrow> nat \<Rightarrow> chunk \<Rightarrow> ('w \<times> event list, bool) sem" where
  "proposing f n c v = bindS (plain (f n c)) (\<lambda>b. thenS (modS (\<lambda>v. (fst v, snd v @ [Proposed n c b]))) (retS b)) v"

definition listing :: "('w, 'o) runner \<Rightarrow> ('w \<times> event list, 'o) runner" where
  "listing R = \<lparr>rn_get_state = plain (rn_get_state R), rn_execute = executing (rn_execute R),
     rn_policy = (\<lambda>x. plain (rn_policy R x)), rn_max_steps = rn_max_steps R,
     rn_observe = map_option plain (rn_observe R)\<rparr>"

definition executed :: "event list \<Rightarrow> nat" where
  "executed ev = length (filter (\<lambda>e. case e of Executed c \<Rightarrow> True | _ \<Rightarrow> False) ev)"

lemma executed_simps [simp]:
  "executed [] = 0" "executed (as @ bs) = executed as + executed bs" "executed (Executed c # bs) = Suc (executed bs)"
  "executed (Proposed n c b # bs) = executed bs"
  by (simp_all add: executed_def)

text \<open>Every execution comes right after a yes to that chunk.\<close>

definition confirmed :: "event list \<Rightarrow> bool" where
  "confirmed ev \<longleftrightarrow> (\<forall>as c bs. ev = as @ Executed c # bs \<longrightarrow> (\<exists>as' n. as = as' @ [Proposed n c True]))"

lemma confirmed_Nil [simp]: "confirmed []"
  by (simp add: confirmed_def)

lemma confirmed_Proposed [simp]: "confirmed (ev @ [Proposed n c b]) = confirmed ev"
proof
  assume ok: "confirmed (ev @ [Proposed n c b])"
  show "confirmed ev"
    unfolding confirmed_def using ok [unfolded confirmed_def, rule_format] by auto
next
  assume ok: "confirmed ev"
  show "confirmed (ev @ [Proposed n c b])"
    unfolding confirmed_def
  proof (intro allI impI)
    fix as d bs
    assume "ev @ [Proposed n c b] = as @ Executed d # bs"
    then show "\<exists>as' n. as = as' @ [Proposed n d True]"
      using ok by (cases bs rule: rev_cases) (auto simp: confirmed_def)
  qed
qed

lemma confirmed_Executed:
  assumes "confirmed ev"
  shows "confirmed ((ev @ [Proposed n c True]) @ [Executed c])"
  unfolding confirmed_def
proof (intro allI impI)
  fix as d bs
  assume eq: "(ev @ [Proposed n c True]) @ [Executed c] = as @ Executed d # bs"
  show "\<exists>as' n. as = as' @ [Proposed n d True]"
  proof (cases bs rule: rev_cases)
    case Nil
    then show ?thesis using eq by auto
  next
    case (snoc bs' b)
    then have "ev @ [Proposed n c True] = as @ Executed d # bs'" using eq by simp
    then show ?thesis using assms by (cases bs' rule: rev_cases) (auto simp: confirmed_def)
  qed
qed

lemma wpS_plainI:
  "(\<And>x w'. Q x (w', snd v)) \<Longrightarrow> (\<And>e w'. E e (w', snd v)) \<Longrightarrow> wpS (plain m) Q E v"
  by (simp add: wpS_def plain_def split: prod.splits sum.splits)

lemma wpS_executingI:
  "(\<And>x w'. Q x (w', snd v @ [Executed c])) \<Longrightarrow> (\<And>e w'. E e (w', snd v @ [Executed c]))
    \<Longrightarrow> wpS (executing f c) Q E v"
  by (simp add: wpS_def executing_def plain_def split: prod.splits sum.splits)

lemma wpS_proposingI:
  "(\<And>b w'. Q b (w', snd v @ [Proposed n c b])) \<Longrightarrow> (\<And>e w'. E e (w', snd v)) \<Longrightarrow> wpS (proposing f n c) Q E v"
  by (simp add: wpS_def proposing_def plain_def bindS_def sem_simps split: prod.splits sum.splits)

text \<open>One pass keeps the list confirmed and the count right.\<close>

definition gated :: "nat \<Rightarrow> 'w \<times> event list \<Rightarrow> bool" where
  "gated n v \<longleftrightarrow> confirmed (snd v) \<and> executed (snd v) = n"

lemma gated_pass:
  assumes "gated n v"
  shows "wpS (run_cycle (listing R) (map_option (\<lambda>g k c r. plain (g k c r)) on_step) (Some (proposing f)) n)
     (\<lambda>(k, go) v'. gated k v') (\<lambda>_ v'. confirmed (snd v')) v"
  using assms
  by (auto simp: run_cycle_def listing_def wp_simps gated_def confirmed_Executed [unfolded append_assoc append.simps]
        intro!: wpS_plainI wpS_executingI wpS_proposingI split: option.split)


text \<open>C17: With a confirmation callback, no chunk is executed unless the callback has just been asked about that
  very chunk and said yes; and the number a run returns is the number of chunks it executed.\<close>

theorem confirmed_before_executed:
  assumes "run_receding (listing R) (map_option (\<lambda>g k c r. plain (g k c r)) on_step) (Some (proposing f)) (w, [])
      = Some (out, (w', ev))"
  shows "confirmed ev \<and> (\<forall>n. out = Inr n \<longrightarrow> executed ev = n)"
proof -
  have "case out of Inr n \<Rightarrow> gated n (w', ev) | Inl e \<Rightarrow> confirmed (snd (w', ev))"
    by (rule while_rule [where I = gated and E = "\<lambda>v. confirmed (snd v)", OF _ _ assms [unfolded run_receding_def]])
      (auto intro!: wpS_mono [OF gated_pass], simp add: gated_def)
  then show ?thesis by (auto simp: gated_def split: sum.splits)
qed

section \<open>Running a robot\<close>

text \<open>The robot beside the state of the user's functions, which do not touch it.\<close>

definition robot_runner ::
  "'b backend \<Rightarrow> (robot_state \<Rightarrow> ('p, chunk option) sem) \<Rightarrow> int option \<Rightarrow> ('p, robot_state) sem option
   \<Rightarrow> ('b robot \<times> 'p, robot_state) runner" where
  "robot_runner B policy max_steps observe =
     \<lparr>rn_get_state = on1 (get_state B), rn_execute = (\<lambda>c. on1 (execute_cartesian_chunk B default_args c)),
      rn_policy = (\<lambda>obs. on2 (policy obs)), rn_max_steps = max_steps, rn_observe = map_option on2 observe\<rparr>"

lemma run_ok_pass:
  assumes "robot_wf r0" "run_ok r0 (fst v)"
  shows "wpS (run_cycle (robot_runner (traced B) policy m observe)
       (map_option (\<lambda>g k c r. on2 (g k c r)) on_step) (map_option (\<lambda>f k c. on2 (f k c)) on_propose) n)
     (\<lambda>_ v'. run_ok r0 (fst v')) (\<lambda>_ v'. run_ok r0 (fst v')) v"
proof -
  have step: "wpS (on1 (get_state (traced B))) Q E v"
    if "run_ok r0 (fst v)" "\<And>x v'. run_ok r0 (fst v') \<Longrightarrow> Q x v'" "\<And>e v'. run_ok r0 (fst v') \<Longrightarrow> E e v'" for Q E v
    unfolding wp_simps by (rule wpS_mono [OF run_ok_get_state [OF that(1)]]) (simp_all add: that)
  have exec: "wpS (on1 (execute_cartesian_chunk (traced B) default_args c)) Q E v"
    if "run_ok r0 (fst v)" "\<And>x v'. run_ok r0 (fst v') \<Longrightarrow> Q x v'" "\<And>e v'. run_ok r0 (fst v') \<Longrightarrow> E e v'" for Q E v c
    unfolding wp_simps by (rule wpS_mono [OF run_ok_chunk [OF assms(1) that(1)]]) (simp_all add: that)
  show ?thesis
    using assms(2)
    by (auto simp: run_cycle_def robot_runner_def wpS_base wpS_bind wpS_if intro!: step exec wpS_on2I split: option.split)
qed



section \<open>The properties at a concrete runner\<close>

definition demo_policy :: "robot_state \<Rightarrow> (nat, chunk option) sem" where
  "demo_policy obs = bindS (getS id) (\<lambda>n. thenS (modS Suc) (retS (if n < 2 then Some (chunk_of [demo_waypoint (6/10) 1]) else None)))"

definition demo_runner :: "(fake trace robot \<times> nat, robot_state) runner" where
  "demo_runner = robot_runner (traced fake_backend) demo_policy (Some 5) None"

lemma receding_run_returns_witness:
  "\<exists>out w'. run_receding demo_runner None None (demo_robot (\<lambda>_. False), 0) = Some (out, w')
    \<and> (case out of Inr n \<Rightarrow> n \<le> 5 | Inl e \<Rightarrow> True)"
proof -
  have "rn_max_steps demo_runner = Some 5" by (simp add: demo_runner_def robot_runner_def)
  from conjunct1 [OF receding_run_returns [OF this]] show ?thesis
    by (fastforce split: sum.split)
qed

lemma confirmed_before_executed_witness:
  "\<exists>out w' ev. run_receding (listing demo_runner) (map_option (\<lambda>g k c r. plain (g k c r)) None)
      (Some (proposing (\<lambda>n c. retS (n = 1)))) ((demo_robot (\<lambda>_. False), 0), []) = Some (out, (w', ev)) \<and> confirmed ev"
proof -
  have "more_steps (rn_max_steps (listing demo_runner)) = more_steps (Some 5)"
    by (simp add: listing_def demo_runner_def robot_runner_def)
  then obtain out w' ev where "run_receding (listing demo_runner) (map_option (\<lambda>g k c r. plain (g k c r)) None)
      (Some (proposing (\<lambda>n c. retS (n = 1)))) ((demo_robot (\<lambda>_. False), 0), []) = Some (out, (w', ev))"
    using limited_returns [OF run_cycle_counts, of 5 "listing demo_runner"] unfolding run_receding_def by fastforce
  from confirmed_before_executed [OF this] this show ?thesis by blast
qed



end
