(* ===== verification/Server_Threads.thy ===== *)
theory Server_Threads
  imports Server_Proofs
begin

text \<open>
  The server's threads: connections whose motion requests pass the lease check, wait for the robot
  lock, hold lock and lease for the whole operation and let go of both, among each other, the
  requests that only take the lock for a moment, the ones that take none, and the installed servo
  loop's thread. A loop's thread is taken to have ended when its \<open>stop\<close> returns (the source waits two
  seconds for it). The lemma the server's design rests on: there is one writer.
\<close>

section \<open>A motion request in its critical sections\<close>

definition motion_enter :: "req_env \<Rightarrow> string \<Rightarrow> ('b server, unit) sem" where
  "motion_enter k owner =
     bindS (getS (\<lambda>s. v_loop s \<noteq> None)) (\<lambda>streaming.
       if streaming then raiseS ServoLoopActive else onL (hold_enter owner (rq_hold k)))"

definition motion_exit :: "req_env \<Rightarrow> string \<Rightarrow> ('b server, unit) sem" where
  "motion_exit k owner = onL (hold_exit owner (rq_exit k))"

text \<open>Entry, body and exit in sequence are the motion lock.\<close>

lemma motion_lock_sections:
  "owner \<noteq> '''' \<Longrightarrow> motion_lock k owner body =
     thenS (motion_enter k owner) (finallyS body (\<lambda>r. thenS (motion_exit k owner) (retS r)))"
  by (rule ext) (simp add: motion_lock_def motion_enter_def motion_exit_def thenS_def bindS_def sem_simps
      split: prod.split sum.split)

section \<open>The threads\<close>

datatype thread_pc = Idle | Checked string | Moving string

record 'b sys =
  y_server :: "'b server"
  y_lock :: "nat option"
  y_pc :: "nat \<Rightarrow> thread_pc"

datatype actor = Connection nat | LoopThread

text \<open>Requests that hold the lock while they touch the robot, and requests that do not touch it.\<close>

definition exclusive_methods :: "string list" where
  "exclusive_methods =
     [''set_safety_profile'', ''get_state'', ''stop'', ''release_lease'', ''start_servo_loop'', ''servo_stream'',
      ''servo_stream_joint'', ''stop_servo_loop'']"

definition shared_methods :: "string list" where
  "shared_methods = [''ping'', ''acquire_lease'', ''heartbeat'', ''get_lease'', ''get_safety_profile'']"

inductive sys_step ::
  "'b backend \<Rightarrow> (string \<Rightarrow> safety_profile result) \<Rightarrow> actor \<Rightarrow> 'b sys \<Rightarrow> 'b sys \<Rightarrow> bool"
  for B :: "'b backend" and load :: "string \<Rightarrow> safety_profile result" where
  check: "y_pc y t = Idle \<Longrightarrow> require_lease k p (y_server y) = (Inr owner, v) \<Longrightarrow>
      sys_step B load (Connection t) y (y\<lparr>y_server := v, y_pc := (y_pc y)(t := Checked owner)\<rparr>)"
| denied: "y_pc y t = Idle \<Longrightarrow> require_lease k p (y_server y) = (Inl e, v) \<Longrightarrow>
      sys_step B load (Connection t) y (y\<lparr>y_server := v\<rparr>)"
| enter: "y_pc y t = Checked owner \<Longrightarrow> y_lock y = None \<Longrightarrow> motion_enter k owner (y_server y) = (Inr u, v) \<Longrightarrow>
      sys_step B load (Connection t) y (y\<lparr>y_server := v, y_lock := Some t, y_pc := (y_pc y)(t := Moving owner)\<rparr>)"
| barred: "y_pc y t = Checked owner \<Longrightarrow> y_lock y = None \<Longrightarrow> motion_enter k owner (y_server y) = (Inl e, v) \<Longrightarrow>
      sys_step B load (Connection t) y (y\<lparr>y_server := v, y_pc := (y_pc y)(t := Idle)\<rparr>)"
| move: "y_pc y t = Moving owner \<Longrightarrow>
      sys_step B load (Connection t) y (y\<lparr>y_server := snd (onRob (m :: ('b robot, unit) sem) (y_server y))\<rparr>)"
| leave: "y_pc y t = Moving owner \<Longrightarrow>
      sys_step B load (Connection t) y
        (y\<lparr>y_server := snd (motion_exit k owner (y_server y)), y_lock := None, y_pc := (y_pc y)(t := Idle)\<rparr>)"
| exclusive: "y_pc y t = Idle \<Longrightarrow> y_lock y = None \<Longrightarrow> name \<in> set exclusive_methods \<Longrightarrow>
      map_of (handlers B load k) name = Some h \<Longrightarrow>
      sys_step B load (Connection t) y (y\<lparr>y_server := snd (h p (y_server y))\<rparr>)"
| shared: "y_pc y t = Idle \<Longrightarrow> name \<in> set shared_methods \<Longrightarrow> map_of (handlers B load k) name = Some h \<Longrightarrow>
      sys_step B load (Connection t) y (y\<lparr>y_server := snd (h p (y_server y))\<rparr>)"
| release: "y_pc y t = Idle \<Longrightarrow>
      sys_step B load (Connection t) y (y\<lparr>y_server := snd (onL (lease_release owner) (y_server y))\<rparr>)"
| stop_busy: "y_pc y t = Idle \<Longrightarrow>
      sys_step B load (Connection t) y (y\<lparr>y_server := snd (onRob request_stop (y_server y))\<rparr>)"
| tick: "sys_step B load LoopThread y (y\<lparr>y_server := snd (onLoop (l :: ('b servo, unit) sem) (y_server y))\<rparr>)"

definition sys_start :: "'b server \<Rightarrow> 'b sys" where
  "sys_start v = \<lparr>y_server = v, y_lock = None, y_pc = (\<lambda>_. Idle)\<rparr>"

definition sys_run ::
  "'b backend \<Rightarrow> (string \<Rightarrow> safety_profile result) \<Rightarrow> 'b sys \<Rightarrow> 'b sys \<Rightarrow> bool" where
  "sys_run B load = (\<lambda>y y'. \<exists>a. sys_step B load a y y')\<^sup>*\<^sup>*"

section \<open>What the requests leave alone\<close>

lemma lease_keeps_holds:
  "l_holds (snd (lease_check o' t l)) = l_holds l" "l_holds (snd (lease_acquire o' forced t t' l)) = l_holds l"
  "l_holds (snd (heartbeat o' t l)) = l_holds l" "l_holds (snd (lease_release o' l)) = l_holds l"
  "l_holds (snd (lease_owner t l)) = l_holds l"
  by (auto simp: lease_check_def lease_acquire_def heartbeat_def lease_release_def lease_owner_def bindS_def sem_simps
      split: option.splits)

definition keeps_holds :: "('b server, 'a) sem \<Rightarrow> bool" where
  "keeps_holds m \<longleftrightarrow> (\<forall>s. l_holds (v_lease (snd (m s))) = l_holds (v_lease s))"

lemma keeps_holds_base:
  "keeps_holds (retS x)" "keeps_holds (raiseS e)" "keeps_holds (getS f)" "keeps_holds (liftS v)"
  "keeps_holds (onRob m)" "keeps_holds (onLoop l)" "keeps_holds (on_detached d l)"
  "keeps_holds (modS (\<lambda>s. s\<lparr>v_loop := x'\<rparr>))"
  "keeps_holds (onL (lease_check o' t))" "keeps_holds (onL (lease_acquire o' forced t t'))"
  "keeps_holds (onL (heartbeat o' t))" "keeps_holds (onL (lease_release o'))" "keeps_holds (onL (lease_owner t))"
  by (auto simp: keeps_holds_def sem_simps onRob_def onLoop_def on_detached_def onL_def
      split: prod.splits option.splits sum.splits) (metis lease_keeps_holds snd_conv)+

lemma keeps_holds_bind:
  assumes "keeps_holds m" "\<And>x. keeps_holds (f x)"
  shows "keeps_holds (bindS m f)"
  unfolding keeps_holds_def
proof
  fix s
  obtain a s1 where m: "m s = (a, s1)" by (cases "m s")
  have "l_holds (v_lease s1) = l_holds (v_lease s)"
    using assms(1) m unfolding keeps_holds_def by (metis snd_conv)
  moreover have "l_holds (v_lease (snd (f x s1))) = l_holds (v_lease s1)" for x
    using assms(2) unfolding keeps_holds_def by blast
  ultimately show "l_holds (v_lease (snd (bindS m f s))) = l_holds (v_lease s)"
    by (cases a) (simp_all add: bindS_def m)
qed

lemma keeps_holds_then: "keeps_holds m \<Longrightarrow> keeps_holds k \<Longrightarrow> keeps_holds (thenS m k)"
  by (simp add: thenS_def keeps_holds_bind)

lemmas keeps_holds_intros = keeps_holds_base keeps_holds_bind keeps_holds_then

lemma require_lease_holds: "keeps_holds (require_lease k p)"
  unfolding require_lease_def by (intro keeps_holds_intros)

lemma drop_loop_holds: "keeps_holds (drop_loop B)"
  unfolding drop_loop_def by (auto intro!: keeps_holds_intros split: option.split)

lemma handlers_hold:
  "keeps_holds (h_set_safety_profile load k p)" "keeps_holds (h_get_state B k p)" "keeps_holds (h_stop B k p)"
  "keeps_holds (h_release_lease B p)" "keeps_holds (h_start_servo_loop B k p)" "keeps_holds (h_servo_stream k p)"
  "keeps_holds (h_servo_stream_joint k p)" "keeps_holds (h_stop_servo_loop B k p)" "keeps_holds (h_acquire_lease k p)"
  "keeps_holds (h_heartbeat k p)" "keeps_holds (h_get_lease k p)" "keeps_holds (h_get_safety_profile p)"
  unfolding h_set_safety_profile_def h_get_state_def h_stop_def h_release_lease_def h_start_servo_loop_def
    h_servo_stream_def h_servo_stream_joint_def h_stop_servo_loop_def h_acquire_lease_def h_heartbeat_def
    h_get_lease_def h_get_safety_profile_def live_loop_def Let_def
  by (auto intro!: keeps_holds_intros require_lease_holds drop_loop_holds split: option.split prod.split)

section \<open>One writer\<close>

text \<open>The lock is held exactly by the thread that moves the robot, with the lease pinned and no loop.\<close>

definition sys_inv :: "'b sys \<Rightarrow> bool" where
  "sys_inv y \<longleftrightarrow> (\<forall>t. (\<exists>owner. y_pc y t = Moving owner) \<longleftrightarrow> y_lock y = Some t)
     \<and> (y_lock y \<noteq> None \<longrightarrow> v_loop (y_server y) = None)
     \<and> l_holds (v_lease (y_server y)) = (if y_lock y = None then 0 else 1)"

lemma keeps_holds_D: "keeps_holds m \<Longrightarrow> m s = (x, s') \<Longrightarrow> l_holds (v_lease s') = l_holds (v_lease s)"
  unfolding keeps_holds_def by (metis snd_conv)

lemma exclusive_holds:
  assumes "name \<in> set exclusive_methods" "map_of (handlers B load k) name = Some h"
  shows "l_holds (v_lease (snd (h p s))) = l_holds (v_lease s)"
proof -
  have "list_all (\<lambda>name. \<forall>h. map_of (handlers B load k) name = Some h \<longrightarrow> (\<forall>p. keeps_holds (h p))) exclusive_methods"
    unfolding exclusive_methods_def handlers_def by (simp add: handlers_hold)
  then show ?thesis using assms by (auto simp: list_all_iff keeps_holds_def)
qed

lemma shared_handlers:
  assumes "name \<in> set shared_methods" "map_of (handlers B load k) name = Some h"
  shows "l_holds (v_lease (snd (h p s))) = l_holds (v_lease s) \<and> v_loop (snd (h p s)) = v_loop s
    \<and> r_b (v_robot (snd (h p s))) = r_b (v_robot s)"
proof -
  have same: "v_loop (snd (h p s)) = v_loop s \<and> r_b (v_robot (snd (h p s))) = r_b (v_robot s)"
    if "h = (\<lambda>p. retS (flag ''pong'')) \<or> h = h_acquire_lease k \<or> h = h_heartbeat k \<or> h = h_get_lease k \<or> h = h_get_safety_profile"
    for h :: "json \<Rightarrow> ('a server, json) sem"
    using that
    by (auto simp: h_acquire_lease_def h_heartbeat_def h_get_lease_def h_get_safety_profile_def bindS_def sem_simps
        onL_def onRob_def request_stop_def clear_stop_def split: prod.splits sum.splits)
  have "list_all (\<lambda>name. \<forall>h. map_of (handlers B load k) name = Some h \<longrightarrow> (\<forall>p. keeps_holds (h p))
      \<and> (h = (\<lambda>p. retS (flag ''pong'')) \<or> h = h_acquire_lease k \<or> h = h_heartbeat k \<or> h = h_get_lease k \<or> h = h_get_safety_profile))
      shared_methods"
    unfolding shared_methods_def handlers_def by (simp add: handlers_hold keeps_holds_base)
  then show ?thesis using assms same [of h] by (auto simp: list_all_iff keeps_holds_def)
qed

lemma require_lease_frame:
  assumes "require_lease k p s = (x, s')"
  shows "l_holds (v_lease s') = l_holds (v_lease s)" "v_loop s' = v_loop s" "r_b (v_robot s') = r_b (v_robot s)"
proof -
  show "l_holds (v_lease s') = l_holds (v_lease s)" by (rule keeps_holds_D [OF require_lease_holds assms])
  show "v_loop s' = v_loop s" "r_b (v_robot s') = r_b (v_robot s)"
    using assms by (auto simp: require_lease_def bindS_def sem_simps onL_def onRob_def split: prod.splits sum.splits)
qed

lemma motion_enter_frame:
  assumes "motion_enter k owner s = (x, s')"
  shows "v_robot s' = v_robot s" "v_loop s' = v_loop s"
    and "x = Inr u \<Longrightarrow> v_loop s = None \<and> l_holds (v_lease s') = l_holds (v_lease s) + 1"
    and "x = Inl e \<Longrightarrow> l_holds (v_lease s') = l_holds (v_lease s)"
  using assms
  by (auto simp: motion_enter_def bindS_def sem_simps onL_def hold_enter_def lease_check_eq split: if_splits)

lemma motion_exit_frame:
  "v_robot (snd (motion_exit k owner s)) = v_robot s" "v_loop (snd (motion_exit k owner s)) = v_loop s"
  "l_holds (v_lease (snd (motion_exit k owner s))) = l_holds (v_lease s) - 1"
  by (simp_all add: motion_exit_def onL_def hold_exit_def sem_simps)

lemma onRob_frame [simp]:
  "v_loop (snd (onRob m s)) = v_loop s" "v_lease (snd (onRob m s)) = v_lease s"
  by (simp_all add: onRob_def split: prod.split)

lemma onL_release_frame [simp]:
  "v_loop (snd (onL m s)) = v_loop s" "v_robot (snd (onL m s)) = v_robot s"
  "l_holds (v_lease (snd (onL (lease_release o') s))) = l_holds (v_lease s)"
  using lease_keeps_holds(4) [of o' "v_lease s"]
  by (simp_all add: onL_def split: prod.split) (cases "lease_release o' (v_lease s)", simp)

lemma onLoop_holds [simp]: "v_lease (snd (onLoop l s)) = v_lease s"
  by (simp add: onLoop_def split: option.split prod.split)

lemma not_holder: "sys_inv y \<Longrightarrow> (\<And>owner. y_pc y t \<noteq> Moving owner) \<Longrightarrow> y_lock y \<noteq> Some t"
  unfolding sys_inv_def by blast

lemma sys_inv_step:
  assumes "sys_step B load a y y'" "sys_inv y"
  shows "sys_inv y' \<and> (r_b (v_robot (y_server y')) = r_b (v_robot (y_server y)) \<or> y_lock y = None \<or>
    (\<exists>t. y_lock y = Some t \<and> a = Connection t))"
  using assms
proof (cases rule: sys_step.cases)
  case (check t k p owner v)
  then show ?thesis using require_lease_frame [OF check(4)] not_holder [OF assms(2), of t] assms(2) by (auto simp: sys_inv_def)
next
  case (denied t k p e v)
  then show ?thesis using require_lease_frame [OF denied(4)] assms(2) by (auto simp: sys_inv_def)
next
  case (enter t owner k u v)
  then show ?thesis using motion_enter_frame [OF enter(5)] assms(2) by (auto simp: sys_inv_def)
next
  case (barred t owner k e v)
  then show ?thesis using motion_enter_frame [OF barred(5)] assms(2) by (auto simp: sys_inv_def)
next
  case (move t owner m)
  then show ?thesis using assms(2) by (auto simp: sys_inv_def)
next
  case (leave t owner k)
  then have "y_lock y = Some t" using assms(2) by (auto simp: sys_inv_def)
  moreover from this have "\<And>t' owner. y_pc y t' = Moving owner \<Longrightarrow> t' = t"
    using assms(2) unfolding sys_inv_def by (metis option.inject)
  ultimately show ?thesis using leave(1,2) assms(2) by (auto simp: sys_inv_def motion_exit_frame split: if_splits)
next
  case (exclusive t name k h p)
  then show ?thesis using exclusive_holds [OF exclusive(5,6)] assms(2) by (auto simp: sys_inv_def)
next
  case (shared t name k h p)
  then show ?thesis using shared_handlers [OF shared(4,5)] assms(2) by (auto simp: sys_inv_def)
next
  case (release t owner)
  then show ?thesis using assms(2) by (auto simp: sys_inv_def)
next
  case (stop_busy t)
  then show ?thesis using assms(2) by (auto simp: sys_inv_def onRob_def request_stop_def sem_simps)
next
  case (tick l)
  then show ?thesis using assms(2)
    by (auto simp: sys_inv_def onLoop_def sem_simps split: option.splits prod.splits if_splits)
qed

lemma sys_inv_run:
  assumes "sys_run B load y y'" "sys_inv y"
  shows "sys_inv y'"
  using assms(1)[unfolded sys_run_def] assms(2)
  by (induction rule: rtranclp_induct) (auto dest: sys_inv_step)



section \<open>The property at a concrete server\<close>

lemma sys_run_two: "sys_step B load a y0 y1 \<Longrightarrow> sys_step B load a' y1 y2 \<Longrightarrow> sys_run B load y0 y2"
  unfolding sys_run_def by (rule converse_rtranclp_into_rtranclp, blast, rule r_into_rtranclp, blast)


end
