(* ===== verification/Server_Life.thy ===== *)
theory Server_Life
  imports Server_Proofs Host_Lock
begin

text \<open>
  The life of the server process of \<^verbatim>\<open>server/server.py\<close>: \<open>start\<close>, \<open>serve_forever\<close>,
  \<open>serve_in_thread\<close> and \<open>shutdown\<close> over the server of \<open>Server\<close>, the host-wide lock of
  \<open>Host_Lock\<close> and the listening socket. The socket server is the standard library's: its state
  is whether its loop has run, binding may fail, and its \<open>shutdown\<close> waits for its loop, forever
  when nobody runs it (the value \<open>None\<close>). The requests and the loop's ticks that come in
  between are a list; other processes may change the lock file between two of them.
\<close>

section \<open>The process\<close>

datatype socket = Closed | Bound | Served

record 'b service =
  sl_server :: "'b server"
  sl_lock :: "host_lock option"
  sl_world :: host_world
  sl_socket :: socket

definition mk_service :: "'b robot \<Rightarrow> real \<Rightarrow> bool \<Rightarrow> host_world \<Rightarrow> 'b service" where
  "mk_service robot lease_ttl host_lock w =
     \<lparr>sl_server = mk_server robot lease_ttl,
      sl_lock = (if host_lock then Some (mk_host_lock ''server'') else None),
      sl_world = w, sl_socket = Closed\<rparr>"

definition on_server :: "('b server, 'a) sem \<Rightarrow> ('b service, 'a) sem" where
  "on_server m s = (case m (sl_server s) of (x, v) \<Rightarrow> (x, s\<lparr>sl_server := v\<rparr>))"

text \<open>\<open>if self._host_lock is not None: ...\<close>\<close>

definition on_lock :: "(host_lock \<times> host_world, unit) sem \<Rightarrow> ('b service, unit) sem" where
  "on_lock m s =
     (case sl_lock s of
        None \<Rightarrow> (Inr (), s)
      | Some l \<Rightarrow> (case m (l, sl_world s) of (x, (l', w)) \<Rightarrow> (x, s\<lparr>sl_lock := Some l', sl_world := w\<rparr>)))"

section \<open>Start and shutdown\<close>

definition start :: "int \<Rightarrow> 'b backend \<Rightarrow> real \<Rightarrow> bool \<Rightarrow> ('b service, unit) sem" where
  "start me B now bindable =
     thenS (on_lock (hl_acquire me None False now))
    (thenS (on_server (server_start B))
       (if bindable then modS (\<lambda>s. s\<lparr>sl_socket := Bound\<rparr>) else raiseS OSError))"

text \<open>The end of \<open>shutdown\<close>, once the loop and the socket are gone.\<close>

definition stand_down :: "int \<Rightarrow> 'b backend \<Rightarrow> ('b service, unit) sem" where
  "stand_down me B =
     finallyS (on_server (onRob (robot_stop B)))
       (\<lambda>r. thenS (on_server (onRob (robot_disconnect B))) (thenS (on_lock (hl_release me)) (retS r)))"

definition shutdown :: "int \<Rightarrow> 'b backend \<Rightarrow> 'b service \<Rightarrow> (unit result \<times> 'b service) option" where
  "shutdown me B s =
     (case on_server (drop_loop B) s of
        (Inl e, s') \<Rightarrow> Some (Inl e, s')
      | (Inr _, s') \<Rightarrow>
          (if sl_socket s' = Bound then None
           else Some (stand_down me B (s'\<lparr>sl_socket := Closed\<rparr>))))"

section \<open>Serving\<close>

text \<open>
  What happens while the process serves. An exception that leaves a connection's handler ends
  that connection, one that leaves a tick ends the loop's thread; neither ends the process.
\<close>

datatype traffic =
    Line req_env "json option"
  | Tick tick_clock
  | Elsewhere host_world

definition serve_one ::
  "'b backend \<Rightarrow> (string \<Rightarrow> safety_profile result) \<Rightarrow> traffic \<Rightarrow> ('b service, unit) sem" where
  "serve_one B load ev =
     (case ev of
        Line k line \<Rightarrow> catchS (thenS (on_server (serve_line B load k line)) (retS ())) (\<lambda>_. retS ())
      | Tick k \<Rightarrow> bindS (getS (\<lambda>s. v_loop (sl_server s))) (\<lambda>loop.
          case loop of
            None \<Rightarrow> retS ()
          | Some l \<Rightarrow>
              (if servo_alive l
               then on_server (onLoop (catchS (servo_tick B k) (\<lambda>_. crash_loop B)))
               else retS ()))
      | Elsewhere w \<Rightarrow> modS (\<lambda>s. s\<lparr>sl_world := w\<rparr>))"

fun serve ::
  "'b backend \<Rightarrow> (string \<Rightarrow> safety_profile result) \<Rightarrow> traffic list \<Rightarrow> ('b service, unit) sem" where
  "serve B load [] = retS ()"
| "serve B load (ev # evs) = thenS (serve_one B load ev) (serve B load evs)"

definition ensure_started :: "int \<Rightarrow> 'b backend \<Rightarrow> real \<Rightarrow> bool \<Rightarrow> ('b service, unit) sem" where
  "ensure_started me B now bindable =
     bindS (getS sl_socket) (\<lambda>sock. if sock = Closed then start me B now bindable else retS ())"

text \<open>
  The foreground server: the traffic until the interrupt, which its caller catches. The
  background server returns with the socket's loop running in a thread of its own.
\<close>

definition serve_forever ::
  "int \<Rightarrow> 'b backend \<Rightarrow> (string \<Rightarrow> safety_profile result) \<Rightarrow> real \<Rightarrow> bool \<Rightarrow> traffic list \<Rightarrow>
   'b service \<Rightarrow> (unit result \<times> 'b service) option" where
  "serve_forever me B load now bindable evs s =
     (case ensure_started me B now bindable s of
        (Inl e, s') \<Rightarrow> Some (Inl e, s')
      | (Inr _, s') \<Rightarrow>
          (case serve B load evs (s'\<lparr>sl_socket := Served\<rparr>) of
             (r, t) \<Rightarrow>
               (case shutdown me B t of
                  None \<Rightarrow> None
                | Some (Inl e, t') \<Rightarrow> Some (Inl e, t')
                | Some (Inr _, t') \<Rightarrow> Some (r, t'))))"

definition serve_in_thread :: "int \<Rightarrow> 'b backend \<Rightarrow> real \<Rightarrow> bool \<Rightarrow> ('b service, unit) sem" where
  "serve_in_thread me B now bindable =
     thenS (ensure_started me B now bindable) (modS (\<lambda>s. s\<lparr>sl_socket := Served\<rparr>))"

section \<open>The parts\<close>

lemma on_lock_acquire:
  assumes "hw_wf (sl_world s)" "sl_lock s = Some l"
  shows "on_lock (hl_acquire me None False now) s =
    (if hw_holder (sl_world s) = None \<or> hw_holder (sl_world s) = Some me
     then (Inr (), s\<lparr>sl_lock := Some (l\<lparr>hl_held := True\<rparr>), sl_world := write_lock me (hl_owner l) now (sl_world s)\<rparr>)
     else (Inl HostLockError, s))"
  using assms check_free_eq [OF assms(1), of me False]
  by (auto simp: on_lock_def hl_acquire_def Let_def)

lemma remove_own_wf:
  assumes "hw_wf w"
  obtains w' where "remove_own me w = Inr w'" "hw_wf w'" "hw_holder w' \<noteq> Some me"
    "hw_holder w \<noteq> Some me \<longrightarrow> hw_holder w' = hw_holder w"
proof -
  define h where "h = \<lparr>h_world = w, h_locks = \<lambda>_. \<lparr>hl_owner = [], hl_held = True\<rparr>\<rparr>"
  have wf: "host_wf h" and w: "h_world h = w" and l: "h_locks h me = \<lparr>hl_owner = [], hl_held = True\<rparr>"
    using assms by (simp_all add: host_wf_def h_def)
  obtain h' where h': "on_host hl_release me h = Inr h'" "host_wf h'"
      "hw_holder w = Some me \<longrightarrow> hw_holder (h_world h') = None"
      "hw_holder w \<noteq> Some me \<longrightarrow> hw_holder (h_world h') = hw_holder w"
    using release_host [OF wf, of me] w by metis
  obtain w' where "remove_own me w = Inr w'"
    using h'(1) w l by (cases "remove_own me w") (simp_all add: on_host_def hl_release_def)
  moreover have "h_world h' = w'"
    using h'(1) w l calculation by (auto simp: on_host_def hl_release_def)
  ultimately show thesis
    using h'(2-4) that by (metis host_wf_def option.distinct(1))
qed

lemma on_lock_release:
  assumes "hw_wf (sl_world s)" "sl_lock s = Some l" "hl_held l"
  obtains w where "on_lock (hl_release me) s = (Inr (), s\<lparr>sl_lock := Some (l\<lparr>hl_held := False\<rparr>), sl_world := w\<rparr>)"
    "hw_wf w" "hw_holder w \<noteq> Some me" "hw_holder (sl_world s) \<noteq> Some me \<longrightarrow> hw_holder w = hw_holder (sl_world s)"
proof -
  obtain w where w: "remove_own me (sl_world s) = Inr w" "hw_wf w" "hw_holder w \<noteq> Some me"
      "hw_holder (sl_world s) \<noteq> Some me \<longrightarrow> hw_holder w = hw_holder (sl_world s)"
    by (rule remove_own_wf [OF assms(1), of me])
  show thesis by (rule that [OF _ w(2-4)]) (simp_all add: on_lock_def hl_release_def assms(2,3) w(1))
qed

text \<open>What runs on the server alone leaves lock, file and socket.\<close>

lemma on_server_parts:
  "sl_lock (snd (on_server m s)) = sl_lock s" "sl_world (snd (on_server m s)) = sl_world s"
  "sl_socket (snd (on_server m s)) = sl_socket s" "sl_server (snd (on_server m s)) = snd (m (sl_server s))"
  "fst (on_server m s) = fst (m (sl_server s))"
  by (simp_all add: on_server_def split: prod.splits)

lemma on_server_update: "on_server m s = (fst (m (sl_server s)), s\<lparr>sl_server := snd (m (sl_server s))\<rparr>)"
  by (simp add: on_server_def split: prod.splits)

lemma crash_loop_calm: "fst (crash_loop B s) = Inr ()"
  by (simp add: crash_loop_def thenS_eq catchS_def upd_stats_def modS_def retS_def split: prod.splits sum.splits)

lemma catch_calm: "(\<And>e s. fst (h e s) = Inr ()) \<Longrightarrow> fst (catchS m h s) = Inr ()"
  by (auto simp: catchS_def split: prod.splits sum.splits)

lemma onLoop_calm: "(\<And>l. fst (m l) = Inr ()) \<Longrightarrow> v_loop s \<noteq> None \<Longrightarrow> fst (onLoop m s) = Inr ()"
  by (auto simp: onLoop_def split: prod.splits) (metis fst_conv)

text \<open>Nothing that is served ends the process.\<close>

lemma serve_one_calm: "fst (serve_one B load ev s) = Inr ()"
proof (cases ev)
  case (Line k line)
  then show ?thesis by (simp add: serve_one_def) (rule catch_calm, simp add: retS_def)
next
  case (Tick k)
  show ?thesis
    using onLoop_calm [OF catch_calm [OF crash_loop_calm], where s = "sl_server s"]
    by (auto simp: Tick serve_one_def bindS_def getS_def retS_def on_server_parts split: option.splits)
qed (simp add: serve_one_def modS_def)

lemma serve_one_parts:
  "sl_lock (snd (serve_one B load ev s)) = sl_lock s"
  "sl_socket (snd (serve_one B load ev s)) = sl_socket s"
  "sl_world (snd (serve_one B load ev s)) = (case ev of Elsewhere w \<Rightarrow> w | _ \<Rightarrow> sl_world s)"
  by (cases ev; simp add: serve_one_def sem_simps catchS_def bindS_def on_server_update
      split: prod.splits sum.splits option.splits; fail)+

lemma serve_parts:
  "fst (serve B load evs s) = Inr ()" "sl_lock (snd (serve B load evs s)) = sl_lock s"
  "sl_socket (snd (serve B load evs s)) = sl_socket s"
  "hw_wf (sl_world s) \<Longrightarrow> (\<And>w. Elsewhere w \<in> set evs \<Longrightarrow> hw_wf w) \<Longrightarrow> hw_wf (sl_world (snd (serve B load evs s)))"
proof (induction evs arbitrary: s)
  case (Cons ev evs)
  have step: "serve B load (ev # evs) s = serve B load evs (snd (serve_one B load ev s))" for s
    using serve_one_calm [of B load ev s] by (cases "serve_one B load ev s") (simp add: thenS_eq)
  { case 1 show ?case unfolding step by (rule Cons(1)) }
  { case 2 show ?case unfolding step by (simp add: Cons(2) serve_one_parts) }
  { case 3 show ?case unfolding step by (simp add: Cons(3) serve_one_parts) }
  { case 4
    then have "hw_wf (sl_world (snd (serve_one B load ev s)))" by (cases ev) (auto simp: serve_one_parts)
    then show ?case unfolding step using Cons(4) 4(2) by simp }
qed (simp_all add: retS_def)

lemma is_ok_unit: "is_ok m \<Longrightarrow> m = Inr ()"
  by (cases m) (simp_all add: is_ok_def)

lemma onRob_backend:
  "fst (onRob (robot_stop B) v) = fst (bk_stop B (r_b (v_robot v)))"
  "fst (onRob (robot_disconnect B) v) = fst (bk_disconnect B (r_b (v_robot v)))"
  "r_b (v_robot (snd (onRob (robot_disconnect B) v))) = snd (bk_disconnect B (r_b (v_robot v)))"
  "v_loop (snd (onRob m v)) = v_loop v"
  by (simp_all add: onRob_def robot_stop_def robot_disconnect_def request_stop_def onB_def thenS_eq modS_def
      split: prod.splits sum.splits)

text \<open>
  Stopping may raise: as long as disconnecting does not, the arm is disconnected and the lock is
  given back all the same.
\<close>

lemma stand_down_gives_back:
  assumes "hw_wf (sl_world s)" "sl_lock s = Some l" "hl_held l" and quit: "\<And>b. is_ok (fst (bk_disconnect B b))"
  obtains t b where "stand_down me B s = (fst (bk_stop B (r_b (v_robot (sl_server s)))), t)"
    "hw_holder (sl_world t) \<noteq> Some me" "sl_lock t = Some (l\<lparr>hl_held := False\<rparr>)" "sl_socket t = sl_socket s"
    "v_loop (sl_server t) = v_loop (sl_server s)" "r_b (v_robot (sl_server t)) = snd (bk_disconnect B b)"
proof -
  obtain r1 s1 where stop: "on_server (onRob (robot_stop B)) s = (r1, s1)" by fastforce
  obtain r2 s2 where "on_server (onRob (robot_disconnect B)) s1 = (r2, s2)" by fastforce
  then have disc: "on_server (onRob (robot_disconnect B)) s1 = (Inr (), s2)"
    using on_server_parts(5) [of "onRob (robot_disconnect B)" s1]
    by (simp add: onRob_backend is_ok_unit [OF quit])
  note parts = on_server_parts [of "onRob (robot_stop B)" s, unfolded stop fst_conv snd_conv]
    on_server_parts [of "onRob (robot_disconnect B)" s1, unfolded disc fst_conv snd_conv]
  obtain w where w: "on_lock (hl_release me) s2 = (Inr (), s2\<lparr>sl_lock := Some (l\<lparr>hl_held := False\<rparr>), sl_world := w\<rparr>)"
      "hw_holder w \<noteq> Some me"
    by (rule on_lock_release [of s2 l me]) (use assms(1-3) parts in simp_all)
  have "stand_down me B s = (r1, s2\<lparr>sl_lock := Some (l\<lparr>hl_held := False\<rparr>), sl_world := w\<rparr>)"
    by (simp add: stand_down_def finallyS_def thenS_eq retS_def stop disc w(1))
  then have "stand_down me B s = (fst (bk_stop B (r_b (v_robot (sl_server s)))),
      s2\<lparr>sl_lock := Some (l\<lparr>hl_held := False\<rparr>), sl_world := w\<rparr>)"
    using parts(5) by (simp add: onRob_backend)
  then show thesis
    by (rule that [where b = "r_b (v_robot (sl_server s1))"]) (use w(2) parts in \<open>simp_all add: onRob_backend\<close>)
qed

lemma drop_loop_calm:
  assumes "\<And>b. is_ok (fst (bk_stop B b))"
  shows "fst (drop_loop B v) = Inr ()" "v_loop (snd (drop_loop B v)) = None"
proof -
  have "fst (on_detached l (servo_stop B) v) \<noteq> Inl e" for l v e
    using is_ok_unit [OF assms]
    by (auto simp: on_detached_def servo_stop_def thenS_eq modS_def onR_def onB_def split: prod.splits sum.splits)
       (metis fst_conv Inr_not_Inl)
  then show "fst (drop_loop B v) = Inr ()"
    by (auto simp: drop_loop_def bindS_def getS_def thenS_eq modS_def retS_def split: option.splits prod.splits sum.splits)
       (metis fst_conv)
  show "v_loop (snd (drop_loop B v)) = None"
    by (auto simp: drop_loop_def bindS_def getS_def thenS_eq modS_def retS_def on_detached_def
        split: option.splits prod.splits sum.splits)
qed

text \<open>\<open>shutdown\<close> of a server whose socket's loop has run, on an arm that stops.\<close>

lemma shutdown_gives_back:
  assumes "hw_wf (sl_world s)" "sl_lock s = Some l" "hl_held l" "sl_socket s \<noteq> Bound"
    and calm: "\<And>b. is_ok (fst (bk_stop B b))" "\<And>b. is_ok (fst (bk_disconnect B b))"
  obtains t b where "shutdown me B s = Some (Inr (), t)" "hw_holder (sl_world t) \<noteq> Some me"
    "sl_lock t = Some (l\<lparr>hl_held := False\<rparr>)" "sl_socket t = Closed" "v_loop (sl_server t) = None"
    "r_b (v_robot (sl_server t)) = snd (bk_disconnect B b)"
proof -
  obtain r1 s1 where "on_server (drop_loop B) s = (r1, s1)" by fastforce
  then have drop: "on_server (drop_loop B) s = (Inr (), s1)"
    using on_server_parts(5) [of "drop_loop B" s] drop_loop_calm(1) [OF calm(1)] by simp
  note parts = on_server_parts [of "drop_loop B" s, unfolded drop fst_conv snd_conv]
  obtain t b where "stand_down me B (s1\<lparr>sl_socket := Closed\<rparr>) = (fst (bk_stop B (r_b (v_robot (sl_server s1)))), t)"
      "hw_holder (sl_world t) \<noteq> Some me" "sl_lock t = Some (l\<lparr>hl_held := False\<rparr>)" "sl_socket t = Closed"
      "v_loop (sl_server t) = None" "r_b (v_robot (sl_server t)) = snd (bk_disconnect B b)"
    by (rule stand_down_gives_back [of "s1\<lparr>sl_socket := Closed\<rparr>" l B me])
       (use assms(1-3) calm(2) parts in \<open>simp_all add: drop_loop_calm(2) [OF calm(1)]\<close>)
  moreover have "shutdown me B s = Some (stand_down me B (s1\<lparr>sl_socket := Closed\<rparr>))"
    using assms(4) parts(3) by (simp add: shutdown_def drop)
  ultimately show thesis
    using that is_ok_unit [OF calm(1)] by simp
qed

text \<open>\<open>start\<close> on every path: what it raises is raised with the lock taken, the refusal apart.\<close>

lemma start_outcome:
  assumes "hw_wf (sl_world s)" "pid_alive (sl_world s) me" "sl_lock s = Some l"
  obtains (refused) q where "hw_holder (sl_world s) = Some q" "q \<noteq> me" "start me B now bindable s = (Inl HostLockError, s)"
  | (failed) e t where "\<forall>q. hw_holder (sl_world s) = Some q \<longrightarrow> q = me"
      "\<not> is_ok (fst (bk_connect B (r_b (v_robot (sl_server s))))) \<or> \<not> bindable"
      "start me B now bindable s = (Inl e, t)" "hw_holder (sl_world t) = Some me"
  | (up) t where "\<forall>q. hw_holder (sl_world s) = Some q \<longrightarrow> q = me"
      "is_ok (fst (bk_connect B (r_b (v_robot (sl_server s)))))" bindable
      "start me B now bindable s = (Inr (), t)" "hw_wf (sl_world t)" "hw_holder (sl_world t) = Some me"
      "sl_lock t = Some (l\<lparr>hl_held := True\<rparr>)"
proof (cases "hw_holder (sl_world s) = None \<or> hw_holder (sl_world s) = Some me")
  case False
  then show thesis using refused on_lock_acquire [OF assms(1,3), of me now] by (auto simp: start_def thenS_eq)
next
  case True
  let ?s = "s\<lparr>sl_lock := Some (l\<lparr>hl_held := True\<rparr>), sl_world := write_lock me (hl_owner l) now (sl_world s)\<rparr>"
  have acq: "on_lock (hl_acquire me None False now) s = (Inr (), ?s)"
    using True on_lock_acquire [OF assms(1,3), of me now] by simp
  have free: "\<forall>q. hw_holder (sl_world s) = Some q \<longrightarrow> q = me" using True by auto
  have mine: "hw_holder (sl_world ?s) = Some me" "hw_wf (sl_world ?s)"
    using write_lock_holder assms(2) by simp_all
  obtain c b where connect: "bk_connect B (r_b (v_robot (sl_server s))) = (c, b)" by fastforce
  obtain s' where "on_server (server_start B) ?s = (c, s')" "sl_world s' = sl_world ?s" "sl_lock s' = sl_lock ?s"
    using connect
    by (cases c) (auto simp: on_server_def server_start_def onRob_def robot_connect_def onB_def thenS_eq modS_def)
  then show thesis
    using acq mine free connect failed up
    by (cases c; cases bindable) (auto simp: start_def thenS_eq modS_def raiseS_def is_ok_def)
qed

section \<open>Properties\<close>


text \<open>A loop whose final stop raises ends \<open>shutdown\<close> before the arm, the socket and the lock.\<close>

lemma loop_stop_failure_keeps_lock:
  assumes "v_loop (sl_server s) = Some l" "bk_stop B (r_b (v_robot (sl_server s))) = (Inl e, b)"
  shows "\<exists>t. shutdown me B s = Some (Inl e, t) \<and> sl_lock t = sl_lock s \<and> sl_world t = sl_world s
    \<and> sl_socket t = sl_socket s \<and> r_b (v_robot (sl_server t)) = b"
  using assms
  by (simp add: shutdown_def on_server_def drop_loop_def on_detached_def servo_stop_def onR_def onB_def
      bindS_def getS_def thenS_eq modS_def)

text \<open>A server that was started and never served cannot be shut down: the call does not return.\<close>

lemma shutdown_before_serving_hangs:
  assumes "sl_socket s = Bound" "v_loop (sl_server s) = None"
  shows "shutdown me B s = None"
  using assms
  by (simp add: shutdown_def on_server_def drop_loop_def bindS_def getS_def thenS_eq modS_def retS_def)

text \<open>Two servers of one process share its PID: both take the lock, and the first to end removes the other's file.\<close>

lemma same_process_both_hold:
  assumes "hw_wf w" "pid_alive w me" "hw_holder w = None"
  shows "\<exists>w1 w2 w3. hl_acquire me None False now (a, w) = (Inr (), (a\<lparr>hl_held := True\<rparr>, w1))
    \<and> hl_acquire me None False now (b, w1) = (Inr (), (b\<lparr>hl_held := True\<rparr>, w2))
    \<and> hl_release me (a\<lparr>hl_held := True\<rparr>, w2) = (Inr (), (a\<lparr>hl_held := False\<rparr>, w3)) \<and> hw_holder w3 = None"
  using assms check_free_eq [OF assms(1), of me False] check_free_eq [OF write_lock_holder(2), of me False]
    write_lock_holder(1) [OF assms(2)]
  by (simp add: hl_acquire_def Let_def hl_release_def remove_own_def write_lock_def hw_holder_def [of "w\<lparr>hw_file := None\<rparr>"])

section \<open>The property at a concrete server\<close>

definition demo_service :: "fake trace service" where
  "demo_service = mk_service (demo_robot (\<lambda>_. False)) 2 True \<lparr>hw_file = None, hw_alive = {7}\<rparr>"


end
