(* ===== verification/Config_Proofs.thy ===== *)
theory Config_Proofs
  imports Config Safety_Proofs
begin

text \<open>
  What configuration loading guarantees. A document is described by the tree it denotes together with
  its layout (each block's indentation, what follows each colon up to the line's end); the built-in
  parser gives the tree of every such document, blank lines and comments anywhere. From that: a
  profile file gives the profile it was written from, and a name resolves to the first file found.
\<close>

section \<open>Documents\<close>

datatype ytree = Leaf string | Node string nat "(string \<times> ytree) list"

definition value_text :: "string \<Rightarrow> string" where
  "value_text r = strip (before (CHR ''#'') r)"

fun render :: "nat \<Rightarrow> string \<Rightarrow> ytree \<Rightarrow> string list" where
  "render i k (Leaf r) = [replicate i (CHR '' '') @ k @ CHR '':'' # r]"
| "render i k (Node r w es) =
     (replicate i (CHR '' '') @ k @ CHR '':'' # r) # concat (map (\<lambda>(k', t). render (i + w) k' t) es)"

fun denotes :: "ytree \<Rightarrow> json" where
  "denotes (Leaf r) = parse_scalar (value_text r)"
| "denotes (Node r w es) = JObj (map (\<lambda>(k, t). (k, denotes t)) es)"

definition key_ok :: "string \<Rightarrow> bool" where
  "key_ok k \<longleftrightarrow> k \<noteq> [] \<and> strip k = k \<and> CHR '':'' \<notin> set k \<and> hd k \<noteq> CHR ''#''"

definition tail_ok :: "string \<Rightarrow> bool" where
  "tail_ok r \<longleftrightarrow> r = [] \<or> \<not> py_space (last r)"

fun ytree_ok :: "ytree \<Rightarrow> bool" where
  "ytree_ok (Leaf r) \<longleftrightarrow> tail_ok r \<and> value_text r \<noteq> []"
| "ytree_ok (Node r w es) \<longleftrightarrow> tail_ok r \<and> value_text r = [] \<and> 0 < w \<and> distinct (map fst es)
     \<and> list_all (\<lambda>(k, t). key_ok k \<and> ytree_ok t) es"

definition doc_ok :: "(string \<times> ytree) list \<Rightarrow> bool" where
  "doc_ok es \<longleftrightarrow> distinct (map fst es) \<and> list_all (\<lambda>(k, t). key_ok k \<and> ytree_ok t) es"

definition doc_lines :: "(string \<times> ytree) list \<Rightarrow> string list" where
  "doc_lines es = concat (map (\<lambda>(k, t). render 0 k t) es)"

section \<open>One line\<close>

lemma line_parts:
  fixes i :: nat
  assumes "key_ok k" "tail_ok r"
  defines "raw \<equiv> replicate i (CHR '' '') @ k @ CHR '':'' # r"
  shows "significant raw" "indent_of raw = int i" "key_of raw = k" "val_of raw = value_text r"
proof -
  have k: "k \<noteq> []" "strip k = k" "CHR '':'' \<notin> set k" "hd k \<noteq> CHR ''#''" using assms(1) by (auto simp: key_ok_def)
  have pad: "list_all py_space (replicate i (CHR '' ''))" by (simp add: list_all_iff py_space_def)
  have ends: "\<not> py_space (hd (k @ CHR '':'' # r))" "\<not> py_space (last (k @ CHR '':'' # r))"
    using strip_ends [OF k(2,1)] k(1) assms(2) by (auto simp: tail_ok_def py_space_def)
  have strip: "strip raw = k @ CHR '':'' # r"
    using ends unfolding raw_def strip_def strip_chars_pad [OF pad] by (intro strip_chars_id) auto
  have "dropWhile py_space raw = k @ CHR '':'' # r"
    using pad ends(1) k(1) unfolding raw_def
    by (subst dropWhile_append2) (auto simp: list_all_iff dropWhile_eq_self_iff)
  then show "indent_of raw = int i" by (simp add: indent_of_def lstrip_def raw_def)
  show "significant raw" using strip k by (simp add: significant_def)
  have "takeWhile (\<lambda>c. c \<noteq> CHR '':'') (k @ CHR '':'' # r) = k" "dropWhile (\<lambda>c. c \<noteq> CHR '':'') (k @ CHR '':'' # r) = CHR '':'' # r"
    using k(3) by (subst takeWhile_append2 dropWhile_append2; force)+
  then show "key_of raw = k" "val_of raw = value_text r"
    by (simp_all add: key_of_def val_of_def before_def after_def strip k(2) value_text_def)
qed

lemma skip_insignificant: "fold yaml_line ls w = fold yaml_line (filter significant ls) w"
  by (induction ls arbitrary: w) (auto simp: yaml_line_def)

section \<open>Blocks\<close>

text \<open>\<open>C d\<close> is the document whose dictionary at path \<open>P\<close> has the entries \<open>d\<close>.\<close>

definition focus :: "string list \<Rightarrow> ((string \<times> json) list \<Rightarrow> json) \<Rightarrow> bool" where
  "focus P C \<longleftrightarrow> (\<forall>q k v d d'. put_at q k v (JObj d) = JObj d' \<longrightarrow> put_at (P @ q) k v (C d) = C d')"

lemma focus_root: "focus [] JObj"
  by (simp add: focus_def)

lemma focus_put: "focus P C \<Longrightarrow> put_at P k v (C d) = C (AList.update k v d)"
  unfolding focus_def by (metis append_Nil2 put_at.simps(1))

lemma get_default_update [simp]: "get_default (AList.update k v d) k w = v"
  by (simp add: get_default_def update_conv')

lemma focus_sub:
  assumes "focus P C"
  shows "focus (P @ [k]) (\<lambda>d'. C (AList.update k (JObj d') d))"
  using assms unfolding focus_def by (force simp: update_last)

lemma update_new: "k \<notin> fst ` set d \<Longrightarrow> AList.update k v d = d @ [(k, v)]"
  by (induction d) auto

definition top_is :: "int \<Rightarrow> string list \<Rightarrow> int \<Rightarrow> stack \<Rightarrow> stack \<Rightarrow> bool" where
  "top_is i P j rest st \<longleftrightarrow> dropWhile (\<lambda>(l, p). i \<le> l) st = (j, P) # rest"

lemma top_is_less: "top_is i P j rest st \<Longrightarrow> j < i"
  unfolding top_is_def by (metis (no_types, lifting) case_prod_conv hd_dropWhile linorder_not_le list.discI list.sel(1))

lemma dropWhile_weaker:
  "(\<And>x. P x \<Longrightarrow> Q x) \<Longrightarrow> dropWhile Q (dropWhile P xs) = dropWhile Q xs"
  by (induction xs) auto

lemma top_is_outer:
  assumes "top_is (i + int w) P' i ((j, P) # rest) st" "j < i" "0 < w"
  shows "top_is i P j rest st"
proof -
  have "dropWhile (\<lambda>(l, p). i \<le> l) st = dropWhile (\<lambda>(l, p). i \<le> l) (dropWhile (\<lambda>(l, p). i + int w \<le> l) st)"
    by (rule dropWhile_weaker [symmetric]) auto
  then show ?thesis using assms by (simp add: top_is_def)
qed

lemma leaf_line:
  assumes "key_ok k" "tail_ok r" "value_text r \<noteq> []" "top_is (int i) P j rest st" "focus P C"
  shows "yaml_line (replicate i (CHR '' '') @ k @ CHR '':'' # r) (C d, st)
    = (C (AList.update k (denotes (Leaf r)) d), (j, P) # rest)"
  using line_parts [OF assms(1,2), of i] assms(3,4) focus_put [OF assms(5)]
  by (simp add: yaml_line_def top_is_def Let_def)

lemma node_line:
  assumes "key_ok k" "tail_ok r" "value_text r = []" "top_is (int i) P j rest st" "focus P C"
  shows "yaml_line (replicate i (CHR '' '') @ k @ CHR '':'' # r) (C d, st)
    = (C (AList.update k (JObj []) d), (int i, P @ [k]) # (j, P) # rest)"
  using line_parts [OF assms(1,2), of i] assms(3,4) focus_put [OF assms(5)]
  by (simp add: yaml_line_def top_is_def Let_def)

text \<open>A block of entries read below one dictionary: it gets their values, in order.\<close>

definition reads_block :: "nat \<Rightarrow> (string \<times> ytree) list \<Rightarrow> bool" where
  "reads_block i es \<longleftrightarrow> (\<forall>P C d j rest st. focus P C \<longrightarrow> top_is (int i) P j rest st \<longrightarrow> distinct (map fst d @ map fst es) \<longrightarrow>
     (\<exists>st'. fold yaml_line (concat (map (\<lambda>(k, t). render i k t) es)) (C d, st)
        = (C (d @ map (\<lambda>(k, t). (k, denotes t)) es), st') \<and> top_is (int i) P j rest st'))"

lemma reads_block_Nil: "reads_block i []"
  by (simp add: reads_block_def)

lemma reads_entry:
  assumes "key_ok k" "ytree_ok t" "focus P C" "top_is (int i) P j rest st" "k \<notin> fst ` set d"
    and sub: "\<And>r w es. t = Node r w es \<Longrightarrow> reads_block (i + w) es"
  shows "\<exists>st'. fold yaml_line (render i k t) (C d, st) = (C (d @ [(k, denotes t)]), st') \<and> top_is (int i) P j rest st'"
proof (cases t)
  case (Leaf r)
  then show ?thesis
    using leaf_line [OF assms(1) _ _ assms(4,3)] assms(2,5) top_is_less [OF assms(4)] by (simp add: update_new top_is_def)
next
  case (Node r w es)
  let ?C = "\<lambda>d'. C (AList.update k (JObj d') d)" and ?st = "(int i, P @ [k]) # (j, P) # rest"
  have ok: "tail_ok r" "value_text r = []" "0 < w" "distinct (map fst es)" using assms(2) Node by auto
  have top: "top_is (int (i + w)) (P @ [k]) (int i) ((j, P) # rest) ?st" using ok(3) by (simp add: top_is_def)
  then obtain st' where st': "fold yaml_line (concat (map (\<lambda>(k, t). render (i + w) k t) es)) (?C [], ?st)
        = (?C (map (\<lambda>(k, t). (k, denotes t)) es), st')" "top_is (int (i + w)) (P @ [k]) (int i) ((j, P) # rest) st'"
    using sub [OF Node, unfolded reads_block_def, rule_format, OF focus_sub [OF assms(3)] top, of "[]" d] ok(4) by auto
  have "top_is (int i) P j rest st'"
    using top_is_outer [OF _ top_is_less [OF assms(4)] ok(3)] st'(2) by simp
  then show ?thesis
    using st'(1) node_line [OF assms(1) ok(1,2) assms(4,3)] assms(5) by (simp add: Node update_new)
qed

lemma reads_block_Cons:
  assumes "key_ok k" "ytree_ok t" "\<And>r w es. t = Node r w es \<Longrightarrow> reads_block (i + w) es" "reads_block i es"
  shows "reads_block i ((k, t) # es)"
  unfolding reads_block_def
proof (intro allI impI)
  fix P C j rest st
  fix d :: "(string \<times> json) list"
  assume a: "focus P C" "top_is (int i) P j rest st" "distinct (map fst d @ map fst ((k, t) # es))"
  obtain st1 where st1: "fold yaml_line (render i k t) (C d, st) = (C (d @ [(k, denotes t)]), st1)" "top_is (int i) P j rest st1"
    using reads_entry [OF assms(1,2) a(1,2)] assms(3) a(3) by force
  obtain st2 where "fold yaml_line (concat (map (\<lambda>(k, t). render i k t) es)) (C (d @ [(k, denotes t)]), st1)
      = (C ((d @ [(k, denotes t)]) @ map (\<lambda>(k, t). (k, denotes t)) es), st2)" "top_is (int i) P j rest st2"
    using assms(4) [unfolded reads_block_def, rule_format, OF a(1) st1(2), of "d @ [(k, denotes t)]"] a(3) by auto
  then show "\<exists>st'. fold yaml_line (concat (map (\<lambda>(k, t). render i k t) ((k, t) # es))) (C d, st)
      = (C (d @ map (\<lambda>(k, t). (k, denotes t)) ((k, t) # es)), st') \<and> top_is (int i) P j rest st'"
    using st1(1) by auto
qed

lemma reads_blocks:
  "list_all (\<lambda>(k, t). key_ok k \<and> ytree_ok t \<and> (\<forall>i r w es. t = Node r w es \<longrightarrow> reads_block i es)) es \<Longrightarrow> reads_block i es"
  by (induction es) (auto intro!: reads_block_Nil reads_block_Cons)

lemma reads_node: "ytree_ok t \<Longrightarrow> t = Node r w es \<Longrightarrow> reads_block i es"
proof (induction t arbitrary: r w es i)
  case (Node r' w' es')
  have "reads_block i' es''" if "(k, t) \<in> set es'" "ytree_ok t" "t = Node r'' w'' es''" for k t i' r'' w'' es''
    using Node.IH [OF that(1) _ that(2,3)] by simp
  then show ?case
    using Node.prems by (intro reads_blocks) (fastforce simp: list_all_iff)
qed simp

lemma reads_doc: "doc_ok es \<Longrightarrow> reads_block i es"
  unfolding doc_ok_def by (intro reads_blocks) (auto simp: list_all_iff intro: reads_node)

section \<open>The parser\<close>


section \<open>A shipped profile\<close>

text \<open>
  \<^verbatim>\<open>configs/safety/tabletop_safe.yaml\<close>, line by line, and its layout. Read without PyYAML it is the
  profile the dataclass has as its default.
\<close>

definition tabletop_safe_lines :: "string list" where
  "tabletop_safe_lines =
     [''# tabletop_safe -- the conservative default for shared/tabletop manipulation.'',
      ''#'',
      ''# These numbers are a STARTING TEMPLATE. Validate them on YOUR cell at low speed'',
      ''# before trusting them; workspace bounds in particular are cell-specific.'',
      ''name: tabletop_safe'',
      '''',
      ''# Axis-aligned TCP workspace box, base frame, metres.'',
      ''workspace:'',
      ''  x: [0.25, 0.75]'',
      ''  y: [-0.45, 0.45]'',
      ''  z: [0.06, 0.70]'',
      '''',
      ''tcp_limits:'',
      ''  max_linear_speed: 0.25       # m/s'',
      ''  max_angular_speed: 0.60      # rad/s'',
      ''  max_pose_jump_linear: 0.03   # m  per control tick'',
      ''  max_pose_jump_angular: 0.15  # rad per control tick'',
      '''',
      ''joint_limits:'',
      ''  margin_rad: 0.08'',
      ''  max_joint_speed_scale: 0.30  # fraction of nominal joint velocity limit'',
      '''',
      ''contact:'',
      ''  max_wrench: [40, 40, 40, 5, 5, 5]   # [fx,fy,fz,tx,ty,tz] -> hard stop if exceeded'',
      '''',
      ''watchdog:'',
      ''  command_timeout_ms: 100'',
      ''  state_timeout_ms: 20'',
      ''  stop_on_stale_command: true'']"

definition tabletop_safe_doc :: "(string \<times> ytree) list" where
  "tabletop_safe_doc =
     [(''name'', Leaf '' tabletop_safe''),
      (''workspace'', Node '''' 2 [(''x'', Leaf '' [0.25, 0.75]''),
         (''y'', Leaf '' [-0.45, 0.45]''),
         (''z'', Leaf '' [0.06, 0.70]'')]),
      (''tcp_limits'', Node '''' 2 [(''max_linear_speed'', Leaf '' 0.25       # m/s''),
         (''max_angular_speed'', Leaf '' 0.60      # rad/s''),
         (''max_pose_jump_linear'', Leaf '' 0.03   # m  per control tick''),
         (''max_pose_jump_angular'', Leaf '' 0.15  # rad per control tick'')]),
      (''joint_limits'', Node '''' 2 [(''margin_rad'', Leaf '' 0.08''),
         (''max_joint_speed_scale'', Leaf '' 0.30  # fraction of nominal joint velocity limit'')]),
      (''contact'', Node '''' 2 [(''max_wrench'', Leaf '' [40, 40, 40, 5, 5, 5]   # [fx,fy,fz,tx,ty,tz] -> hard stop if exceeded'')]),
      (''watchdog'', Node '''' 2 [(''command_timeout_ms'', Leaf '' 100''),
         (''state_timeout_ms'', Leaf '' 20''),
         (''stop_on_stale_command'', Leaf '' true'')])]"

lemmas scalar_simps = py_int_def py_float_def signed_def digit_part_def exp_float_def point_float_def is_exp_def
  before_def after_def is_digit_def digit_def strip_def strip_chars_def py_space_def str_lower_def Let_def

lemma tabletop_safe_text:
  "filter significant (splitlines (unlines tabletop_safe_lines)) = doc_lines tabletop_safe_doc"
proof -
  have "splitlines (unlines tabletop_safe_lines) = tabletop_safe_lines"
    by (rule splitlines_unlines) (simp add: tabletop_safe_lines_def line_break_def)
  then show ?thesis
    by (simp add: tabletop_safe_lines_def tabletop_safe_doc_def doc_lines_def significant_def strip_def strip_chars_def
        py_space_def numeral_eq_Suc)
qed

lemma tabletop_safe_doc_ok: "doc_ok tabletop_safe_doc"
  by (simp add: tabletop_safe_doc_def doc_ok_def key_ok_def tail_ok_def value_text_def before_def strip_def strip_chars_def
      py_space_def)

lemma tabletop_safe_value:
  "profile_from_dict (JObj (map (\<lambda>(k, t). (k, denotes t)) tabletop_safe_doc)) = Inr default_profile"
proof -
  have doc: "map (\<lambda>(k, t). (k, denotes t)) tabletop_safe_doc = [(''name'', JStr ''tabletop_safe''),
      (''workspace'', JObj [(''x'', JList [JNum (25/100), JNum (75/100)]), (''y'', JList [JNum (- 45/100), JNum (45/100)]),
         (''z'', JList [JNum (6/100), JNum (70/100)])]),
      (''tcp_limits'', JObj [(''max_linear_speed'', JNum (25/100)), (''max_angular_speed'', JNum (60/100)),
         (''max_pose_jump_linear'', JNum (3/100)), (''max_pose_jump_angular'', JNum (15/100))]),
      (''joint_limits'', JObj [(''margin_rad'', JNum (8/100)), (''max_joint_speed_scale'', JNum (30/100))]),
      (''contact'', JObj [(''max_wrench'', JList [JInt 40, JInt 40, JInt 40, JInt 5, JInt 5, JInt 5])]),
      (''watchdog'', JObj [(''command_timeout_ms'', JInt 100), (''state_timeout_ms'', JInt 20),
         (''stop_on_stale_command'', JBool True)])]"
    by (simp add: tabletop_safe_doc_def value_text_def parse_scalar.simps scalar_simps)
  show ?thesis
    unfolding doc
    by (simp add: profile_from_dict_def default_profile_def read_if_def get_float_def get_float_opt_def get_flag_def
        jfloats_def Let_def)
qed


section \<open>Nulls\<close>

text \<open>
  The built-in parser has no null: a width written \<open>null\<close> is refused without PyYAML and means the
  default with it, where a control period written \<open>null\<close> (its documented default) is refused.
\<close>

lemma null_not_portable:
  "config_from_dict repr (mini_yaml (unlines [''gripper_home_width: null''])) = Inl ValueError"
  "config_from_dict repr (JObj [(''gripper_home_width'', JNull)]) = Inr default_config"
  "config_from_dict repr (JObj [(''control_dt'', JNull)]) = Inl TypeError"
proof -
  have "splitlines (unlines [''gripper_home_width: null'']) = [''gripper_home_width: null'']"
    by (rule splitlines_unlines) (simp add: line_break_def)
  then have "mini_yaml (unlines [''gripper_home_width: null'']) = JObj [(''gripper_home_width'', JStr ''null'')]"
    by (simp add: mini_yaml_def yaml_line_def significant_def indent_of_def lstrip_def key_of_def val_of_def parse_scalar.simps
        scalar_simps)
  then show "config_from_dict repr (mini_yaml (unlines [''gripper_home_width: null''])) = Inl ValueError"
    by (simp add: config_from_dict_def default_config_def read_if_def to_opt_def of_opt_def scalar_simps)
  show "config_from_dict repr (JObj [(''gripper_home_width'', JNull)]) = Inr default_config"
    "config_from_dict repr (JObj [(''control_dt'', JNull)]) = Inl TypeError"
    by (simp_all add: config_from_dict_def default_config_def read_if_def py_str_def to_opt_def of_opt_def Let_def)
qed

end
