(* ===== verification/Clients.thy ===== *)
theory Clients
  imports Remote
begin

text \<open>
  The robot as its in-process clients see it: \<^verbatim>\<open>Robot\<close> and \<^verbatim>\<open>RemoteRobot\<close> offer the same calls, and the
  teleoperation, the RL environment and the dataset adapter take either. The record of those calls
  over the client's world, and the two objects as instances of it.
\<close>

record 'w arm =
  am_connect :: "('w, unit) sem"
  am_disconnect :: "('w, unit) sem"
  am_acquire_lease :: "string option \<Rightarrow> ('w, unit) sem"
  am_release_lease :: "('w, unit) sem"
  am_set_safety_profile :: "string \<Rightarrow> ('w, unit) sem"
  am_get_state :: "('w, robot_state) sem"
  am_start_cartesian_impedance :: "('w, unit) sem"
  am_servo_cartesian_delta ::
    "real list \<Rightarrow> real option \<Rightarrow> string \<Rightarrow> gripper_command option \<Rightarrow> ('w, exec_result) sem"
  am_servo_cartesian_pose :: "real list \<Rightarrow> real \<Rightarrow> ('w, exec_result) sem"
  am_home :: "('w, unit) sem"
  am_stop :: "('w, unit) sem"

text \<open>\<open>Robot\<close>: \<open>acquire_lease()\<close> without an owner is a call with a missing argument.\<close>

definition local_arm ::
  "'b backend \<Rightarrow> (string \<Rightarrow> safety_profile result) \<Rightarrow> (real \<times> real) list \<Rightarrow> 'b robot arm" where
  "local_arm B load elapsed =
     \<lparr>am_connect = robot_connect B, am_disconnect = robot_disconnect B,
      am_acquire_lease = (\<lambda>owner. case owner of None \<Rightarrow> raiseS TypeError | Some name \<Rightarrow> robot_acquire_lease name),
      am_release_lease = robot_release_lease, am_set_safety_profile = robot_set_profile load,
      am_get_state = get_state B,
      am_start_cartesian_impedance = start_cartesian_impedance B None False None None,
      am_servo_cartesian_delta = servo_cartesian_delta_raw B,
      am_servo_cartesian_pose = (\<lambda>p d. servo_cartesian_pose B p d None),
      am_home = robot_home B None None None elapsed, am_stop = robot_stop B\<rparr>"

definition remote_arm :: "'w rpc \<Rightarrow> 'w remote arm" where
  "remote_arm rpc =
     \<lparr>am_connect = remote_connect rpc, am_disconnect = remote_close rpc,
      am_acquire_lease = (\<lambda>owner. remote_acquire_lease rpc owner False),
      am_release_lease = remote_release_lease rpc, am_set_safety_profile = remote_set_safety_profile rpc,
      am_get_state = remote_get_state rpc,
      am_start_cartesian_impedance = remote_start_cartesian_impedance rpc False None None None,
      am_servo_cartesian_delta = remote_servo_cartesian_delta rpc,
      am_servo_cartesian_pose = (\<lambda>p d. remote_servo_cartesian_pose rpc p d None),
      am_home = remote_home rpc None None None, am_stop = remote_stop rpc\<rparr>"

text \<open>
  \<open>try: robot.acquire_lease(owner)  except TypeError: robot.acquire_lease()\<close>, written alike by every
  client, and \<open>try: robot.set_safety_profile(name)  except FileNotFoundError: pass\<close>.
\<close>

definition take_lease :: "'w arm \<Rightarrow> string \<Rightarrow> ('w, unit) sem" where
  "take_lease A owner =
     catchS (am_acquire_lease A (Some owner))
       (\<lambda>e. if e = TypeError then am_acquire_lease A None else raiseS e)"

definition choose_profile :: "'w arm \<Rightarrow> string \<Rightarrow> ('w, unit) sem" where
  "choose_profile A name =
     catchS (am_set_safety_profile A name) (\<lambda>e. if e = FileNotFoundError then retS () else raiseS e)"

text \<open>Element-wise operations on the three-vectors of an action.\<close>

definition vmap :: "(real \<Rightarrow> real) \<Rightarrow> vec3 \<Rightarrow> vec3" where
  "vmap f v = Vec3 (f (vx v)) (f (vy v)) (f (vz v))"

definition vmul :: "vec3 \<Rightarrow> vec3 \<Rightarrow> vec3" where
  "vmul u v = Vec3 (vx u * vx v) (vy u * vy v) (vz u * vz v)"

text \<open>
  A 7-vector action: the clipped components, the six-component delta they scale to, and the gripper
  command of the last one.
\<close>

definition clip_action :: "real list \<Rightarrow> real list result" where
  "clip_action a = (if length a = 7 then Inr (map (\<lambda>x. np_clip x (- 1) 1) a) else Inl ValueError)"

definition scale_delta :: "real \<Rightarrow> real \<Rightarrow> real list \<Rightarrow> real list" where
  "scale_delta pos_scale rot_scale a =
     map (\<lambda>x. x * pos_scale) (take 3 a) @ map (\<lambda>x. x * rot_scale) (take 3 (drop 3 a))"

end
