(* ===== verification/Teleop.thy ===== *)
theory Teleop
  imports Clients Py_Loop
begin

text \<open>
  \<^verbatim>\<open>teleop/spacemouse.py\<close>: a six-axis input device that drives the robot, and the same device as an
  intervention over a policy's actions. The device is a parameter: what it reads, on the world the
  robot is in. Whether the requested duration has passed at each check is a parameter too. Pacing
  sleeps have no effect; the reading has its three-vectors already.
\<close>

section \<open>The device\<close>

record mouse =
  ms_translation :: vec3
  ms_rotation :: vec3
  ms_buttons :: "int list"

definition magnitude :: "mouse \<Rightarrow> real" where
  "magnitude st = sqrt ((norm (ms_translation st))\<^sup>2 + (norm (ms_rotation st))\<^sup>2)"

record 'w source =
  so_open :: "('w, unit) sem"
  so_close :: "('w, unit) sem"
  so_read :: "('w, mouse) sem"

text \<open>\<open>len(buttons) > n and bool(buttons[n])\<close>: a negative index counts from the end.\<close>

definition button :: "int list \<Rightarrow> int \<Rightarrow> bool result" where
  "button bs n =
     (if int (length bs) \<le> n then Inr False
      else if 0 \<le> n then Inr (bs ! nat n \<noteq> 0)
      else if nat (- n) \<le> length bs then Inr (bs ! (length bs - nat (- n)) \<noteq> 0)
      else Inl IndexError)"

section \<open>The object\<close>

record tele_cfg =
  tp_dt :: real
  tp_pos_scale :: real
  tp_rot_scale :: real
  tp_deadband :: real
  tp_deadman_button :: "int option"
  tp_gripper_button :: int
  tp_open_width :: real
  tp_close_width :: real
  tp_signs_lin :: vec3
  tp_signs_rot :: vec3
  tp_frame :: string
  tp_owner :: string

record 'w tele =
  t_world :: 'w
  t_gripper_open :: "bool option"
  t_prev_button :: bool

definition default_tele :: tele_cfg where
  "default_tele = \<lparr>tp_dt = 1/100, tp_pos_scale = 6/100, tp_rot_scale = 1/2, tp_deadband = 5/100,
     tp_deadman_button = Some 0, tp_gripper_button = 1, tp_open_width = 9/100, tp_close_width = 1/100,
     tp_signs_lin = Vec3 1 1 1, tp_signs_rot = Vec3 1 1 1, tp_frame = ''base'', tp_owner = ''spacemouse''\<rparr>"

definition mk_tele :: "bool option \<Rightarrow> 'w \<Rightarrow> 'w tele" where
  "mk_tele initial_open w = \<lparr>t_world = w, t_gripper_open = initial_open, t_prev_button = False\<rparr>"

definition onT :: "('w, 'a) sem \<Rightarrow> ('w tele, 'a) sem" where
  "onT m s = (case m (t_world s) of (x, w') \<Rightarrow> (x, s\<lparr>t_world := w'\<rparr>))"

section \<open>The mapping\<close>

definition apply_deadband :: "tele_cfg \<Rightarrow> vec3 \<Rightarrow> vec3" where
  "apply_deadband T = vmap (\<lambda>x. if \<bar>x\<bar> < tp_deadband T then 0 else x)"

definition to_delta :: "tele_cfg \<Rightarrow> mouse \<Rightarrow> real list" where
  "to_delta T st =
     of_vec3 ((tp_pos_scale T * tp_dt T) *\<^sub>R vmul (apply_deadband T (ms_translation st)) (tp_signs_lin T))
     @ of_vec3 ((tp_rot_scale T * tp_dt T) *\<^sub>R vmul (apply_deadband T (ms_rotation st)) (tp_signs_rot T))"

text \<open>The width the robot reports decides once whether the gripper starts open; no report means closed.\<close>

definition gripper_is_open :: "'w arm \<Rightarrow> ('w tele, bool) sem" where
  "gripper_is_open A =
     bindS (getS t_gripper_open) (\<lambda>o'.
       case o' of
         Some b \<Rightarrow> retS b
       | None \<Rightarrow>
           bindS (catchS (bindS (onT (am_get_state A)) (\<lambda>s. retS (4/100 < st_gripper_width s))) (\<lambda>e. retS False)) (\<lambda>b.
           thenS (modS (\<lambda>s. s\<lparr>t_gripper_open := Some b\<rparr>)) (retS b)))"

definition deadman_ok :: "tele_cfg \<Rightarrow> mouse \<Rightarrow> bool result" where
  "deadman_ok T st = (case tp_deadman_button T of None \<Rightarrow> Inr True | Some n \<Rightarrow> button (ms_buttons st) n)"

definition toggle_command :: "tele_cfg \<Rightarrow> bool \<Rightarrow> gripper_command" where
  "toggle_command T open' = default_gripper\<lparr>g_width := (if open' then tp_open_width T else tp_close_width T),
     g_force := 20, g_grasp := \<not> open'\<rparr>"

definition gripper_from_buttons :: "'w arm \<Rightarrow> tele_cfg \<Rightarrow> mouse \<Rightarrow> ('w tele, gripper_command option) sem" where
  "gripper_from_buttons A T st =
     bindS (liftS (button (ms_buttons st) (tp_gripper_button T))) (\<lambda>pressed.
     bindS (getS t_prev_button) (\<lambda>prev.
     thenS (modS (\<lambda>s. s\<lparr>t_prev_button := pressed\<rparr>))
       (if \<not> (pressed \<and> \<not> prev) then retS None
        else bindS (gripper_is_open A) (\<lambda>open'.
             thenS (modS (\<lambda>s. s\<lparr>t_gripper_open := Some (\<not> open')\<rparr>))
               (retS (Some (toggle_command T (\<not> open'))))))))"

section \<open>The intervention\<close>

definition intervention ::
  "'w arm \<Rightarrow> 'w source \<Rightarrow> tele_cfg \<Rightarrow> real list \<Rightarrow> ('w tele, real list \<times> bool) sem" where
  "intervention A S T policy_action =
     bindS (onT (so_read S)) (\<lambda>st.
     bindS (gripper_from_buttons A T st) (\<lambda>grip.
     bindS (liftS (if tp_deadband T < magnitude st then deadman_ok T st else Inr False)) (\<lambda>moving.
       if \<not> moving then
         (if length policy_action = 7 then retS (policy_action, False) else raiseS ValueError)
       else bindS (gripper_is_open A) (\<lambda>open'.
            retS (of_vec3 (vmap (\<lambda>x. np_clip x (- 1) 1) (apply_deadband T (ms_translation st)))
                  @ of_vec3 (vmap (\<lambda>x. np_clip x (- 1) 1) (apply_deadband T (ms_rotation st)))
                  @ [if open' then 1 else - 1], True)))))"

section \<open>The loop\<close>

definition teleop_tick :: "'w arm \<Rightarrow> 'w source \<Rightarrow> tele_cfg \<Rightarrow> nat \<Rightarrow> ('w tele, nat \<times> bool) sem" where
  "teleop_tick A S T ticks =
     bindS (onT (so_read S)) (\<lambda>st.
     bindS (gripper_from_buttons A T st) (\<lambda>grip.
     bindS (liftS (deadman_ok T st)) (\<lambda>ok.
     thenS (if ok then thenS (onT (am_servo_cartesian_delta A (to_delta T st) (Some (tp_dt T)) (tp_frame T) grip)) (retS ())
            else if grip \<noteq> None
            then thenS (onT (am_servo_cartesian_delta A [0, 0, 0, 0, 0, 0] (Some (tp_dt T)) (tp_frame T) grip)) (retS ())
            else retS ())
       (retS (ticks + 1, True)))))"

text \<open>\<open>expired n\<close>: a duration was asked for and has passed at the check before tick \<open>n + 1\<close>.\<close>

definition teleop_go :: "(nat \<Rightarrow> bool) \<Rightarrow> int option \<Rightarrow> nat \<Rightarrow> bool" where
  "teleop_go expired max_ticks ticks \<longleftrightarrow>
     \<not> expired ticks \<and> (case max_ticks of None \<Rightarrow> True | Some m \<Rightarrow> int ticks < m)"

definition teleop_run ::
  "'w arm \<Rightarrow> 'w source \<Rightarrow> tele_cfg \<Rightarrow> (nat \<Rightarrow> bool) \<Rightarrow> int option \<Rightarrow> 'w tele \<Rightarrow> (nat result \<times> 'w tele) option" where
  "teleop_run A S T expired max_ticks s =
     (case thenS (onT (so_open S)) (thenS (onT (take_lease A (tp_owner T))) (onT (am_start_cartesian_impedance A))) s of
        (Inl e, s') \<Rightarrow> Some (Inl e, s')
      | (Inr _, s') \<Rightarrow>
          (case while_from (teleop_go expired max_ticks) (teleop_tick A S T) 0 s' of
             None \<Rightarrow> None
           | Some (out, s'') \<Rightarrow> Some (finallyS (\<lambda>s. (out, s)) (\<lambda>r. thenS (onT (so_close S)) (retS r)) s'')))"

text \<open>The scripted source without a device: a function of the time since it was opened.\<close>

definition scripted_default :: "real \<Rightarrow> mouse" where
  "scripted_default t = \<lparr>ms_translation = Vec3 (3/10 * cos t) (3/10 * sin t) 0, ms_rotation = 0, ms_buttons = [1, 0]\<rparr>"

end
