(* ===== verification/Gym_Env.thy ===== *)
theory Gym_Env
  imports Teleop
begin

text \<open>
  \<^verbatim>\<open>envs/gym_env.py\<close> and \<^verbatim>\<open>adapters/lerobot_robot.py\<close>: the reinforcement-learning environment, its
  human-intervention wrapper and the dataset adapter, over either robot object. The reward function is
  a parameter. Gymnasium's own bookkeeping (the seed, the registration) and the rounding of
  observations to 32 bits are not modelled.
\<close>

section \<open>The environment\<close>

record env_cfg =
  ec_step_duration :: real
  ec_max_episode_steps :: int
  ec_safety_profile :: string
  ec_pos_scale :: real
  ec_rot_scale :: real
  ec_open_width :: real
  ec_force :: real
  ec_home_pose :: "real list option"
  ec_owner :: string

text \<open>The constructor, at its defaults but for the rate, the horizon and the home pose.\<close>

definition mk_env_cfg :: "real \<Rightarrow> int \<Rightarrow> real list option \<Rightarrow> env_cfg result" where
  "mk_env_cfg control_hz action_horizon home_pose =
     (if control_hz = 0 then Inl ZeroDivisionError
      else if (case home_pose of None \<Rightarrow> False | Some p \<Rightarrow> length p \<noteq> 7) then Inl ValueError
      else Inr \<lparr>ec_step_duration = of_int action_horizon / control_hz, ec_max_episode_steps = 200,
                ec_safety_profile = ''rl_conservative'', ec_pos_scale = 5/100, ec_rot_scale = 20/100,
                ec_open_width = 8/100, ec_force = 20, ec_home_pose = home_pose, ec_owner = ''rl_env''\<rparr>)"

type_synonym reward_fn = "real list \<Rightarrow> real list \<Rightarrow> real \<times> bool \<times> (string \<times> json) list"

record 'w env =
  e_world :: 'w
  e_connected :: bool
  e_elapsed :: int

definition onE :: "('w, 'a) sem \<Rightarrow> ('w env, 'a) sem" where
  "onE m s = (case m (e_world s) of (x, w') \<Rightarrow> (x, s\<lparr>e_world := w'\<rparr>))"

definition ensure_connected :: "'w arm \<Rightarrow> env_cfg \<Rightarrow> ('w env, unit) sem" where
  "ensure_connected A E =
     bindS (getS e_connected) (\<lambda>connected.
       if connected then retS ()
       else thenS (onE (am_connect A))
           (thenS (onE (take_lease A (ec_owner E)))
           (thenS (onE (choose_profile A (ec_safety_profile E)))
             (modS (\<lambda>s. s\<lparr>e_connected := True\<rparr>)))))"

definition observation :: "robot_state \<Rightarrow> real list" where
  "observation st = st_q st @ st_dq st @ of_pose (st_tcp_pose st) @ st_wrench st @ [st_gripper_width st]"

definition env_obs :: "'w arm \<Rightarrow> ('w env, real list) sem" where
  "env_obs A = bindS (onE (am_get_state A)) (\<lambda>st. retS (observation st))"

definition scale_action :: "env_cfg \<Rightarrow> real list \<Rightarrow> (real list \<times> gripper_command) result" where
  "scale_action E action =
     bindR (clip_action action) (\<lambda>a.
       Inr (scale_delta (ec_pos_scale E) (ec_rot_scale E) a,
            from_signed_action (a ! 6) (ec_open_width E) 0 (ec_force E) (1/10)))"

definition env_reset :: "'w arm \<Rightarrow> env_cfg \<Rightarrow> ('w env, real list) sem" where
  "env_reset A E =
     thenS (ensure_connected A E)
    (thenS (case ec_home_pose E of
              Some p \<Rightarrow> thenS (onE (am_start_cartesian_impedance A)) (thenS (onE (am_servo_cartesian_pose A p 2)) (retS ()))
            | None \<Rightarrow> thenS (onE (am_home A)) (onE (am_start_cartesian_impedance A)))
    (thenS (modS (\<lambda>s. s\<lparr>e_elapsed := 0\<rparr>))
       (env_obs A)))"

record transition =
  tr_obs :: "real list"
  tr_reward :: real
  tr_terminated :: bool
  tr_truncated :: bool
  tr_info :: "(string \<times> json) list"

definition step_info :: "exec_result \<Rightarrow> (string \<times> json) list" where
  "step_info res =
     [(''execution_success'', JBool (er_success res)), (''clipped'', JBool (er_clipped res)),
      (''stop_reason'', JStr (er_stop_reason res)), (''path_tracking_error'', JNum (er_path_tracking_error res)),
      (''max_wrench'', JNum (er_max_wrench res))]"

definition env_step :: "'w arm \<Rightarrow> env_cfg \<Rightarrow> reward_fn option \<Rightarrow> real list \<Rightarrow> ('w env, transition) sem" where
  "env_step A E reward_fn action =
     thenS (modS (\<lambda>s. s\<lparr>e_elapsed := e_elapsed s + 1\<rparr>))
    (bindS (liftS (scale_action E action)) (\<lambda>(delta, grip).
     bindS (onE (am_servo_cartesian_delta A delta (Some (ec_step_duration E)) ''base'' (Some grip))) (\<lambda>res.
     bindS (env_obs A) (\<lambda>obs.
     bindS (getS (\<lambda>s. ec_max_episode_steps E \<le> e_elapsed s)) (\<lambda>truncated.
       (case (case reward_fn of Some f \<Rightarrow> f obs action | None \<Rightarrow> (0, False, [])) of
          (reward, terminated, extra) \<Rightarrow>
            retS \<lparr>tr_obs = obs, tr_reward = reward, tr_terminated = terminated \<or> \<not> er_success res,
                  tr_truncated = truncated,
                  tr_info = fold (\<lambda>(k, v). AList.update k v) extra (step_info res)\<rparr>))))))"

text \<open>\<open>stop\<close>, then the lease given up at any price, then the connection; closed whatever happens.\<close>

definition leave_robot :: "'w arm \<Rightarrow> ('w, unit) sem" where
  "leave_robot A =
     thenS (am_stop A) (thenS (catchS (am_release_lease A) (\<lambda>e. retS ())) (am_disconnect A))"

definition env_close :: "'w arm \<Rightarrow> ('w env, unit) sem" where
  "env_close A =
     bindS (getS e_connected) (\<lambda>connected.
       if \<not> connected then retS ()
       else finallyS (onE (leave_robot A)) (\<lambda>r. thenS (modS (\<lambda>s. s\<lparr>e_connected := False\<rparr>)) (retS r)))"

section \<open>The intervention wrapper\<close>

text \<open>The operator's device acts on the world the environment's robot is in.\<close>

record 'w wrapped =
  wr_env :: "'w env"
  wr_gripper_open :: "bool option"
  wr_prev_button :: bool

definition on_tele :: "('w tele, 'a) sem \<Rightarrow> ('w wrapped, 'a) sem" where
  "on_tele m s =
     (case m \<lparr>t_world = e_world (wr_env s), t_gripper_open = wr_gripper_open s, t_prev_button = wr_prev_button s\<rparr> of
        (x, t) \<Rightarrow> (x, s\<lparr>wr_env := (wr_env s)\<lparr>e_world := t_world t\<rparr>, wr_gripper_open := t_gripper_open t,
                       wr_prev_button := t_prev_button t\<rparr>))"

definition on_env :: "('w env, 'a) sem \<Rightarrow> ('w wrapped, 'a) sem" where
  "on_env m s = (case m (wr_env s) of (x, e) \<Rightarrow> (x, s\<lparr>wr_env := e\<rparr>))"

definition intervention_step ::
  "'w arm \<Rightarrow> env_cfg \<Rightarrow> reward_fn option \<Rightarrow> 'w arm \<Rightarrow> 'w source \<Rightarrow> tele_cfg \<Rightarrow> real list \<Rightarrow> ('w wrapped, transition) sem" where
  "intervention_step A E reward_fn A' S T action0 =
     bindS (on_tele (intervention A' S T action0)) (\<lambda>(action, intervened).
     bindS (on_env (env_step A E reward_fn action)) (\<lambda>tr.
       retS (tr\<lparr>tr_info := AList.update ''intervened'' (JBool intervened)
                             (AList.update ''intervene_action'' (of_floats action) (tr_info tr))\<rparr>)))"

section \<open>The dataset adapter\<close>

record adapter_cfg =
  ac_step_duration :: real
  ac_safety_profile :: string
  ac_pos_scale :: real
  ac_rot_scale :: real
  ac_open_width :: real
  ac_owner :: string

record 'w adapter =
  la_world :: 'w
  la_connected :: bool

definition onA :: "('w, 'a) sem \<Rightarrow> ('w adapter, 'a) sem" where
  "onA m s = (case m (la_world s) of (x, w') \<Rightarrow> (x, s\<lparr>la_world := w'\<rparr>))"

definition adapter_connect :: "'w arm \<Rightarrow> adapter_cfg \<Rightarrow> ('w adapter, unit) sem" where
  "adapter_connect A L =
     bindS (getS la_connected) (\<lambda>connected.
       if connected then retS ()
       else thenS (onA (am_connect A))
           (thenS (onA (take_lease A (ac_owner L)))
           (thenS (onA (choose_profile A (ac_safety_profile L)))
           (thenS (onA (am_start_cartesian_impedance A))
             (modS (\<lambda>s. s\<lparr>la_connected := True\<rparr>))))))"

definition adapter_disconnect :: "'w arm \<Rightarrow> ('w adapter, unit) sem" where
  "adapter_disconnect A =
     bindS (getS la_connected) (\<lambda>connected.
       if \<not> connected then retS ()
       else finallyS (onA (leave_robot A)) (\<lambda>r. thenS (modS (\<lambda>s. s\<lparr>la_connected := False\<rparr>)) (retS r)))"

definition keyed :: "string \<Rightarrow> nat \<Rightarrow> string" where
  "keyed name i = name @ ''.'' @ show_nat i"

definition OBS_KEYS :: "string list" where
  "OBS_KEYS = map (keyed ''q'') [0..<7] @ map (keyed ''dq'') [0..<7] @ map (keyed ''tcp_pose'') [0..<7]
     @ map (keyed ''wrench'') [0..<6] @ [''gripper_width'']"

definition ACTION_KEYS :: "string list" where
  "ACTION_KEYS = [''dx'', ''dy'', ''dz'', ''drx'', ''dry'', ''drz'', ''gripper'']"

text \<open>\<open>obs[f"{name}.{i}"] = float(xs[i])\<close> for the first \<open>n\<close> indices\<close>

definition indexed :: "string \<Rightarrow> real list \<Rightarrow> nat \<Rightarrow> (string \<times> real) list result" where
  "indexed name xs n = mapR (\<lambda>i. if i < length xs then Inr (keyed name i, xs ! i) else Inl IndexError) [0..<n]"

definition get_observation :: "'w arm \<Rightarrow> ('w adapter, (string \<times> real) list) sem" where
  "get_observation A =
     bindS (onA (am_get_state A)) (\<lambda>st.
     liftS (bindR (indexed ''q'' (st_q st) 7) (\<lambda>q.
            bindR (indexed ''dq'' (st_dq st) 7) (\<lambda>dq.
            bindR (indexed ''tcp_pose'' (of_pose (st_tcp_pose st)) 7) (\<lambda>pose.
            bindR (indexed ''wrench'' (st_wrench st) 6) (\<lambda>wrench.
            Inr (q @ dq @ pose @ wrench @ [(''gripper_width'', st_gripper_width st)])))))))"

datatype action = Vector "real list" | Named "(string \<times> real) list"

definition action_vector :: "action \<Rightarrow> real list result" where
  "action_vector a =
     (case a of
        Vector v \<Rightarrow> Inr v
      | Named d \<Rightarrow> mapR (\<lambda>k. case map_of d k of None \<Rightarrow> Inl KeyError | Some x \<Rightarrow> Inr x) ACTION_KEYS)"

definition send_action :: "'w arm \<Rightarrow> adapter_cfg \<Rightarrow> action \<Rightarrow> ('w adapter, (string \<times> real) list) sem" where
  "send_action A L action =
     bindS (liftS (bindR (action_vector action) clip_action)) (\<lambda>a.
     thenS (onA (am_servo_cartesian_delta A (scale_delta (ac_pos_scale L) (ac_rot_scale L) a)
              (Some (ac_step_duration L)) ''base'' (Some (from_signed_action (a ! 6) (ac_open_width L) 0 20 (1/10)))))
       (retS (zip ACTION_KEYS a)))"

end
