(* ===== verification/Teleop_Proofs.thy ===== *)
theory Teleop_Proofs
  imports Teleop
begin

text \<open>
  What a teleoperation run does to the robot, read off the list of the device's readings and of the
  calls made: the deadman button gates motion, and the gripper toggles once per press of its button.
\<close>

section \<open>Runs with their events\<close>

datatype tele_event = Reading mouse | Servo "real list" "gripper_command option"

definition logged_arm :: "'w arm \<Rightarrow> ('w \<times> tele_event list) arm" where
  "logged_arm A =
     \<lparr>am_connect = on1 (am_connect A), am_disconnect = on1 (am_disconnect A),
      am_acquire_lease = (\<lambda>owner. on1 (am_acquire_lease A owner)), am_release_lease = on1 (am_release_lease A),
      am_set_safety_profile = (\<lambda>n. on1 (am_set_safety_profile A n)), am_get_state = on1 (am_get_state A),
      am_start_cartesian_impedance = on1 (am_start_cartesian_impedance A),
      am_servo_cartesian_delta = (\<lambda>d t f g. thenS (modS (\<lambda>v. (fst v, snd v @ [Servo d g])))
         (on1 (am_servo_cartesian_delta A d t f g))),
      am_servo_cartesian_pose = (\<lambda>p d. on1 (am_servo_cartesian_pose A p d)), am_home = on1 (am_home A),
      am_stop = on1 (am_stop A)\<rparr>"

definition logged_source :: "'w source \<Rightarrow> ('w \<times> tele_event list) source" where
  "logged_source S =
     \<lparr>so_open = on1 (so_open S), so_close = on1 (so_close S),
      so_read = bindS (on1 (so_read S)) (\<lambda>st. thenS (modS (\<lambda>v. (fst v, snd v @ [Reading st]))) (retS st))\<rparr>"

definition readings :: "tele_event list \<Rightarrow> mouse list" where
  "readings ev = concat (map (\<lambda>e. case e of Reading st \<Rightarrow> [st] | Servo d g \<Rightarrow> []) ev)"

definition toggles :: "tele_event list \<Rightarrow> gripper_command list" where
  "toggles ev = concat (map (\<lambda>e. case e of Servo d (Some g) \<Rightarrow> [g] | _ \<Rightarrow> []) ev)"

lemma event_lists [simp]:
  "readings [] = []" "readings (as @ bs) = readings as @ readings bs"
  "readings (Reading st # bs) = st # readings bs" "readings (Servo d g # bs) = readings bs"
  "toggles [] = []" "toggles (as @ bs) = toggles as @ toggles bs" "toggles (Reading st # bs) = toggles bs"
  "toggles (Servo d None # bs) = toggles bs" "toggles (Servo d (Some c) # bs) = c # toggles bs"
  by (simp_all add: readings_def toggles_def)

definition pressed :: "tele_cfg \<Rightarrow> mouse \<Rightarrow> bool" where
  "pressed T st \<longleftrightarrow> button (ms_buttons st) (tp_gripper_button T) = Inr True"

text \<open>Rising edges: readings with the button down after one with it up.\<close>

fun presses :: "tele_cfg \<Rightarrow> bool \<Rightarrow> mouse list \<Rightarrow> nat" where
  "presses T prev [] = 0"
| "presses T prev (st # sts) = (if pressed T st \<and> \<not> prev then 1 else 0) + presses T (pressed T st) sts"

definition held :: "tele_cfg \<Rightarrow> mouse list \<Rightarrow> bool" where
  "held T rs \<longleftrightarrow> rs \<noteq> [] \<and> pressed T (last rs)"

lemma presses_snoc:
  "presses T prev (rs @ [st]) = presses T prev rs
     + (if pressed T st \<and> \<not> (if rs = [] then prev else pressed T (last rs)) then 1 else 0)"
  by (induction rs arbitrary: prev) auto

section \<open>What every tick keeps\<close>

definition gated :: "tele_cfg \<Rightarrow> tele_event list \<Rightarrow> bool" where
  "gated T ev \<longleftrightarrow> (\<forall>as d g bs. ev = as @ Servo d g # bs \<longrightarrow> (\<exists>as' st b. as = as' @ [Reading st] \<and> deadman_ok T st = Inr b
     \<and> (if b then d = to_delta T st else d = [0, 0, 0, 0, 0, 0] \<and> g \<noteq> None)))"

definition alternating :: "tele_cfg \<Rightarrow> bool option \<Rightarrow> gripper_command list \<Rightarrow> bool" where
  "alternating T first gs \<longleftrightarrow> successively (\<lambda>a b. b = toggle_command T (g_grasp a)) gs
     \<and> (\<forall>o'. first = Some o' \<longrightarrow> gs \<noteq> [] \<longrightarrow> hd gs = toggle_command T (\<not> o'))"

lemma gated_Nil [simp]: "gated T []"
  by (simp add: gated_def)

lemma gated_Reading: "gated T ev \<Longrightarrow> gated T (ev @ [Reading st])"
  unfolding gated_def
proof (intro allI impI)
  fix as d g bs
  assume ok: "\<forall>as d g bs. ev = as @ Servo d g # bs \<longrightarrow> (\<exists>as' st b. as = as' @ [Reading st] \<and> deadman_ok T st = Inr b
      \<and> (if b then d = to_delta T st else d = [0, 0, 0, 0, 0, 0] \<and> g \<noteq> None))"
    and "ev @ [Reading st] = as @ Servo d g # bs"
  then show "\<exists>as' st b. as = as' @ [Reading st] \<and> deadman_ok T st = Inr b
      \<and> (if b then d = to_delta T st else d = [0, 0, 0, 0, 0, 0] \<and> g \<noteq> None)"
    by (cases bs rule: rev_cases) auto
qed

lemma gated_Servo:
  assumes "gated T ev" "deadman_ok T st = Inr b" "if b then d = to_delta T st else d = [0, 0, 0, 0, 0, 0] \<and> g \<noteq> None"
  shows "gated T ((ev @ [Reading st]) @ [Servo d g])"
  unfolding gated_def
proof (intro allI impI)
  fix as d' g' bs
  assume eq: "(ev @ [Reading st]) @ [Servo d g] = as @ Servo d' g' # bs"
  show "\<exists>as' st b. as = as' @ [Reading st] \<and> deadman_ok T st = Inr b
      \<and> (if b then d' = to_delta T st else d' = [0, 0, 0, 0, 0, 0] \<and> g' \<noteq> None)"
  proof (cases bs rule: rev_cases)
    case Nil
    then show ?thesis using eq assms(2,3) by (cases b) auto
  next
    case (snoc bs' b')
    then have "ev @ [Reading st] = as @ Servo d' g' # bs'" using eq by simp
    then show ?thesis using gated_Reading [OF assms(1), of st] unfolding gated_def by blast
  qed
qed

lemma alternating_snoc:
  assumes "alternating T first gs" "gs = [] \<Longrightarrow> first = Some (\<not> b) \<or> first = None" "gs \<noteq> [] \<Longrightarrow> b = g_grasp (last gs)"
  shows "alternating T first (gs @ [toggle_command T b])"
  using assms by (cases "gs = []") (auto simp: alternating_def successively_append_iff)

text \<open>The toggle state agrees with what has been sent and read.\<close>

definition tele_inv :: "tele_cfg \<Rightarrow> bool option \<Rightarrow> nat \<Rightarrow> ('w \<times> tele_event list) tele \<Rightarrow> bool" where
  "tele_inv T first n s \<longleftrightarrow> (let ev = snd (t_world s) in
     gated T ev \<and> n = length (readings ev) \<and> t_prev_button s = held T (readings ev)
     \<and> length (toggles ev) = presses T False (readings ev) \<and> alternating T first (toggles ev)
     \<and> (if toggles ev = [] then t_gripper_open s = first
        else t_gripper_open s = Some (\<not> g_grasp (last (toggles ev)))))"

definition tele_safe :: "tele_cfg \<Rightarrow> bool option \<Rightarrow> ('w \<times> tele_event list) tele \<Rightarrow> bool" where
  "tele_safe T first s \<longleftrightarrow> gated T (snd (t_world s)) \<and> alternating T first (toggles (snd (t_world s)))"


section \<open>One tick\<close>

lemma wpS_onT [wp_simps]:
  "wpS (onT m) Q E s = wpS m (\<lambda>x w. Q x (s\<lparr>t_world := w\<rparr>)) (\<lambda>e w. E e (s\<lparr>t_world := w\<rparr>)) (t_world s)"
  by (simp add: wpS_def onT_def split: prod.splits sum.splits)

text \<open>What reading the buttons gives and leaves.\<close>

definition grip_step ::
  "tele_cfg \<Rightarrow> mouse \<Rightarrow> 'w tele \<Rightarrow> gripper_command option \<Rightarrow> bool option \<Rightarrow> bool \<Rightarrow> bool" where
  "grip_step T st s grip open' prev \<longleftrightarrow> prev = pressed T st \<and>
     (if pressed T st \<and> \<not> t_prev_button s
      then \<exists>b. t_gripper_open s \<in> {None, Some (\<not> b)} \<and> grip = Some (toggle_command T b) \<and> open' = Some b
      else grip = None \<and> open' = t_gripper_open s)"

lemma gripper_from_buttons_wp:
  assumes "\<And>grip s'. grip_step T st s grip (t_gripper_open s') (t_prev_button s') \<Longrightarrow> snd (t_world s') = snd (t_world s) \<Longrightarrow> Q grip s'"
    and "\<And>e s'. snd (t_world s') = snd (t_world s) \<Longrightarrow> E e s'"
  shows "wpS (gripper_from_buttons (logged_arm A) T st) Q E s"
proof (cases "button (ms_buttons st) (tp_gripper_button T)")
  case (Inl e)
  then show ?thesis using assms(2) by (simp add: gripper_from_buttons_def wp_simps)
next
  case (Inr p)
  then have p: "pressed T st = p" by (simp add: pressed_def)
  show ?thesis
  proof (cases "p \<and> \<not> t_prev_button s")
    case False
    then show ?thesis using Inr p assms(1) by (auto simp: gripper_from_buttons_def wp_simps grip_step_def)
  next
    case rise: True
    show ?thesis
    proof (cases "t_gripper_open s")
      case None
      then show ?thesis
        using Inr p rise
        by (auto simp: gripper_from_buttons_def gripper_is_open_def logged_arm_def wp_simps grip_step_def
            intro!: wpS_any assms(1))
    next
      case (Some b)
      then show ?thesis
        using Inr p rise
        by (auto simp: gripper_from_buttons_def gripper_is_open_def wp_simps grip_step_def intro!: assms(1))
    qed
  qed
qed

lemma held_snoc [simp]: "held T (rs @ [st]) = pressed T st" "held T [st] = pressed T st"
  by (simp_all add: held_def)

lemma presses_after:
  "presses T False (rs @ [st]) = presses T False rs + (if pressed T st \<and> \<not> held T rs then 1 else 0)"
  by (simp add: presses_snoc held_def)

text \<open>The event list and the toggle state after a tick that made the call its reading asks for.\<close>

lemma tele_inv_sent:
  assumes "tele_inv T first n s" "grip_step T st s grip (t_gripper_open s') (t_prev_button s')"
    and "deadman_ok T st = Inr b" "if b then d = to_delta T st else d = [0, 0, 0, 0, 0, 0] \<and> grip \<noteq> None"
    and "snd (t_world s') = (snd (t_world s) @ [Reading st]) @ [Servo d grip]"
  shows "tele_inv T first (Suc n) s'"
proof -
  let ?ev = "snd (t_world s)"
  note inv = assms(1) [unfolded tele_inv_def Let_def]
  have g: "gated T (snd (t_world s'))" using gated_Servo [OF _ assms(3,4), of ?ev] inv assms(5) by simp
  show ?thesis
  proof (cases "pressed T st \<and> \<not> t_prev_button s")
    case True
    then obtain b' where b': "t_gripper_open s \<in> {None, Some (\<not> b')}" "grip = Some (toggle_command T b')"
        "t_gripper_open s' = Some b'" "t_prev_button s'"
      using assms(2) by (auto simp: grip_step_def)
    have "alternating T first (toggles ?ev @ [toggle_command T b'])"
      using inv b'(1) by (intro alternating_snoc) (auto split: if_splits)
    then show ?thesis
      using g inv b' True assms(5) by (simp add: tele_inv_def presses_after toggle_command_def)
  next
    case False
    then have "grip = None" "t_gripper_open s' = t_gripper_open s" "t_prev_button s' = pressed T st"
      using assms(2) by (auto simp: grip_step_def)
    then show ?thesis using g inv False assms(5) by (auto simp: tele_inv_def presses_after)
  qed
qed

lemma tele_inv_quiet:
  assumes "tele_inv T first n s" "grip_step T st s None (t_gripper_open s') (t_prev_button s')"
    and "snd (t_world s') = snd (t_world s) @ [Reading st]"
  shows "tele_inv T first (Suc n) s'"
  using assms gated_Reading [of T "snd (t_world s)" st]
  by (auto simp: tele_inv_def Let_def grip_step_def presses_after split: if_splits)

lemma tele_safe_inv: "tele_inv T first n s \<Longrightarrow> tele_safe T first s"
  by (simp add: tele_inv_def tele_safe_def Let_def)


lemma tele_safe_read:
  "tele_inv T first n s \<Longrightarrow> snd (t_world s') = snd (t_world s) @ [Reading st] \<Longrightarrow> tele_safe T first s'"
  using gated_Reading [of T "snd (t_world s)" st] by (simp add: tele_inv_def tele_safe_def Let_def)

lemma tele_safe_from: "tele_inv T first n s \<Longrightarrow> snd (t_world s') = snd (t_world s) \<Longrightarrow> tele_safe T first s'"
  by (simp add: tele_inv_def tele_safe_def Let_def)

text \<open>The reading, then what the rest of the tick does after it.\<close>

lemma wpS_read:
  assumes "\<And>st w'. Q st (s\<lparr>t_world := (w', snd (t_world s) @ [Reading st])\<rparr>)" "\<And>e w'. E e (s\<lparr>t_world := (w', snd (t_world s))\<rparr>)"
  shows "wpS (onT (so_read (logged_source S))) Q E s"
  using assms by (auto simp: logged_source_def wp_simps intro!: wpS_any)

lemma wpS_servo:
  assumes "\<And>x w'. Q x (s\<lparr>t_world := (w', snd (t_world s) @ [Servo d g])\<rparr>)"
    and "\<And>e w'. E e (s\<lparr>t_world := (w', snd (t_world s) @ [Servo d g])\<rparr>)"
  shows "wpS (onT (am_servo_cartesian_delta (logged_arm A) d t f g)) Q E s"
  using assms by (auto simp: logged_arm_def wp_simps intro!: wpS_any)

lemma tick_keeps:
  fixes s :: "('w \<times> tele_event list) tele"
  assumes "tele_inv T first n s"
  shows "wpS (teleop_tick (logged_arm A) (logged_source S) T n)
     (\<lambda>(k, go) s'. if go then tele_inv T first k s' else tele_inv T first k s') (\<lambda>_. tele_safe T first) s"
  unfolding teleop_tick_def wpS_bind
proof (rule wpS_read, rule gripper_from_buttons_wp)
  fix st w grip and s2 :: "('w \<times> tele_event list) tele"
  assume g: "grip_step T st (s\<lparr>t_world := (w, snd (t_world s) @ [Reading st])\<rparr>) grip (t_gripper_open s2) (t_prev_button s2)"
    and ev: "snd (t_world s2) = snd (t_world (s\<lparr>t_world := (w, snd (t_world s) @ [Reading st])\<rparr>))"
  have g': "grip_step T st s grip (t_gripper_open s2) (t_prev_button s2)" using g by (simp add: grip_step_def cong: if_cong)
  have ev': "snd (t_world s2) = snd (t_world s) @ [Reading st]" using ev by simp
  have sent: "tele_inv T first (Suc n) (s2\<lparr>t_world := (w', snd (t_world s2) @ [Servo d grip])\<rparr>)"
    if "deadman_ok T st = Inr b" "if b then d = to_delta T st else d = [0, 0, 0, 0, 0, 0] \<and> grip \<noteq> None" for b d w'
    by (rule tele_inv_sent [OF assms _ that]) (simp_all add: g' ev')
  show "wpS (liftS (deadman_ok T st)) (\<lambda>ok. wpS (thenS
      (if ok then thenS (onT (am_servo_cartesian_delta (logged_arm A) (to_delta T st) (Some (tp_dt T)) (tp_frame T) grip)) (retS ())
       else if grip \<noteq> None
            then thenS (onT (am_servo_cartesian_delta (logged_arm A) [0, 0, 0, 0, 0, 0] (Some (tp_dt T)) (tp_frame T) grip)) (retS ())
            else retS ())
      (retS (n + 1, True))) (\<lambda>(k, go) s'. if go then tele_inv T first k s' else tele_inv T first k s') (\<lambda>_. tele_safe T first))
      (\<lambda>_. tele_safe T first) s2"
  proof (cases "deadman_ok T st")
    case (Inl e)
    then show ?thesis using tele_safe_read [OF assms ev'] by (simp add: wp_simps)
  next
    case (Inr b)
    show ?thesis
      using sent [OF Inr] tele_inv_quiet [OF assms, of st s2] g' ev' Inr
      by (auto simp: wpS_base wpS_bind wpS_then wpS_if intro!: wpS_servo tele_safe_inv [where n = "Suc n"])
  qed
qed (auto intro: tele_safe_read [OF assms] tele_safe_from [OF assms])

section \<open>A run\<close>

lemma tele_run_inv:
  assumes "teleop_run (logged_arm A) (logged_source S) T expired max_ticks (mk_tele first (w, [])) = Some (out, s)"
  shows "tele_safe T first s \<and> (\<forall>n. out = Inr n \<longrightarrow> tele_inv T first n s)"
proof -
  let ?s0 = "mk_tele first (w, [])"
  let ?open = "thenS (onT (so_open (logged_source S))) (thenS (onT (take_lease (logged_arm A) (tp_owner T)))
      (onT (am_start_cartesian_impedance (logged_arm A))))"
  have start: "wpS ?open (\<lambda>_. tele_inv T first 0) (\<lambda>_. tele_safe T first) ?s0"
    by (auto simp: logged_source_def logged_arm_def take_lease_def wp_simps mk_tele_def tele_inv_def tele_safe_def held_def
        alternating_def Let_def intro!: wpS_any)
  obtain x s1 where o1: "?open ?s0 = (x, s1)" by (cases "?open ?s0")
  show ?thesis
  proof (cases x)
    case (Inl e)
    then show ?thesis using start o1 assms by (auto simp: teleop_run_def wpS_def)
  next
    case (Inr u)
    then obtain out1 s2 where run: "while_from (teleop_go expired max_ticks) (teleop_tick (logged_arm A) (logged_source S) T) 0 s1 = Some (out1, s2)"
        and fin: "finallyS (\<lambda>s. (out1, s)) (\<lambda>r. thenS (onT (so_close (logged_source S))) (retS r)) s2 = (out, s)"
      using assms o1 by (auto simp: teleop_run_def split: option.splits)
    have "tele_inv T first 0 s1" using start o1 Inr by (simp add: wpS_def)
    from while_rule [where I = "tele_inv T first" and Q = "tele_inv T first" and E = "tele_safe T first", OF tick_keeps _ run this]
    have two: "case out1 of Inr n \<Rightarrow> tele_inv T first n s2 | Inl e \<Rightarrow> tele_safe T first s2" by simp
    have "wpS (onT (so_close (logged_source S))) (\<lambda>_ s'. \<exists>w'. s' = s2\<lparr>t_world := (w', snd (t_world s2))\<rparr>)
        (\<lambda>_ s'. \<exists>w'. s' = s2\<lparr>t_world := (w', snd (t_world s2))\<rparr>) s2"
      by (auto simp: logged_source_def wp_simps intro!: wpS_any)
    then obtain w' where s: "s = s2\<lparr>t_world := (w', snd (t_world s2))\<rparr>" and out: "out = out1 \<or> (\<exists>e. out = Inl e)"
      using fin by (fastforce simp: finallyS_def wpS_def sem_simps split: prod.splits sum.splits)
    have same: "tele_inv T first n s = tele_inv T first n s2" "tele_safe T first s = tele_safe T first s2" for n
      by (simp_all add: s tele_inv_def tele_safe_def)
    show ?thesis
    proof (cases out1)
      case (Inl e)
      then show ?thesis using two out same by auto
    next
      case (Inr n)
      then have "tele_inv T first n s2" using two by simp
      then show ?thesis using out same tele_safe_inv Inr by blast
    qed
  qed
qed


text \<open>C33: In every teleoperation run, however it ends, each motion call follows a reading of the device: with the
  deadman button held it carries that reading's delta, and with it released the call exists only to
  carry a gripper press and its delta is zero.\<close>

theorem deadman_gates_motion:
  assumes "teleop_run (logged_arm A) (logged_source S) T expired max_ticks (mk_tele first (w, [])) = Some (out, s)"
    and "snd (t_world s) = as @ Servo d g # bs"
  shows "\<exists>as' st held. as = as' @ [Reading st] \<and> deadman_ok T st = Inr held
    \<and> (if held then d = to_delta T st else d = [0, 0, 0, 0, 0, 0] \<and> g \<noteq> None)"
  using tele_run_inv [OF assms(1)] assms(2) unfolding tele_safe_def gated_def by blast

text \<open>The gripper toggles once per press: a run that ends normally has sent one gripper command for every rising
  edge of its button, however long the button stays down, and the commands alternate between
  opening and closing, starting from the opposite of the given state.\<close>

theorem one_toggle_per_press:
  assumes "teleop_run (logged_arm A) (logged_source S) T expired max_ticks (mk_tele first (w, [])) = Some (Inr n, s)"
  shows "n = length (readings (snd (t_world s)))
    \<and> length (toggles (snd (t_world s))) = presses T False (readings (snd (t_world s)))
    \<and> successively (\<lambda>a b. b = toggle_command T (g_grasp a)) (toggles (snd (t_world s)))
    \<and> (\<forall>open'. first = Some open' \<and> toggles (snd (t_world s)) \<noteq> [] \<longrightarrow> hd (toggles (snd (t_world s))) = toggle_command T (\<not> open'))"
  using tele_run_inv [OF assms] by (simp add: tele_inv_def alternating_def Let_def)

section \<open>More about the mapping\<close>

text \<open>With a limit on its ticks a run returns, whatever the device and the robot do.\<close>

lemma teleop_run_returns: "\<exists>out s'. teleop_run A S T expired (Some m) s = Some (out, s')"
proof -
  have "counts (teleop_tick A S T)"
    unfolding counts_def
    by (auto simp: teleop_tick_def bindS_def sem_simps split: prod.splits sum.splits if_splits)
  then have "\<forall>w. \<exists>r. while_from (teleop_go expired (Some m)) (teleop_tick A S T) 0 w = Some r"
    using while_returns [of "teleop_tick A S T" "teleop_go expired (Some m)" m 0] by (fastforce simp: teleop_go_def)
  then obtain f where "\<And>w. while_from (teleop_go expired (Some m)) (teleop_tick A S T) 0 w = Some (f w)"
    by metis
  then show ?thesis unfolding teleop_run_def by (simp split: prod.split sum.split)
qed

text \<open>
  An intervention's action is in the action box, and it does not use the axis signs the loop applies:
  a device calibrated with a flipped axis drives the two paths in opposite directions.
\<close>

lemma intervention_in_box:
  assumes "intervention A S T a s = (Inr (a', True), s')"
  shows "length a' = 7 \<and> list_all (\<lambda>x. \<bar>x\<bar> \<le> 1) a'"
  using assms
  by (auto simp: intervention_def bindS_def sem_simps of_vec3_def vmap_def np_clip_def split: prod.splits sum.splits if_splits)

lemma intervention_ignores_signs:
  "intervention A S (T\<lparr>tp_signs_lin := u, tp_signs_rot := v\<rparr>) a = intervention A S T a"
  unfolding intervention_def
  by (simp add: gripper_from_buttons_def toggle_command_def deadman_ok_def apply_deadband_def cong: if_cong)


section \<open>The properties at a concrete run\<close>

text \<open>
  A robot that answers every call, and a device that is read three times with the gripper button
  going up, down and staying down, the deadman held at first only.
\<close>

definition bench_arm :: "nat arm" where
  "bench_arm = \<lparr>am_connect = retS (), am_disconnect = retS (), am_acquire_lease = (\<lambda>owner. retS ()),
     am_release_lease = retS (), am_set_safety_profile = (\<lambda>n. retS ()), am_get_state = raiseS OSError,
     am_start_cartesian_impedance = retS (), am_servo_cartesian_delta = (\<lambda>d t f g. retS fresh_result),
     am_servo_cartesian_pose = (\<lambda>p d. retS fresh_result), am_home = retS (), am_stop = retS ()\<rparr>"

definition bench_source :: "nat source" where
  "bench_source = \<lparr>so_open = retS (), so_close = retS (),
     so_read = (\<lambda>n. (Inr \<lparr>ms_translation = Vec3 1 0 0, ms_rotation = 0,
                           ms_buttons = [if n = 0 then 1 else 0, if n = 0 then 0 else 1]\<rparr>, Suc n))\<rparr>"

lemmas bench_simps = logged_arm_def logged_source_def bench_arm_def bench_source_def default_tele_def catchS_def bindS_def
  sem_simps onT_def on1_def

lemmas tick_simps = teleop_tick_def gripper_from_buttons_def gripper_is_open_def deadman_ok_def button_def

definition bench_reading :: "nat \<Rightarrow> mouse" where
  "bench_reading n = \<lparr>ms_translation = Vec3 1 0 0, ms_rotation = 0,
     ms_buttons = [if n = 0 then 1 else 0, if n = 0 then 0 else 1]\<rparr>"

definition bench_state :: "nat \<Rightarrow> (nat \<times> tele_event list) tele" where
  "bench_state n = \<lparr>t_world = (n, concat (take n
       [[Reading (bench_reading 0), Servo (to_delta default_tele (bench_reading 0)) None],
        [Reading (bench_reading 1), Servo [0, 0, 0, 0, 0, 0] (Some (toggle_command default_tele True))],
        [Reading (bench_reading 2)]])),
     t_gripper_open = (if n < 2 then None else Some True), t_prev_button = (1 < n)\<rparr>"

lemma bench_tick:
  assumes "n < 3"
  shows "teleop_tick (logged_arm bench_arm) (logged_source bench_source) default_tele n (bench_state n)
    = (Inr (Suc n, True), bench_state (Suc n))"
proof -
  consider "n = 0" | "n = 1" | "n = 2" using assms by linarith
  then show ?thesis
    by cases (simp_all add: tick_simps bench_simps bench_state_def bench_reading_def toggle_command_def numeral_eq_Suc)
qed

lemma bench_run:
  "teleop_run (logged_arm bench_arm) (logged_source bench_source) default_tele (\<lambda>_. False) (Some 3) (mk_tele None (0, []))
    = Some (Inr 3, bench_state 3)"
proof -
  let ?go = "teleop_go (\<lambda>_. False) (Some 3)" and ?tick = "teleop_tick (logged_arm bench_arm) (logged_source bench_source) default_tele"
  have w: "while_from ?go ?tick 0 (bench_state 0) = Some (Inr 3, bench_state 3)"
    using bench_tick [of 0] bench_tick [of 1] bench_tick [of 2] while_step [where body = ?tick and cont = ?go] while_stop [where body = ?tick and cont = ?go]
    by (simp add: teleop_go_def numeral_eq_Suc)
  have m: "mk_tele None (0, []) = bench_state 0" by (simp add: mk_tele_def bench_state_def)
  have st: "thenS (onT (so_open (logged_source bench_source))) (thenS (onT (take_lease (logged_arm bench_arm) owner))
      (onT (am_start_cartesian_impedance (logged_arm bench_arm)))) (bench_state 0) = (Inr (), bench_state 0)" for owner
    by (simp add: take_lease_def bench_simps bench_state_def)
  have fin: "finallyS (\<lambda>s. (Inr 3, s)) (\<lambda>r. thenS (onT (so_close (logged_source bench_source))) (retS r)) (bench_state 3)
      = (Inr 3, bench_state 3)"
    by (simp add: finallyS_def bench_simps bench_state_def)
  show ?thesis
    by (simp only: teleop_run_def m st w fin prod.case sum.case option.case)
qed

lemma one_toggle_per_press_witness:
  "\<exists>s. teleop_run (logged_arm bench_arm) (logged_source bench_source) default_tele (\<lambda>_. False) (Some 3) (mk_tele None (0, []))
      = Some (Inr 3, s) \<and> length (toggles (snd (t_world s))) = presses default_tele False (readings (snd (t_world s)))"
proof -
  from one_toggle_per_press [OF bench_run] have "length (toggles (snd (t_world (bench_state 3)))) =
      presses default_tele False (readings (snd (t_world (bench_state 3))))" by (rule conjunct1 [OF conjunct2])
  with bench_run show ?thesis by (intro exI conjI)
qed

lemma deadman_gates_motion_witness:
  "\<exists>as' st held. [Reading (bench_reading 0), Servo (to_delta default_tele (bench_reading 0)) None, Reading (bench_reading 1)]
      = as' @ [Reading st] \<and> deadman_ok default_tele st = Inr held \<and> \<not> held"
proof -
  have "snd (t_world (bench_state 3)) = [Reading (bench_reading 0), Servo (to_delta default_tele (bench_reading 0)) None,
      Reading (bench_reading 1)] @ Servo [0, 0, 0, 0, 0, 0] (Some (toggle_command default_tele True)) # [Reading (bench_reading 2)]"
    by (simp add: bench_state_def numeral_eq_Suc)
  from deadman_gates_motion [OF bench_run this] show ?thesis
    by (auto simp: deadman_ok_def default_tele_def button_def bench_reading_def)
qed

end
