(* ===== verification/Gym_Proofs.thy ===== *)
theory Gym_Proofs
  imports Gym_Env Call_Bounds Teleop_Proofs
begin

text \<open>
  What the environment and the adapter guarantee: they put the robot through the same motion for the
  same action, an episode on the robot streams bounded moves only, a reset ends in the mode the steps
  need, and a stopped motion ends the episode.
\<close>

section \<open>The environment and the adapter\<close>

lemma mapR_Inr: "(\<And>x. x \<in> set xs \<Longrightarrow> f x = Inr (g x)) \<Longrightarrow> mapR f xs = Inr (map g xs)"
  by (induction xs) simp_all

lemma indexed_all: "length xs = n \<Longrightarrow> indexed name xs n = Inr (zip (map (keyed name) [0..<n]) xs)"
  by (subst indexed_def, subst mapR_Inr [where g = "\<lambda>i. (keyed name i, xs ! i)"])
    (auto intro: nth_equalityI)

lemma keyed_observation:
  assumes "length (st_q st) = 7" "length (st_dq st) = 7" "length (st_wrench st) = 6" "am_get_state A w = (Inr st, w')"
  shows "get_observation A \<lparr>la_world = w, la_connected = c\<rparr> = (Inr (zip OBS_KEYS (observation st)), \<lparr>la_world = w', la_connected = c\<rparr>)"
proof -
  have "length (of_pose (st_tcp_pose st)) = 7" by (simp add: of_pose_def of_vec3_def of_quat_def)
  then show ?thesis
    using assms
    by (simp add: get_observation_def onA_def bindS_def sem_simps indexed_all OBS_KEYS_def observation_def zip_append)
qed

text \<open>The environment and the dataset adapter are one action and observation contract: with equal settings the same
  7-vector puts the robot through the same call, leaving it in the same world, and the adapter's
  keyed observation lists the numbers of the environment's vector under the adapter's keys.\<close>

theorem env_matches_adapter:
  assumes "ec_step_duration E = ac_step_duration L" "ec_pos_scale E = ac_pos_scale L" "ec_rot_scale E = ac_rot_scale L"
    and "ec_open_width E = ac_open_width L" "ec_force E = 20"
  shows "e_world (snd (env_step A E reward_fn a \<lparr>e_world = w, e_connected = c, e_elapsed = n\<rparr>))
      = la_world (snd (thenS (send_action A L (Vector a)) (onA (am_get_state A)) \<lparr>la_world = w, la_connected = c\<rparr>))
    \<and> (\<forall>st w'. am_get_state A w = (Inr st, w') \<and> length (st_q st) = 7 \<and> length (st_dq st) = 7 \<and> length (st_wrench st) = 6
         \<longrightarrow> fst (env_obs A \<lparr>e_world = w, e_connected = c, e_elapsed = n\<rparr>) = Inr (observation st)
           \<and> fst (get_observation A \<lparr>la_world = w, la_connected = c\<rparr>) = Inr (zip OBS_KEYS (observation st)))"
proof (intro conjI allI impI)
  show "e_world (snd (env_step A E reward_fn a \<lparr>e_world = w, e_connected = c, e_elapsed = n\<rparr>))
      = la_world (snd (thenS (send_action A L (Vector a)) (onA (am_get_state A)) \<lparr>la_world = w, la_connected = c\<rparr>))"
    using assms
    by (cases "clip_action a")
      (auto simp: env_step_def send_action_def scale_action_def action_vector_def env_obs_def bindS_def sem_simps onE_def onA_def
        split: prod.splits sum.splits)
qed (auto simp: keyed_observation env_obs_def onE_def bindS_def sem_simps)

section \<open>Episodes on the robot\<close>

fun play :: "'w arm \<Rightarrow> env_cfg \<Rightarrow> reward_fn option \<Rightarrow> real list list \<Rightarrow> ('w env, transition list) sem" where
  "play A E reward_fn [] = retS []"
| "play A E reward_fn (a # as) =
     bindS (env_step A E reward_fn a) (\<lambda>tr. bindS (play A E reward_fn as) (\<lambda>trs. retS (tr # trs)))"

lemma wpS_onE [wp_simps]:
  "wpS (onE m) Q E s = wpS m (\<lambda>x w. Q x (s\<lparr>e_world := w\<rparr>)) (\<lambda>e w. E e (s\<lparr>e_world := w\<rparr>)) (e_world s)"
  by (simp add: wpS_def onE_def split: prod.splits sum.splits)

lemma step_ok:
  assumes "robot_wf r0" "run_ok r0 (e_world s)"
  shows "wpS (env_step (local_arm (traced B) load el) E rf a) (\<lambda>_ s'. run_ok r0 (e_world s')) (\<lambda>_ s'. run_ok r0 (e_world s')) s"
proof -
  have servo: "wpS (servo_cartesian_delta_raw (traced B) d t f g) Q E' r"
    if "run_ok r0 r" "\<And>x r'. run_ok r0 r' \<Longrightarrow> Q x r'" "\<And>e r'. run_ok r0 r' \<Longrightarrow> E' e r'" for Q E' r d t f g
    by (rule wpS_mono [OF run_ok_servo [OF assms(1) that(1)]]) (simp_all add: that)
  have state: "wpS (get_state (traced B)) Q E' r" if "run_ok r0 r" "\<And>x r'. run_ok r0 r' \<Longrightarrow> Q x r'" "\<And>e r'. run_ok r0 r' \<Longrightarrow> E' e r'"
    for Q E' r
    by (rule wpS_mono [OF run_ok_get_state [OF that(1)]]) (simp_all add: that)
  show ?thesis
    using assms(2)
    by (auto simp: env_step_def env_obs_def local_arm_def wpS_bind wpS_then wpS_base wpS_modS wpS_onE intro!: servo state
        split: sum.split prod.split)
qed

lemma play_ok:
  assumes "robot_wf r0"
  shows "run_ok r0 (e_world s) \<Longrightarrow>
    wpS (play (local_arm (traced B) load el) E rf as) (\<lambda>_ s'. run_ok r0 (e_world s')) (\<lambda>_ s'. run_ok r0 (e_world s')) s"
proof (induction as arbitrary: s)
  case (Cons a as)
  show ?case
    by (simp only: play.simps wpS_bind wpS_base) (rule wpS_mono [OF step_ok [OF assms Cons.prems]],
        auto simp: wpS_bind wpS_base intro!: wpS_mono [OF Cons.IH])
qed (simp add: wpS_base)


section \<open>Reset and step\<close>

text \<open>A reset without a home pose that returns leaves the robot in the Cartesian mode the steps stream in: the last
  command after homing is the mode change, followed only by the reading of the first observation.\<close>

theorem reset_ends_cartesian:
  assumes "ec_home_pose E = None" "env_reset (local_arm (traced B) load el) E s = (Inr obs, s')"
  shows "\<exists>before opts st. cmds (e_world s') = before @ [CSetMode NRT_CARTESIAN_MOTION_FORCE opts, CRead st]
    \<and> obs = observation st \<and> e_elapsed s' = 0"
proof -
  have mode: "wpS (start_cartesian_impedance (traced B) None False None None)
      (\<lambda>_ r'. \<exists>before opts. cmds r' = before @ [CSetMode NRT_CARTESIAN_MOTION_FORCE opts]) (\<lambda>_ _. True) r" for r
    by (auto simp: start_cartesian_impedance_def wpS_bind wpS_base wpS_onB traced_def cmds_def intro!: wp_record)
  have state: "wpS (get_state (traced B)) (\<lambda>st r'. cmds r' = cmds r @ [CRead st]) (\<lambda>_ _. True) r" for r
    by (auto simp: get_state_def wpS_def bindS_def sem_simps onB_def traced_def record_read_def cmds_def
        split: prod.splits sum.splits)
  have "wpS (env_reset (local_arm (traced B) load el) E) (\<lambda>obs s'. \<exists>before opts st.
      cmds (e_world s') = before @ [CSetMode NRT_CARTESIAN_MOTION_FORCE opts, CRead st] \<and> obs = observation st \<and> e_elapsed s' = 0)
      (\<lambda>_ _. True) s"
    unfolding env_reset_def assms(1) option.case wpS_then
    by (rule wpS_any, rule wpS_any, simp only: wpS_onE local_arm_def arm.simps, rule wpS_mono [OF mode])
      (auto simp: env_obs_def wpS_modS wpS_bind wpS_onE wpS_base intro!: wpS_mono [OF state])
  then show ?thesis using assms(2) by (simp add: wpS_def)
qed

text \<open>A motion that did not succeed ends the episode, and its length is counted.\<close>

lemma step_outcome:
  assumes "env_step A E reward_fn a s = (Inr tr, s')"
  shows "e_elapsed s' = e_elapsed s + 1 \<and> (tr_truncated tr \<longleftrightarrow> ec_max_episode_steps E \<le> e_elapsed s + 1)
    \<and> (reward_fn = None \<longrightarrow> tr_reward tr = 0 \<and> (\<exists>res. tr_terminated tr = (\<not> er_success res) \<and> tr_info tr = step_info res))"
  using assms
  by (auto simp: env_step_def env_obs_def bindS_def sem_simps onE_def split: prod.splits sum.splits)


section \<open>The properties at concrete settings\<close>

definition demo_env_cfg :: env_cfg where
  "demo_env_cfg = \<lparr>ec_step_duration = 1/20, ec_max_episode_steps = 200, ec_safety_profile = ''rl_conservative'',
     ec_pos_scale = 5/100, ec_rot_scale = 20/100, ec_open_width = 8/100, ec_force = 20, ec_home_pose = None,
     ec_owner = ''rl_env''\<rparr>"

definition demo_adapter_cfg :: adapter_cfg where
  "demo_adapter_cfg = \<lparr>ac_step_duration = 1/20, ac_safety_profile = ''rl_conservative'', ac_pos_scale = 5/100,
     ac_rot_scale = 20/100, ac_open_width = 8/100, ac_owner = ''lerobot''\<rparr>"

definition demo_arm :: "fake trace robot arm" where
  "demo_arm = local_arm (traced fake_backend) (\<lambda>_. Inr default_profile) []"

lemma env_matches_adapter_witness:
  "e_world (snd (env_step demo_arm demo_env_cfg None [1, 0, 0, 0, 0, 0, - 1]
       \<lparr>e_world = demo_robot (\<lambda>_. False), e_connected = True, e_elapsed = 0\<rparr>))
     = la_world (snd (thenS (send_action demo_arm demo_adapter_cfg (Vector [1, 0, 0, 0, 0, 0, - 1])) (onA (am_get_state demo_arm))
         \<lparr>la_world = demo_robot (\<lambda>_. False), la_connected = True\<rparr>))"
  by (rule conjunct1 [OF env_matches_adapter]) (simp_all add: demo_env_cfg_def demo_adapter_cfg_def)


lemma reset_ends_cartesian_witness:
  "\<exists>obs s' before opts st. env_reset (local_arm (traced fake_backend) (\<lambda>_. Inr default_profile) []) demo_env_cfg
       \<lparr>e_world = demo_robot (\<lambda>_. False), e_connected = True, e_elapsed = 7\<rparr> = (Inr obs, s')
     \<and> cmds (e_world s') = before @ [CSetMode NRT_CARTESIAN_MOTION_FORCE opts, CRead st]"
proof -
  have home: "ec_home_pose demo_env_cfg = None" by (simp add: demo_env_cfg_def)
  have "\<exists>obs s'. env_reset (local_arm (traced fake_backend) (\<lambda>_. Inr default_profile) []) demo_env_cfg
      \<lparr>e_world = demo_robot (\<lambda>_. False), e_connected = True, e_elapsed = 7\<rparr> = (Inr obs, s')"
    by (simp add: env_reset_def ensure_connected_def home local_arm_def robot_home_def auto_lease_def catchS_def env_obs_def
        get_state_def start_cartesian_impedance_def onE_def onB_def traced_def record_cmd_def record_read_def fake_backend_def
        fake_home_def fake_set_mode_def fake_read_state_def bindS_def sem_simps demo_robot_def default_config_def)
  then obtain obs s' where e: "env_reset (local_arm (traced fake_backend) (\<lambda>_. Inr default_profile) []) demo_env_cfg
      \<lparr>e_world = demo_robot (\<lambda>_. False), e_connected = True, e_elapsed = 7\<rparr> = (Inr obs, s')" by blast
  from reset_ends_cartesian [OF home e] e show ?thesis by blast
qed

end
