(* ===== verification/Preview.thy ===== *)
theory Preview
  imports Robot_Facade
begin

text \<open>
  \<^verbatim>\<open>viz/preview.py\<close>: the dry run of a chunk that an operator looks at before it is executed, and the
  geometry the viewer draws. An infinite cap is \<open>None\<close>.
\<close>

section \<open>The dry run\<close>

record gripper_event =
  ge_tick :: nat
  ge_position :: vec3
  ge_command :: gripper_command
  ge_closing :: bool

record chunk_preview =
  pv_setpoints :: "pose list"
  pv_events :: "gripper_event list"
  pv_waypoints :: "vec3 list"
  pv_warnings :: "problem list"
  pv_duration :: real
  pv_nominal :: real
  pv_linear_cap :: "real option"
  pv_angular_cap :: "real option"
  pv_start :: pose

definition time_stretched :: "chunk_preview \<Rightarrow> bool" where
  "time_stretched pv \<longleftrightarrow> pv_nominal pv + 1 / 10^6 < pv_duration pv"

definition terminal_pose :: "chunk_preview \<Rightarrow> pose" where
  "terminal_pose pv = (if pv_setpoints pv = [] then pv_start pv else last (pv_setpoints pv))"

text \<open>\<open>min(chunk cap, profile cap)\<close>, where a chunk cap of zero counts as none.\<close>

definition effective_cap :: "real \<Rightarrow> real option \<Rightarrow> real option" where
  "effective_cap chunk_cap profile_cap =
     (if chunk_cap = 0 then profile_cap
      else Some (case profile_cap of None \<Rightarrow> chunk_cap | Some v \<Rightarrow> min chunk_cap v))"

definition effective_caps :: "chunk \<Rightarrow> safety_profile option \<Rightarrow> real option \<times> real option" where
  "effective_caps c p =
     (effective_cap (ck_max_tcp_linear_speed c) (map_option p_max_linear_speed p),
      effective_cap (ck_max_tcp_angular_speed c) (map_option p_max_angular_speed p))"

text \<open>The loop over the interpolator: the poses, the gripper events and the previous width.\<close>

fun preview_loop ::
  "setpoint result list \<Rightarrow> pose list \<times> gripper_event list \<times> real option
   \<Rightarrow> (pose list \<times> gripper_event list) result" where
  "preview_loop [] (poses, events, prev_width) = Inr (poses, events)"
| "preview_loop (Inl e # sps) w = Inl e"
| "preview_loop (Inr sp # sps) (poses, events, prev_width) =
     (case sp_grip sp of
        None \<Rightarrow> preview_loop sps (poses @ [sp_pose sp], events, prev_width)
      | Some grip \<Rightarrow>
          (let width = (if g_grasp grip then 0 else g_width grip);
               closing = (g_grasp grip \<or> (case prev_width of None \<Rightarrow> False | Some p \<Rightarrow> width < p - 1 / 10^6))
           in preview_loop sps (poses @ [sp_pose sp],
                events @ [\<lparr>ge_tick = length poses, ge_position = pos (sp_pose sp), ge_command = grip, ge_closing = closing\<rparr>],
                Some width)))"

definition plan_chunk_preview :: "chunk \<Rightarrow> pose \<Rightarrow> safety_profile option \<Rightarrow> real \<Rightarrow> chunk_preview result" where
  "plan_chunk_preview c start profile hz =
     bindR (for_execution c start) (\<lambda>resolved.
     (let (lin_cap, ang_cap) = effective_caps resolved profile
      in bindR (mk_cart_interp resolved start hz lin_cap ang_cap) (\<lambda>interp.
         bindR (preview_loop (interp_iter interp) ([], [], None)) (\<lambda>(poses, events).
         bindR (case profile of None \<Rightarrow> Inr [] | Some p \<Rightarrow> validate_chunk p resolved) (\<lambda>warnings.
         bindR (total_duration resolved hz) (\<lambda>nominal.
         Inr \<lparr>pv_setpoints = poses, pv_events = events, pv_waypoints = map wp_position (ck_waypoints resolved),
              pv_warnings = warnings, pv_duration = real (length poses) / hz, pv_nominal = nominal,
              pv_linear_cap = lin_cap, pv_angular_cap = ang_cap, pv_start = start\<rparr>))))))"

definition pose_distance :: "pose \<Rightarrow> pose \<Rightarrow> real \<times> real" where
  "pose_distance a b = (norm (pos a - pos b), quat_angle (rot a) (rot b))"

section \<open>Geometry\<close>

text \<open>The workspace box as twelve edges between its eight corners.\<close>

definition box_corners :: "safety_profile \<Rightarrow> vec3 list" where
  "box_corners p =
     (let (x0, x1) = p_ws_x p; (y0, y1) = p_ws_y p; (z0, z1) = p_ws_z p
      in [Vec3 x0 y0 z0, Vec3 x1 y0 z0, Vec3 x1 y1 z0, Vec3 x0 y1 z0,
          Vec3 x0 y0 z1, Vec3 x1 y0 z1, Vec3 x1 y1 z1, Vec3 x0 y1 z1])"

definition edge_pairs :: "(nat \<times> nat) list" where
  "edge_pairs = [(0, 1), (1, 2), (2, 3), (3, 0), (4, 5), (5, 6), (6, 7), (7, 4), (0, 4), (1, 5), (2, 6), (3, 7)]"

definition workspace_box_edges :: "safety_profile \<Rightarrow> (vec3 \<times> vec3) list" where
  "workspace_box_edges p = map (\<lambda>(i, j). (box_corners p ! i, box_corners p ! j)) edge_pairs"

text \<open>
  The colours of a path of \<open>n\<close> points: \<open>np.linspace(0, 1, max(n, 2))[:n]\<close> between blue and red, cut to
  bytes.
\<close>

definition colour_at :: "nat \<Rightarrow> nat \<Rightarrow> int list" where
  "colour_at n i =
     (let t = real i / real (max n 2 - 1)
      in map2 (\<lambda>a b. \<lfloor>(1 - t) * a + t * b\<rfloor>) [60, 140, 255] [255, 70, 50])"

definition time_colors :: "nat \<Rightarrow> int list list" where
  "time_colors n = map (colour_at n) [0..<n]"

definition trail_segments :: "vec3 list \<Rightarrow> (vec3 \<times> vec3) list" where
  "trail_segments pts = (if length pts < 2 then [] else zip (butlast pts) (tl pts))"

end
