(* ===== verification/Viz_App.thy ===== *)
theory Viz_App
  imports Preview Clients "HOL-Library.Sublist"
begin

text \<open>
  \<^verbatim>\<open>viz/app.py\<close>: the browser viewer. What the page shows is a record of values; the drawing of them is the
  viser library's. Setting the slider runs its callback. The clicks an operator will make are part of
  the record: one list of buttons per wait, the buttons pressed until the waiting thread wakes up; an
  empty list is a wait that timed out.
\<close>

section \<open>The page\<close>

datatype viz_message =
    NoChunk
  | ChunkShown string chunk_preview
  | Stale real real
  | Awaiting nat
  | Outcome nat bool string bool json

record urdf_map =
  um_arm :: "nat list"
  um_width :: "nat option"
  um_length :: nat

record viz =
  vz_state_hz :: real
  vz_control_hz :: real
  vz_attached :: bool
  vz_polling :: bool
  vz_profile :: "safety_profile option"
  vz_last_state :: "robot_state option"
  vz_trail :: "vec3 list"
  vz_trail_len :: int
  vz_tcp :: "pose option"
  vz_half_width :: real
  vz_urdf :: "urdf_map option"
  vz_config :: "real list"
  vz_wrench_bar :: real
  vz_box :: "((vec3 \<times> vec3) list \<times> bool) option"
  vz_preview :: "chunk_preview option"
  vz_path :: "(vec3 \<times> vec3) list"
  vz_ghost :: "pose option"
  vz_overlay :: "((vec3 \<times> vec3) list \<times> (vec3 \<times> vec3) list) option"
  vz_scrub :: int
  vz_animate :: bool
  vz_message :: viz_message
  vz_event :: bool
  vz_verdict :: bool
  vz_clicks :: "string list list"

definition STALE_LINEAR_M :: real where
  "STALE_LINEAR_M = 5 / 1000"

definition STALE_ANGULAR_RAD :: real where
  "STALE_ANGULAR_RAD = 35 / 1000"

text \<open>The joints of the mesh: by name, or the first seven that are not the gripper's.\<close>

definition index_of :: "string list \<Rightarrow> string \<Rightarrow> nat option" where
  "index_of names n = map_option fst (List.find (\<lambda>(i, m). m = n) (enumerate 0 names))"

definition joint_names :: "string list" where
  "joint_names = [''joint1'', ''joint2'', ''joint3'', ''joint4'', ''joint5'', ''joint6'', ''joint7'']"

definition map_urdf :: "string list \<Rightarrow> urdf_map" where
  "map_urdf names =
     (let by_name = List.map_filter (index_of names) joint_names;
          arm = (if length by_name = 7 then by_name
                 else take 7 (map fst (filter (\<lambda>(i, n). \<not> sublist ''finger'' (str_lower n)) (enumerate 0 names))))
      in \<lparr>um_arm = arm, um_width = index_of names ''finger_width_joint'', um_length = length names\<rparr>)"

definition mk_viz :: "string list option \<Rightarrow> real \<Rightarrow> int \<Rightarrow> real \<Rightarrow> string list list \<Rightarrow> viz" where
  "mk_viz urdf_names state_hz trail_length control_hz clicks =
     \<lparr>vz_state_hz = state_hz, vz_control_hz = control_hz, vz_attached = False, vz_polling = False, vz_profile = None,
      vz_last_state = None, vz_trail = [], vz_trail_len = trail_length, vz_tcp = None, vz_half_width = 0,
      vz_urdf = map_option map_urdf urdf_names, vz_config = [], vz_wrench_bar = 0, vz_box = None, vz_preview = None,
      vz_path = [], vz_ghost = None, vz_overlay = None, vz_scrub = 0, vz_animate = True, vz_message = NoChunk, vz_event = False,
      vz_verdict = False, vz_clicks = clicks\<rparr>"

text \<open>The robot as the viewer sees it: what it calls on it, over the robot's own world.\<close>

record 'w viewed =
  vw_get_state :: "('w, robot_state) sem"
  vw_profile :: "('w, safety_profile option) sem"
  vw_has_lease :: "'w \<Rightarrow> bool"

definition local_view :: "'b backend \<Rightarrow> 'b robot viewed" where
  "local_view B = \<lparr>vw_get_state = get_state B, vw_profile = getS (\<lambda>r. Some (r_profile r)), vw_has_lease = (\<lambda>_. False)\<rparr>"

section \<open>Showing a state\<close>

text \<open>\<open>buf[-n:]\<close>\<close>

definition keep_last :: "int \<Rightarrow> 'a list \<Rightarrow> 'a list" where
  "keep_last n xs = (if 0 < n then drop (length xs - nat n) xs else drop (nat (- n)) xs)"

definition push_trail :: "vec3 \<Rightarrow> viz \<Rightarrow> viz" where
  "push_trail p z =
     (let buf = vz_trail z @ [p]
      in z\<lparr>vz_trail := (if vz_trail_len z < int (length buf) then keep_last (vz_trail_len z) buf else buf)\<rparr>)"

definition set_at :: "(nat \<times> real) \<Rightarrow> real list \<Rightarrow> real list" where
  "set_at = (\<lambda>(i, x) xs. xs[i := x])"

definition mesh_config :: "urdf_map \<Rightarrow> robot_state \<Rightarrow> real list" where
  "mesh_config u st =
     (let cfg = fold set_at (zip (um_arm u) (st_q st)) (replicate (um_length u) 0)
      in case um_width u of None \<Rightarrow> cfg | Some i \<Rightarrow> cfg[i := max (st_gripper_width st) 0])"

definition np_min :: "real list \<Rightarrow> real result" where
  "np_min xs = (case xs of [] \<Rightarrow> Inl ValueError | x # r \<Rightarrow> Inr (fold min r x))"

definition wrench_bar :: "safety_profile option \<Rightarrow> robot_state \<Rightarrow> real result" where
  "wrench_bar profile st =
     bindR (case profile of None \<Rightarrow> Inr 40 | Some p \<Rightarrow> np_min (take 3 (p_max_contact_wrench p))) (\<lambda>cap.
       Inr (np_clip (100 * sqrt (sum_list (map (\<lambda>x. x\<^sup>2) (take 3 (st_wrench st)))) / max cap (1 / 10^6)) 0 100))"

definition apply_state :: "robot_state \<Rightarrow> (viz, unit) sem" where
  "apply_state st =
     thenS (modS (\<lambda>z. push_trail (pos (st_tcp_pose st))
              (z\<lparr>vz_last_state := Some st, vz_tcp := Some (st_tcp_pose st),
                 vz_half_width := max (st_gripper_width st) 0 / 2 + 6 / 1000,
                 vz_config := (case vz_urdf z of None \<Rightarrow> vz_config z | Some u \<Rightarrow> mesh_config u st)\<rparr>)))
       (bindS (getS (\<lambda>z. wrench_bar (vz_profile z) st)) (\<lambda>b.
        bindS (liftS b) (\<lambda>bar. modS (\<lambda>z. z\<lparr>vz_wrench_bar := bar\<rparr>))))"

definition show_profile :: "safety_profile \<Rightarrow> viz \<Rightarrow> viz" where
  "show_profile p z = z\<lparr>vz_profile := Some p, vz_box := Some (workspace_box_edges p, p_workspace_action p = ''reject'')\<rparr>"

definition refresh_profile :: "'w viewed \<Rightarrow> ('w \<times> viz, unit) sem" where
  "refresh_profile V =
     bindS (on1 (vw_profile V)) (\<lambda>prof.
       case prof of None \<Rightarrow> retS () | Some p \<Rightarrow> on2 (modS (show_profile p)))"

section \<open>The intended motion\<close>

definition place_ghost :: "real \<Rightarrow> viz \<Rightarrow> viz" where
  "place_ghost pct z =
     (case vz_preview z of
        None \<Rightarrow> z
      | Some pv \<Rightarrow>
          (if pv_setpoints pv = [] then z
           else let idx = py_round (np_clip pct 0 100 / 100 * real (length (pv_setpoints pv) - 1));
                    pose = pv_setpoints pv ! nat idx
                in z\<lparr>vz_ghost := (if vz_ghost z = None then None else Some pose)\<rparr>))"

definition set_scrub :: "int \<Rightarrow> viz \<Rightarrow> viz" where
  "set_scrub v z = place_ghost (of_int v) (z\<lparr>vz_scrub := v\<rparr>)"

definition clear_preview :: "viz \<Rightarrow> viz" where
  "clear_preview z = z\<lparr>vz_preview := None, vz_path := [], vz_ghost := None, vz_overlay := None\<rparr>"

definition render_preview :: "chunk_preview \<Rightarrow> string \<Rightarrow> viz \<Rightarrow> viz" where
  "render_preview pv chunk_id z =
     (set_scrub 0 ((clear_preview z)\<lparr>vz_path := trail_segments (map pos (pv_setpoints pv)),
        vz_ghost := Some (pv_start pv), vz_preview := Some pv\<rparr>))\<lparr>vz_message := ChunkShown chunk_id pv\<rparr>"

definition preview_chunk ::
  "'w viewed \<Rightarrow> chunk \<Rightarrow> robot_state option \<Rightarrow> safety_profile option \<Rightarrow> string \<Rightarrow> ('w \<times> viz, chunk_preview) sem" where
  "preview_chunk V c state profile chunk_id =
     bindS (getS snd) (\<lambda>z.
     bindS (case state of
              Some s \<Rightarrow> retS s
            | None \<Rightarrow> (case vz_last_state z of
                Some s \<Rightarrow> retS s
              | None \<Rightarrow> if vz_attached z then on1 (vw_get_state V) else raiseS RuntimeError)) (\<lambda>st.
     bindS (liftS (plan_chunk_preview c (st_tcp_pose st)
              (case profile of Some p \<Rightarrow> Some p | None \<Rightarrow> vz_profile z) (vz_control_hz z))) (\<lambda>pv.
     thenS (on2 (modS (render_preview pv chunk_id))) (retS pv))))"

section \<open>The poller\<close>

text \<open>
  One pass at time \<open>now\<close>; \<open>next_profile\<close> and \<open>ghost_idx\<close> are the loop's own variables. Whatever the robot
  raises is shown and swallowed.
\<close>

definition advance_ghost :: "nat \<Rightarrow> viz \<Rightarrow> nat \<times> viz" where
  "advance_ghost ghost_idx z =
     (let n = (case vz_preview z of None \<Rightarrow> 0 | Some pv \<Rightarrow> length (pv_setpoints pv))
      in if 1 < n \<and> vz_animate z
         then let step = max 1 (nat \<lfloor>vz_control_hz z / max (vz_state_hz z) 1\<rfloor>);
                  g = (ghost_idx + step) mod n
              in (g, set_scrub \<lfloor>100 * real g / real (max (n - 1) 1)\<rfloor> z)
         else (ghost_idx, z))"

definition poll_pass :: "'w viewed \<Rightarrow> real \<Rightarrow> real \<Rightarrow> nat \<Rightarrow> ('w \<times> viz, real \<times> nat) sem" where
  "poll_pass V now next_profile ghost_idx =
     bindS (catchS (bindS (on1 (vw_get_state V)) (\<lambda>st.
              thenS (on2 (apply_state st))
                (if next_profile \<le> now then thenS (refresh_profile V) (retS (now + 2)) else retS next_profile)))
              (\<lambda>e. retS next_profile)) (\<lambda>next_profile'.
     bindS (getS (\<lambda>v. advance_ghost ghost_idx (snd v))) (\<lambda>(g, z).
     thenS (on2 (modS (\<lambda>_. z))) (retS (next_profile', g))))"

definition attach :: "'w viewed \<Rightarrow> bool \<Rightarrow> ('w \<times> viz, unit) sem" where
  "attach V allow_lease =
     bindS (getS (\<lambda>v. vw_has_lease V (fst v))) (\<lambda>leased.
       if leased \<and> \<not> allow_lease then raiseS ValueError
       else on2 (modS (\<lambda>z. z\<lparr>vz_attached := True, vz_polling := True\<rparr>)))"

definition viz_stop :: "viz \<Rightarrow> viz" where
  "viz_stop z = z\<lparr>vz_polling := False\<rparr>"

section \<open>The gate\<close>

definition wait_for_click :: "nat \<Rightarrow> (viz, bool) sem" where
  "wait_for_click step =
     thenS (modS (\<lambda>z. z\<lparr>vz_event := False, vz_message := Awaiting step\<rparr>))
    (thenS (modS (\<lambda>z. (case vz_clicks z of
                        [] \<Rightarrow> z
                      | buttons # later \<Rightarrow>
                          (let z = z\<lparr>vz_clicks := later\<rparr>
                           in if buttons = [] then z else z\<lparr>vz_event := True, vz_verdict := (last buttons = ''Approve'')\<rparr>))))
       (getS (\<lambda>z. vz_event z \<and> vz_verdict z)))"

definition viz_gate :: "'w viewed \<Rightarrow> bool \<Rightarrow> nat \<Rightarrow> chunk \<Rightarrow> ('w \<times> viz, bool) sem" where
  "viz_gate V require_click step c =
     bindS (getS (\<lambda>v. vz_attached (snd v))) (\<lambda>attached.
     bindS (if attached then bindS (on1 (vw_get_state V)) (\<lambda>s. retS (Some s)) else getS (\<lambda>v. vz_last_state (snd v))) (\<lambda>state.
       case state of
         None \<Rightarrow> retS False
       | Some st \<Rightarrow>
           bindS (preview_chunk V c (Some st) None (show_int (int step))) (\<lambda>pv.
             (let (lin, ang) = pose_distance (pv_start pv) (st_tcp_pose st)
              in if STALE_LINEAR_M < lin \<or> STALE_ANGULAR_RAD < ang
                 then thenS (on2 (modS (\<lambda>z. z\<lparr>vz_message := Stale lin ang\<rparr>))) (retS False)
                 else if \<not> require_click then retS True
                 else on2 (wait_for_click step)))))"

text \<open>
  After a chunk: the outcome, and when the executor recorded its ticks the commanded and the measured path of the
  rows \<open>[t, commanded pose, measured pose, wrench]\<close>.
\<close>

definition row_point :: "nat \<Rightarrow> real list \<Rightarrow> vec3" where
  "row_point k row = Vec3 (row ! k) (row ! (k + 1)) (row ! (k + 2))"

definition recorded_rows :: "exec_result \<Rightarrow> real list list result" where
  "recorded_rows res =
     (case map_of (er_log res) ''trajectory'' of
        Some (JList rows) \<Rightarrow> mapR jfloats rows
      | _ \<Rightarrow> Inr [])"

definition viz_on_step :: "nat \<Rightarrow> exec_result \<Rightarrow> (viz, unit) sem" where
  "viz_on_step step res =
     thenS (modS (\<lambda>z. (clear_preview z)\<lparr>vz_message :=
              Outcome step (er_success res) (er_stop_reason res) (er_clipped res) (er_summary res)\<rparr>))
       (bindS (liftS (recorded_rows res)) (\<lambda>rows.
          if length rows < 2 then retS ()
          else modS (\<lambda>z. z\<lparr>vz_overlay :=
                 Some (trail_segments (map (row_point 1) rows), trail_segments (map (row_point 8) rows))\<rparr>)))"

end
