(* ===== verification/Preview_Proofs.thy ===== *)
theory Preview_Proofs
  imports Preview Call_Bounds Chunk_Reports
begin

text \<open>
  What an operator sees is what runs: the poses of a preview are the executor's setpoints, so a chunk call that
  clips nothing streams the previewed poses in order, all of them when it succeeds.
\<close>

section \<open>The preview plans with the executor's interpolator\<close>

lemma for_execution_caps:
  "for_execution c sp = Inr a \<Longrightarrow> ck_max_tcp_linear_speed a = ck_max_tcp_linear_speed c
     \<and> ck_max_tcp_angular_speed a = ck_max_tcp_angular_speed c"
  by (auto simp: for_execution_def resolve_to_absolute_def chunk_post_init_def bindR_eq_Inr Let_def split: if_splits)

lemma effective_tighten: "0 \<le> cap \<Longrightarrow> effective_cap cap (Some v) = Some (tighten v cap)"
  by (auto simp: effective_cap_def tighten_def)

lemma preview_loop_poses:
  "preview_loop items (ps, es, w) = Inr (poses, events) \<Longrightarrow> \<exists>sps. items = map Inr sps \<and> poses = ps @ map sp_pose sps"
proof (induction items arbitrary: ps es w)
  case (Cons i items)
  show ?case
  proof (cases i)
    case (Inr sp)
    obtain es' w' where "preview_loop items (ps @ [sp_pose sp], es', w') = Inr (poses, events)"
      using Cons.prems by (cases "sp_grip sp") (auto simp: Inr Let_def)
    then obtain sps where "items = map Inr sps" "poses = (ps @ [sp_pose sp]) @ map sp_pose sps"
      using Cons.IH by blast
    then show ?thesis by (intro exI [of _ "sp # sps"]) (simp add: Inr)
  qed (use Cons.prems in simp)
qed simp

lemma preview_plan:
  assumes "plan_chunk_preview c start (Some p) hz = Inr pv" "0 \<le> ck_max_tcp_linear_speed c" "0 \<le> ck_max_tcp_angular_speed c"
  shows "\<exists>a ci sps. for_execution c start = Inr a
    \<and> mk_cart_interp a start hz (Some (tighten (p_max_linear_speed p) (ck_max_tcp_linear_speed a)))
        (Some (tighten (p_max_angular_speed p) (ck_max_tcp_angular_speed a))) = Inr ci
    \<and> interp_iter ci = map Inr sps \<and> pv_setpoints pv = map sp_pose sps"
proof -
  obtain a where a: "for_execution c start = Inr a" using assms(1) by (auto simp: plan_chunk_preview_def bindR_eq_Inr)
  have "effective_caps a (Some p) = (Some (tighten (p_max_linear_speed p) (ck_max_tcp_linear_speed a)),
      Some (tighten (p_max_angular_speed p) (ck_max_tcp_angular_speed a)))"
    using for_execution_caps [OF a] assms(2,3) by (simp add: effective_caps_def effective_tighten)
  with assms(1) a obtain ci poses events where
    "mk_cart_interp a start hz (Some (tighten (p_max_linear_speed p) (ck_max_tcp_linear_speed a)))
        (Some (tighten (p_max_angular_speed p) (ck_max_tcp_angular_speed a))) = Inr ci"
    "preview_loop (interp_iter ci) ([], [], None) = Inr (poses, events)" "pv_setpoints pv = poses"
    by (auto simp: plan_chunk_preview_def bindR_eq_Inr)
  with preview_loop_poses [of "interp_iter ci" "[]" "[]" None poses events] a show ?thesis by auto
qed

section \<open>When there is a preview\<close>

lemma preview_loop_answers: "\<exists>poses events. preview_loop (map Inr sps) w = Inr (poses, events)"
proof (induction sps arbitrary: w)
  case Nil
  then show ?case by (cases w) simp
next
  case (Cons sp sps)
  then show ?case by (cases w) (auto simp: Let_def split: option.split)
qed

lemma durations_answer: "0 < hz \<Longrightarrow> list_all wp_wf ws \<Longrightarrow> \<exists>d. sum_durations ws hz = Inr d"
proof (induction ws)
  case (Cons w ws)
  then show ?case using resolve_duration_ok [of w hz] by auto
qed simp

lemma preflight_answers:
  assumes "0 < v" "0 < w"
  shows "\<exists>ps. validate_from p v w i prev prev_quat ws = Inr ps"
proof (induction ws arbitrary: i prev prev_quat)
  case (Cons x ws)
  have "\<exists>ps. segment_reports v w i prev prev_quat x = Inr ps"
    using assms by (auto simp: segment_reports_def speed_report_def bindR_def split: option.split)
  then obtain seg where "segment_reports v w i prev prev_quat x = Inr seg" ..
  moreover obtain rest where "validate_from p v w (Suc i) (Some (wp_position x))
      (case wp_quaternion x of None \<Rightarrow> prev_quat | Some q \<Rightarrow> Some q) ws = Inr rest" using Cons.IH by blast
  ultimately show ?case by simp
qed simp

lemma effective_pos:
  assumes "0 \<le> cap" "cap = 0 \<longrightarrow> (\<exists>v. profile_cap = Some v)" "\<And>v. profile_cap = Some v \<Longrightarrow> 0 < v"
  shows "\<exists>v. effective_cap cap profile_cap = Some v \<and> 0 < v"
  using assms by (auto simp: effective_cap_def split: option.split)

lemma tighten_pos: "0 < v \<Longrightarrow> 0 \<le> cap \<Longrightarrow> 0 < tighten v cap"
  by (auto simp: tighten_def)

text \<open>A well-formed chunk can be previewed from any pose with a unit quaternion; without a profile its own
  caps must be set.\<close>

lemma preview_answers:
  assumes "chunk_wf c" "norm (rot start) = 1" "0 < hz" "0 \<le> ck_max_tcp_linear_speed c" "0 \<le> ck_max_tcp_angular_speed c"
    and "profile = None \<longrightarrow> ck_max_tcp_linear_speed c \<noteq> 0 \<and> ck_max_tcp_angular_speed c \<noteq> 0"
    and "\<And>p. profile = Some p \<Longrightarrow> 0 < p_max_linear_speed p \<and> 0 < p_max_angular_speed p"
  shows "\<exists>pv. plan_chunk_preview c start profile hz = Inr pv"
proof -
  obtain a where a: "for_execution c start = Inr a" "chunk_wf a" using for_execution_ok [OF assms(1,2)] by blast
  note same = for_execution_caps [OF a(1)]
  obtain v w where caps: "effective_caps a profile = (Some v, Some w)" "0 < v" "0 < w"
    using effective_pos [of "ck_max_tcp_linear_speed c" "map_option p_max_linear_speed profile"]
      effective_pos [of "ck_max_tcp_angular_speed c" "map_option p_max_angular_speed profile"] same assms(4-7)
    by (cases profile) (auto simp: effective_caps_def)
  obtain ci where ci: "mk_cart_interp a start hz (Some v) (Some w) = Inr ci" using assms(3) by (simp add: mk_cart_interp_def)
  obtain sps where sps: "interp_iter ci = map Inr sps"
    using interp_iter_stream [OF a(2) assms(3) caps(2,3) ci, of "\<lambda>_. True"] by auto
  obtain poses events where loop: "preview_loop (interp_iter ci) ([], [], None) = Inr (poses, events)"
    using preview_loop_answers unfolding sps by blast
  obtain d where d: "total_duration a hz = Inr d"
    using durations_answer [OF assms(3), of "ck_waypoints a"] a(2) by (auto simp: total_duration_def chunk_wf_def)
  have "\<exists>ws. (case profile of None \<Rightarrow> Inr [] | Some p \<Rightarrow> validate_chunk p a) = Inr ws"
  proof (cases profile)
    case (Some p)
    have "\<exists>ws. validate_chunk p a = Inr ws"
      unfolding validate_chunk_def using assms(4,5) assms(7) [OF Some] same by (intro preflight_answers tighten_pos) simp_all
    then show ?thesis by (simp add: Some)
  qed simp
  then show ?thesis using a(1) caps(1) ci loop d by (auto simp: plan_chunk_preview_def)
qed

section \<open>The executor streams the setpoints\<close>

abbreviation same_streams :: "'b trace robot \<Rightarrow> 'b trace robot \<Rightarrow> bool" where
  "same_streams r r' \<equiv> streamed (cmds r') = streamed (cmds r)"

lemma calm_streams: "calmS no_stream m \<Longrightarrow> wpS m (\<lambda>_. same_streams r) (\<lambda>_ _. True) r"
  by (rule wpS_I) (use calmS_D(3) streamed_calm in fastforce)+

definition keeps_clip :: "locals \<Rightarrow> locals \<Rightarrow> bool" where
  "keeps_clip x x' \<longleftrightarrow> er_clipped (x_result x') = er_clipped (x_result x)"

lemma clip_try_fire: "wpS (try_fire_close B env g st x) (\<lambda>x' _. keeps_clip x x') (\<lambda>_ _. True) r"
  unfolding try_fire_close_def Let_def wpS_if keeps_clip_def by (auto simp: wp_simps intro!: wp_onB)

lemma clip_resolve: "wpS (resolve_pending B env st x) (\<lambda>x' _. keeps_clip x x') (\<lambda>_ _. True) r"
  using clip_try_fire [of B env _ st "x\<lparr>x_pending_close := None\<rparr>" r]
  by (auto simp: resolve_pending_def wp_simps keeps_clip_def split: option.split)

lemma clip_grip: "wpS (handle_grip B env n st g x) (\<lambda>x' _. keeps_clip x x') (\<lambda>_ _. True) r"
proof -
  have p: "wpS (case x_pending_close x of Some (g, _) \<Rightarrow> try_fire_close B env g st (x\<lparr>x_pending_close := None\<rparr>)
      | None \<Rightarrow> retS x) (\<lambda>x' _. keeps_clip x x') (\<lambda>_ _. True) r"
    using clip_try_fire [of B env _ st "x\<lparr>x_pending_close := None\<rparr>" r]
    by (auto simp: wp_simps keeps_clip_def split: option.split)
  show ?thesis
    unfolding handle_grip_def Let_def wp_simps using p by (auto simp: keeps_clip_def intro!: wp_onB)
qed

lemma bookkeeping_clip: "bookkeeping dt cmd st (record_row env cmd st x) = Inr x' \<Longrightarrow> keeps_clip x x'"
  by (auto simp: bookkeeping_def record_row_def bindR_eq_Inr keeps_clip_def split: if_splits)

text \<open>A tick streams its setpoint, unless it clips it or ends the run.\<close>

definition tick_streams :: "'b trace robot \<Rightarrow> locals \<Rightarrow> pose \<Rightarrow> locals \<times> bool \<Rightarrow> 'b trace robot \<Rightarrow> bool" where
  "tick_streams r x p y r' \<longleftrightarrow> (er_clipped (x_result x) \<longrightarrow> er_clipped (x_result (fst y)))
     \<and> (\<not> er_clipped (x_result (fst y)) \<longrightarrow> streamed (cmds r') = streamed (cmds r) @ (if snd y then [p] else []))"

lemma stream_tick_streams:
  fixes r :: "'b trace robot"
  shows "wpS (stream_tick (traced B) env sp st cmd x) (\<lambda>y r'. snd y \<and> keeps_clip x (fst y) \<and> streamed (cmds r') = streamed (cmds r) @ [cmd])
     (\<lambda>_ _. True) r"
  unfolding stream_tick_def
proof (rule wpS_thenI)
  show "wpS (onB (bk_stream_cartesian (traced B) cmd (chunk_wrench (e_chunk env))))
      (\<lambda>_ r'. streamed (cmds r') = streamed (cmds r) @ [cmd]) (\<lambda>_ _. True) r"
    by (rule wpS_I) (auto simp: onB_def traced_def record_cmd_def cmds_def split: prod.splits)
next
  fix u and r1 :: "'b trace robot"
  assume r1: "streamed (cmds r1) = streamed (cmds r) @ [cmd]"
  let ?P = "\<lambda>r0 x0 x' r'. keeps_clip x0 x' \<and> same_streams r0 r'"
  have res: "wpS (resolve_pending (traced B) env st x) (?P r1 x) (\<lambda>_ _. True) r1"
    using wpS_conj [of "resolve_pending (traced B) env st x" "\<lambda>x' _. keeps_clip x x'" "\<lambda>_. same_streams r1" "\<lambda>_ _. True" "\<lambda>_ _. True"]
      clip_resolve calm_streams [OF calm_resolve] by auto
  have grip: "wpS (case sp_grip sp of Some grip \<Rightarrow> handle_grip (traced B) env (sp_segment_ticks sp) st grip x' | None \<Rightarrow> retS x')
      (?P r2 x') (\<lambda>_ _. True) r2" for x' and r2 :: "'b trace robot"
  proof (cases "sp_grip sp")
    case (Some g)
    show ?thesis
      using wpS_conj [of "handle_grip (traced B) env (sp_segment_ticks sp) st g x'" "\<lambda>x'' _. keeps_clip x' x''" "\<lambda>_. same_streams r2"
          "\<lambda>_ _. True" "\<lambda>_ _. True"] clip_grip calm_streams [OF calm_grip] Some by auto
  qed (simp add: wp_simps keeps_clip_def)
  show "wpS (bindS (resolve_pending (traced B) env st x) (\<lambda>x.
        bindS (case sp_grip sp of Some grip \<Rightarrow> handle_grip (traced B) env (sp_segment_ticks sp) st grip x | None \<Rightarrow> retS x) (\<lambda>x.
        bindS (getS r_dt) (\<lambda>dt.
        bindS (liftS (bookkeeping dt cmd st (record_row env cmd st x))) (\<lambda>x. retS (x, True))))))
     (\<lambda>y r'. snd y \<and> keeps_clip x (fst y) \<and> streamed (cmds r') = streamed (cmds r) @ [cmd]) (\<lambda>_ _. True) r1"
    by (rule wpS_bindI [OF res], rule wpS_bindI [OF grip])
      (use r1 in \<open>auto simp: wp_simps keeps_clip_def dest: bookkeeping_clip split: sum.splits\<close>)
qed

lemma clear_stop_run_streams: "wpS (stop_run (traced B) reason x) (tick_streams r x p) (\<lambda>_ _. True) r1"
  if "same_streams r r1" for r r1 :: "'b trace robot"
proof (rule wpS_I)
  fix y r'
  assume m: "stop_run (traced B) reason x r1 = (Inr y, r')"
  then have "snd y = False \<and> er_clipped (x_result (fst y)) = er_clipped (x_result x)"
    by (auto simp: stop_run_def bindS_def sem_simps failed_def split: prod.splits sum.splits)
  moreover have "same_streams r1 r'" using wpS_Inr [OF calm_streams [OF calm_stop_run] m] .
  ultimately show "tick_streams r x p y r'" using that by (simp add: tick_streams_def)
qed simp

lemma filter_tick_streams:
  fixes r :: "'b trace robot"
  assumes "same_streams r r1"
  shows "wpS (filter_tick (traced B) env sp st x) (tick_streams r x (sp_pose sp)) (\<lambda>_ _. True) r1"
  unfolding filter_tick_def
proof (rule wpS_bindI, rule wpS_I)
  fix sr and r2 :: "'b trace robot"
  assume "onF (filter_cartesian (sp_pose sp) st (Some (e_wrench_cap env))) r1 = (Inr sr, r2)"
  then show "same_streams r r2 \<and> (sr_ok sr \<longrightarrow> \<not> sr_clipped sr \<longrightarrow> sr_pose sr = Some (sp_pose sp))"
    using assms by (auto simp: onF_def cmds_def dest: filter_cartesian_unclipped split: prod.splits)
next
  fix sr and r2 :: "'b trace robot"
  assume 2: "same_streams r r2 \<and> (sr_ok sr \<longrightarrow> \<not> sr_clipped sr \<longrightarrow> sr_pose sr = Some (sp_pose sp))"
  then have r2: "same_streams r r2" ..
  show "wpS (case sr_pose sr of
         Some cmd \<Rightarrow>
           (if \<not> sr_ok sr then stop_run (traced B) (reason_value (sr_reason sr)) x
            else stream_tick (traced B) env sp st cmd
                   (if sr_clipped sr then x\<lparr>x_result := (x_result x)\<lparr>er_clipped := True\<rparr>\<rparr> else x))
       | None \<Rightarrow> stop_run (traced B) (reason_value (sr_reason sr)) x) (tick_streams r x (sp_pose sp)) (\<lambda>_ _. True) r2"
  proof (cases "sr_pose sr")
    case None
    then show ?thesis using clear_stop_run_streams [OF r2] by simp
  next
    case (Some cmd)
    show ?thesis
    proof (cases "sr_ok sr")
      case False
      then show ?thesis using Some clear_stop_run_streams [OF r2] by simp
    next
      case True
      have "wpS (stream_tick (traced B) env sp st cmd (if sr_clipped sr then x\<lparr>x_result := (x_result x)\<lparr>er_clipped := True\<rparr>\<rparr> else x))
          (tick_streams r x (sp_pose sp)) (\<lambda>_ _. True) r2"
        by (rule wpS_mono [OF stream_tick_streams]) (use 2 True Some in \<open>auto simp: tick_streams_def keeps_clip_def split: if_splits\<close>)
      then show ?thesis using Some True by simp
    qed
  qed
qed simp

lemma chunk_tick_streams:
  fixes r :: "'b trace robot"
  shows "wpS (chunk_tick (traced B) env sp x) (tick_streams r x (sp_pose sp)) (\<lambda>_ _. True) r"
proof -
  let ?x = "x\<lparr>x_tick := x_tick x + 1, x_seg := sp_segment sp\<rparr>"
  have same: "tick_streams r ?x = tick_streams r x" by (simp add: tick_streams_def fun_eq_iff)
  have stop: "wpS (stop_run (traced B) reason ?x) (tick_streams r x p) (\<lambda>_ _. True) r1" if "same_streams r r1" for reason p r1
    using clear_stop_run_streams [OF that, of B reason ?x] unfolding same .
  have filt: "wpS (filter_tick (traced B) env sp st ?x) (tick_streams r x (sp_pose sp)) (\<lambda>_ _. True) r1" if "same_streams r r1" for st r1
    using filter_tick_streams [OF that, of B env sp st ?x] unfolding same .
  have calm: "wpS m (\<lambda>_. same_streams r) (\<lambda>_ _. True) r1" if "same_streams r r1" "calmS no_stream m" for m :: "('b trace robot, 'c) sem" and r1
    using calm_streams [OF that(2), of r1] that(1) by simp
  have body: "wpS (bindS (get_state (traced B)) (\<lambda>st. bindS (onB (bk_in_fault (traced B))) (\<lambda>fault.
            if fault then stop_run (traced B) ''backend_fault'' ?x
            else bindS (liftS (np_any_abs_gt (st_wrench st) (e_wrench_cap env))) (\<lambda>over.
                if over then stop_run (traced B) ''contact_wrench'' ?x
                else filter_tick (traced B) env sp st ?x)))) (tick_streams r x (sp_pose sp)) (\<lambda>_ _. True) r1"
    if r1: "same_streams r r1" for r1
  proof (rule wpS_bindI [OF calm [OF r1 calm_get_state]], simp, rule wpS_bindI [OF calm [OF _ calm_ops(2)]], assumption)
    fix st :: robot_state and fault and r3 :: "'b trace robot"
    assume r3: "same_streams r r3"
    show "wpS (if fault then stop_run (traced B) ''backend_fault'' ?x
            else bindS (liftS (np_any_abs_gt (st_wrench st) (e_wrench_cap env))) (\<lambda>over.
                if over then stop_run (traced B) ''contact_wrench'' ?x
                else filter_tick (traced B) env sp st ?x)) (tick_streams r x (sp_pose sp)) (\<lambda>_ _. True) r3"
      using stop [OF r3] filt [OF r3] by (auto simp: wpS_bind wpS_base split: sum.split)
  qed
  show ?thesis
    unfolding chunk_tick_def Let_def
  proof (rule wpS_bindI [OF calm [OF refl calm_events(2)]], unfold wpS_if, split if_split, intro conjI impI)
    fix cancelled and r1 :: "'b trace robot"
    assume r1: "same_streams r r1"
    show "wpS (thenS clear_stop (stop_run (traced B) ''user'' ?x)) (tick_streams r x (sp_pose sp)) (\<lambda>_ _. True) r1"
      by (rule wpS_thenI [OF calm [OF r1 calm_events(3)] stop])
    show "wpS (bindS (get_state (traced B)) (\<lambda>st. bindS (onB (bk_in_fault (traced B))) (\<lambda>fault.
            if fault then stop_run (traced B) ''backend_fault'' ?x
            else bindS (liftS (np_any_abs_gt (st_wrench st) (e_wrench_cap env))) (\<lambda>over.
                if over then stop_run (traced B) ''contact_wrench'' ?x
                else filter_tick (traced B) env sp st ?x)))) (tick_streams r x (sp_pose sp)) (\<lambda>_ _. True) r1"
      by (rule body [OF r1])
  qed
qed

text \<open>What a run has streamed of its setpoints.\<close>

definition followed :: "pose list \<Rightarrow> pose list \<Rightarrow> exec_result \<Rightarrow> pose list \<Rightarrow> bool" where
  "followed base ps res done \<longleftrightarrow> (\<not> er_clipped res \<longrightarrow>
     (\<exists>n \<le> length ps. done = base @ take n ps \<and> (er_success res \<longrightarrow> n = length ps)))"

lemma followed_same:
  "er_clipped res' = er_clipped res \<Longrightarrow> er_success res' = er_success res \<Longrightarrow> followed base ps res done \<Longrightarrow> followed base ps res' done"
  by (simp add: followed_def)

lemma followed_step:
  assumes "tick_streams r x p (x1, True) r1"
    and "followed (streamed (cmds r1)) ps res (streamed (cmds r'))"
    and "er_clipped (x_result x1) \<longrightarrow> er_clipped res"
  shows "followed (streamed (cmds r)) (p # ps) res (streamed (cmds r'))"
  unfolding followed_def
proof
  assume nc: "\<not> er_clipped res"
  then have "streamed (cmds r1) = streamed (cmds r) @ [p]"
    using assms(1,3) by (auto simp: tick_streams_def)
  moreover obtain n where "n \<le> length ps" "streamed (cmds r') = streamed (cmds r1) @ take n ps"
      "er_success res \<longrightarrow> n = length ps"
    using assms(2) nc by (auto simp: followed_def)
  ultimately show "\<exists>n\<le>length (p # ps). streamed (cmds r') = streamed (cmds r) @ take n (p # ps)
      \<and> (er_success res \<longrightarrow> n = length (p # ps))"
    by (intro exI [of _ "Suc n"]) simp
qed

lemma loop_follows:
  fixes r :: "'b trace robot"
  assumes "er_success (x_result x)"
  shows "wpS (chunk_loop (traced B) env (map Inr sps) x)
     (\<lambda>x' r'. followed (streamed (cmds r)) (map sp_pose sps) (x_result x') (streamed (cmds r')) \<and> (er_clipped (x_result x) \<longrightarrow> er_clipped (x_result x')))
     (\<lambda>_ _. True) r"
  using assms
proof (induction sps arbitrary: x r)
  case Nil
  then show ?case by (simp add: wpS_base followed_def)
next
  case (Cons sp sps)
  have tick: "wpS (chunk_tick (traced B) env sp x) (\<lambda>y r'. tick_streams r x (sp_pose sp) y r' \<and> tick_post (x_result x) y r') (\<lambda>_ _. True) r"
    using wpS_conj [of "chunk_tick (traced B) env sp x" "tick_streams r x (sp_pose sp)" "tick_post (x_result x)" "\<lambda>_ _. True" "\<lambda>_ _. True"]
      chunk_tick_streams wp_chunk_tick by auto
  show ?case
    unfolding list.map chunk_loop.simps
  proof (rule wpS_bindI [OF tick], elim conjE)
    fix z and r1 :: "'b trace robot"
    assume z: "tick_streams r x (sp_pose sp) z r1" "tick_post (x_result x) z r1"
    obtain x1 go where zz: "z = (x1, go)" by (cases z)
    note y = z [unfolded zz]
    let ?P = "\<lambda>x' r'. followed (streamed (cmds r)) (sp_pose sp # map sp_pose sps) (x_result x') (streamed (cmds r'))
       \<and> (er_clipped (x_result x) \<longrightarrow> er_clipped (x_result x'))"
    show "wpS (case z of (x, go) \<Rightarrow> if go then chunk_loop (traced B) env (map Inr sps) x else retS x)
        ?P (\<lambda>_ _. True) r1"
    proof (cases go)
      case False
      then show ?thesis
        using y by (auto simp: zz wpS_base followed_def tick_streams_def tick_post_def)
    next
      case True
      then have ok: "er_success (x_result x1)" using y(2) Cons.prems by (simp add: tick_post_def same_outcome_def)
      have "?P x' r'" if "followed (streamed (cmds r1)) (map sp_pose sps) (x_result x') (streamed (cmds r'))
          \<and> (er_clipped (x_result x1) \<longrightarrow> er_clipped (x_result x'))" for x' and r' :: "'b trace robot"
        using followed_step [of r x "sp_pose sp" x1 r1] y(1) True that by (auto simp: tick_streams_def)
      then show ?thesis
        by (simp add: zz True) (rule wpS_mono [OF Cons.IH [OF ok]], simp_all)
    qed
  qed
qed

text \<open>The clean-up and the report keep what the loop did.\<close>

lemma clip_finish:
  fixes r :: "'b trace robot"
  shows "wpS (finish_pending (traced B) env x) (\<lambda>x' r'. keeps_clip x x' \<and> er_success (x_result x') = er_success (x_result x) \<and> same_streams r r')
     (\<lambda>_ _. True) r"
proof -
  have fire: "wpS (try_fire_close (traced B) env g st y) (\<lambda>x' _. keeps_clip y x' \<and> same_outcome (x_result y) (x_result x')) (\<lambda>_ _. True) r1"
    for g st y and r1 :: "'b trace robot"
    using wpS_conj [of "try_fire_close (traced B) env g st y" "\<lambda>x' _. keeps_clip y x'" "\<lambda>x' _. same_outcome (x_result y) (x_result x')"
        "\<lambda>_ _. True" "\<lambda>_ _. True"] clip_try_fire wp_try_fire by auto
  have "wpS (finish_pending (traced B) env x) (\<lambda>x' _. keeps_clip x x' \<and> er_success (x_result x') = er_success (x_result x)) (\<lambda>_ _. True) r"
  proof (cases "x_pending_close x")
    case (Some gf)
    have "wpS (bindS (get_state (traced B)) (\<lambda>st. try_fire_close (traced B) env (fst gf) st (x\<lparr>x_pending_close := None\<rparr>)))
        (\<lambda>x' _. keeps_clip x x' \<and> er_success (x_result x') = er_success (x_result x)) (\<lambda>_ _. True) r"
      by (rule wpS_bindI [where P = "\<lambda>_ _. True"], rule wpS_any, simp, simp, rule wpS_mono [OF fire])
        (auto simp: keeps_clip_def same_outcome_def)
    then show ?thesis using Some by (cases gf) (auto simp: finish_pending_def Let_def wpS_base keeps_clip_def)
  qed (simp add: finish_pending_def wpS_base keeps_clip_def)
  then show ?thesis
    using wpS_conj [of "finish_pending (traced B) env x" "\<lambda>x' _. keeps_clip x x' \<and> er_success (x_result x') = er_success (x_result x)"
        "\<lambda>_. same_streams r" "\<lambda>_ _. True" "\<lambda>_ _. True"] calm_streams [OF calm_finish] by auto
qed

lemma restore_value:
  assumes "restore_wrench B relaxed a r = (Inr b, r')"
  shows "b = a \<or> b = mark_restore_failed a"
  using assms by (auto simp: restore_wrench_def catchS_def bindS_def thenS_def sem_simps split: if_splits prod.splits sum.splits)

lemma clip_restore:
  fixes r :: "'b trace robot"
  shows "wpS (restore_wrench (traced B) relaxed (Inr x)) (\<lambda>y r'. (\<exists>x'. y = Inr x' \<and> keeps_clip x x'
     \<and> er_success (x_result x') = er_success (x_result x)) \<and> same_streams r r') (\<lambda>_ _. True) r"
proof -
  have "wpS (restore_wrench (traced B) relaxed (Inr x)) (\<lambda>y _. \<exists>x'. y = Inr x' \<and> keeps_clip x x'
     \<and> er_success (x_result x') = er_success (x_result x)) (\<lambda>_ _. True) r"
    by (rule wpS_I) (auto dest!: restore_value simp: mark_restore_failed_def keeps_clip_def log_put_def)
  then show ?thesis
    using wpS_conj [of "restore_wrench (traced B) relaxed (Inr x)" "\<lambda>y _. \<exists>x'. y = Inr x' \<and> keeps_clip x x'
         \<and> er_success (x_result x') = er_success (x_result x)" "\<lambda>_. same_streams r" "\<lambda>_ _. True" "\<lambda>_ _. True"]
      calm_streams [OF calm_restore] by auto
qed

lemma restore_raises: "wpS (restore_wrench B relaxed (Inl e)) (\<lambda>y _. \<exists>e'. y = Inl e') (\<lambda>_ _. True) r"
  by (rule wpS_I) (auto dest!: restore_value simp: mark_restore_failed_def)

lemma run_loop_follows:
  fixes r :: "'b trace robot"
  assumes "er_success (x_result x)"
  shows "wpS (finallyS (bindS (chunk_loop (traced B) env (map Inr sps) x) (finish_pending (traced B) env)) (restore_wrench (traced B) relaxed))
     (\<lambda>x' r'. followed (streamed (cmds r)) (map sp_pose sps) (x_result x') (streamed (cmds r'))) (\<lambda>_ _. True) r"
proof -
  have "wpS (bindS (chunk_loop (traced B) env (map Inr sps) x) (finish_pending (traced B) env))
      (\<lambda>x' r'. followed (streamed (cmds r)) (map sp_pose sps) (x_result x') (streamed (cmds r'))) (\<lambda>_ _. True) r"
    by (rule wpS_bindI [OF loop_follows [OF assms]], rule wpS_mono [OF clip_finish])
      (metis followed_same keeps_clip_def, simp)
  then show ?thesis
    unfolding wpS_finally
  proof (rule wpS_mono)
    fix x' :: locals and r' :: "'b trace robot"
    assume "followed (streamed (cmds r)) (map sp_pose sps) (x_result x') (streamed (cmds r'))"
    then show "wpS (restore_wrench (traced B) relaxed (Inr x')) (\<lambda>y s. case y of Inl e \<Rightarrow> True
        | Inr x' \<Rightarrow> followed (streamed (cmds r)) (map sp_pose sps) (x_result x') (streamed (cmds s))) (\<lambda>_ _. True) r'"
      by (intro wpS_mono [OF clip_restore]) (clarsimp simp: keeps_clip_def, erule (2) followed_same, simp)
  next
    fix e and r' :: "'b trace robot"
    show "wpS (restore_wrench (traced B) relaxed (Inl e)) (\<lambda>y s. case y of Inl e \<Rightarrow> True
        | Inr x' \<Rightarrow> followed (streamed (cmds r)) (map sp_pose sps) (x_result x') (streamed (cmds s))) (\<lambda>_ _. True) r'"
      by (intro wpS_mono [OF restore_raises]) auto
  qed
qed

lemma run_chunk_follows:
  fixes r :: "'b trace robot"
  assumes "plan_chunk_preview c (st_tcp_pose start) (Some (r_profile r)) (r_hz r) = Inr pv"
    "0 \<le> ck_max_tcp_linear_speed c" "0 \<le> ck_max_tcp_angular_speed c" "er_success res"
  shows "wpS (run_chunk (traced B) args c start res)
     (\<lambda>res' r'. followed (streamed (cmds r)) (pv_setpoints pv) res' (streamed (cmds r'))) (\<lambda>_ _. True) r"
proof -
  obtain a ci sps where a: "for_execution c (st_tcp_pose start) = Inr a"
    and ci: "mk_cart_interp a (st_tcp_pose start) (r_hz r) (Some (tighten (p_max_linear_speed (r_profile r)) (ck_max_tcp_linear_speed a)))
        (Some (tighten (p_max_angular_speed (r_profile r)) (ck_max_tcp_angular_speed a))) = Inr ci"
    and sps: "interp_iter ci = map Inr sps" "pv_setpoints pv = map sp_pose sps"
    using preview_plan [OF assms(1-3)] by blast
  let ?F = "\<lambda>res' r'. followed (streamed (cmds r)) (map sp_pose sps) res' (streamed (cmds r'))"
  have eff: "er_success res'" if "effective_wrench p c' (log_put k v (log_put k' v' res)) = Inr (w, relaxed, res')"
    for p c' k v k' v' w relaxed res'
    using that assms(4) by (auto simp: effective_wrench_def bindR_eq_Inr split: option.splits if_splits)
  have report: "wpS (bindS (get_state (traced B)) (\<lambda>end'. raise_if_stopped (xa_raise_on_stop args) (final_report env start end' x)))
      ?F (\<lambda>_ _. True) r1" if "?F (x_result x) r1" for env x and r1 :: "'b trace robot"
    by (rule wpS_bindI [OF calm_streams [OF calm_get_state]])
      (use that in \<open>auto simp: raise_if_stopped_def wpS_base final_report_def Let_def followed_def\<close>)
  have tail: "wpS (bindS (finallyS (bindS (chunk_loop (traced B) env (map Inr sps) (fresh_locals res' start)) (finish_pending (traced B) env))
        (restore_wrench (traced B) relaxed))
       (\<lambda>x. bindS (get_state (traced B)) (\<lambda>end'. raise_if_stopped (xa_raise_on_stop args) (final_report env start end' x))))
      ?F (\<lambda>_ _. True) r1" if "same_streams r r1" "er_success res'" for env res' relaxed and r1 :: "'b trace robot"
    using run_loop_follows [of "fresh_locals res' start" B env sps relaxed r1] that
    by (intro wpS_bindI [OF _ report]) (auto simp: fresh_locals_def)
  have lim: "wpS (if relaxed then onB (bk_set_contact_wrench_limit (traced B) w) else retS ()) (\<lambda>_. same_streams r) (\<lambda>_ _. True) r"
    for relaxed w
    using calm_streams [OF calm_ops(5) [of no_stream w B], of r] by (auto simp: wpS_base)
  define eff where "eff = effective_wrench (r_profile r) a
    (log_put ''angular_speed_cap'' (JNum (tighten (p_max_angular_speed (r_profile r)) (ck_max_tcp_angular_speed a)))
      (log_put ''linear_speed_cap'' (JNum (tighten (p_max_linear_speed (r_profile r)) (ck_max_tcp_linear_speed a))) res))"
  show ?thesis
  proof (cases eff)
    case (Inl e)
    then show ?thesis by (simp add: run_chunk_def Let_def wpS_bind wpS_base a eff_def)
  next
    case (Inr y)
    obtain w relaxed res' where y: "y = (w, relaxed, res')" by (cases y)
    define env where "env = \<lparr>e_chunk = a, e_wrench_cap = w, e_record = xa_record args, e_clock = xa_clock args\<rparr>"
    have "wpS (thenS (if relaxed then onB (bk_set_contact_wrench_limit (traced B) w) else retS ())
        (bindS (finallyS (bindS (chunk_loop (traced B) env (map Inr sps) (fresh_locals res' start)) (finish_pending (traced B) env))
          (restore_wrench (traced B) relaxed))
         (\<lambda>x. bindS (get_state (traced B)) (\<lambda>end'. raise_if_stopped (xa_raise_on_stop args) (final_report env start end' x)))))
        ?F (\<lambda>_ _. True) r"
      by (rule wpS_thenI [OF lim]) (rule tail, assumption, rule eff, use Inr y in \<open>simp add: eff_def\<close>)
    then show ?thesis
      using Inr unfolding y eff_def by (simp add: run_chunk_def Let_def wpS_bind wpS_base a ci sps env_def)
  qed
qed

lemma under_run_chunk: "keeps_under (run_chunk (traced B) args c start res)"
  unfolding run_chunk_def raise_if_stopped_def
  by (auto simp: Let_def intro!: under_chunk_loop under_reset under_calm_ops frameS_base frameS_bind frameS_then frameS_finally
      split: prod.split)

text \<open>A call that does report, for the properties at a concrete chunk.\<close>

lemma demo_call_reports:
  "\<exists>res r'. execute_cartesian_chunk (traced fake_backend) default_args (chunk_of [demo_waypoint (6/10) 1, demo_waypoint (5/10) 1])
      (demo_robot (\<lambda>_. False)) = (Inr res, r')"
proof -
  let ?c = "chunk_of [demo_waypoint (6/10) 1, demo_waypoint (5/10) 1]" and ?r = "demo_robot (\<lambda>_. False)"
  obtain out r' where e: "execute_cartesian_chunk (traced fake_backend) default_args ?c ?r = (out, r')"
    by (cases "execute_cartesian_chunk (traced fake_backend) default_args ?c ?r")
  have "wpS (execute_cartesian_chunk (traced fake_backend) default_args ?c)
      (\<lambda>_ r'. norm (rot (fk_pose (fst (r_b r')))) = 1 \<and> r_profile r' = r_profile ?r)
      (\<lambda>e r'. e = ChunkStoppedError \<and> xa_raise_on_stop default_args \<and> norm (rot (fk_pose (fst (r_b r')))) = 1 \<and> r_profile r' = r_profile ?r) ?r"
    by (rule fake_tr.execute_held)
      (simp_all add: demo_robot_def mk_fake_def caps_shaped_def default_profile_def force_shaped_def plain_chunk norm_quat_def)
  then show ?thesis using e by (cases out) (auto simp: wpS_def default_args_def)
qed

text \<open>C22: What the operator is shown is what runs. Take the preview planned from the pose a chunk call starts at, with the
  profile and the rate of the robot: over any backend, when nothing was clipped, the poses streamed are
  the preview's setpoints in order, all of them if the call succeeded and the first so many if it was stopped;
  and there is such a preview unless the pose read had no unit quaternion.\<close>

theorem preview_is_what_runs:
  assumes "execute_cartesian_chunk (traced B) args c r = (Inr res, r')" "cmds r = []"
    and "0 \<le> ck_max_tcp_linear_speed c" "0 \<le> ck_max_tcp_angular_speed c" "chunk_wf c" "0 < r_hz r"
    and "0 < p_max_linear_speed (r_profile r)" "0 < p_max_angular_speed (r_profile r)"
  shows "streamed (cmds r') = [] \<or> (\<exists>st. CRead st \<in> set (cmds r')
    \<and> (case plan_chunk_preview c (st_tcp_pose st) (Some (r_profile r)) (r_hz r) of
           Inl e \<Rightarrow> norm (rot (st_tcp_pose st)) \<noteq> 1
         | Inr pv \<Rightarrow> er_clipped res \<or> (\<exists>n \<le> length (pv_setpoints pv). streamed (cmds r') = take n (pv_setpoints pv)
             \<and> (er_success res \<longrightarrow> n = length (pv_setpoints pv)))))"
  using assms(1)
proof (cases rule: execute_cartesian_cases)
  case (abort r0)
  obtain cs where cs: "cmds r' = cmds r @ cs" "list_all (\<lambda>c. \<exists>s. c = CRead s) cs"
    using calmS_D(3) [OF abort_calm abort(1)] abort(3) by auto
  then have "streamed cs = []" by (intro streamed_calm) (auto simp: list_all_iff)
  then show ?thesis using cs(1) assms(2) by simp
next
  case (run r1 start res0)
  obtain cs where cs: "cmds r1 = cs" "list_all entering cs" "CRead start \<in> set cs"
    using run(1) assms(2) by (auto simp: enter_post_def)
  have same: "r_profile r1 = r_profile r" "r_hz r1 = r_hz r" using run(1) by (simp_all add: enter_post_def settings_def)
  have no: "streamed (cmds r1) = []" using streamed_calm [OF entering_no_stream [OF cs(2)]] cs(1) by simp
  have "\<exists>n \<le> length (pv_setpoints pv). streamed (cmds r') = take n (pv_setpoints pv) \<and> (er_success res \<longrightarrow> n = length (pv_setpoints pv))"
    if "plan_chunk_preview c (st_tcp_pose start) (Some (r_profile r)) (r_hz r) = Inr pv" "\<not> er_clipped res" for pv
    using run_chunk_follows [of c start r1 pv res0 B args, unfolded same, OF that(1) assms(3,4) run(5)] run(2) that(2) no
    by (auto simp: wpS_ok followed_def)
  moreover have "CRead start \<in> set (cmds r')" using frameS_D(2) [OF under_run_chunk run(2)] cs by auto
  moreover have "norm (rot (st_tcp_pose start)) \<noteq> 1" if "plan_chunk_preview c (st_tcp_pose start) (Some (r_profile r)) (r_hz r) = Inl e" for e
    using preview_answers [OF assms(5) _ assms(6,3,4), of "st_tcp_pose start" "Some (r_profile r)"] assms(7,8) that by auto
  ultimately show ?thesis by (intro disjI2 exI [of _ start]) (auto split: sum.split)
qed (use assms(2) in auto)

lemma preview_is_what_runs_witness:
  "\<exists>res r'. execute_cartesian_chunk (traced fake_backend) default_args (chunk_of [demo_waypoint (6/10) 1, demo_waypoint (5/10) 1])
      (demo_robot (\<lambda>_. False)) = (Inr res, r')
    \<and> (streamed (cmds r') = [] \<or> (\<exists>st. CRead st \<in> set (cmds r')
      \<and> (case plan_chunk_preview (chunk_of [demo_waypoint (6/10) 1, demo_waypoint (5/10) 1]) (st_tcp_pose st) (Some default_profile) 100 of
           Inl e \<Rightarrow> norm (rot (st_tcp_pose st)) \<noteq> 1
         | Inr pv \<Rightarrow> er_clipped res \<or> (\<exists>n \<le> length (pv_setpoints pv). streamed (cmds r') = take n (pv_setpoints pv)))))"
proof -
  let ?c = "chunk_of [demo_waypoint (6/10) 1, demo_waypoint (5/10) 1]" and ?r = "demo_robot (\<lambda>_. False)"
  obtain res r' where e: "execute_cartesian_chunk (traced fake_backend) default_args ?c ?r = (Inr res, r')"
    using demo_call_reports by blast
  have rc: "r_profile ?r = default_profile" "r_hz ?r = 100" by (simp_all add: demo_robot_def)
  have cap: "0 \<le> ck_max_tcp_linear_speed ?c" "0 \<le> ck_max_tcp_angular_speed ?c" "chunk_wf ?c" "0 < r_hz ?r"
      "0 < p_max_linear_speed (r_profile ?r)" "0 < p_max_angular_speed (r_profile ?r)"
    by (simp_all add: plain_chunk rc default_profile_def chunk_of_def [THEN arg_cong, where f = ck_max_tcp_linear_speed]
        chunk_of_def [THEN arg_cong, where f = ck_max_tcp_angular_speed])
  from preview_is_what_runs [OF e _ cap]
  have "streamed (cmds r') = [] \<or> (\<exists>st. CRead st \<in> set (cmds r')
      \<and> (case plan_chunk_preview ?c (st_tcp_pose st) (Some default_profile) 100 of
           Inl e \<Rightarrow> norm (rot (st_tcp_pose st)) \<noteq> 1
         | Inr pv \<Rightarrow> er_clipped res \<or> (\<exists>n \<le> length (pv_setpoints pv). streamed (cmds r') = take n (pv_setpoints pv)
             \<and> (er_success res \<longrightarrow> n = length (pv_setpoints pv)))))"
    unfolding rc by simp
  then show ?thesis using e by (intro exI conjI) (simp, simp, erule disj_forward, simp, fastforce split: sum.splits)
qed

end
