(* ===== verification/Viz_Proofs.thy ===== *)
theory Viz_Proofs
  imports Viz_App Preview_Proofs
begin

text \<open>
  The viewer only reads: whatever it polls, previews or asks, the robot is given nothing. And its staleness check
  never fires, as it compares the state it has just planned from with itself.
\<close>

section \<open>The viewer only reads\<close>

datatype viz_op =
    Attach bool | PollPass real real nat | ShowState robot_state
  | PreviewChunk chunk "robot_state option" "safety_profile option" string
  | AskGate bool nat chunk | AfterStep nat exec_result

fun run_viz_op :: "'w viewed \<Rightarrow> viz_op \<Rightarrow> ('w \<times> viz, unit) sem" where
  "run_viz_op V (Attach allow) = attach V allow"
| "run_viz_op V (PollPass now due g) = thenS (poll_pass V now due g) (retS ())"
| "run_viz_op V (ShowState s) = on2 (apply_state s)"
| "run_viz_op V (PreviewChunk c s p i) = thenS (preview_chunk V c s p i) (retS ())"
| "run_viz_op V (AskGate click step c) = thenS (viz_gate V click step c) (retS ())"
| "run_viz_op V (AfterStep step res) = on2 (viz_on_step step res)"

text \<open>A session: each operation from the world the last one left, returned or raised.\<close>

definition viz_session :: "'w viewed \<Rightarrow> viz_op list \<Rightarrow> 'w \<times> viz \<Rightarrow> 'w \<times> viz" where
  "viz_session V ops v = fold (\<lambda>op v. snd (run_viz_op V op v)) ops v"

text \<open>
  The interface: a viewer calls two operations of the robot it watches. Whatever those two keep of the
  robot's world, the viewer keeps.
\<close>

locale watched_robot =
  fixes V :: "'w viewed" and I :: "'w \<Rightarrow> bool"
  assumes state_keeps: "keepsS I (vw_get_state V)"
    and profile_keeps: "keepsS I (vw_profile V)"
begin

abbreviation kept :: "'w \<times> viz \<Rightarrow> bool" where
  "kept v \<equiv> I (fst v)"

lemma world_keeps: "keepsS I m \<Longrightarrow> keepsS kept (on1 m)"
  by (auto simp: keepsS_def on1_def split: prod.split)

lemma page_keeps: "keepsS kept (on2 m)"
  by (simp add: keepsS_def on2_def split: prod.split)

lemma opt_keeps: "(\<And>y. keepsS J (f y)) \<Longrightarrow> keepsS J m \<Longrightarrow> keepsS J (case x of None \<Rightarrow> m | Some y \<Rightarrow> f y)"
  by (simp split: option.split)

lemmas keeps_rules = world_keeps [OF state_keeps] world_keeps [OF profile_keeps] page_keeps keepsS_base keepsS_bind keepsS_then
  keepsS_catch opt_keeps

lemma preview_keeps: "keepsS kept (preview_chunk V c s p i)"
  unfolding preview_chunk_def by (auto intro!: keeps_rules)

lemma poll_keeps: "keepsS kept (poll_pass V now due g)"
  unfolding poll_pass_def refresh_profile_def by (auto intro!: keeps_rules split: prod.split)

lemma attach_keeps: "keepsS kept (attach V allow)"
  unfolding attach_def by (auto intro!: keeps_rules)

lemma gate_keeps: "keepsS kept (viz_gate V click step c)"
  unfolding viz_gate_def by (auto intro!: keeps_rules preview_keeps simp: Let_def split: prod.split)

lemma op_keeps: "keepsS kept (run_viz_op V op)"
  by (cases op) (auto intro!: keepsS_then preview_keeps poll_keeps attach_keeps gate_keeps page_keeps)

lemma session_keeps: "I (fst v) \<Longrightarrow> I (fst (viz_session V ops v))"
  unfolding viz_session_def
proof (induction ops arbitrary: v)
  case (Cons op ops)
  then show ?case using keepsS_D [OF op_keeps Cons.prems, of op] by simp
qed simp

end

text \<open>The robot itself is watched without being touched.\<close>

definition watched :: "'b trace robot \<Rightarrow> 'b trace robot \<Rightarrow> bool" where
  "watched r0 r \<longleftrightarrow> settings r = settings r0 \<and> r_filter r = r_filter r0 \<and> r_owner r = r_owner r0
     \<and> r_cancel r = r_cancel r0 \<and> (\<exists>cs. cmds r = cmds r0 @ cs \<and> list_all (\<lambda>c. \<exists>s. c = CRead s) cs)"

lemma watched_read: "keepsS (watched r0) (get_state (traced B))"
proof (rule keepsS_I)
  fix r
  assume r: "watched r0 r"
  obtain x r' where g: "get_state (traced B) r = (x, r')" by (cases "get_state (traced B) r")
  have "settings r' = settings r \<and> r_filter r' = r_filter r"
    "\<exists>cs. cmds r' = cmds r @ cs \<and> list_all (\<lambda>c. \<exists>s. c = CRead s) cs"
    using calmS_D [OF calm_get_state g, of "\<lambda>c. \<exists>s. c = CRead s"] by auto
  moreover have "r_owner r' = r_owner r" "r_cancel r' = r_cancel r"
    using g by (auto simp: get_state_def bindS_def sem_simps onB_def split: prod.splits sum.splits)
  ultimately show "watched r0 (snd (get_state (traced B) r))" using r g by (force simp: watched_def)
qed

interpretation lv: watched_robot "local_view (traced B)" "watched r0" for B r0
  by unfold_locales (auto simp: local_view_def intro: watched_read)


section \<open>The gate\<close>

lemma pose_distance_self: "pose_distance p p = (0, 0)"
  by (simp add: pose_distance_def)

lemma plan_start: "plan_chunk_preview c start p hz = Inr pv \<Longrightarrow> pv_start pv = start"
  by (auto simp: plan_chunk_preview_def bindR_eq_Inr split_beta)

definition clicked :: "viz \<Rightarrow> bool" where
  "clicked z = (case vz_clicks z of [] \<Rightarrow> False | buttons # later \<Rightarrow> buttons \<noteq> [] \<and> last buttons = ''Approve'')"

lemma clicks_kept: "vz_clicks (render_preview pv i z) = vz_clicks z"
  by (auto simp: render_preview_def set_scrub_def place_ghost_def clear_preview_def Let_def split: option.split)

lemma wait_verdict: "fst (wait_for_click step z) = Inr (clicked z)"
  by (auto simp: wait_for_click_def bindS_def sem_simps clicked_def Let_def split: list.split)

text \<open>The staleness check of the go/no-go gate never refuses: the preview is planned from the state just read and
  compared with that same state. Without a click the gate approves every chunk it can plan; with one it answers
  what was clicked; and after that one reading the arm is not looked at again, however long the click takes.\<close>

theorem gate_never_stale:
  assumes "vz_attached z" "vw_get_state V w = (Inr st, w')"
    and "plan_chunk_preview c (st_tcp_pose st) (vz_profile z) (vz_control_hz z) = Inr pv"
  shows "fst (viz_gate V False step c (w, z)) = Inr True \<and> fst (viz_gate V True step c (w, z)) = Inr (clicked z)
    \<and> fst (snd (viz_gate V click step c (w, z))) = w'"
proof -
  have show1: "preview_chunk V c (Some st) None i (w', z) = (Inr pv, (w', render_preview pv i z))" for i
    using assms(3) by (simp add: preview_chunk_def bindS_def sem_simps on2_def)
  have far: "\<not> STALE_LINEAR_M < 0" "\<not> STALE_ANGULAR_RAD < 0" by (simp_all add: STALE_LINEAR_M_def STALE_ANGULAR_RAD_def)
  have "viz_gate V b step c (w, z) = (if \<not> b then retS True else on2 (wait_for_click step)) (w', render_preview pv (show_int (int step)) z)" for b
    using assms(1,2) show1 far
    by (simp add: viz_gate_def bindS_def sem_simps on1_def plan_start [OF assms(3)] pose_distance_self)
  moreover have "clicked (render_preview pv i z) = clicked z" for i by (simp add: clicked_def clicks_kept)
  ultimately show ?thesis
    using wait_verdict [of step "render_preview pv (show_int (int step)) z"]
    by (auto simp: sem_simps on2_def split: prod.split)
qed

lemma gate_never_stale_witness:
  "\<exists>c. fst (viz_gate (local_view (traced fake_backend)) False 1 c
        (demo_robot (\<lambda>_. False), (mk_viz None 20 512 100 [[''Reject'']])\<lparr>vz_attached := True\<rparr>)) = Inr True
    \<and> fst (viz_gate (local_view (traced fake_backend)) True 1 c
        (demo_robot (\<lambda>_. False), (mk_viz None 20 512 100 [[''Reject'']])\<lparr>vz_attached := True\<rparr>)) = Inr False"
proof -
  let ?z = "(mk_viz None 20 512 100 [[''Reject'']])\<lparr>vz_attached := True\<rparr>"
  let ?c = "chunk_of [demo_waypoint (6/10) 1, demo_waypoint (5/10) 1]"
  have "wpS (get_state (traced fake_backend)) (\<lambda>s r'. norm (rot (st_tcp_pose s)) = 1) (\<lambda>_ _. False) (demo_robot (\<lambda>_. False))"
    by (rule fake_tr.get_state_frame) (simp_all add: demo_robot_def mk_fake_def norm_quat_def)
  then obtain s r' where g: "vw_get_state (local_view (traced fake_backend)) (demo_robot (\<lambda>_. False)) = (Inr s, r')"
      "norm (rot (st_tcp_pose s)) = 1"
    by (auto simp: wpS_def local_view_def split: prod.splits sum.splits)
  obtain pv where pv: "plan_chunk_preview ?c (st_tcp_pose s) (vz_profile ?z) (vz_control_hz ?z) = Inr pv"
    using preview_answers [of ?c "st_tcp_pose s" 100 None] g(2) by (auto simp: mk_viz_def chunk_of_def [THEN arg_cong, where f = ck_max_tcp_linear_speed]
        chunk_of_def [THEN arg_cong, where f = ck_max_tcp_angular_speed])
  have att: "vz_attached ?z" by simp
  have "clicked ?z = False" by (simp add: clicked_def mk_viz_def)
  with gate_never_stale [OF att g(1) pv] show ?thesis by (intro exI [of _ ?c]) simp
qed

end
