(* ===== verification/Robot_Build.thy ===== *)
theory Robot_Build
  imports Robot_Facade
begin

text \<open>
  Building a robot: the constructor of \<^verbatim>\<open>robot.py\<close> with its choice of backend (\<^verbatim>\<open>backends/__init__.py\<close>),
  the robot of a configuration file, and the \<open>with\<close> block of a robot. \<open>new\<close> builds the backend's
  object: the backends' own constructors.
\<close>

record mujoco_spec =
  ms_model_path :: "string option"
  ms_n_joints :: int
  ms_control_dt :: real
  ms_tcp_site :: "string option"
  ms_gripper_actuator :: "string option"
  ms_width_scale :: real
  ms_width_offset :: real

datatype backend_spec = FakeSpec | RdkSpec string "string option" | MujocoSpec mujoco_spec

text \<open>The backend a name stands for, and its constructor's arguments: both look at the name in lower case.\<close>

datatype backend_kind = FakeKind | RdkKind | MujocoKind

definition get_backend :: "string \<Rightarrow> backend_kind result" where
  "get_backend name =
     (let n = str_lower name in
      if n \<in> {''fake'', ''sim_kinematic''} then Inr FakeKind
      else if n \<in> {''flexiv_rdk'', ''rdk'', ''flexiv''} then Inr RdkKind
      else if n \<in> {''mujoco'', ''mjx''} then Inr MujocoKind
      else Inl ValueError)"

definition backend_spec :: "robot_config \<Rightarrow> real \<Rightarrow> backend_spec result" where
  "backend_spec cfg dt =
     bindR (get_backend (cf_backend cfg)) (\<lambda>kind.
       Inr (case kind of
              FakeKind \<Rightarrow> FakeSpec
            | RdkKind \<Rightarrow> RdkSpec (cf_robot_sn cfg) (cf_gripper_name cfg)
            | MujocoKind \<Rightarrow>
                MujocoSpec \<lparr>ms_model_path = cf_model_path cfg, ms_n_joints = cf_n_joints cfg,
                  ms_control_dt = (case cf_control_dt cfg of Some d \<Rightarrow> d | None \<Rightarrow> dt),
                  ms_tcp_site = cf_mujoco_tcp_site cfg, ms_gripper_actuator = cf_mujoco_gripper_actuator cfg,
                  ms_width_scale = cf_mujoco_gripper_width_scale cfg, ms_width_offset = cf_mujoco_gripper_width_offset cfg\<rparr>))"

definition robot_rate :: "robot_config \<Rightarrow> real option \<Rightarrow> real" where
  "robot_rate cfg control_hz =
     (case control_hz of Some h \<Rightarrow> (if h = 0 then cf_control_hz cfg else h) | None \<Rightarrow> cf_control_hz cfg)"

definition build_robot ::
  "(string \<Rightarrow> safety_profile result) \<Rightarrow> (nat \<Rightarrow> bool) \<Rightarrow> (backend_spec \<Rightarrow> 'b) \<Rightarrow> robot_config \<Rightarrow> real option \<Rightarrow>
   string option \<Rightarrow> 'b robot result" where
  "build_robot load requests new cfg control_hz profile =
     (if robot_rate cfg control_hz = 0 then Inl ZeroDivisionError
      else bindR (backend_spec cfg (1 / robot_rate cfg control_hz)) (\<lambda>spec.
             mk_robot load requests cfg (new spec) control_hz profile))"

definition robot_from_config ::
  "(string \<Rightarrow> robot_config result) \<Rightarrow> (string \<Rightarrow> safety_profile result) \<Rightarrow> (nat \<Rightarrow> bool) \<Rightarrow> (backend_spec \<Rightarrow> 'b) \<Rightarrow>
   string \<Rightarrow> real option \<Rightarrow> string option \<Rightarrow> 'b robot result" where
  "robot_from_config load_config load requests new path control_hz profile =
     bindR (load_config path) (\<lambda>cfg. build_robot load requests new cfg control_hz profile)"

definition robot_exit :: "'b backend \<Rightarrow> ('b robot, unit) sem" where
  "robot_exit B = finallyS (robot_stop B) (\<lambda>out. thenS (robot_disconnect B) (retS out))"

definition with_robot :: "'b backend \<Rightarrow> ('b robot, 'a) sem \<Rightarrow> ('b robot, 'a) sem" where
  "with_robot B body =
     thenS (robot_connect B) (finallyS body (\<lambda>out. thenS (robot_exit B) (retS out)))"

lemma mk_robot_shape:
  assumes "mk_robot load requests cfg b hz p = Inr r"
  shows "r_cfg r = cfg" "r_b r = b" "r_hz r = robot_rate cfg hz" "r_dt r = 1 / robot_rate cfg hz" "robot_rate cfg hz \<noteq> 0"
    "\<not> r_cancel r" "r_owner r = None"
  using assms by (auto simp: mk_robot_def robot_rate_def Let_def bindR_eq_Inr split: if_splits)

lemma build_robot_shape:
  assumes "build_robot load requests new cfg hz p = Inr r"
  obtains spec where "backend_spec cfg (r_dt r) = Inr spec" "r_b r = new spec" "r_cfg r = cfg"
    "r_dt r = 1 / robot_rate cfg hz" "\<not> r_cancel r" "r_owner r = None"
  using assms by (auto simp: build_robot_def bindR_eq_Inr mk_robot_shape split: if_splits)

end
