(* ===== verification/Ros_Node.thy ===== *)
theory Ros_Node
  imports Robot_Build
begin

text \<open>
  \<^verbatim>\<open>ros2/.../control_node.py\<close>: the ROS 2 bridge. The world of a callback is the node: its robot, the jog
  parameters and the time of the last twist. Clock readings, messages and whether a goal has been asked to
  cancel are arguments; what a callback publishes or answers is its result. The callbacks are whole calls here;
  a stop that arrives while a goal runs is one of the robot's requests.
\<close>

section \<open>Parameters and construction\<close>

record node_params =
  np_backend :: string
  np_serial :: string
  np_control_hz :: real
  np_safety_profile :: string
  np_state_rate :: real
  np_joint_names :: "string list"
  np_twist_in_type :: string
  np_scale_linear :: real
  np_scale_rotational :: real
  np_max_age :: real

definition default_params :: node_params where
  "default_params = \<lparr>np_backend = ''fake'', np_serial = '''', np_control_hz = 100, np_safety_profile = ''tabletop_safe'',
     np_state_rate = 50, np_joint_names = [''''], np_twist_in_type = ''unitless'', np_scale_linear = 4 / 10,
     np_scale_rotational = 8 / 10, np_max_age = 25 / 100\<rparr>"

record 'b node =
  nd_robot :: "'b robot"
  nd_joint_names :: "string list"
  nd_timer_period :: real
  nd_twist_in_type :: string
  nd_scale_linear :: real
  nd_scale_rotational :: real
  nd_max_age :: real
  nd_last_twist :: "real option"

definition onN :: "('b robot, 'a) sem \<Rightarrow> ('b node, 'a) sem" where
  "onN m nd = (case m (nd_robot nd) of (x, r) \<Rightarrow> (x, nd\<lparr>nd_robot := r\<rparr>))"

definition node_config :: "node_params \<Rightarrow> robot_config" where
  "node_config P = default_config\<lparr>cf_backend := np_backend P, cf_robot_sn := np_serial P,
     cf_control_hz := np_control_hz P, cf_default_safety_profile := np_safety_profile P\<rparr>"

definition node_joint_names :: "string list \<Rightarrow> nat \<Rightarrow> string list" where
  "node_joint_names jn n =
     (if jn \<noteq> [] \<and> hd jn \<noteq> '''' then jn else map (\<lambda>i. ''joint_'' @ show_int (int i)) [1..<Suc n])"

text \<open>
  The constructor: the jog parameters are checked before the robot is built, and it is brought up in the
  Cartesian mode under the bridge's lease.
\<close>

definition bring_up :: "'b backend \<Rightarrow> ('b robot, robot_state) sem" where
  "bring_up B =
     thenS (robot_connect B)
    (thenS (robot_acquire_lease ''ros2_bridge'')
    (thenS (start_cartesian_impedance B None False None None)
       (get_state B)))"

definition mk_node ::
  "'b backend \<Rightarrow> (string \<Rightarrow> safety_profile result) \<Rightarrow> (nat \<Rightarrow> bool) \<Rightarrow> (backend_spec \<Rightarrow> 'b) \<Rightarrow> node_params
   \<Rightarrow> 'b node result" where
  "mk_node B load requests new P =
     (if np_twist_in_type P \<notin> {''unitless'', ''speed_units''} then Inl ValueError
      else bindR (build_robot load requests new (node_config P) None None) (\<lambda>r.
        case bring_up B r of
          (Inl e, r') \<Rightarrow> Inl e
        | (Inr s, r') \<Rightarrow>
            Inr \<lparr>nd_robot = r', nd_joint_names = node_joint_names (np_joint_names P) (length (st_q s)),
                 nd_timer_period = 1 / max (np_state_rate P) 1, nd_twist_in_type = np_twist_in_type P,
                 nd_scale_linear = np_scale_linear P, nd_scale_rotational = np_scale_rotational P,
                 nd_max_age = np_max_age P, nd_last_twist = None\<rparr>))"

section \<open>State\<close>

fun mode_name :: "control_mode \<Rightarrow> string" where
  "mode_name IDLE = ''IDLE''"
| "mode_name NRT_JOINT_POSITION = ''NRT_JOINT_POSITION''"
| "mode_name NRT_JOINT_IMPEDANCE = ''NRT_JOINT_IMPEDANCE''"
| "mode_name NRT_CARTESIAN_MOTION_FORCE = ''NRT_CARTESIAN_MOTION_FORCE''"
| "mode_name NRT_PRIMITIVE = ''NRT_PRIMITIVE''"
| "mode_name RT_JOINT_POSITION = ''RT_JOINT_POSITION''"
| "mode_name RT_JOINT_IMPEDANCE = ''RT_JOINT_IMPEDANCE''"
| "mode_name RT_CARTESIAN_MOTION_FORCE = ''RT_CARTESIAN_MOTION_FORCE''"
| "mode_name RT_JOINT_TORQUE = ''RT_JOINT_TORQUE''"

fun status_name :: "safety_status \<Rightarrow> string" where
  "status_name OK = ''OK''"
| "status_name CLIPPED = ''CLIPPED''"
| "status_name HOLDING = ''HOLDING''"
| "status_name STOPPED = ''STOPPED''"
| "status_name FAULT = ''FAULT''"

record state_msg =
  sm_stamp :: real
  sm_frame :: string
  sm_q :: "real list"
  sm_dq :: "real list"
  sm_tcp_pose :: "real list"
  sm_tcp_vel :: "real list"
  sm_wrench :: "real list"
  sm_gripper_width :: real
  sm_gripper_is_moving :: bool
  sm_control_mode :: string
  sm_safety_status :: string

record joint_msg =
  jm_stamp :: real
  jm_name :: "string list"
  jm_position :: "real list"
  jm_velocity :: "real list"

definition publish_state :: "'b backend \<Rightarrow> real \<Rightarrow> ('b node, state_msg \<times> joint_msg) sem" where
  "publish_state B now =
     bindS (onN (get_state B)) (\<lambda>s.
     getS (\<lambda>nd.
       (\<lparr>sm_stamp = now, sm_frame = ''base'', sm_q = st_q s, sm_dq = st_dq s, sm_tcp_pose = of_pose (st_tcp_pose s),
         sm_tcp_vel = st_tcp_vel s, sm_wrench = st_wrench s, sm_gripper_width = st_gripper_width s,
         sm_gripper_is_moving = st_gripper_is_moving s, sm_control_mode = mode_name (st_control_mode s),
         sm_safety_status = status_name (st_safety_status s)\<rparr>,
        \<lparr>jm_stamp = now, jm_name = nd_joint_names nd, jm_position = st_q s, jm_velocity = st_dq s\<rparr>)))"

section \<open>Jogging\<close>

text \<open>A twist and its stamp in seconds and nanoseconds; a zero stamp is no stamp.\<close>

record twist_msg =
  tm_sec :: int
  tm_nanosec :: int
  tm_linear :: vec3
  tm_angular :: vec3

definition is_stale :: "real \<Rightarrow> real \<Rightarrow> twist_msg \<Rightarrow> bool" where
  "is_stale max_age now m \<longleftrightarrow> 0 < max_age \<and> (tm_sec m \<noteq> 0 \<or> tm_nanosec m \<noteq> 0)
     \<and> max_age < now - (of_int (tm_sec m) + of_int (tm_nanosec m) / 10^9)"

definition twist_vector :: "twist_msg \<Rightarrow> real list" where
  "twist_vector m = of_vec3 (tm_linear m) @ of_vec3 (tm_angular m)"

definition jog_velocity :: "'b node \<Rightarrow> twist_msg \<Rightarrow> real list" where
  "jog_velocity nd m =
     (if nd_twist_in_type nd = ''unitless''
      then let v = map (\<lambda>x. max (- 1) (min 1 x)) (twist_vector m)
           in map (\<lambda>x. x * nd_scale_linear nd) (take 3 v) @ map (\<lambda>x. x * nd_scale_rotational nd) (drop 3 v)
      else twist_vector m)"

definition max_gap :: "'b node \<Rightarrow> real" where
  "max_gap nd = (if 0 < nd_max_age nd then nd_max_age nd else 1 / 10)"

definition jog_interval :: "'b node \<Rightarrow> real \<Rightarrow> real" where
  "jog_interval nd now =
     (case nd_last_twist nd of None \<Rightarrow> r_dt (nd_robot nd) | Some t \<Rightarrow> min (max (now - t) 0) (max_gap nd))"

text \<open>The clock is read once for the age and once for the interval.\<close>

definition on_twist :: "'b backend \<Rightarrow> real \<Rightarrow> real \<Rightarrow> twist_msg \<Rightarrow> ('b node, unit) sem" where
  "on_twist B now1 now2 m =
     bindS (getS (\<lambda>nd. (is_stale (nd_max_age nd) now1 m, jog_velocity nd m, jog_interval nd now2))) (\<lambda>(stale, v, dt).
       if stale then retS ()
       else thenS (modS (\<lambda>nd. nd\<lparr>nd_last_twist := Some now2\<rparr>))
              (let delta = map (\<lambda>x. x * dt) v
               in if list_ex (\<lambda>d. 1 / 10^9 < \<bar>d\<bar>) delta
                  then catchS (thenS (onN (servo_cartesian_delta_raw B delta (Some dt) ''base'' None)) (retS ())) (\<lambda>_. retS ())
                  else retS ()))"

section \<open>Services\<close>

datatype service_note =
    ModeSet string bool
  | UnsupportedMode string
  | Homed
  | Stopped
  | Failed py_error

definition str_upper :: "string \<Rightarrow> string" where
  "str_upper = map (\<lambda>c. let n = of_char c :: nat in if 97 \<le> n \<and> n \<le> 122 then char_of (n - 32) else c)"

definition on_set_mode :: "'b backend \<Rightarrow> string \<Rightarrow> bool \<Rightarrow> ('b node, bool \<times> service_note) sem" where
  "on_set_mode B mode realtime =
     catchS
       (let name = str_upper (strip mode);
            rt = (realtime \<or> starts_with ''RT_'' name)
        in if name \<in> {''NRT_JOINT_IMPEDANCE'', ''RT_JOINT_IMPEDANCE''}
           then thenS (onN (start_joint_impedance B None rt)) (retS (True, ModeSet name rt))
           else if name \<in> {''NRT_CARTESIAN_MOTION_FORCE'', ''RT_CARTESIAN_MOTION_FORCE''}
           then thenS (onN (start_cartesian_impedance B None rt None None)) (retS (True, ModeSet name rt))
           else retS (False, UnsupportedMode mode))
       (\<lambda>e. retS (False, Failed e))"

definition on_home :: "'b backend \<Rightarrow> (real \<times> real) list \<Rightarrow> ('b node, bool \<times> service_note) sem" where
  "on_home B elapsed =
     catchS (thenS (onN (robot_home B None None None elapsed)) (retS (True, Homed))) (\<lambda>e. retS (False, Failed e))"

definition on_stop :: "'b backend \<Rightarrow> ('b node, bool \<times> service_note) sem" where
  "on_stop B = thenS (onN (robot_stop B)) (retS (True, Stopped))"

section \<open>The chunk action\<close>

record goal_waypoint =
  gw_position :: "real list"
  gw_quaternion :: "real list"
  gw_hold_orientation :: bool
  gw_gripper :: real
  gw_has_gripper :: bool
  gw_n_frames :: int
  gw_duration :: real

record goal =
  go_waypoints :: "goal_waypoint list"
  go_frame :: string
  go_safety_profile :: string

record goal_result =
  gr_success :: bool
  gr_stop_reason :: string
  gr_path_tracking_error :: real
  gr_max_tcp_speed :: real
  gr_max_wrench :: real
  gr_clipped :: bool

text \<open>A goal ends canceled, or succeeded with its one feedback message; an exception aborts it.\<close>

datatype goal_end = Canceled goal_result | Succeeded pose goal_result

definition goal_gripper :: "goal_waypoint \<Rightarrow> gripper_command option" where
  "goal_gripper w =
     (if gw_has_gripper w \<and> 0 \<le> gw_gripper w
      then Some (default_gripper\<lparr>g_width := min (max (gw_gripper w) 0) 1 * (8 / 100), g_force := 20\<rparr>)
      else None)"

definition goal_to_waypoint :: "goal_waypoint \<Rightarrow> waypoint result" where
  "goal_to_waypoint w =
     mk_waypoint (gw_position w) (if gw_hold_orientation w then None else Some (gw_quaternion w)) (goal_gripper w)
       (if 0 < gw_n_frames w then Some (gw_n_frames w) else None)
       (if 0 < gw_n_frames w then None else Some (gw_duration w)) ''base''"

definition goal_chunk :: "goal \<Rightarrow> chunk result" where
  "goal_chunk g =
     bindR (mapR goal_to_waypoint (go_waypoints g)) (\<lambda>wps.
       chunk_post_init ((chunk_of wps)\<lparr>ck_frame := (if go_frame g = '''' then ''base'' else go_frame g)\<rparr>))"

definition canceled_result :: goal_result where
  "canceled_result = \<lparr>gr_success = False, gr_stop_reason = ''canceled'', gr_path_tracking_error = 0,
     gr_max_tcp_speed = 0, gr_max_wrench = 0, gr_clipped = False\<rparr>"

definition succeeded_result :: "exec_result \<Rightarrow> goal_result" where
  "succeeded_result res = \<lparr>gr_success = er_success res, gr_stop_reason = er_stop_reason res,
     gr_path_tracking_error = er_path_tracking_error res, gr_max_tcp_speed = er_max_tcp_speed res,
     gr_max_wrench = er_max_wrench res, gr_clipped = er_clipped res\<rparr>"

definition execute_goal ::
  "'b backend \<Rightarrow> (string \<Rightarrow> safety_profile result) \<Rightarrow> bool \<Rightarrow> goal \<Rightarrow> ('b node, goal_end) sem" where
  "execute_goal B load cancel_requested g =
     thenS (if go_safety_profile g = '''' then retS () else onN (robot_set_profile load (go_safety_profile g)))
       (bindS (liftS (goal_chunk g)) (\<lambda>c.
        bindS (onN (execute_cartesian_chunk B default_args c)) (\<lambda>res.
          if cancel_requested
          then thenS (onN (robot_stop B)) (retS (Canceled canceled_result))
          else case er_final_state res of
                 None \<Rightarrow> raiseS AttributeError
               | Some s \<Rightarrow> retS (Succeeded (st_tcp_pose s) (succeeded_result res)))))"

text \<open>\<open>finally: return ...\<close> swallows whatever stopping or disconnecting raised.\<close>

definition destroy_node :: "'b backend \<Rightarrow> ('b node, unit) sem" where
  "destroy_node B =
     catchS (thenS (onN (robot_stop B)) (onN (robot_disconnect B))) (\<lambda>_. retS ())"

end
