(* ===== verification/Ros_Proofs.thy ===== *)
theory Ros_Proofs
  imports Ros_Node Robot_Proofs
begin

text \<open>
  What the bridge does with what it hears: a jog never asks for more than the full deflection over the time that
  has passed, and a canceled goal leaves the robot's cancel event set.
\<close>

section \<open>Jogging\<close>

lemma onN_eq: "onN m nd = (fst (m (nd_robot nd)), nd\<lparr>nd_robot := snd (m (nd_robot nd))\<rparr>)"
  by (simp add: onN_def split: prod.split)

definition jog_delta :: "'b node \<Rightarrow> real \<Rightarrow> twist_msg \<Rightarrow> real list" where
  "jog_delta nd now m = map (\<lambda>x. x * jog_interval nd now) (jog_velocity nd m)"

lemma on_twist_cases:
  "on_twist B now1 now2 m nd =
     (if is_stale (nd_max_age nd) now1 m then (Inr (), nd)
      else if list_ex (\<lambda>d. 1 / 10^9 < \<bar>d\<bar>) (jog_delta nd now2 m)
      then (Inr (), nd\<lparr>nd_last_twist := Some now2,
              nd_robot := snd (servo_cartesian_delta_raw B (jog_delta nd now2 m) (Some (jog_interval nd now2)) ''base'' None
                                 (nd_robot nd))\<rparr>)
      else (Inr (), nd\<lparr>nd_last_twist := Some now2\<rparr>))"
  by (auto simp: on_twist_def jog_delta_def bindS_def catchS_def sem_simps onN_eq Let_def split: sum.splits prod.splits)

lemma deflection: "\<bar>max (- 1) (min 1 x) * s\<bar> \<le> s" if "0 \<le> s" for x s :: real
proof -
  have "\<bar>max (- 1) (min 1 x)\<bar> * s \<le> 1 * s" using that by (intro mult_right_mono) auto
  then show ?thesis using that by (simp add: abs_mult)
qed

lemma jog_delta_bounds:
  assumes "nd_twist_in_type nd = ''unitless''" "0 \<le> nd_scale_linear nd" "0 \<le> nd_scale_rotational nd" "0 \<le> jog_interval nd now"
  shows "length (jog_delta nd now m) = 6"
    "list_all (\<lambda>d. \<bar>d\<bar> \<le> nd_scale_linear nd * jog_interval nd now) (take 3 (jog_delta nd now m))"
    "list_all (\<lambda>d. \<bar>d\<bar> \<le> nd_scale_rotational nd * jog_interval nd now) (drop 3 (jog_delta nd now m))"
  using mult_right_mono [OF deflection [OF assms(2)] assms(4)] mult_right_mono [OF deflection [OF assms(3)] assms(4)] assms
  by (auto simp: jog_delta_def jog_velocity_def twist_vector_def of_vec3_def abs_mult Let_def)

lemma jog_interval_bounds:
  assumes "0 \<le> r_dt (nd_robot nd)"
  shows "0 \<le> jog_interval nd now"
    "jog_interval nd now \<le> (case nd_last_twist nd of None \<Rightarrow> r_dt (nd_robot nd) | Some t \<Rightarrow> max_gap nd)"
    "nd_last_twist nd = Some t \<Longrightarrow> t \<le> now \<Longrightarrow> jog_interval nd now \<le> now - t"
  using assms by (auto simp: jog_interval_def max_gap_def split: option.split)

text \<open>C27: In the joystick convention a twist never raises, and the delta it asks the robot for is at most the full
  deflection in every component over the interval it is integrated for, which is no longer than the time since the
  last twist nor than the allowed gap (one control period for the first); a twist older than the limit changes nothing.\<close>

theorem jog_bounded:
  assumes "nd_twist_in_type nd = ''unitless''" "0 \<le> nd_scale_linear nd" "0 \<le> nd_scale_rotational nd"
    and "0 \<le> r_dt (nd_robot nd)" "on_twist B now1 now2 m nd = (out, nd')"
  shows "out = Inr () \<and> (is_stale (nd_max_age nd) now1 m \<longrightarrow> nd' = nd)
    \<and> (nd_robot nd' = nd_robot nd
       \<or> (\<exists>delta dt. nd_robot nd' = snd (servo_cartesian_delta_raw B delta (Some dt) ''base'' None (nd_robot nd))
            \<and> length delta = 6 \<and> list_all (\<lambda>d. \<bar>d\<bar> \<le> nd_scale_linear nd * dt) (take 3 delta)
            \<and> list_all (\<lambda>d. \<bar>d\<bar> \<le> nd_scale_rotational nd * dt) (drop 3 delta)
            \<and> dt \<le> (case nd_last_twist nd of None \<Rightarrow> r_dt (nd_robot nd) | Some t \<Rightarrow> max_gap nd)
            \<and> (\<forall>t. nd_last_twist nd = Some t \<and> t \<le> now2 \<longrightarrow> dt \<le> now2 - t)
            \<and> nd_last_twist nd' = Some now2))"
proof (cases "is_stale (nd_max_age nd) now1 m \<or> \<not> list_ex (\<lambda>d. 1 / 10^9 < \<bar>d\<bar>) (jog_delta nd now2 m)")
  case True
  then show ?thesis using assms(5) by (auto simp: on_twist_cases split: if_splits)
next
  case False
  note interval = jog_interval_bounds [OF assms(4)]
  have "out = Inr ()" and moved: "nd_robot nd' = snd (servo_cartesian_delta_raw B (jog_delta nd now2 m)
      (Some (jog_interval nd now2)) ''base'' None (nd_robot nd))" "nd_last_twist nd' = Some now2"
    using assms(5) False by (auto simp: on_twist_cases)
  moreover note jog_delta_bounds [OF assms(1-3) interval(1), of now2 m]
  ultimately show ?thesis
    using False interval(2) [of now2] interval(3) [of _ now2]
    by (intro conjI disjI2 exI [of _ "jog_delta nd now2 m"] exI [of _ "jog_interval nd now2"]) auto
qed

definition demo_node :: "(nat \<Rightarrow> bool) \<Rightarrow> (fake \<times> command list) node" where
  "demo_node rq = \<lparr>nd_robot = demo_robot rq, nd_joint_names = [], nd_timer_period = 1 / 50, nd_twist_in_type = ''unitless'',
     nd_scale_linear = 4 / 10, nd_scale_rotational = 8 / 10, nd_max_age = 25 / 100, nd_last_twist = Some 10\<rparr>"

lemma jog_bounded_witness:
  "fst (on_twist (traced fake_backend) 10 (1001 / 100) \<lparr>tm_sec = 10, tm_nanosec = 0, tm_linear = Vec3 3 0 0, tm_angular = Vec3 0 0 (- 1)\<rparr>
      (demo_node (\<lambda>_. False))) = Inr ()"
  using jog_bounded [OF _ _ _ _ prod.collapse [symmetric], of "demo_node (\<lambda>_. False)"]
  by (simp add: demo_node_def)

section \<open>Canceling\<close>

lemma execute_goal_cancelled:
  assumes "execute_goal (traced B) load True g nd = (Inr e, nd')"
  shows "e = Canceled canceled_result" "r_cancel (nd_robot nd')"
  using assms
  by (auto simp: execute_goal_def bindS_def sem_simps onN_eq robot_stop_def request_stop_def onB_def split: sum.splits prod.splits if_splits)

text \<open>C28: A goal whose cancellation is honoured leaves the robot's cancel event set, after the motion it could have stopped
  is over: the next goal moves nothing, it only reads the state, and is reported as succeeded with the
  result of a user stop; only then is the event clear.\<close>

theorem canceled_goal_aborts_next:
  assumes "execute_goal (traced B) load True g nd = (Inr e, nd')"
    and "goal_chunk g2 = Inr c" "go_safety_profile g2 = ''''"
    and "execute_goal (traced B) load False g2 nd' = (out, nd2)"
  shows "e = Canceled canceled_result
    \<and> (\<exists>cs. cmds (nd_robot nd2) = cmds (nd_robot nd') @ cs \<and> list_all (\<lambda>c. \<exists>s. c = CRead s) cs)
    \<and> \<not> r_cancel (nd_robot nd2)
    \<and> (\<forall>g_end. out = Inr g_end \<longrightarrow> (\<exists>p res. g_end = Succeeded p res \<and> \<not> gr_success res \<and> gr_stop_reason res = ''user''))"
proof -
  obtain x r2 where run: "execute_cartesian_chunk (traced B) default_args c (nd_robot nd') = (x, r2)"
    by (cases "execute_cartesian_chunk (traced B) default_args c (nd_robot nd')")
  have "nd_robot nd2 = r2" "\<And>g_end. out = Inr g_end \<Longrightarrow> \<exists>res s. x = Inr res \<and> g_end = Succeeded s (succeeded_result res)"
    using assms(2-4) run
    by (auto simp: execute_goal_def bindS_def sem_simps onN_eq split: sum.splits option.splits)
  with cancelled_chunk [OF disjI1 [OF execute_goal_cancelled(2) [OF assms(1)]] run] execute_goal_cancelled(1) [OF assms(1)]
  show ?thesis by (fastforce simp: succeeded_result_def)
qed

definition demo_goal :: goal where
  "demo_goal = \<lparr>go_waypoints = [\<lparr>gw_position = [1 / 2, 0, 3 / 10], gw_quaternion = [], gw_hold_orientation = True, gw_gripper = 1,
     gw_has_gripper = True, gw_n_frames = 20, gw_duration = 0\<rparr>], go_frame = '''', go_safety_profile = ''''\<rparr>"

lemma demo_goal_chunk: "\<exists>c. goal_chunk demo_goal = Inr c \<and> go_safety_profile demo_goal = ''''"
  by (simp add: goal_chunk_def demo_goal_def goal_to_waypoint_def mk_waypoint_def wp_post_init_def chunk_post_init_def chunk_of_def
      reshape6_def)

lemma fake_reads: "\<exists>st r'. get_state (traced fake_backend) r = (Inr st, r')"
  by (auto simp: get_state_def bindS_def sem_simps onB_def traced_def record_read_def fake_backend_def fake_read_state_def
      split: prod.split sum.split)

lemma fake_stops: "\<exists>r'. robot_stop (traced fake_backend) r = (Inr (), r')"
  by (auto simp: robot_stop_def request_stop_def sem_simps onB_def traced_def record_cmd_def fake_backend_def split: prod.split)

lemma demo_goal_stopped:
  "fst (execute_goal (traced fake_backend) load True demo_goal (demo_node (\<lambda>n. n = 0))) = Inr (Canceled canceled_result)"
proof -
  obtain c where c: "goal_chunk demo_goal = Inr c" "go_safety_profile demo_goal = ''''" using demo_goal_chunk by blast
  obtain st r' where read: "get_state (traced fake_backend) (demo_robot (\<lambda>n. n = 0)
      \<lparr>r_owner := Some ''default'', r_polls := 1\<rparr>) = (Inr st, r')" using fake_reads by blast
  have "fst (execute_cartesian_chunk (traced fake_backend) default_args c (demo_robot (\<lambda>n. n = 0))) \<in> range Inr"
    using read
    by (simp add: execute_cartesian_chunk_def auto_lease_def poll_cancel_def abort_at_entry_def clear_stop_def raise_if_stopped_def
        default_args_def bindS_def sem_simps demo_robot_def)
  then obtain res r1 where "execute_cartesian_chunk (traced fake_backend) default_args c (demo_robot (\<lambda>n. n = 0)) = (Inr res, r1)"
    by (metis imageE prod.collapse)
  moreover obtain r2 where "robot_stop (traced fake_backend) r1 = (Inr (), r2)" using fake_stops by blast
  ultimately show ?thesis by (simp add: execute_goal_def c bindS_def sem_simps onN_eq demo_node_def)
qed

lemma canceled_goal_aborts_next_witness:
  "\<not> r_cancel (nd_robot (snd (execute_goal (traced fake_backend) (\<lambda>_. Inr default_profile) False demo_goal
      (snd (execute_goal (traced fake_backend) (\<lambda>_. Inr default_profile) True demo_goal (demo_node (\<lambda>n. n = 0)))))))"
proof -
  obtain c where c: "goal_chunk demo_goal = Inr c" "go_safety_profile demo_goal = ''''" using demo_goal_chunk by blast
  obtain e nd' where e: "execute_goal (traced fake_backend) (\<lambda>_. Inr default_profile) True demo_goal (demo_node (\<lambda>n. n = 0)) = (Inr e, nd')"
    using demo_goal_stopped [of "\<lambda>_. Inr default_profile"] by (metis prod.collapse)
  from canceled_goal_aborts_next [OF e c prod.collapse [symmetric]] e show ?thesis by simp
qed

end
