(* ===== verification/Chunk_Frame.thy ===== *)
theory Chunk_Frame
  imports Robot_Proofs
begin

text \<open>
  What the frame of a chunk and of its waypoints does: nothing. The executor reads neither, so a chunk in the
  tool frame is followed in the base frame.
\<close>

definition relabel :: "string \<Rightarrow> string \<Rightarrow> chunk \<Rightarrow> chunk" where
  "relabel f g c = c\<lparr>ck_frame := f, ck_waypoints := map (\<lambda>w. w\<lparr>wp_frame := g\<rparr>) (ck_waypoints c)\<rparr>"

lemma relabel_fields [simp]:
  "ck_contact_wrench_allowance (relabel f g c) = ck_contact_wrench_allowance c"
  "ck_max_contact_wrench (relabel f g c) = ck_max_contact_wrench c"
  "ck_max_tcp_linear_speed (relabel f g c) = ck_max_tcp_linear_speed c"
  "ck_max_tcp_angular_speed (relabel f g c) = ck_max_tcp_angular_speed c"
  "ck_safety_profile (relabel f g c) = ck_safety_profile c" "ck_impedance (relabel f g c) = ck_impedance c"
  "ck_grip_tracking_gate_m (relabel f g c) = ck_grip_tracking_gate_m c" "gate_m (relabel f g c) = gate_m c"
  "chunk_wrench (relabel f g c) = chunk_wrench c" "effective_wrench p (relabel f g c) res = effective_wrench p c res"
  "ck_representation (relabel f g c) = ck_representation c" "horizon_exec (relabel f g c) = horizon_exec c"
  by (simp_all add: relabel_def gate_m_def chunk_wrench_def effective_wrench_def horizon_exec_def cong: option.case_cong)

abbreviation relabelR :: "string \<Rightarrow> string \<Rightarrow> chunk result \<Rightarrow> chunk result" where
  "relabelR f g \<equiv> map_sum id (relabel f g)"

lemma post_init_relabel: "chunk_post_init (relabel f g c) = relabelR f g (chunk_post_init c)"
  by (auto simp: chunk_post_init_def relabel_def)

lemma resolve_relabel:
  "resolve_waypoint sp (w\<lparr>wp_frame := g\<rparr>) = map_sum id (\<lambda>w. w\<lparr>wp_frame := g\<rparr>) (resolve_waypoint sp w)"
  by (auto simp: resolve_waypoint_def wp_post_init_def split: option.splits)

lemma mapR_relabel:
  "mapR (resolve_waypoint sp) (map (\<lambda>w. w\<lparr>wp_frame := g\<rparr>) ws)
   = map_sum id (map (\<lambda>w. w\<lparr>wp_frame := g\<rparr>)) (mapR (resolve_waypoint sp) ws)"
  by (induction ws) (auto simp: resolve_relabel bindR_def split: sum.splits)

lemma rebuilt:
  "c\<lparr>ck_frame := f, ck_waypoints := map (\<lambda>w. w\<lparr>wp_frame := g\<rparr>) ws, ck_representation := r\<rparr>
     = relabel f g (c\<lparr>ck_waypoints := ws, ck_representation := r\<rparr>)"
  "c\<lparr>ck_frame := f, ck_waypoints := map (\<lambda>w. w\<lparr>wp_frame := g\<rparr>) ws, ck_n_execute := n\<rparr>
     = relabel f g (c\<lparr>ck_waypoints := ws, ck_n_execute := n\<rparr>)"
  by (simp_all add: relabel_def)

lemma relabel_waypoints: "ck_waypoints (relabel f g c) = map (\<lambda>w. w\<lparr>wp_frame := g\<rparr>) (ck_waypoints c)"
  by (simp add: relabel_def)

lemma relabel_update:
  "(relabel f g c)\<lparr>ck_waypoints := map (\<lambda>w. w\<lparr>wp_frame := g\<rparr>) ws, ck_representation := r\<rparr>
     = relabel f g (c\<lparr>ck_waypoints := ws, ck_representation := r\<rparr>)"
  "(relabel f g c)\<lparr>ck_waypoints := map (\<lambda>w. w\<lparr>wp_frame := g\<rparr>) ws, ck_n_execute := n\<rparr>
     = relabel f g (c\<lparr>ck_waypoints := ws, ck_n_execute := n\<rparr>)"
  by (simp_all add: relabel_def)

lemma for_execution_relabel: "for_execution (relabel f g c) sp = relabelR f g (for_execution c sp)"
proof -
  have abs: "resolve_to_absolute (relabel f g c) sp = relabelR f g (resolve_to_absolute c sp)"
    by (auto simp: resolve_to_absolute_def bindR_def relabel_waypoints mapR_relabel relabel_update post_init_relabel
        split: sum.split)
  show ?thesis
    by (auto simp: for_execution_def abs bindR_def Let_def relabel_waypoints take_map relabel_update post_init_relabel
        split: sum.split)
qed

lemma interp_relabel:
  "interp_from (ci\<lparr>ci_chunk := c\<rparr>) n p q (map (\<lambda>w. w\<lparr>wp_frame := g\<rparr>) ws) = interp_from ci n p q ws"
proof (induction ws arbitrary: n p q)
  case (Cons w ws)
  have "segment_ticks (ci\<lparr>ci_chunk := c\<rparr>) p t q u (w\<lparr>wp_frame := g\<rparr>) = segment_ticks ci p t q u w" for t u
    by (simp add: segment_ticks_def resolve_duration_def cong: option.case_cong)
  then show ?case
    by (simp add: Cons.IH segment_setpoints_def Let_def cong: option.case_cong sum.case_cong if_cong)
qed simp

definition relabel_env :: "string \<Rightarrow> string \<Rightarrow> exec_env \<Rightarrow> exec_env" where
  "relabel_env f g env = env\<lparr>e_chunk := relabel f g (e_chunk env)\<rparr>"

lemma relabel_env_fields [simp]:
  "e_chunk (relabel_env f g env) = relabel f g (e_chunk env)" "e_wrench_cap (relabel_env f g env) = e_wrench_cap env"
  "e_record (relabel_env f g env) = e_record env" "e_clock (relabel_env f g env) = e_clock env"
  by (simp_all add: relabel_env_def)

lemma grip_relabel:
  "try_fire_close B (relabel_env f g env) = try_fire_close B env"
  "finish_pending B (relabel_env f g env) = finish_pending B env"
  "resolve_pending B (relabel_env f g env) = resolve_pending B env"
  "handle_grip B (relabel_env f g env) = handle_grip B env"
proof -
  have fire: "try_fire_close B (relabel_env f g env) = try_fire_close B env"
    by (intro ext) (unfold try_fire_close_def relabel_env_fields relabel_fields, rule refl)
  then show "try_fire_close B (relabel_env f g env) = try_fire_close B env" .
  show "finish_pending B (relabel_env f g env) = finish_pending B env"
    "resolve_pending B (relabel_env f g env) = resolve_pending B env"
    "handle_grip B (relabel_env f g env) = handle_grip B env"
    by (intro ext; unfold finish_pending_def resolve_pending_def handle_grip_def relabel_env_fields relabel_fields fire; rule refl)+
qed

lemma tick_relabel: "chunk_tick B (relabel_env f g env) = chunk_tick B env" "final_report (relabel_env f g env) = final_report env"
proof -
  have stream: "stream_tick B (relabel_env f g env) = stream_tick B env"
    by (intro ext) (unfold stream_tick_def record_row_def grip_relabel relabel_env_fields relabel_fields, rule refl)
  have filter: "filter_tick B (relabel_env f g env) = filter_tick B env"
    by (intro ext) (unfold filter_tick_def stream relabel_env_fields relabel_fields, rule refl)
  show "chunk_tick B (relabel_env f g env) = chunk_tick B env"
    by (intro ext) (unfold chunk_tick_def filter relabel_env_fields relabel_fields, rule refl)
  show "final_report (relabel_env f g env) = final_report env"
    by (intro ext) (unfold final_report_def relabel_env_fields, rule refl)
qed

lemma loop_relabel: "chunk_loop B (relabel_env f g env) sps x = chunk_loop B env sps x"
proof (induction sps arbitrary: x)
  case (Cons i sps)
  show ?case by (cases i) (simp_all add: Cons.IH tick_relabel cong: if_cong)
qed simp

lemma bindR_relabel: "bindR (map_sum id h m) k = bindR m (\<lambda>x. k (h x))"
  by (cases m) (simp_all add: bindR_def)

lemma bindS_lift_relabel: "bindS (liftS (map_sum id h m)) k = bindS (liftS m) (\<lambda>x. k (h x))"
  by (cases m) (simp_all add: bindS_def liftS_def fun_eq_iff)

lemma interp_iter_relabel:
  assumes "mk_cart_interp a p hz v w = Inr ci"
  shows "mk_cart_interp (relabel f g a) p hz v w = Inr (ci\<lparr>ci_chunk := relabel f g a\<rparr>)"
    "interp_iter (ci\<lparr>ci_chunk := relabel f g a\<rparr>) = interp_iter ci"
proof -
  show "mk_cart_interp (relabel f g a) p hz v w = Inr (ci\<lparr>ci_chunk := relabel f g a\<rparr>)"
    using assms by (auto simp: mk_cart_interp_def split: if_splits)
  have "ci_chunk ci = a" using assms by (auto simp: mk_cart_interp_def split: if_splits)
  then show "interp_iter (ci\<lparr>ci_chunk := relabel f g a\<rparr>) = interp_iter ci"
    by (simp add: interp_iter_def relabel_waypoints interp_relabel)
qed

lemma with_interp_relabel:
  assumes "\<And>ci. mk_cart_interp a p hz v w = Inr ci \<Longrightarrow> k (ci\<lparr>ci_chunk := relabel f g a\<rparr>) = k' ci"
  shows "bindS (liftS (mk_cart_interp (relabel f g a) p hz v w)) k = bindS (liftS (mk_cart_interp a p hz v w)) k'"
proof (cases "mk_cart_interp a p hz v w")
  case (Inl e)
  then have "mk_cart_interp (relabel f g a) p hz v w = Inl e" by (auto simp: mk_cart_interp_def split: if_splits)
  then show ?thesis using Inl by (simp add: bindS_def liftS_def fun_eq_iff)
next
  case (Inr ci)
  then show ?thesis using interp_iter_relabel(1) [OF Inr] assms by (simp add: bindS_def liftS_def fun_eq_iff)
qed

lemma env_relabel:
  "\<lparr>e_chunk = relabel f g a, e_wrench_cap = w, e_record = b, e_clock = t\<rparr>
     = relabel_env f g \<lparr>e_chunk = a, e_wrench_cap = w, e_record = b, e_clock = t\<rparr>"
  by (simp add: relabel_env_def)

lemma run_relabel: "run_chunk B args (relabel f g c) start res = run_chunk B args c start res"
proof -
  have loop: "chunk_loop B \<lparr>e_chunk = relabel f g a, e_wrench_cap = w, e_record = b, e_clock = t\<rparr>
      = chunk_loop B \<lparr>e_chunk = a, e_wrench_cap = w, e_record = b, e_clock = t\<rparr>"
    "finish_pending B \<lparr>e_chunk = relabel f g a, e_wrench_cap = w, e_record = b, e_clock = t\<rparr>
      = finish_pending B \<lparr>e_chunk = a, e_wrench_cap = w, e_record = b, e_clock = t\<rparr>"
    "final_report \<lparr>e_chunk = relabel f g a, e_wrench_cap = w, e_record = b, e_clock = t\<rparr>
      = final_report \<lparr>e_chunk = a, e_wrench_cap = w, e_record = b, e_clock = t\<rparr>" for a w b t
    unfolding env_relabel by (simp_all add: fun_eq_iff loop_relabel grip_relabel tick_relabel)
  show ?thesis
    unfolding run_chunk_def for_execution_relabel bindS_lift_relabel Let_def relabel_fields loop
    by (intro arg_cong2 [where f = bindS] refl ext with_interp_relabel prod.case_cong)
       (simp add: interp_iter_relabel(2))
qed

text \<open>C26: The executor never reads a frame: whatever frame a chunk and its waypoints name, the call has the same
  outcome, report and effect. A chunk given in the tool frame is followed, without an error, as if its
  coordinates were the base's.\<close>

theorem frame_never_read:
  "execute_cartesian_chunk B args (c\<lparr>ck_frame := f, ck_waypoints := map (\<lambda>w. w\<lparr>wp_frame := g\<rparr>) (ck_waypoints c)\<rparr>)
   = execute_cartesian_chunk B args c"
proof -
  have enter: "enter_cartesian B (relabel f g c) res = enter_cartesian B c res" for res
    by (unfold enter_cartesian_def relabel_fields, rule refl)
  show ?thesis
    unfolding relabel_def [symmetric] execute_cartesian_chunk_def relabel_fields run_relabel enter by (rule refl)
qed

end
