(* ===== verification/Chunk_Goals.thy ===== *)
theory Chunk_Goals
  imports Preview_Proofs
begin

text \<open>
  Where a chunk call takes the arm: the poses it streams when nothing was clipped, cut into one
  stretch per waypoint, each ending on its waypoint. The orientation of a waypoint without one is
  the orientation carried so far.
\<close>

section \<open>The goals of a chunk\<close>

fun goal_poses :: "quat \<Rightarrow> waypoint list \<Rightarrow> pose list" where
  "goal_poses q [] = []"
| "goal_poses q (wp # wps) = \<lparr>pos = wp_position wp, rot = next_quat q wp\<rparr> # goal_poses (next_quat q wp) wps"

text \<open>A stream that stops at each goal in turn and ends at the last.\<close>

fun visits :: "pose list \<Rightarrow> pose list \<Rightarrow> bool" where
  "visits ps [] = (ps = [])"
| "visits ps (g # gs) = (\<exists>n \<in> {1..length ps}. same_pose (ps ! (n - 1)) g \<and> visits (drop n ps) gs)"

lemma visits_append:
  assumes "ps \<noteq> []" "same_pose (last ps) g" "visits qs gs"
  shows "visits (ps @ qs) (g # gs)"
  using assms by (auto simp: nth_append last_conv_nth Suc_le_eq intro!: bexI [of _ "length ps"])

lemma interp_from_visits:
  assumes "list_all timed wps" "0 < ci_hz ci" "ci_dt ci = 1 / ci_hz ci" "interp_from ci seg pp pq wps = map Inr sps"
  shows "visits (map sp_pose sps) (goal_poses pq wps)"
  using assms
proof (induction wps arbitrary: seg pp pq sps)
  case (Cons wp wps)
  let ?tp = "wp_position wp" and ?tq = "next_quat pq wp"
  obtain n where n: "segment_ticks ci pp ?tp pq ?tq wp = Inr n"
    using segment_ticks_ok [of wp ci pp ?tp pq ?tq] Cons.prems(1,2) by auto
  have pos_n: "0 < nat n" using segment_ticks_facts(1) [OF n Cons.prems(2,3)] by simp
  define A where "A = segment_setpoints seg pp ?tp pq ?tq wp (nat n)"
  have "map Inr A @ interp_from ci (Suc seg) ?tp ?tq wps = map Inr sps"
    using Cons.prems(4) unfolding interp_from_Cons [OF n] A_def .
  then obtain C where C: "sps = A @ C" "interp_from ci (Suc seg) ?tp ?tq wps = map Inr C"
    by (metis (no_types, lifting) append_eq_map_conv inj_map_eq_map inj_Inr)
  have "visits (map sp_pose C) (goal_poses ?tq wps)" using Cons.IH [OF _ _ _ C(2)] Cons.prems by simp
  then show ?case
    using visits_append [of "map sp_pose A"] segment_last [OF pos_n, of seg pp ?tp pq ?tq wp] C(1)
    by (simp add: A_def last_map del: visits.simps)
qed simp

section \<open>A chunk within the profile is not clipped\<close>

text \<open>The reasons for a stop that are not the chunk's own.\<close>

definition external :: "exec_result \<Rightarrow> bool" where
  "external res \<longleftrightarrow> \<not> er_success res \<and> er_stop_reason res \<in> {''user'', ''backend_fault'', ''contact_wrench''}"

text \<open>The filter is anchored on the last setpoint; a next setpoint within the profile from there.\<close>

definition on_course :: "safety_profile \<Rightarrow> real \<Rightarrow> pose \<Rightarrow> 'b robot \<Rightarrow> bool" where
  "on_course p dt c r \<longleftrightarrow> cart_inv (r_filter r) \<and> f_p (r_filter r) = p \<and> f_dt (r_filter r) = dt
     \<and> f_prev_pose (r_filter r) = Some c"

definition fits :: "safety_profile \<Rightarrow> real \<Rightarrow> pose \<Rightarrow> pose \<Rightarrow> bool" where
  "fits p dt c t \<longleftrightarrow> in_spec (mk_filter p dt) c t \<and> near_box p (pos t)"

definition tick_kept :: "safety_profile \<Rightarrow> real \<Rightarrow> pose \<Rightarrow> locals \<Rightarrow> locals \<times> bool \<Rightarrow> 'b robot \<Rightarrow> bool" where
  "tick_kept p dt t x y r \<longleftrightarrow> keeps_clip x (fst y)
     \<and> (if snd y then er_success (x_result (fst y)) = er_success (x_result x) \<and> on_course p dt t r
        else external (x_result (fst y)))"

lemma tick_kept_moved [simp]: "tick_kept p dt t (x\<lparr>x_tick := k, x_seg := n\<rparr>) = tick_kept p dt t x"
  by (simp add: tick_kept_def keeps_clip_def fun_eq_iff)

lemma course_calm: "calmS K m \<Longrightarrow> on_course p dt c r \<Longrightarrow> wpS m (\<lambda>_. on_course p dt c) (\<lambda>_ _. True) r"
  by (rule wpS_I) (auto dest: calmS_D(1) simp: on_course_def)

lemma stop_kept:
  fixes r :: "'b trace robot"
  assumes "reason \<in> {''user'', ''backend_fault'', ''contact_wrench''}"
  shows "wpS (stop_run (traced B) reason x) (tick_kept p dt t x) (\<lambda>_ _. True) r"
  by (rule wpS_I) (use assms in \<open>auto simp: stop_run_def thenS_eq sem_simps failed_def tick_kept_def keeps_clip_def external_def
    split: prod.splits sum.splits\<close>)

lemma stream_tick_calm: "calmS (\<lambda>_. True) (stream_tick (traced B) env sp st cmd x)"
  unfolding stream_tick_def
  by (auto intro!: frameS_then frameS_bind calm_ops calm_mono [OF calm_resolve] calm_mono [OF calm_grip] split: option.split)

text \<open>The filter lets a setpoint on course through as it is, and stays on course.\<close>

lemma filter_passes:
  fixes r :: "'b trace robot"
  assumes "on_course p dt c r" "fits p dt c t" "p_max_linear_accel p = None" "np_any_abs_gt (st_wrench st) cap = Inr False"
  obtains sr r1 where "onF (filter_cartesian t st (Some cap)) r = (Inr sr, r1)" "sr_ok sr" "sr_pose sr = Some t" "\<not> sr_clipped sr"
    "on_course p dt t r1" "r_b r1 = r_b r"
proof -
  let ?f = "r_filter r"
  have f: "cart_inv ?f" "f_p ?f = p" "f_dt ?f = dt" "f_prev_pose ?f = Some c" using assms(1) by (simp_all add: on_course_def)
  have "in_spec ?f = in_spec (mk_filter p dt)" using f by (simp add: in_spec_def mk_filter_def fun_eq_iff)
  then have spec: "in_spec ?f (anchor ?f st) t" "near_box p (pos t)"
    using assms(2) by (simp_all add: anchor_prev [OF f(4)] fits_def)
  obtain sr f' where sr: "filter_cartesian t st (Some cap) ?f = (Inr sr, f')" "sr_ok sr" "sr_pose sr = Some t" "\<not> sr_clipped sr"
    using filter_cartesian_in_spec [OF f(1), of st "Some cap" t] spec f(2) assms(3,4) by (auto simp: wrench_ok_def)
  have "on_course p dt t (r\<lparr>r_filter := f'\<rparr>)"
    using cart_step_facts(1,2) [OF f(1) sr(1-3)] filter_cartesian_params(1,2) [OF sr(1)] f by (simp add: on_course_def)
  then show thesis using that [of sr "r\<lparr>r_filter := f'\<rparr>"] sr by (simp add: onF_def)
qed

lemma filter_tick_kept:
  fixes r :: "'b trace robot"
  assumes "on_course p dt c r" "fits p dt c (sp_pose sp)" "p_max_linear_accel p = None"
    and "np_any_abs_gt (st_wrench st) (e_wrench_cap env) = Inr False"
  shows "wpS (filter_tick (traced B) env sp st x) (tick_kept p dt (sp_pose sp) x) (\<lambda>_ _. True) r"
proof -
  obtain sr r1 where sr: "onF (filter_cartesian (sp_pose sp) st (Some (e_wrench_cap env))) r = (Inr sr, r1)" "sr_ok sr"
      "sr_pose sr = Some (sp_pose sp)" "\<not> sr_clipped sr" and course: "on_course p dt (sp_pose sp) r1"
    using filter_passes [OF assms] by blast
  have "wpS (stream_tick (traced B) env sp st (sp_pose sp) x) (tick_kept p dt (sp_pose sp) x) (\<lambda>_ _. True) r1"
  proof (rule wpS_I)
    fix y r'
    assume m: "stream_tick (traced B) env sp st (sp_pose sp) x r1 = (Inr y, r')"
    show "tick_kept p dt (sp_pose sp) x y r'"
      using wpS_Inr [OF stream_tick_streams m] wpS_Inr [OF wp_stream_tick m] wpS_Inr [OF course_calm [OF stream_tick_calm course] m]
      by (simp add: tick_kept_def tick_post_def same_outcome_def)
  qed simp
  then show ?thesis using sr by (simp add: filter_tick_def wpS_bind wpS_ok [of "onF m" for m])
qed

lemma chunk_tick_kept:
  fixes r :: "'b trace robot"
  assumes "on_course p dt c r" "fits p dt c (sp_pose sp)" "p_max_linear_accel p = None"
  shows "wpS (chunk_tick (traced B) env sp x) (tick_kept p dt (sp_pose sp) x) (\<lambda>_ _. True) r"
proof -
  let ?x = "x\<lparr>x_tick := x_tick x + 1, x_seg := sp_segment sp\<rparr>"
  have stop: "wpS (stop_run (traced B) reason ?x) (tick_kept p dt t x) (\<lambda>_ _. True) r1"
    if "reason \<in> {''user'', ''backend_fault'', ''contact_wrench''}" for reason t and r1 :: "'b trace robot"
    using stop_kept [OF that, of B ?x] by simp
  show ?thesis
    unfolding chunk_tick_def Let_def
  proof (rule wpS_bindI [OF course_calm [OF calm_events(2) assms(1)]], unfold wpS_if, split if_split, intro conjI impI)
    fix cancelled and r1 :: "'b trace robot"
    assume r1: "on_course p dt c r1"
    show "wpS (thenS clear_stop (stop_run (traced B) ''user'' ?x)) (tick_kept p dt (sp_pose sp) x) (\<lambda>_ _. True) r1"
      by (rule wpS_thenI [OF course_calm [OF calm_events(3) r1] stop]) simp
    show "wpS (bindS (get_state (traced B)) (\<lambda>st. bindS (onB (bk_in_fault (traced B))) (\<lambda>fault.
            if fault then stop_run (traced B) ''backend_fault'' ?x
            else bindS (liftS (np_any_abs_gt (st_wrench st) (e_wrench_cap env))) (\<lambda>over.
                if over then stop_run (traced B) ''contact_wrench'' ?x
                else filter_tick (traced B) env sp st ?x)))) (tick_kept p dt (sp_pose sp) x) (\<lambda>_ _. True) r1"
    proof (rule wpS_bindI [OF course_calm [OF calm_get_state r1]], simp, rule wpS_bindI [OF course_calm [OF calm_ops(2)]], assumption)
      fix st :: robot_state and fault and r3 :: "'b trace robot"
      assume r3: "on_course p dt c r3"
      have "wpS (filter_tick (traced B) env sp st ?x) (tick_kept p dt (sp_pose sp) x) (\<lambda>_ _. True) r3"
        if "np_any_abs_gt (st_wrench st) (e_wrench_cap env) = Inr False"
        using filter_tick_kept [OF r3 assms(2,3) that, of B ?x] by simp
      then show "wpS (if fault then stop_run (traced B) ''backend_fault'' ?x
            else bindS (liftS (np_any_abs_gt (st_wrench st) (e_wrench_cap env))) (\<lambda>over.
                if over then stop_run (traced B) ''contact_wrench'' ?x
                else filter_tick (traced B) env sp st ?x)) (tick_kept p dt (sp_pose sp) x) (\<lambda>_ _. True) r3"
        using stop by (auto simp: wpS_bind wpS_base split: sum.split)
    qed
  qed
qed

definition fine :: "exec_result \<Rightarrow> bool" where
  "fine res \<longleftrightarrow> \<not> er_clipped res \<and> (er_success res \<or> external res)"

lemma fine_same: "er_clipped res' = er_clipped res \<Longrightarrow> same_outcome res res' \<Longrightarrow> fine res \<Longrightarrow> fine res'"
  by (simp add: fine_def external_def same_outcome_def)

lemma loop_kept:
  fixes r :: "'b trace robot"
  assumes "p_max_linear_accel p = None" "on_course p dt c r" "successively (fits p dt) (c # map sp_pose sps)"
    and "er_success (x_result x)" "\<not> er_clipped (x_result x)"
  shows "wpS (chunk_loop (traced B) env (map Inr sps) x) (\<lambda>x' _. fine (x_result x')) (\<lambda>_ _. True) r"
  using assms(2-)
proof (induction sps arbitrary: c x r)
  case Nil
  then show ?case by (simp add: wpS_base fine_def)
next
  case (Cons sp sps)
  have fits: "fits p dt c (sp_pose sp)" "successively (fits p dt) (sp_pose sp # map sp_pose sps)"
    using Cons.prems(2) by (cases sps; simp)+
  show ?case
    unfolding list.map chunk_loop.simps
  proof (rule wpS_bindI [OF chunk_tick_kept [OF Cons.prems(1) fits(1) assms(1)]])
    fix y and r1 :: "'b trace robot"
    assume y: "tick_kept p dt (sp_pose sp) x y r1"
    show "wpS (case y of (x, go) \<Rightarrow> if go then chunk_loop (traced B) env (map Inr sps) x else retS x)
        (\<lambda>x' _. fine (x_result x')) (\<lambda>_ _. True) r1"
      using y Cons.IH [OF _ fits(2), of r1 "fst y"] Cons.prems(3,4)
      by (auto simp: tick_kept_def keeps_clip_def wpS_base fine_def split: prod.split if_splits)
  qed
qed

lemma finish_fine:
  "fine (x_result x) \<Longrightarrow> wpS (finish_pending B env x) (\<lambda>x' _. fine (x_result x')) (\<lambda>_ _. True) r"
proof -
  assume fine: "fine (x_result x)"
  have fire: "wpS (try_fire_close B env g st (x\<lparr>x_pending_close := None\<rparr>)) (\<lambda>x' _. fine (x_result x')) (\<lambda>_ _. True) r1" for g st r1
  proof (rule wpS_I)
    fix y r'
    assume m: "try_fire_close B env g st (x\<lparr>x_pending_close := None\<rparr>) r1 = (Inr y, r')"
    show "fine (x_result y)"
      using wpS_Inr [OF clip_try_fire m] wpS_Inr [OF wp_try_fire m] fine
      by (auto simp: keeps_clip_def intro: fine_same)
  qed simp
  have "wpS (bindS (get_state B) (\<lambda>st. try_fire_close B env g st (x\<lparr>x_pending_close := None\<rparr>))) (\<lambda>x' _. fine (x_result x')) (\<lambda>_ _. True) r" for g
    by (rule wpS_bindI [where P = "\<lambda>_ _. True"], rule wpS_any) (simp_all add: fire)
  moreover have "fine (log_put k v res)" if "fine res" for k v res
    using that by (simp add: fine_def external_def log_put_def)
  ultimately show ?thesis
    using fine by (auto simp: finish_pending_def Let_def wpS_base split: option.split)
qed

lemma restore_fine:
  "fine (x_result x) \<Longrightarrow> wpS (restore_wrench B relaxed (Inr x)) (\<lambda>y _. \<exists>x'. y = Inr x' \<and> fine (x_result x')) (\<lambda>_ _. True) r"
  by (rule wpS_I) (auto dest!: restore_value simp: mark_restore_failed_def log_put_def fine_def external_def)

text \<open>
  A chunk within the profile: waypoints in the workspace, and either no turning or an angular cap the
  interpolator's fast branch stays under.
\<close>

definition within_profile :: "safety_profile \<Rightarrow> chunk \<Rightarrow> bool" where
  "within_profile p a \<longleftrightarrow> (\<forall>wp \<in> set (ck_waypoints a). \<not> out_of_box p (wp_position wp))
     \<and> (list_all (\<lambda>w. wp_quaternion w = None) (ck_waypoints a)
        \<or> 0 < ck_max_tcp_angular_speed a \<and> ck_max_tcp_angular_speed a \<le> SLERP_SLACK * p_max_angular_speed p)"

text \<open>A profile whose jump caps admit its speed caps at the rate.\<close>

definition caps_agree :: "safety_profile \<Rightarrow> real \<Rightarrow> bool" where
  "caps_agree p dt \<longleftrightarrow> 0 < p_max_linear_speed p \<and> 0 < p_max_angular_speed p
     \<and> p_max_linear_speed p * dt \<le> p_max_pose_jump_linear p \<and> p_max_angular_speed p * dt \<le> p_max_pose_jump_angular p
     \<and> p_max_linear_accel p = None"

lemma successively_tl_mono:
  assumes "successively R (a # xs)" "\<And>x y. x \<in> set (a # xs) \<Longrightarrow> y \<in> set xs \<Longrightarrow> R x y \<Longrightarrow> S x y"
  shows "successively S (a # xs)"
  using assms by (induction xs arbitrary: a) auto

lemma setpoints_fit:
  assumes "chunk_wf a" "within_profile p a" "caps_agree p (1 / hz)" "box_ok p" "0 < hz" "\<not> out_of_box p (pos start)"
    and "mk_cart_interp a start hz (Some (tighten (p_max_linear_speed p) (ck_max_tcp_linear_speed a)))
        (Some (tighten (p_max_angular_speed p) (ck_max_tcp_angular_speed a))) = Inr ci"
  shows "\<exists>sps. interp_iter ci = map Inr sps \<and> successively (fits p (1 / hz)) (start # map sp_pose sps)"
proof -
  let ?v = "tighten (p_max_linear_speed p) (ck_max_tcp_linear_speed a)"
  let ?w = "tighten (p_max_angular_speed p) (ck_max_tcp_angular_speed a)"
  have v: "0 < ?v" "?v \<le> p_max_linear_speed p" "0 < ?w" "?w \<le> p_max_angular_speed p"
    using assms(3) by (auto simp: caps_agree_def tighten_def)
  have reg: "near_box p (x + s *\<^sub>R (y - x))" if "near_box p x" "near_box p y" "0 \<le> s" "s \<le> 1" for x y s
    by (rule near_box_segment [OF assms(4) that])
  have "near_box p (pos start)" "\<forall>wp \<in> set (ck_waypoints a). near_box p (wp_position wp)"
    using assms(2,6) in_box_near by (auto simp: within_profile_def)
  then obtain sps where sps: "interp_iter ci = map Inr sps" "successively (tick_ok ?v ?w (1 / hz)) (start # map sp_pose sps)"
      "\<forall>sp \<in> set sps. near_box p (pos (sp_pose sp))"
    using interp_iter_stream [OF assms(1,5) v(1,3) assms(7), of "near_box p", OF reg] by blast
  have turn: "quat_angle (rot x) (rot y) \<le> p_max_angular_speed p * (1 / hz)"
    if xy: "x \<in> set (start # map sp_pose sps)" "y \<in> set (start # map sp_pose sps)" "tick_ok ?v ?w (1 / hz) x y" for x y
  proof (cases "list_all (\<lambda>w. wp_quaternion w = None) (ck_waypoints a)")
    case True
    have "ci_start_pose ci = start" "ci_chunk ci = a" using assms(7) by (auto simp: mk_cart_interp_def split: if_splits)
    then have "\<forall>sp \<in> set sps. rot (sp_pose sp) = quat_normalize (rot start)"
      using interp_from_hold [OF True] sps(1) by (simp add: interp_iter_def)
    then have "quat_angle (rot x) (rot y) = 0" using xy(1,2) by auto
    then show ?thesis using assms(3,5) by (simp add: caps_agree_def)
  next
    case False
    then have "?w \<le> SLERP_SLACK * p_max_angular_speed p"
      using assms(2) by (auto simp: within_profile_def tighten_def)
    then have "?w * (1 / hz) / SLERP_SLACK \<le> SLERP_SLACK * p_max_angular_speed p * (1 / hz) / SLERP_SLACK"
      using assms(5) by (intro divide_right_mono mult_right_mono) auto
    then show ?thesis using xy(3) SLERP_SLACK_pos(1) by (simp add: tick_ok_def)
  qed
  have step: "fits p (1 / hz) x y"
    if "x \<in> set (start # map sp_pose sps)" "y \<in> set (map sp_pose sps)" "tick_ok ?v ?w (1 / hz) x y" for x y
  proof -
    have lin: "norm (pos y - pos x) \<le> ?v * (1 / hz)" using that(3) by (simp add: tick_ok_def)
    also have "\<dots> \<le> p_max_linear_speed p * (1 / hz)" using v(2) assms(5) by (intro mult_right_mono) auto
    finally have "norm (pos y - pos x) \<le> p_max_linear_speed p * (1 / hz)" .
    moreover have "quat_angle (rot x) (rot y) \<le> p_max_angular_speed p * (1 / hz)" using turn that by auto
    moreover have "near_box p (pos y)" using that(2) sps(3) by auto
    ultimately show ?thesis using assms(3) by (simp add: fits_def in_spec_def mk_filter_def caps_agree_def)
  qed
  have "successively (fits p (1 / hz)) (start # map sp_pose sps)"
    by (rule successively_tl_mono [OF sps(2) step])
  then show ?thesis using sps(1) by blast
qed

lemma run_chunk_fine:
  fixes r :: "'b trace robot"
  assumes course: "on_course p (1 / r_hz r) (st_tcp_pose start) r" "r_profile r = p" "0 < r_hz r"
    and prof: "caps_agree p (1 / r_hz r)" "box_ok p"
    and a: "for_execution c (st_tcp_pose start) = Inr a" "chunk_wf a" "within_profile p a" "\<not> out_of_box p (pos (st_tcp_pose start))"
    and res: "er_success res" "\<not> er_clipped res"
  shows "wpS (run_chunk (traced B) args c start res) (\<lambda>res' _. fine res') (\<lambda>_ _. True) r"
proof -
  let ?v = "tighten (p_max_linear_speed p) (ck_max_tcp_linear_speed a)"
  let ?w = "tighten (p_max_angular_speed p) (ck_max_tcp_angular_speed a)"
  obtain ci where ci: "mk_cart_interp a (st_tcp_pose start) (r_hz r) (Some ?v) (Some ?w) = Inr ci"
    using course(3) by (simp add: mk_cart_interp_def)
  obtain sps where sps: "interp_iter ci = map Inr sps" "successively (fits p (1 / r_hz r)) (st_tcp_pose start # map sp_pose sps)"
    using setpoints_fit [OF a(2,3) prof course(3) a(4) ci] by blast
  have loop: "wpS (chunk_loop (traced B) env (interp_iter ci) (fresh_locals res' start)) (\<lambda>x _. fine (x_result x)) (\<lambda>_ _. True) r1"
    if "on_course p (1 / r_hz r) (st_tcp_pose start) r1" "er_success res'" "\<not> er_clipped res'" for env res' and r1 :: "'b trace robot"
    unfolding sps(1) using that prof(1) by (intro loop_kept [OF _ _ sps(2)]) (simp_all add: caps_agree_def fresh_locals_def)
  have whole: "wpS (finallyS (bindS (chunk_loop (traced B) env (interp_iter ci) (fresh_locals res' start)) (finish_pending (traced B) env))
        (restore_wrench (traced B) relaxed)) (\<lambda>x _. fine (x_result x)) (\<lambda>_ _. True) r1"
    if "on_course p (1 / r_hz r) (st_tcp_pose start) r1" "er_success res'" "\<not> er_clipped res'" for env res' relaxed and r1 :: "'b trace robot"
    unfolding wpS_finally
  proof (rule wpS_bindI [OF loop [OF that], THEN wpS_mono])
    show "wpS (finish_pending (traced B) env x) (\<lambda>x' _. fine (x_result x')) (\<lambda>_ _. True) r2" if "fine (x_result x)" for x and r2 :: "'b trace robot"
      by (rule finish_fine [OF that])
  next
    fix x :: locals and r2 :: "'b trace robot"
    assume "fine (x_result x)"
    then show "wpS (restore_wrench (traced B) relaxed (Inr x)) (\<lambda>y s. case y of Inl e \<Rightarrow> True | Inr x \<Rightarrow> fine (x_result x)) (\<lambda>_ _. True) r2"
      by (intro wpS_mono [OF restore_fine]) auto
  next
    fix e and r2 :: "'b trace robot"
    show "wpS (restore_wrench (traced B) relaxed (Inl e)) (\<lambda>y s. case y of Inl e \<Rightarrow> True | Inr x \<Rightarrow> fine (x_result x)) (\<lambda>_ _. True) r2"
      by (intro wpS_mono [OF restore_raises]) auto
  qed
  have report: "wpS (bindS (get_state (traced B)) (\<lambda>end'. raise_if_stopped (xa_raise_on_stop args) (final_report env start end' x)))
      (\<lambda>res' _. fine res') (\<lambda>_ _. True) r1" if "fine (x_result x)" for env x and r1 :: "'b trace robot"
    by (rule wpS_bindI [where P = "\<lambda>_ _. True"], rule wpS_any)
      (use that in \<open>auto simp: raise_if_stopped_def wpS_base final_report_def Let_def fine_def external_def log_put_def\<close>)
  have eff: "er_success res' \<and> \<not> er_clipped res'" if "effective_wrench p a (log_put k v (log_put k' v' res)) = Inr (w, relaxed, res')"
    for k v k' v' w relaxed res'
    using that res by (auto simp: effective_wrench_def bindR_eq_Inr split: option.splits if_splits)
  have lim: "wpS (if relaxed then onB (bk_set_contact_wrench_limit (traced B) w) else retS ())
      (\<lambda>_. on_course p (1 / r_hz r) (st_tcp_pose start)) (\<lambda>_ _. True) r" for relaxed w
    using course_calm [OF calm_ops(5) [of "\<lambda>_. True" w B] course(1)] course(1) by (simp add: wpS_base)
  have tail: "wpS (thenS (if relaxed then onB (bk_set_contact_wrench_limit (traced B) w) else retS ())
        (bindS (finallyS (bindS (chunk_loop (traced B) env (interp_iter ci) (fresh_locals res' start)) (finish_pending (traced B) env))
          (restore_wrench (traced B) relaxed))
         (\<lambda>x. bindS (get_state (traced B)) (\<lambda>end'. raise_if_stopped (xa_raise_on_stop args) (final_report env start end' x)))))
      (\<lambda>res' _. fine res') (\<lambda>_ _. True) r" if "er_success res' \<and> \<not> er_clipped res'" for relaxed w env res'
    using that by (intro wpS_thenI [OF lim] wpS_bindI [OF whole report]) auto
  show ?thesis
    using a(1) ci course(2) tail eff
    by (auto simp: run_chunk_def Let_def wpS_bind [of "liftS m" for m] wpS_bind [of "getS g" for g] wpS_base split: sum.split prod.split)
qed

section \<open>Properties\<close>

lemma demo_call_facts:
  "0 \<le> ck_max_tcp_linear_speed (chunk_of ws)" "0 \<le> ck_max_tcp_angular_speed (chunk_of ws)" "0 < r_hz (demo_robot rq)"
  "caps_agree (r_profile (demo_robot rq)) (r_dt (demo_robot rq))" "cmds (demo_robot rq) = []"
  "0 < p_max_linear_speed (r_profile (demo_robot rq))" "0 < p_max_angular_speed (r_profile (demo_robot rq))"
  by (simp_all add: demo_robot_def cmds_def default_profile_def chunk_of_def caps_agree_def)

lemma run_visits:
  assumes "run_chunk (traced B) args c start res0 r1 = (Inr res, r')" "er_success res0" "er_success res" "\<not> er_clipped res"
    and "for_execution c (st_tcp_pose start) = Inr a" "chunk_wf a" "chunk_wf c"
    and "0 \<le> ck_max_tcp_linear_speed c" "0 \<le> ck_max_tcp_angular_speed c" "norm (rot (st_tcp_pose start)) = 1" "0 < r_hz r1"
    and "0 < p_max_linear_speed (r_profile r1)" "0 < p_max_angular_speed (r_profile r1)" "streamed (cmds r1) = []"
  shows "visits (streamed (cmds r')) (goal_poses (rot (st_tcp_pose start)) (ck_waypoints a))"
proof -
  obtain pv where pv: "plan_chunk_preview c (st_tcp_pose start) (Some (r_profile r1)) (r_hz r1) = Inr pv"
    using preview_answers [OF assms(7,10,11,8,9), of "Some (r_profile r1)"] assms(12,13) by auto
  have all: "streamed (cmds r') = pv_setpoints pv"
    using wpS_Inr [OF run_chunk_follows [OF pv assms(8,9,2)] assms(1)] assms(3,4,14) by (auto simp: followed_def)
  obtain ci sps where ci: "mk_cart_interp a (st_tcp_pose start) (r_hz r1) (Some (tighten (p_max_linear_speed (r_profile r1)) (ck_max_tcp_linear_speed a)))
      (Some (tighten (p_max_angular_speed (r_profile r1)) (ck_max_tcp_angular_speed a))) = Inr ci"
    and sps: "interp_iter ci = map Inr sps" "pv_setpoints pv = map sp_pose sps"
    using preview_plan [OF pv assms(8,9)] assms(5) by auto
  have "visits (map sp_pose sps) (goal_poses (rot (st_tcp_pose start)) (ck_waypoints a))"
    by (rule interp_from_visits [OF chunk_wf_timed [OF assms(6)], of ci 0 "pos (st_tcp_pose start)"])
      (use ci sps(1) assms(11) in \<open>auto simp: mk_cart_interp_def interp_iter_def split: if_splits\<close>)
  then show ?thesis by (simp add: all sps(2))
qed

text \<open>C5: A chunk that succeeds goes where it was told to. When a chunk call reports success and nothing was clipped, the
  poses it streamed stop at each executed waypoint in turn, at its position and with its orientation (as a
  rotation; the one carried so far where the waypoint has none), and end on the last: over any backend, for absolute and
  relative chunks alike, from a pose the call read, unless that pose has no unit quaternion.\<close>

theorem chunk_visits_waypoints:
  assumes "execute_cartesian_chunk (traced B) args c r = (Inr res, r')" "cmds r = []"
    and "er_success res" "\<not> er_clipped res"
    and "0 \<le> ck_max_tcp_linear_speed c" "0 \<le> ck_max_tcp_angular_speed c" "chunk_wf c" "0 < r_hz r"
    and "0 < p_max_linear_speed (r_profile r)" "0 < p_max_angular_speed (r_profile r)"
  shows "\<exists>st. CRead st \<in> set (cmds r') \<and> (norm (rot (st_tcp_pose st)) = 1 \<longrightarrow>
    (\<exists>a. for_execution c (st_tcp_pose st) = Inr a
      \<and> visits (streamed (cmds r')) (goal_poses (rot (st_tcp_pose st)) (ck_waypoints a))))"
  using assms(1)
proof (cases rule: execute_cartesian_cases)
  case (run r1 start res0)
  obtain cs where cs: "cmds r1 = cs" "list_all entering cs" "CRead start \<in> set cs"
    using run(1) assms(2) by (auto simp: enter_post_def)
  have same: "r_profile r1 = r_profile r" "r_hz r1 = r_hz r" using run(1) by (simp_all add: enter_post_def settings_def)
  have no: "streamed (cmds r1) = []" using streamed_calm [OF entering_no_stream [OF cs(2)]] cs(1) by simp
  have "\<exists>a. for_execution c (st_tcp_pose start) = Inr a
      \<and> visits (streamed (cmds r')) (goal_poses (rot (st_tcp_pose start)) (ck_waypoints a))"
    if unit: "norm (rot (st_tcp_pose start)) = 1"
  proof -
    obtain a where a: "for_execution c (st_tcp_pose start) = Inr a" "chunk_wf a"
      using for_execution_ok [OF assms(7) unit] by blast
    then show ?thesis
      using run_visits [OF run(2,5) assms(3,4) a assms(7,5,6) unit] assms(8-10) same no by auto
  qed
  moreover have "CRead start \<in> set (cmds r')" using frameS_D(2) [OF under_run_chunk run(2)] cs by auto
  ultimately show ?thesis by blast
next
  case (abort r0)
  then show ?thesis using abort_result(3) [OF abort(1)] assms(3) by simp
qed auto

lemma chunk_visits_waypoints_witness:
  "\<exists>res r'. execute_cartesian_chunk (traced fake_backend) default_args (chunk_of [demo_waypoint (6/10) 1, demo_waypoint (5/10) 1])
      (demo_robot (\<lambda>_. False)) = (Inr res, r')
    \<and> (er_success res \<longrightarrow> \<not> er_clipped res \<longrightarrow>
      (\<exists>st. CRead st \<in> set (cmds r') \<and> (norm (rot (st_tcp_pose st)) = 1 \<longrightarrow>
        (\<exists>a. for_execution (chunk_of [demo_waypoint (6/10) 1, demo_waypoint (5/10) 1]) (st_tcp_pose st) = Inr a
          \<and> visits (streamed (cmds r')) (goal_poses (rot (st_tcp_pose st)) (ck_waypoints a))))))"
proof -
  obtain res r' where e: "execute_cartesian_chunk (traced fake_backend) default_args (chunk_of [demo_waypoint (6/10) 1, demo_waypoint (5/10) 1])
      (demo_robot (\<lambda>_. False)) = (Inr res, r')" using demo_call_reports by blast
  show ?thesis
    using chunk_visits_waypoints [OF e demo_call_facts(5) _ _ demo_call_facts(1,2) demo_chunk_wf demo_call_facts(3)
        demo_call_facts(6,7)] e by auto
qed



end
