(* ===== verification/Cli.thy ===== *)
theory Cli
  imports Robot_Build Viz_App
begin

text \<open>
  \<^verbatim>\<open>cli.py\<close>: the commands of \<open>flexiv-control\<close>, each over the robot it builds or connects to. What a command prints
  is its result. The options are given as pairs of an option and its value; the defaults are the
  parser's.
\<close>

section \<open>Options\<close>

record cli_args =
  ca_backend :: string
  ca_config :: "string option"
  ca_robot_sn :: string
  ca_connect :: "string option"
  ca_lease_ttl :: real
  ca_hz :: real

definition cli_defaults :: cli_args where
  "cli_defaults = \<lparr>ca_backend = ''fake'', ca_config = None, ca_robot_sn = '''', ca_connect = None, ca_lease_ttl = 2, ca_hz = 20\<rparr>"

text \<open>An option given again replaces its value.\<close>

definition set_option :: "cli_args \<Rightarrow> string \<times> string \<Rightarrow> cli_args" where
  "set_option a = (\<lambda>(opt, v).
     if opt = ''--backend'' then a\<lparr>ca_backend := v\<rparr>
     else if opt = ''--config'' then a\<lparr>ca_config := Some v\<rparr>
     else if opt = ''--robot-sn'' then a\<lparr>ca_robot_sn := v\<rparr>
     else if opt = ''--connect'' then a\<lparr>ca_connect := Some v\<rparr>
     else a)"

definition parse_options :: "(string \<times> string) list \<Rightarrow> cli_args" where
  "parse_options opts = foldl set_option cli_defaults opts"

text \<open>\<open>HOST[:PORT]\<close>; the default port is the protocol's.\<close>

definition host_port :: "string \<Rightarrow> (string \<times> int) result" where
  "host_port s =
     (let port = after CHR '':'' s
      in if port = '''' then Inr (before CHR '':'' s, 8766)
         else case py_int port of None \<Rightarrow> Inl ValueError | Some n \<Rightarrow> Inr (before CHR '':'' s, n))"

section \<open>The robot of a command\<close>

definition given_text :: "string option \<Rightarrow> string option" where
  "given_text x = (case x of Some s \<Rightarrow> (if s = '''' then None else Some s) | None \<Rightarrow> None)"

definition cli_config :: "(string \<Rightarrow> robot_config result) \<Rightarrow> cli_args \<Rightarrow> robot_config result" where
  "cli_config load_config a =
     bindR (case given_text (ca_config a) of
              Some path \<Rightarrow> load_config path
            | None \<Rightarrow> Inr (default_config\<lparr>cf_backend := ca_backend a, cf_robot_sn := ca_robot_sn a\<rparr>)) (\<lambda>cfg.
       Inr (if ca_backend a = '''' then cfg else cfg\<lparr>cf_backend := ca_backend a\<rparr>))"

definition cli_robot ::
  "(string \<Rightarrow> robot_config result) \<Rightarrow> (string \<Rightarrow> safety_profile result) \<Rightarrow> (nat \<Rightarrow> bool) \<Rightarrow> (backend_spec \<Rightarrow> 'b) \<Rightarrow>
   cli_args \<Rightarrow> 'b robot result" where
  "cli_robot load_config load requests new a =
     bindR (cli_config load_config a) (\<lambda>cfg. build_robot load requests new cfg None None)"

section \<open>The commands\<close>

definition cmd_serve :: "'b robot \<Rightarrow> cli_args \<Rightarrow> 'b server" where
  "cmd_serve r a = mk_server r (ca_lease_ttl a)"

definition cmd_home :: "'b backend \<Rightarrow> (real \<times> real) list \<Rightarrow> ('b robot, real list) sem" where
  "cmd_home B elapsed =
     with_robot B
       (thenS (robot_acquire_lease ''cli'')
       (thenS (robot_home B None None None elapsed)
          (bindS (get_state B) (\<lambda>s. retS (st_q s)))))"

definition cmd_zero_ft :: "'b backend \<Rightarrow> ('b robot, unit) sem" where
  "cmd_zero_ft B = with_robot B (thenS (robot_acquire_lease ''cli-zero-ft'') (robot_zero_ft_sensor B))"

definition cmd_zero_ft_connect :: "'w rpc \<Rightarrow> ('w remote, unit) sem" where
  "cmd_zero_ft_connect rpc =
     thenS (remote_connect rpc)
    (thenS (remote_acquire_lease rpc (Some ''cli-zero-ft'') False)
       (finallyS (remote_zero_ft_sensor rpc)
          (\<lambda>out. thenS (remote_release_lease rpc) (thenS (remote_close rpc) (retS out)))))"

definition cmd_state :: "'b backend \<Rightarrow> ('b robot, robot_state) sem" where
  "cmd_state B = with_robot B (get_state B)"

definition demo_rows :: "real list list" where
  "demo_rows = [[45 / 100, 0, 30 / 100, 1, 20], [50 / 100, 5 / 100, 25 / 100, 0, 20], [45 / 100, 0, 30 / 100, 1, 20]]"

definition cmd_demo :: "'b backend \<Rightarrow> ('b robot, exec_result \<times> vec3) sem" where
  "cmd_demo B =
     with_robot B
       (thenS (robot_acquire_lease ''demo'')
       (thenS (start_cartesian_impedance B None False None None)
       (bindS (liftS (from_waypoint_array demo_rows 20 (8 / 100) True None (chunk_of []))) (\<lambda>c.
        bindS (execute_cartesian_chunk B default_args c) (\<lambda>res.
          case er_final_state res of None \<Rightarrow> raiseS AttributeError | Some s \<Rightarrow> retS (res, tcp_position s))))))"

text \<open>
  The mirror: connect, attach, poll until interrupted. \<open>passes\<close> are the poller's passes up to the
  interrupt, each with its time.
\<close>

fun poll_passes :: "'w viewed \<Rightarrow> real list \<Rightarrow> real \<Rightarrow> nat \<Rightarrow> ('w \<times> viz, unit) sem" where
  "poll_passes V [] next_profile g = retS ()"
| "poll_passes V (now # later) next_profile g =
     bindS (poll_pass V now next_profile g) (\<lambda>(next_profile', g'). poll_passes V later next_profile' g')"

definition mirror ::
  "('w, unit) sem \<Rightarrow> ('w, unit) sem \<Rightarrow> 'w viewed \<Rightarrow> real list \<Rightarrow> ('w \<times> viz, unit) sem" where
  "mirror connect disconnect V passes =
     thenS (on1 connect)
    (thenS (attach V False)
    (thenS (poll_passes V passes 0 0)
    (thenS (on2 (modS viz_stop)) (on1 disconnect))))"

definition cmd_viz_local :: "'b backend \<Rightarrow> real list \<Rightarrow> ('b robot \<times> viz, unit) sem" where
  "cmd_viz_local B passes = mirror (robot_connect B) (robot_disconnect B) (local_view B) passes"

text \<open>The server's client as the viewer sees it.\<close>

definition remote_view :: "'w rpc \<Rightarrow> 'w remote viewed" where
  "remote_view rpc =
     \<lparr>vw_get_state = remote_get_state rpc,
      vw_profile = bindS (remote_get_safety_profile rpc) (\<lambda>p. retS (Some p)),
      vw_has_lease = c_has_lease\<rparr>"

definition cmd_viz_remote :: "'w rpc \<Rightarrow> real list \<Rightarrow> ('w remote \<times> viz, unit) sem" where
  "cmd_viz_remote rpc passes = mirror (remote_connect rpc) (remote_close rpc) (remote_view rpc) passes"

section \<open>A configuration file's backend\<close>

lemma set_option_backend: "opt \<noteq> ''--backend'' \<Longrightarrow> ca_backend (set_option a (opt, v)) = ca_backend a"
  by (simp add: set_option_def)

lemma parse_backend: "''--backend'' \<notin> fst ` set opts \<Longrightarrow> ca_backend (foldl set_option a opts) = ca_backend a"
proof (induction opts arbitrary: a)
  case (Cons o' opts)
  obtain opt v where "o' = (opt, v)" by (cases o')
  then show ?case using Cons by (auto simp: set_option_backend)
qed simp

lemma set_option_config: "opt \<noteq> ''--config'' \<Longrightarrow> ca_config (set_option a (opt, v)) = ca_config a"
  by (simp add: set_option_def)

text \<open>A configuration file does not choose the backend: unless \<open>--backend\<close> is given as well, every command that builds
  its own robot builds the simulated one, whatever backend the file names.\<close>

theorem config_backend_unused:
  assumes "''--backend'' \<notin> fst ` set opts" "cli_robot load_config load requests new (parse_options opts) = Inr r"
  shows "cf_backend (r_cfg r) = ''fake'' \<and> r_b r = new FakeSpec"
proof -
  have b: "ca_backend (parse_options opts) = ''fake''"
    using parse_backend [OF assms(1), of cli_defaults] by (simp add: parse_options_def cli_defaults_def)
  obtain cfg where cfg: "cli_config load_config (parse_options opts) = Inr cfg" "build_robot load requests new cfg None None = Inr r"
    using assms(2) by (auto simp: cli_robot_def bindR_eq_Inr)
  have fake: "cf_backend cfg = ''fake''" using cfg(1) b by (auto simp: cli_config_def bindR_eq_Inr)
  have lower: "str_lower ''fake'' = ''fake''" by (simp add: str_lower_def Let_def)
  from cfg(2) obtain spec where "backend_spec cfg (r_dt r) = Inr spec" "r_b r = new spec" "r_cfg r = cfg"
    by (rule build_robot_shape)
  then show ?thesis using fake by (auto simp: backend_spec_def get_backend_def lower bindR_def)
qed

lemma config_backend_unused_witness:
  "\<exists>r. cli_robot (\<lambda>_. Inr (default_config\<lparr>cf_backend := ''flexiv_rdk''\<rparr>)) (\<lambda>_. Inr default_profile) (\<lambda>_. False)
      (\<lambda>spec. case spec of FakeSpec \<Rightarrow> ''simulator'' | _ \<Rightarrow> ''arm'') (parse_options [(''--config'', ''lab'')]) = Inr r
    \<and> r_b r = ''simulator''"
proof -
  have "\<exists>r. cli_robot (\<lambda>_. Inr (default_config\<lparr>cf_backend := ''flexiv_rdk''\<rparr>)) (\<lambda>_. Inr default_profile) (\<lambda>_. False)
      (\<lambda>spec. case spec of FakeSpec \<Rightarrow> ''simulator'' | _ \<Rightarrow> ''arm'') (parse_options [(''--config'', ''lab'')]) = Inr r"
    by (simp add: cli_robot_def cli_config_def parse_options_def cli_defaults_def set_option_def given_text_def build_robot_def
        robot_rate_def default_config_def backend_spec_def get_backend_def str_lower_def mk_robot_def bindR_def Let_def)
  with config_backend_unused [of "[(''--config'', ''lab'')]" "\<lambda>_. Inr (default_config\<lparr>cf_backend := ''flexiv_rdk''\<rparr>)"
      "\<lambda>_. Inr default_profile" "\<lambda>_. False" "\<lambda>spec. case spec of FakeSpec \<Rightarrow> ''simulator'' | _ \<Rightarrow> ''arm''"]
  show ?thesis by auto
qed

end
