(* ===== verification/Mirror.thy ===== *)
theory Mirror
  imports Cli Viz_Proofs Remote_Proofs
begin

text \<open>
  The mirror of a running server: the viewer over the client over the server. A monitor takes nothing: its
  requests only read, and the lease stays with whoever has it.
\<close>

section \<open>The mirror over any watched robot\<close>

context watched_robot
begin

lemma passes_keep: "keepsS kept (poll_passes V passes due g)"
  by (induction passes arbitrary: due g) (auto intro!: keepsS_bind poll_keeps keepsS_base split: prod.split)

lemma mirror_keeps: "keepsS I connect \<Longrightarrow> keepsS I disconnect \<Longrightarrow> keepsS kept (mirror connect disconnect V passes)"
  unfolding mirror_def by (intro keepsS_then world_keeps attach_keeps passes_keep page_keeps)

end

section \<open>The server as the mirror sees it\<close>

text \<open>The wire to a server over time: each request has its own clock readings.\<close>

definition server_wire ::
  "'b backend \<Rightarrow> (string \<Rightarrow> safety_profile result) \<Rightarrow> (json \<Rightarrow> req_env) \<Rightarrow> 'b server rpc" where
  "server_wire B load ks req = server_rpc B load (ks req) req"

definition srv_watched :: "'b trace server \<Rightarrow> 'b trace server \<Rightarrow> bool" where
  "srv_watched s0 s \<longleftrightarrow> watched (v_robot s0) (v_robot s)
     \<and> map_option sv_running (v_loop s) = map_option sv_running (v_loop s0)
     \<and> l_holds (v_lease s) = l_holds (v_lease s0) \<and> l_ttl (v_lease s) = l_ttl (v_lease s0)
     \<and> (l_info (v_lease s) = l_info (v_lease s0) \<or> l_info (v_lease s) = None)"

lemma srv_onRob: "keepsS (watched (v_robot s0)) m \<Longrightarrow> keepsS (srv_watched s0) (onRob m)"
  by (auto simp: keepsS_def onRob_def srv_watched_def split: prod.split)

lemma srv_lease_owner: "keepsS (srv_watched s0) (onL (lease_owner now))"
  by (auto simp: keepsS_def onL_def lease_owner_def expire_if_stale_def sem_simps srv_watched_def split: option.split)

lemma watched_backend_read: "keepsS (watched r0) (onB (bk_read_state (traced B)))"
proof (rule keepsS_I)
  fix r
  assume r: "watched r0 r"
  have "snd (get_state (traced B) r) = (case onB (bk_read_state (traced B)) r of
      (Inl e, r') \<Rightarrow> r' | (Inr s, r') \<Rightarrow> r'\<lparr>r_last_state := Some s\<rparr>)"
    by (simp add: get_state_def bindS_def sem_simps split: prod.split sum.split)
  then have "watched r0 (case onB (bk_read_state (traced B)) r of
      (Inl e, r') \<Rightarrow> r' | (Inr s, r') \<Rightarrow> r'\<lparr>r_last_state := Some s\<rparr>)"
    using keepsS_D [OF watched_read r, of B] by simp
  then show "watched r0 (snd (onB (bk_read_state (traced B)) r))"
    by (auto simp: watched_def settings_def cmds_def split: prod.splits sum.splits)
qed

lemma srv_loop_state: "keepsS (srv_watched s0) (onLoop (servo_get_state (traced B)))"
proof (rule keepsS_I)
  fix s
  assume s: "srv_watched s0 s"
  show "srv_watched s0 (snd (onLoop (servo_get_state (traced B)) s))"
  proof (cases "v_loop s")
    case (Some l)
    obtain x r' where r: "onB (bk_read_state (traced B)) (v_robot s) = (x, r')" by (rule prod.exhaust)
    have "watched (v_robot s0) r'" using keepsS_D [OF watched_backend_read, of "v_robot s0" "v_robot s" B] s r by (simp add: srv_watched_def)
    then show ?thesis
      using s Some r
      by (auto simp: onLoop_def servo_get_state_def read_backend_def onR_def bindS_def sem_simps srv_watched_def split: option.splits sum.splits)
  qed (use s in \<open>simp add: onLoop_def\<close>)
qed

lemma srv_get_state: "keepsS (srv_watched s0) (h_get_state (traced B) k p)"
proof -
  have "keepsS (watched r0) (modS (\<lambda>r. r\<lparr>r_last_state := Some st\<rparr>))" for r0 :: "'a trace robot" and st
    by (simp add: keepsS_def sem_simps watched_def settings_def cmds_def)
  then show ?thesis
    unfolding h_get_state_def
    by (auto simp: Let_def intro!: keepsS_bind keepsS_then keepsS_base srv_loop_state srv_onRob srv_lease_owner watched_read
        split: option.split)
qed

definition asks :: "string \<Rightarrow> json \<Rightarrow> bool" where
  "asks name req \<longleftrightarrow> (\<exists>rid. req = request rid name (JObj []))"

lemma dispatch_keeps:
  assumes "asks name req" "map_of (handlers B load k) name = Some h" "\<And>p. keepsS I (h p)"
  shows "keepsS I (dispatch B load k req)"
proof (rule keepsS_I)
  fix s
  assume "I s"
  then show "I (snd (dispatch B load k req s))"
    using assms(1) keepsS_D [OF assms(3)]
    by (auto simp: asks_def dispatch_request [OF assms(2)] split: prod.split sum.split) (metis snd_conv)+
qed

lemma wire_keeps:
  assumes "asks name req" "name \<in> {''ping'', ''get_state'', ''get_safety_profile''}"
  shows "keepsS (srv_watched s0) (server_wire (traced B) load ks req)"
proof -
  have "keepsS (srv_watched s0) (dispatch (traced B) load (ks req) req)"
    using assms(2)
    by (elim insertE emptyE; intro dispatch_keeps [OF assms(1)])
      (auto simp: handlers_def h_get_safety_profile_def intro: srv_get_state keepsS_base)
  then show ?thesis by (auto simp: keepsS_def server_wire_def server_rpc_def split: prod.split sum.split)
qed

section \<open>The mirror over the server\<close>

definition unleased :: "'b trace server \<Rightarrow> 'b trace server remote \<Rightarrow> bool" where
  "unleased s0 c \<longleftrightarrow> srv_watched s0 (c_world c) \<and> \<not> c_has_lease c"

lemma call_keeps:
  assumes "name \<in> {''ping'', ''get_state'', ''get_safety_profile''}"
  shows "keepsS (unleased s0) (call (server_wire (traced B) load ks) name [])"
proof -
  have w: "keepsS (unleased s0) (onW (server_wire (traced B) load ks
      (JObj [(''id'', JInt rid), (''method'', JStr name), (''params'', JObj [])])))" for rid
    using wire_keeps [OF _ assms, of "JObj [(''id'', JInt rid), (''method'', JStr name), (''params'', JObj [])]" s0 B load ks]
    by (auto simp: asks_def request_def keepsS_def onW_def unleased_def split: prod.split)
  have n: "keepsS (unleased s0) (modS (\<lambda>c. c\<lparr>c_next_id := c_next_id c + 1\<rparr>))"
    by (simp add: keepsS_def sem_simps unleased_def)
  show ?thesis
    unfolding call_def by (auto intro!: keepsS_bind keepsS_then keepsS_base w n split: option.split)
qed

interpretation rv: watched_robot "remote_view (server_wire (traced B) load ks)" "unleased s0" for B load ks s0
  by unfold_locales
    (auto simp: remote_view_def remote_get_state_def remote_get_safety_profile_def intro!: keepsS_bind keepsS_base call_keeps)


end
