(* ===== verification/Assets.thy ===== *)
theory Assets
  imports Robot_Types Json "HOL-Library.Sublist" "HOL-Library.Product_Lexorder"
begin

text \<open>
  \<^verbatim>\<open>viz/assets.py\<close>: where the viewer's mesh comes from. The file system, the download and the vendor's generator
  are parameters; modelled are the search, the check on the paths of a downloaded archive, the names of mesh
  files and the flattening of the gripper's mimic joints, which the lemmas are about.
\<close>

section \<open>Finding a model\<close>

text \<open>A file as its path and its name; sorting by path, as \<open>sorted\<close> does, comes first.\<close>

type_synonym listing = "(string \<times> string) list"

definition named :: "string \<Rightarrow> listing \<Rightarrow> listing" where
  "named part fs = filter (\<lambda>(path, name). sublist part (str_lower name)) fs"

definition preference :: "string \<times> string \<Rightarrow> nat \<times> nat" where
  "preference f = (if sublist ''kinematics'' (str_lower (snd f)) then 0 else 1, length (snd f))"

definition strip_s :: "string \<Rightarrow> string" where
  "strip_s m = rev (dropWhile (\<lambda>c. c = CHR ''s'') (rev m))"

text \<open>\<open>_find_urdf\<close> over the sorted URDF files below an existing directory.\<close>

definition find_urdf :: "listing option \<Rightarrow> string \<Rightarrow> string option" where
  "find_urdf files model =
     (case files of
        None \<Rightarrow> None
      | Some fs \<Rightarrow>
          (let m = str_lower model;
               exact = named m fs;
               candidates = (if exact = [] then named (strip_s m) fs else exact)
           in case sort_key preference candidates of
                [] \<Rightarrow> None
              | c # _ \<Rightarrow> Some (fst c)))"

text \<open>
  \<open>ensure_rizon_urdf\<close>: what is on the disk, the generator on a checkout, and the download.
\<close>

record disk =
  dk_generated :: "string option"
  dk_env :: "string option"
  dk_env_files :: "listing option"
  dk_cache_files :: "listing option"
  dk_checkout :: "string option"

definition first_some :: "'a option list \<Rightarrow> 'a option" where
  "first_some xs = (case filter (\<lambda>x. x \<noteq> None) xs of [] \<Rightarrow> None | x # _ \<Rightarrow> x)"

definition ensure_rizon_urdf ::
  "disk \<Rightarrow> (string \<Rightarrow> string option) \<Rightarrow> (string \<times> listing option) option \<Rightarrow> string \<Rightarrow> bool \<Rightarrow> string option" where
  "ensure_rizon_urdf d generate fetched model download =
     (let env = (case dk_env d of Some e \<Rightarrow> (if e = '''' then None else Some e) | None \<Rightarrow> None);
          roots = List.map_filter id [env, dk_checkout d]
      in first_some
           ([dk_generated d, (if env = None then None else find_urdf (dk_env_files d) model), find_urdf (dk_cache_files d) model]
            @ map generate roots
            @ (if download then (case fetched of None \<Rightarrow> [] | Some (checkout, fs) \<Rightarrow> [find_urdf fs model, generate checkout]) else [])))"

section \<open>The archive\<close>

text \<open>
  A path as its components from the root. \<open>resolve\<close> follows \<open>.\<close> and \<open>..\<close>; links are the file system's and not
  modelled.
\<close>

fun resolve_from :: "string list \<Rightarrow> string list \<Rightarrow> string list" where
  "resolve_from acc [] = rev acc"
| "resolve_from acc (c # cs) =
     (if c = '''' \<or> c = ''.'' then resolve_from acc cs
      else if c = ''..'' then resolve_from (tl acc) cs
      else resolve_from (c # acc) cs)"

definition join_member :: "string list \<Rightarrow> string \<Rightarrow> string list" where
  "join_member dest name =
     (let cs = split_on CHR ''/'' name
      in if starts_with ''/'' name then resolve_from [] cs else resolve_from (rev dest) cs)"

definition path_text :: "string list \<Rightarrow> string" where
  "path_text cs = (if cs = [] then ''/'' else concat (map (\<lambda>c. CHR ''/'' # c) cs))"

definition member_accepted :: "string list \<Rightarrow> string \<Rightarrow> bool" where
  "member_accepted dest name = starts_with (path_text dest) (path_text (join_member dest name))"

text \<open>The guard lets a file out of the directory: it compares the texts of the paths and a sibling's name may continue the
  directory's.\<close>

lemma guard_lets_out:
  "member_accepted [''home'', ''u'', ''.cache'', ''flexiv_control''] ''../flexiv_control_x/a''
   \<and> join_member [''home'', ''u'', ''.cache'', ''flexiv_control''] ''../flexiv_control_x/a'' = [''home'', ''u'', ''.cache'', ''flexiv_control_x'', ''a'']"
  by (simp add: member_accepted_def join_member_def path_text_def starts_with_def)

section \<open>Mesh files\<close>

definition drop_package :: "string \<Rightarrow> string" where
  "drop_package rel = (if CHR ''/'' \<in> set rel then after CHR ''/'' rel else rel)"

text \<open>\<open>root / rel\<close> of paths: empty components and dots are dropped, an absolute path replaces the root.\<close>

definition path_parts :: "string \<Rightarrow> string list" where
  "path_parts s = filter (\<lambda>c. c \<noteq> '''' \<and> c \<noteq> ''.'') (split_on CHR ''/'' s)"

definition path_join :: "string \<Rightarrow> string \<Rightarrow> string" where
  "path_join r rel =
     (if starts_with ''/'' rel then path_text (path_parts rel) else r @ concat (map (\<lambda>c. CHR ''/'' # c) (path_parts rel)))"

lemma path_join_absolute: "starts_with ''/'' r \<Longrightarrow> starts_with ''/'' (path_join r rel)"
  by (cases r; cases "path_parts rel") (auto simp: path_join_def path_text_def starts_with_def)

text \<open>The file name of a mesh in the generated model; \<open>None\<close> is a name left alone.\<close>

definition mesh_file :: "string \<Rightarrow> string \<Rightarrow> string option" where
  "mesh_file package_root fname =
     (if fname = '''' \<or> starts_with ''/'' fname then None
      else if starts_with ''package://'' fname then Some (path_join package_root (drop_package (drop 10 fname)))
      else Some (path_join package_root fname))"

text \<open>
  Loading: the package's root is the nearest directory above the model that holds the meshes, and every file
  is looked up from there or from beside the model. \<open>resolve\<close> is the path library's.
\<close>

definition package_dir :: "(string \<Rightarrow> bool) \<Rightarrow> string list \<Rightarrow> string" where
  "package_dir has_meshes parents = (case List.find has_meshes parents of Some d \<Rightarrow> d | None \<Rightarrow> hd parents)"

definition mesh_path :: "(string \<Rightarrow> string) \<Rightarrow> string \<Rightarrow> string \<Rightarrow> string \<Rightarrow> string" where
  "mesh_path resolve pkg parent fname =
     (if starts_with ''package://'' fname then path_join pkg (drop_package (drop 10 fname))
      else if \<not> starts_with ''/'' fname then resolve (path_join parent fname)
      else fname)"

section \<open>Mimic joints\<close>

text \<open>
  A joint follows another: its position is \<open>multiplier * position + offset\<close>. The flattening composes the chain of
  followed joints, at most eight times, until it ends in a joint that follows none.
\<close>

record mimic =
  mi_target :: string
  mi_mult :: real
  mi_off :: real

type_synonym mimics = "string \<rightharpoonup> mimic"

definition compose :: "mimic \<Rightarrow> mimic \<Rightarrow> mimic" where
  "compose m m2 = \<lparr>mi_target = mi_target m2, mi_mult = mi_mult m * mi_mult m2, mi_off = mi_mult m * mi_off m2 + mi_off m\<rparr>"

fun chase :: "mimics \<Rightarrow> nat \<Rightarrow> mimic \<Rightarrow> mimic" where
  "chase M 0 m = m"
| "chase M (Suc depth) m =
     (case M (mi_target m) of
        None \<Rightarrow> m
      | Some m2 \<Rightarrow> chase M depth (compose m m2))"

definition flatten_mimic :: "mimics \<Rightarrow> string set \<Rightarrow> mimic \<Rightarrow> mimic" where
  "flatten_mimic M actuated m = (let f = chase M 8 m in if mi_target f \<in> actuated then f else m)"

definition flatten_mimics :: "mimics \<Rightarrow> string set \<Rightarrow> mimics" where
  "flatten_mimics M actuated = (\<lambda>name. map_option (flatten_mimic M actuated) (M name))"

definition follows :: "(string \<Rightarrow> real) \<Rightarrow> mimic \<Rightarrow> real" where
  "follows v m = mi_mult m * v (mi_target m) + mi_off m"

definition obeys :: "mimics \<Rightarrow> (string \<Rightarrow> real) \<Rightarrow> bool" where
  "obeys M v \<longleftrightarrow> (\<forall>name m. M name = Some m \<longrightarrow> v name = follows v m)"

lemma compose_simps [simp]:
  "mi_target (compose m m2) = mi_target m2" "compose (compose m m2) m3 = compose m (compose m2 m3)"
  by (simp_all add: compose_def algebra_simps)

lemma follows_compose: "follows v (compose m m2) = mi_mult m * follows v m2 + mi_off m"
  by (simp add: follows_def compose_def algebra_simps)

lemma chase_compose: "chase M n (compose m m2) = compose m (chase M n m2)"
  by (induction n arbitrary: m2) (simp_all split: option.split)

lemma chase_stop: "M (mi_target m) = None \<Longrightarrow> chase M n m = m"
  by (cases n) simp_all

lemma chase_done: "M (mi_target (chase M n m)) = None \<Longrightarrow> chase M (Suc n) m = chase M n m"
proof (induction n arbitrary: m)
  case (Suc n)
  show ?case
  proof (cases "M (mi_target m)")
    case None
    then show ?thesis by (simp only: chase_stop)
  next
    case (Some m2)
    then have "chase M (Suc (Suc n)) m = chase M (Suc n) (compose m m2)" by simp
    also have "\<dots> = chase M n (compose m m2)" using Suc.prems Some by (intro Suc.IH) simp
    finally show ?thesis using Some by simp
  qed
qed (simp add: chase_stop)

lemma chase_follows: "obeys M v \<Longrightarrow> follows v (chase M n m) = follows v m"
proof (induction n arbitrary: m)
  case (Suc n)
  show ?case
  proof (cases "M (mi_target m)")
    case (Some m2)
    then have "v (mi_target m) = follows v m2" using Suc.prems by (auto simp: obeys_def)
    then have "follows v (compose m m2) = follows v m" by (simp only: follows_compose) (simp add: follows_def)
    then show ?thesis using Some Suc by simp
  qed simp
qed simp

text \<open>C31: Flattening the mimic joints changes nothing but their form. When every chain of followed joints ends, within
  eight steps, in a joint that is driven, each flattened joint follows a driven one directly, and a configuration obeys
  the flattened joints exactly if it obeys the original ones.\<close>

theorem flattening_exact:
  assumes "actuated \<inter> dom M = {}" "\<forall>name m. M name = Some m \<longrightarrow> mi_target (chase M 8 m) \<in> actuated"
  shows "(\<forall>name f. flatten_mimics M actuated name = Some f \<longrightarrow> mi_target f \<in> actuated)
    \<and> (obeys (flatten_mimics M actuated) v \<longleftrightarrow> obeys M v)"
proof -
  have flat: "flatten_mimics M actuated name = Some f \<longleftrightarrow> (\<exists>m. M name = Some m \<and> f = chase M 8 m)" for name f
    using assms(2) by (auto simp: flatten_mimics_def flatten_mimic_def Let_def)
  have "follows v (chase M 8 m) = follows v m" if "M name = Some m" "obeys (flatten_mimics M actuated) v" for name m
  proof (cases "M (mi_target m)")
    case None
    then show ?thesis by (simp only: chase_stop)
  next
    case (Some m2)
    have "M (mi_target (chase M 8 m)) = None" using assms that(1) by auto
    then have "chase M 8 m = chase M (Suc 8) m" by (simp only: chase_done)
    then have "chase M 8 m = compose m (chase M 8 m2)" using Some by (simp only: chase.simps option.case chase_compose)
    moreover have "v (mi_target m) = follows v (chase M 8 m2)" using that(2) flat Some by (auto simp: obeys_def)
    ultimately show ?thesis by (simp add: follows_compose follows_def [of v m])
  qed
  then show ?thesis using flat assms(2) chase_follows by (auto simp: obeys_def)
qed

text \<open>The gripper's knuckle follows the outer knuckle, which follows the drive.\<close>

definition gripper_mimics :: mimics where
  "gripper_mimics = [''inner'' \<mapsto> \<lparr>mi_target = ''outer'', mi_mult = - 1, mi_off = 1 / 10\<rparr>,
     ''outer'' \<mapsto> \<lparr>mi_target = ''drive'', mi_mult = 9404 / 1000, mi_off = - 155 / 1000\<rparr>]"

lemma gripper_chains:
  "{''drive''} \<inter> dom gripper_mimics = {}"
  "gripper_mimics name = Some m \<Longrightarrow> mi_target (chase gripper_mimics 8 m) = ''drive''"
proof -
  show "{''drive''} \<inter> dom gripper_mimics = {}" by (auto simp: gripper_mimics_def split: if_splits)
  have two: "gripper_mimics (mi_target m) = Some m2 \<Longrightarrow> gripper_mimics (mi_target m2) = None \<Longrightarrow>
      chase gripper_mimics 8 m = compose m m2" for m2
    using chase.simps(2) [of gripper_mimics 7 m] by (simp add: chase_stop)
  assume "gripper_mimics name = Some m"
  then have "mi_target m = ''drive'' \<or> mi_target m = ''outer''" by (auto simp: gripper_mimics_def split: if_splits)
  then show "mi_target (chase gripper_mimics 8 m) = ''drive''"
  proof
    assume "mi_target m = ''drive''"
    then show ?thesis using chase_stop [of gripper_mimics m 8] by (simp add: gripper_mimics_def)
  next
    assume "mi_target m = ''outer''"
    then show ?thesis
      using two [of "\<lparr>mi_target = ''drive'', mi_mult = 9404 / 1000, mi_off = - 155 / 1000\<rparr>"] by (simp add: gripper_mimics_def)
  qed
qed

lemma flattening_exact_witness:
  "obeys (flatten_mimics gripper_mimics {''drive''}) (\<lambda>n. if n = ''drive'' then 0 else if n = ''outer'' then - 155 / 1000 else 255 / 1000)"
proof -
  have "obeys gripper_mimics (\<lambda>n. if n = ''drive'' then 0 else if n = ''outer'' then - 155 / 1000 else 255 / 1000)"
    unfolding obeys_def
  proof (intro allI impI)
    fix name m
    assume "gripper_mimics name = Some m"
    then have "name = ''inner'' \<and> m = \<lparr>mi_target = ''outer'', mi_mult = - 1, mi_off = 1 / 10\<rparr>
      \<or> name = ''outer'' \<and> m = \<lparr>mi_target = ''drive'', mi_mult = 9404 / 1000, mi_off = - 155 / 1000\<rparr>"
      by (auto simp: gripper_mimics_def split: if_splits)
    then show "(if name = ''drive'' then 0 else if name = ''outer'' then - 155 / 1000 else 255 / 1000)
      = follows (\<lambda>n. if n = ''drive'' then 0 else if n = ''outer'' then - 155 / 1000 else 255 / 1000) m"
      by (elim disjE conjE) (simp_all add: follows_def)
  qed
  then show ?thesis using flattening_exact [OF gripper_chains(1)] gripper_chains(2) by blast
qed

end
