(* ===== verification/Urdf_Build.thy ===== *)
theory Urdf_Build
  imports Assets "HOL-Library.List_Lexorder" "HOL-Library.Char_ord"
begin

text \<open>
  \<^verbatim>\<open>viz/assets.py\<close>, the generation and the download of the viewer's model: the vendor's sources with their package
  references replaced, the generator's document made self-contained, and the archive. A document is what the code
  looks at of its tree: the file names of the meshes and the joints with their attribute texts. The generator
  \<open>xacro\<close>, the network and the file system are parameters; \<open>shown\<close> is Python's text of a float.
\<close>

section \<open>The document\<close>

record mimic_tag =
  mt_joint :: "string option"
  mt_multiplier :: "string option"
  mt_offset :: "string option"

record urdf_joint =
  uj_name :: string
  uj_type :: "string option"
  uj_mimic :: "mimic_tag option"

record urdf =
  ud_meshes :: "string option list"
  ud_joints :: "urdf_joint list"

text \<open>\<open>float(m.get(key, default) or default)\<close>\<close>

definition float_attr :: "string option \<Rightarrow> real \<Rightarrow> real result" where
  "float_attr a d =
     (case a of
        None \<Rightarrow> Inr d
      | Some t \<Rightarrow> (if t = '''' then Inr d else case py_float t of None \<Rightarrow> Inl ValueError | Some x \<Rightarrow> Inr x))"

definition read_mimic :: "mimic_tag \<Rightarrow> mimic result" where
  "read_mimic m =
     bindR (float_attr (mt_multiplier m) 1) (\<lambda>mult.
     bindR (float_attr (mt_offset m) 0) (\<lambda>off.
       Inr \<lparr>mi_target = (case mt_joint m of None \<Rightarrow> '''' | Some t \<Rightarrow> t), mi_mult = mult, mi_off = off\<rparr>))"

text \<open>The joints in document order: a later mimic of the same name replaces an earlier one.\<close>

fun collect :: "urdf_joint list \<Rightarrow> mimics \<times> string set \<Rightarrow> (mimics \<times> string set) result" where
  "collect [] acc = Inr acc"
| "collect (j # js) (M, A) =
     (case uj_mimic j of
        Some tag \<Rightarrow> bindR (read_mimic tag) (\<lambda>m. collect js (M(uj_name j \<mapsto> m), A))
      | None \<Rightarrow> collect js (M, if uj_type j \<noteq> None \<and> uj_type j \<noteq> Some ''fixed'' then insert (uj_name j) A else A))"

definition write_mimic :: "(real \<Rightarrow> string) \<Rightarrow> mimic \<Rightarrow> mimic_tag" where
  "write_mimic shown f = \<lparr>mt_joint = Some (mi_target f), mt_multiplier = Some (shown (mi_mult f)), mt_offset = Some (shown (mi_off f))\<rparr>"

text \<open>Only the last mimic of a name is in the table, and it is rewritten if its chain ends in a driven joint.\<close>

fun rewrite :: "(real \<Rightarrow> string) \<Rightarrow> mimics \<Rightarrow> string set \<Rightarrow> urdf_joint list \<Rightarrow> urdf_joint list" where
  "rewrite shown M A [] = []"
| "rewrite shown M A (j # js) =
     (case (uj_mimic j, M (uj_name j)) of
        (Some tag, Some m) \<Rightarrow>
          (let f = chase M 8 m
           in if list_ex (\<lambda>k. uj_name k = uj_name j \<and> uj_mimic k \<noteq> None) js \<or> mi_target f \<notin> A then j
              else j\<lparr>uj_mimic := Some (write_mimic shown f)\<rparr>)
      | _ \<Rightarrow> j) # rewrite shown M A js"

definition fix_mesh :: "string \<Rightarrow> string option \<Rightarrow> string option" where
  "fix_mesh pkg fname =
     (case fname of
        None \<Rightarrow> None
      | Some f \<Rightarrow> (case mesh_file pkg f of None \<Rightarrow> Some f | Some f' \<Rightarrow> Some f'))"

definition postprocess_urdf :: "(real \<Rightarrow> string) \<Rightarrow> string \<Rightarrow> urdf \<Rightarrow> urdf result" where
  "postprocess_urdf shown pkg u =
     bindR (collect (ud_joints u) (Map.empty, {})) (\<lambda>(M, A).
       Inr \<lparr>ud_meshes = map (fix_mesh pkg) (ud_meshes u), ud_joints = rewrite shown M A (ud_joints u)\<rparr>)"

section \<open>Generation and download\<close>

text \<open>\<open>text.replace(old, new)\<close>, for a non-empty \<open>old\<close>.\<close>

function replace_text :: "string \<Rightarrow> string \<Rightarrow> string \<Rightarrow> string" where
  "replace_text old new s =
     (if old = [] \<or> s = [] then s
      else if starts_with old s then new @ replace_text old new (drop (length old) s)
      else hd s # replace_text old new (tl s))"
  by pat_completeness auto

termination
  by (relation "measure (\<lambda>(old, new, s). length s)") (auto simp: neq_Nil_conv)

definition find_token :: string where
  "find_token = ''$(find flexiv_description)''"

text \<open>\<open>c.upper()\<close> on ASCII text.\<close>

definition upper_char :: "char \<Rightarrow> char" where
  "upper_char c = (let n = of_char c :: nat in
     if 97 \<le> n \<and> n \<le> 122 then char_of (n - 32) else c)"

text \<open>The vendor's spelling of a model: \<open>model[0].upper() + model[1:].lower()\<close>.\<close>

definition rizon_type :: "string \<Rightarrow> string result" where
  "rizon_type model = (case model of [] \<Rightarrow> Inl IndexError | c # cs \<Rightarrow> Inr (upper_char c # str_lower cs))"

text \<open>
  The sources are copied to \<open>shadow\<close> and their package references replaced there; whatever fails in between is
  no model. \<open>sources\<close>: the \<^verbatim>\<open>.xacro\<close> files, \<open>None\<close> when the entry file is missing.
\<close>

definition generate_rizon_urdf ::
  "((string \<times> string) list \<Rightarrow> string \<Rightarrow> bool \<Rightarrow> urdf result) \<Rightarrow> (real \<Rightarrow> string) \<Rightarrow>
   (string \<times> string) list option \<Rightarrow> string \<Rightarrow> string \<Rightarrow> bool \<Rightarrow> urdf option" where
  "generate_rizon_urdf xacro shown sources shadow model load_gripper =
     (case sources of
        None \<Rightarrow> None
      | Some files \<Rightarrow>
          (case bindR (rizon_type model) (\<lambda>t.
                bindR (xacro (map (\<lambda>(name, text). (name, replace_text find_token shadow text)) files) t load_gripper) (\<lambda>doc.
                  postprocess_urdf shown shadow doc)) of
             Inl e \<Rightarrow> None
           | Inr u \<Rightarrow> Some u))"

definition cached_checkout :: "string list \<Rightarrow> string option" where
  "cached_checkout names =
     (let roots = sort (filter (starts_with ''flexiv_description-'') names)
      in if roots = [] then None else Some (last roots))"

text \<open>
  The download: the members of the archive, or the exception that stopped it; with the entries of the cache
  directory once it is unpacked.
\<close>

definition fetch_flexiv_description ::
  "string list \<Rightarrow> string list result \<Rightarrow> (string list \<Rightarrow> string list) \<Rightarrow> string option" where
  "fetch_flexiv_description dest archive entries =
     (case archive of
        Inl e \<Rightarrow> None
      | Inr members \<Rightarrow>
          (if list_all (member_accepted dest) members
           then Some (case cached_checkout (entries members) of
                        Some r \<Rightarrow> path_text (dest @ [r]) | None \<Rightarrow> path_text dest)
           else None))"

section \<open>The generated document stands alone\<close>

definition standalone :: "string option \<Rightarrow> bool" where
  "standalone f \<longleftrightarrow> f = None \<or> f = Some '''' \<or> (\<exists>g. f = Some g \<and> starts_with ''/'' g)"

lemma fix_mesh_standalone: "starts_with ''/'' pkg \<Longrightarrow> standalone (fix_mesh pkg f)"
  using path_join_absolute [of pkg] by (auto simp: standalone_def fix_mesh_def mesh_file_def split: option.split)

text \<open>A second pass has nothing left to do.\<close>

lemma fix_mesh_idem: "starts_with ''/'' pkg \<Longrightarrow> fix_mesh pkg (fix_mesh pkg f) = fix_mesh pkg f"
  using fix_mesh_standalone [of pkg f]
  by (auto simp: standalone_def fix_mesh_def [of pkg "fix_mesh pkg f"] mesh_file_def split: option.split)

text \<open>What is read of the document afterwards: the flattened mimics, and the same driven joints.\<close>

definition faithful :: "(real \<Rightarrow> string) \<Rightarrow> mimic \<Rightarrow> bool" where
  "faithful shown f \<longleftrightarrow> (\<forall>x \<in> {mi_mult f, mi_off f}. py_float (shown x) = Some x \<and> shown x \<noteq> '''')"

lemma read_write: "faithful shown f \<Longrightarrow> read_mimic (write_mimic shown f) = Inr f"
  by (simp add: read_mimic_def write_mimic_def float_attr_def faithful_def)

lemma collect_last:
  assumes "collect js (M0, A0) = Inr (M, A)" "n \<notin> uj_name ` set js"
  shows "M n = M0 n"
  using assms
proof (induction js arbitrary: M0 A0)
  case (Cons j js)
  show ?case
  proof (cases "uj_mimic j")
    case None
    then show ?thesis using Cons.IH [of M0] Cons.prems by simp
  next
    case (Some tag)
    then obtain m where "collect js (M0(uj_name j \<mapsto> m), A0) = Inr (M, A)" using Cons.prems(1) by (auto simp: bindR_eq_Inr)
    from Cons.IH [OF this] show ?thesis using Cons.prems(2) by auto
  qed
qed simp

lemma collect_rewrite:
  assumes "\<And>n m. T n = Some m \<Longrightarrow> faithful shown (chase T 8 m)"
    and "distinct (map uj_name js)" "collect js (M0, A0) = Inr (M, A)"
    and "dom M0 \<inter> uj_name ` set js = {}" "\<And>n. n \<in> uj_name ` set js \<Longrightarrow> M n = T n"
  shows "collect (rewrite shown T D js) (N0, A0)
    = Inr (\<lambda>n. if n \<in> uj_name ` set js \<and> M n \<noteq> None then map_option (flatten_mimic T D) (M n) else N0 n, A)"
  using assms(2-)
proof (induction js arbitrary: M0 A0 N0)
  case (Cons j js)
  show ?case
  proof (cases "uj_mimic j")
    case None
    have fresh: "M (uj_name j) = None"
      using collect_last [of js M0 _ M A "uj_name j"] Cons.prems None by (auto split: if_splits)
    let ?A = "if uj_type j \<noteq> None \<and> uj_type j \<noteq> Some ''fixed'' then insert (uj_name j) A0 else A0"
    have "collect js (M0, ?A) = Inr (M, A)" using Cons.prems(2) None by simp
    from Cons.IH [OF _ this, of N0] Cons.prems(1,3,4)
    have "collect (rewrite shown T D js) (N0, ?A)
        = Inr (\<lambda>n. if n \<in> uj_name ` set js \<and> M n \<noteq> None then map_option (flatten_mimic T D) (M n) else N0 n, A)"
      by auto
    then show ?thesis using None fresh by (auto simp: fun_eq_iff)
  next
    case (Some tag)
    obtain m where m: "read_mimic tag = Inr m" "collect js (M0(uj_name j \<mapsto> m), A0) = Inr (M, A)"
      using Cons.prems(2) Some by (auto simp: bindR_eq_Inr)
    have mine: "M (uj_name j) = Some m" using collect_last [OF m(2)] Cons.prems(1) by simp
    then have T: "T (uj_name j) = Some m" using Cons.prems(4) [of "uj_name j"] by simp
    have single: "\<not> list_ex (\<lambda>k. uj_name k = uj_name j \<and> uj_mimic k \<noteq> None) js"
      using Cons.prems(1) by (simp add: list_ex_iff) (metis image_eqI)
    define f where "f = chase T 8 m"
    have f: "read_mimic (write_mimic shown f) = Inr f" using read_write [OF assms(1) [OF T]] by (simp add: f_def)
    obtain j' tag' where j': "rewrite shown T D (j # js) = j' # rewrite shown T D js" "uj_name j' = uj_name j"
      "uj_mimic j' = Some tag'" "read_mimic tag' = Inr (flatten_mimic T D m)"
    proof (cases "mi_target f \<in> D")
      case True
      show thesis
        by (rule that [of "j\<lparr>uj_mimic := Some (write_mimic shown f)\<rparr>"])
          (use True Some T single f in \<open>auto simp: flatten_mimic_def Let_def f_def\<close>)
    next
      case False
      show thesis
        by (rule that [of j]) (use False Some T single m(1) in \<open>auto simp: flatten_mimic_def Let_def f_def\<close>)
    qed
    have "collect (rewrite shown T D js) (N0(uj_name j \<mapsto> flatten_mimic T D m), A0)
        = Inr (\<lambda>n. if n \<in> uj_name ` set js \<and> M n \<noteq> None then map_option (flatten_mimic T D) (M n)
               else (N0(uj_name j \<mapsto> flatten_mimic T D m)) n, A)"
    proof (intro Cons.IH [OF _ m(2)])
      show "dom (M0(uj_name j \<mapsto> m)) \<inter> uj_name ` set js = {}"
        using Cons.prems(1,3) by auto
    qed (use Cons.prems(1,4) in auto)
    moreover have "collect (rewrite shown T D (j # js)) (N0, A0)
        = collect (rewrite shown T D js) (N0(uj_name j \<mapsto> flatten_mimic T D m), A0)"
      unfolding j'(1) using j'(2-) by simp
    ultimately show ?thesis using mine Cons.prems(1) by (auto simp: fun_eq_iff)
  qed
qed simp

text \<open>
  The document that is written: every mesh is named absolutely or not at all, and what is read of its joints are the
  flattened mimics of the original's.
\<close>

lemma postprocessed_document:
  assumes "postprocess_urdf shown pkg u = Inr u'" "starts_with ''/'' pkg" "distinct (map uj_name (ud_joints u))"
    and shown: "\<And>M A n m. collect (ud_joints u) (Map.empty, {}) = Inr (M, A) \<Longrightarrow> M n = Some m \<Longrightarrow> faithful shown (chase M 8 m)"
  obtains M A where "collect (ud_joints u) (Map.empty, {}) = Inr (M, A)"
    "collect (ud_joints u') (Map.empty, {}) = Inr (flatten_mimics M A, A)" "list_all standalone (ud_meshes u')"
proof -
  obtain M A where c: "collect (ud_joints u) (Map.empty, {}) = Inr (M, A)"
    and u': "u' = \<lparr>ud_meshes = map (fix_mesh pkg) (ud_meshes u), ud_joints = rewrite shown M A (ud_joints u)\<rparr>"
    using assms(1) by (auto simp: postprocess_urdf_def bindR_eq_Inr)
  have "M n = None" if "n \<notin> uj_name ` set (ud_joints u)" for n using collect_last [OF c that] by simp
  then have "collect (ud_joints u') (Map.empty, {}) = Inr (flatten_mimics M A, A)"
    unfolding u' urdf.select_convs
    using collect_rewrite [OF shown [OF c] assms(3) c] by (auto simp: flatten_mimics_def fun_eq_iff)
  moreover have "list_all standalone (ud_meshes u')"
    using fix_mesh_standalone [OF assms(2)] by (simp add: u' list_all_iff)
  ultimately show thesis using that c by blast
qed

end
