(* ===== verification/Rizon_Gn01.thy ===== *)
theory Rizon_Gn01
  imports Transforms Urdf_Build
begin

text \<open>
  \<^verbatim>\<open>sim/build_rizon_gn01.py\<close>: the simulator's model of an arm with the gripper mounted on its flange. The
  specification objects are MuJoCo's: what the script reads and sets of one is a record, the rest of it is the
  library's, and so are parsing, mounting, compiling and printing, the fields of \<open>mj_spec_lib\<close>. The lemmas say
  where the gripper is mounted, that the mesh files are found wherever the model is written, and which lines of
  the printed model are kept.
\<close>

section \<open>Paths\<close>

text \<open>\<open>os.path.join\<close> of two, \<open>os.path.abspath\<close> from a working directory, and \<open>os.path.dirname\<close>, on POSIX.\<close>

definition is_abs :: "string \<Rightarrow> bool" where
  "is_abs = starts_with ''/''"

definition os_join :: "string \<Rightarrow> string \<Rightarrow> string" where
  "os_join a b = (if is_abs b then b else if a = [] \<or> last a = CHR ''/'' then a @ b else a @ ''/'' @ b)"

definition abspath :: "string \<Rightarrow> string \<Rightarrow> string" where
  "abspath cwd p =
     (let q = os_join cwd p; text = path_text (resolve_from [] (split_on CHR ''/'' q))
      in if starts_with ''//'' q \<and> \<not> starts_with ''///'' q then CHR ''/'' # text else text)"

definition dirname :: "string \<Rightarrow> string" where
  "dirname p =
     (let head = rev (dropWhile (\<lambda>c. c \<noteq> CHR ''/'') (rev p))
      in if list_all (\<lambda>c. c = CHR ''/'') head then head else rev (dropWhile (\<lambda>c. c = CHR ''/'') (rev head)))"

section \<open>Specifications\<close>

record 'x mj_spec =
  ms_meshdir :: "string option"
  ms_meshes :: "string option list"
  ms_bodies :: "string list"
  ms_rest :: 'x

text \<open>The frame added to the parent body, and the body and prefix that are attached to it.\<close>

record mount =
  mo_parent :: string
  mo_pos :: "real list"
  mo_quat :: quat
  mo_body :: "string option"
  mo_prefix :: string

record 'x mj_spec_lib =
  sl_from_string :: "string \<Rightarrow> 'x mj_spec result"
  sl_from_file :: "string \<Rightarrow> 'x mj_spec result"
  sl_attach :: "mount \<Rightarrow> 'x mj_spec \<Rightarrow> 'x mj_spec \<Rightarrow> 'x mj_spec result"
  sl_compile :: "'x mj_spec \<Rightarrow> unit result"
  sl_to_xml :: "'x mj_spec \<Rightarrow> string"

section \<open>The flange\<close>

definition DEFAULT_FLANGE_XYZ :: "real list" where
  "DEFAULT_FLANGE_XYZ = [0, 0, 0.124]"

definition DEFAULT_FLANGE_RPY :: "real \<times> real \<times> real" where
  "DEFAULT_FLANGE_RPY = (0, 0, - pi)"

definition quat_from_rpy :: "real \<times> real \<times> real \<Rightarrow> quat" where
  "quat_from_rpy = (\<lambda>(r, p, y).
     let cr = cos (r / 2); sr = sin (r / 2); cp = cos (p / 2); sp = sin (p / 2); cy = cos (y / 2); sy = sin (y / 2)
     in Quat (cr * cp * cy + sr * sp * sy) (sr * cp * cy - cr * sp * sy)
             (cr * sp * cy + sr * cp * sy) (cr * cp * sy - sr * sp * cy))"

section \<open>Building\<close>

text \<open>A mesh without a file, or with an empty one, is left alone.\<close>

definition absolutize_mesh :: "string \<Rightarrow> string \<Rightarrow> string option \<Rightarrow> string option" where
  "absolutize_mesh cwd dir file =
     (case file of
        None \<Rightarrow> None
      | Some f \<Rightarrow> Some (if f \<noteq> '''' \<and> \<not> is_abs f then abspath cwd (os_join dir f) else f))"

definition absolutize_meshes :: "string \<Rightarrow> string \<Rightarrow> 'x mj_spec \<Rightarrow> 'x mj_spec" where
  "absolutize_meshes cwd base spec =
     (let md = (case ms_meshdir spec of None \<Rightarrow> '''' | Some d \<Rightarrow> d);
          dir = (if is_abs md then md else os_join base md)
      in spec\<lparr>ms_meshes := map (absolutize_mesh cwd dir) (ms_meshes spec), ms_meshdir := Some ''''\<rparr>)"

definition empty_default :: "string \<Rightarrow> bool" where
  "empty_default l \<longleftrightarrow> strip l = ''<default/>'' \<or> strip l = ''<default></default>''"

definition join_lines :: "string list \<Rightarrow> string" where
  "join_lines ls = (case ls of [] \<Rightarrow> [] | l # ls \<Rightarrow> l @ concat (map (\<lambda>m. CHR 0x0A # m) ls))"

definition drop_default_lines :: "string \<Rightarrow> string" where
  "drop_default_lines xml = join_lines (filter (\<lambda>l. \<not> empty_default l) (splitlines xml))"

text \<open>
  \<open>template\<close> is the text of the gripper's model and \<open>cwd\<close> the working directory; \<open>grav_meshdir\<close> is the path's
  text. The result is the text written to the output file, which is returned.
\<close>

definition build_gn01 ::
  "'x mj_spec_lib \<Rightarrow> string \<Rightarrow> string \<Rightarrow> string \<Rightarrow> string \<Rightarrow> string \<Rightarrow> real list \<Rightarrow> real \<times> real \<times> real \<Rightarrow> string \<Rightarrow> string result" where
  "build_gn01 lib cwd template arm_xml grav_meshdir parent_body flange_xyz flange_rpy name_prefix =
     bindR (sl_from_string lib (replace_text ''__GRAV_MESHDIR__'' grav_meshdir template)) (\<lambda>grip.
     bindR (sl_from_file lib arm_xml) (\<lambda>arm.
       let grip = absolutize_meshes cwd '''' grip;
           arm = absolutize_meshes cwd (dirname (abspath cwd arm_xml)) arm
       in if parent_body \<notin> set (ms_bodies arm) then Inl ValueError
          else let m = \<lparr>mo_parent = parent_body, mo_pos = flange_xyz, mo_quat = quat_from_rpy flange_rpy,
                        mo_body = (if ''grav_base_link'' \<in> set (ms_bodies grip) then Some ''grav_base_link'' else None),
                        mo_prefix = name_prefix\<rparr>
               in bindR (sl_attach lib m grip arm) (\<lambda>both.
                  bindR (sl_compile lib both) (\<lambda>_.
                    Inr (drop_default_lines (sl_to_xml lib both))))))"

definition build_main :: "'x mj_spec_lib \<Rightarrow> string \<Rightarrow> string \<Rightarrow> string \<Rightarrow> string \<Rightarrow> string option \<Rightarrow> string result" where
  "build_main lib cwd template arm grav_meshdir parent_body =
     build_gn01 lib cwd template arm grav_meshdir (case parent_body of None \<Rightarrow> ''link7'' | Some b \<Rightarrow> b)
       DEFAULT_FLANGE_XYZ DEFAULT_FLANGE_RPY ''''"

section \<open>Where the gripper is\<close>

text \<open>Roll, pitch and yaw about the fixed axes, in this order, are one rotation.\<close>

definition about_x :: "real \<Rightarrow> quat" where "about_x a = Quat (cos (a / 2)) (sin (a / 2)) 0 0"
definition about_y :: "real \<Rightarrow> quat" where "about_y a = Quat (cos (a / 2)) 0 (sin (a / 2)) 0"
definition about_z :: "real \<Rightarrow> quat" where "about_z a = Quat (cos (a / 2)) 0 0 (sin (a / 2))"

lemma quat_from_rpy_product: "quat_from_rpy (r, p, y) = quat_mul (about_z y) (quat_mul (about_y p) (about_x r))"
  by (simp add: quat_from_rpy_def about_x_def about_y_def about_z_def Let_def quat_eq_iff algebra_simps)

lemma norm_about [simp]: "norm (about_x a) = 1" "norm (about_y a) = 1" "norm (about_z a) = 1"
  by (simp_all add: about_x_def about_y_def about_z_def norm_quat_def)

lemma norm_quat_from_rpy: "norm (quat_from_rpy rpy) = 1"
  by (cases rpy) (simp add: quat_from_rpy_product norm_quat_mul)

text \<open>The default is the half turn about the tool axis.\<close>

lemma default_flange: "quat_from_rpy DEFAULT_FLANGE_RPY = Quat 0 0 0 (- 1)"
  by (simp add: quat_from_rpy_def DEFAULT_FLANGE_RPY_def)

section \<open>Where the meshes are\<close>

lemma abspath_abs: "is_abs (abspath cwd p)"
  by (auto simp: abspath_def is_abs_def starts_with_def path_text_def Let_def neq_Nil_conv)

text \<open>Afterwards the file of a mesh is absolute or empty, and the mesh directory no longer matters.\<close>

definition relocatable :: "'x mj_spec \<Rightarrow> bool" where
  "relocatable spec \<longleftrightarrow> ms_meshdir spec = Some '''' \<and>
     list_all (\<lambda>m. m = None \<or> m = Some '''' \<or> is_abs (the m)) (ms_meshes spec)"

lemma absolutize_relocatable: "relocatable (absolutize_meshes cwd base spec)"
proof -
  have "m = None \<or> m = Some '''' \<or> is_abs (the m)" if "m = absolutize_mesh cwd d f" for m d f
    by (cases f) (auto simp: that absolutize_mesh_def abspath_abs)
  then show ?thesis unfolding relocatable_def by (fastforce simp: absolutize_meshes_def Let_def list_all_iff)
qed

lemma absolutize_id: "relocatable s \<Longrightarrow> absolutize_meshes cwd base s = s"
proof -
  assume s: "relocatable s"
  have "map (absolutize_mesh cwd d) (ms_meshes s) = ms_meshes s" for d
    using s by (intro map_idI) (auto simp: relocatable_def absolutize_mesh_def list_all_iff split: option.split)
  then show "absolutize_meshes cwd base s = s"
    using s by (cases s) (simp add: absolutize_meshes_def relocatable_def)
qed

text \<open>A second pass, from anywhere, changes nothing.\<close>

lemma absolutize_idem: "absolutize_meshes cwd' base' (absolutize_meshes cwd base s) = absolutize_meshes cwd base s"
  by (intro absolutize_id absolutize_relocatable)

section \<open>The printed model\<close>

lemma lines_from_clean:
  "list_all (\<lambda>c. \<not> line_break c) cur \<Longrightarrow> l \<in> set (lines_from cur s) \<Longrightarrow> list_all (\<lambda>c. \<not> line_break c) l"
proof (induction cur s rule: lines_from.induct)
  case (1 cur)
  then show ?case by (simp split: if_splits)
next
  case (2 cur c cs)
  show ?case
  proof (cases "line_break c")
    case True
    then show ?thesis using 2(1) 2(3,4) by auto
  next
    case False
    then show ?thesis using 2(2) 2(3,4) by simp
  qed
qed

lemma splitlines_clean: "l \<in> set (splitlines s) \<Longrightarrow> list_all (\<lambda>c. \<not> line_break c) l"
  using lines_from_clean [of "[]"] by (simp add: splitlines_def)

lemma lines_from_join:
  assumes "list_all (list_all (\<lambda>c. \<not> line_break c)) (l # ls)" "last (l # ls) \<noteq> []"
  shows "lines_from [] (join_lines (l # ls)) = l # ls"
  using assms
proof (induction ls arbitrary: l)
  case Nil
  then show ?case using lines_from_line [of l "[]" "[]"] by (simp add: join_lines_def)
next
  case (Cons m ls)
  have "join_lines (l # m # ls) = l @ CHR 0x0A # join_lines (m # ls)" by (simp add: join_lines_def)
  then show ?case
    using Cons.IH [of m] Cons.prems lines_from_line [of l "[]" "CHR 0x0A # join_lines (m # ls)"]
    by (simp add: line_break_def after_break_def)
qed

text \<open>
  The lines kept are the ones that are no empty default class, in their order (a last line that is blank is
  lost with its line break), so a second pass has nothing to do.
\<close>

lemma kept_lines:
  assumes "filter (\<lambda>l. \<not> empty_default l) (splitlines xml) = ls" "ls = [] \<or> last ls \<noteq> []"
  shows "splitlines (drop_default_lines xml) = ls"
proof (cases ls)
  case Nil
  then show ?thesis using assms(1) by (simp add: drop_default_lines_def join_lines_def splitlines_def)
next
  case (Cons m ms)
  have "list_all (list_all (\<lambda>c. \<not> line_break c)) ls"
    using splitlines_clean [of _ xml] unfolding assms(1) [symmetric] by (auto simp: list_all_iff)
  then show ?thesis using lines_from_join [of m ms] Cons assms by (simp add: drop_default_lines_def splitlines_def)
qed

text \<open>
  A model that is written was built of an arm and a gripper whose meshes are found from anywhere, mounted on a
  body the arm has, in a unit rotation, and was compiled first.
\<close>

lemma built:
  assumes "build_gn01 lib cwd template arm_xml grav_meshdir parent xyz rpy name_prefix = Inr text"
  obtains m grip arm both where "relocatable grip" "relocatable arm" "mo_parent m = parent" "parent \<in> set (ms_bodies arm)"
    "norm (mo_quat m) = 1" "sl_attach lib m grip arm = Inr both" "sl_compile lib both = Inr ()"
    "text = drop_default_lines (sl_to_xml lib both)"
proof -
  obtain g a where parsed: "sl_from_string lib (replace_text ''__GRAV_MESHDIR__'' grav_meshdir template) = Inr g"
    "sl_from_file lib arm_xml = Inr a"
    using assms unfolding build_gn01_def bindR_eq_Inr by blast
  define grip where "grip = absolutize_meshes cwd '''' g"
  define arm where "arm = absolutize_meshes cwd (dirname (abspath cwd arm_xml)) a"
  define m where "m = \<lparr>mo_parent = parent, mo_pos = xyz, mo_quat = quat_from_rpy rpy,
    mo_body = (if ''grav_base_link'' \<in> set (ms_bodies grip) then Some ''grav_base_link'' else None), mo_prefix = name_prefix\<rparr>"
  have run: "(if parent \<notin> set (ms_bodies arm) then Inl ValueError
      else bindR (sl_attach lib m grip arm) (\<lambda>both. bindR (sl_compile lib both) (\<lambda>_.
        Inr (drop_default_lines (sl_to_xml lib both))))) = Inr text"
    using assms unfolding build_gn01_def parsed bindR_simps Let_def m_def grip_def arm_def .
  then have parent: "parent \<in> set (ms_bodies arm)" by (auto split: if_splits)
  obtain both where "sl_attach lib m grip arm = Inr both" "sl_compile lib both = Inr ()"
    "text = drop_default_lines (sl_to_xml lib both)"
    using run parent by (auto simp: bindR_eq_Inr)
  moreover have "relocatable grip" "relocatable arm" by (simp_all add: grip_def arm_def absolutize_relocatable)
  moreover have "mo_parent m = parent" "norm (mo_quat m) = 1" by (simp_all add: m_def norm_quat_from_rpy)
  ultimately show thesis using parent that by blast
qed

end
