(* ===== verification/Mujoco.thy ===== *)
theory Mujoco
  imports Backend
begin

text \<open>
  \<^verbatim>\<open>backends/mujoco.py\<close>: the physics simulator as a backend. MuJoCo and numpy's linear solver are parameters, one
  field per call; the model and the data are records of what the backend reads and writes of them. An
  orientation matrix appears as the quaternion the library converts it to.
\<close>

section \<open>The library\<close>

record mj_model =
  mm_nu :: nat
  mm_nsite :: nat
  mm_trn_joint :: "nat list"
  mm_qposadr :: "nat list"
  mm_dofadr :: "nat list"
  mm_ctrlrange :: "(real \<times> real) list"
  mm_timestep :: real
  mm_site_id :: "string \<Rightarrow> int"
  mm_actuator_id :: "string \<Rightarrow> int"

record mj_data =
  md_time :: real
  md_qpos :: "real list"
  md_qvel :: "real list"
  md_ctrl :: "real list"
  md_actuator_force :: "real list"
  md_qfrc_bias :: "real list"
  md_qfrc_applied :: "real list"
  md_site_xpos :: "nat \<Rightarrow> vec3"
  md_site_quat :: "nat \<Rightarrow> quat"

type_synonym matrix = "real list list"

record mj_lib =
  ml_load :: "string \<Rightarrow> mj_model result"
  ml_data :: "mj_model \<Rightarrow> mj_data"
  ml_forward :: "mj_model \<Rightarrow> mj_data \<Rightarrow> mj_data"
  ml_step :: "mj_model \<Rightarrow> mj_data \<Rightarrow> mj_data"
  ml_step1 :: "mj_model \<Rightarrow> mj_data \<Rightarrow> mj_data"
  ml_step2 :: "mj_model \<Rightarrow> mj_data \<Rightarrow> mj_data"
  ml_jac_site :: "mj_model \<Rightarrow> mj_data \<Rightarrow> nat \<Rightarrow> matrix \<times> matrix"
  ml_solve :: "matrix \<Rightarrow> real list \<Rightarrow> real list result"

section \<open>The backend's object\<close>

record mujoco =
  mj_model_path :: "string option"
  mj_n_joints :: nat
  mj_dt :: real
  mj_tcp_site :: "string option"
  mj_grip_name :: "string option"
  mj_grip_scale :: real
  mj_grip_offset :: real
  mj_ik_gain :: real
  mj_ik_damping :: real
  mj_gravity_comp :: bool
  mj_connected :: bool
  mj_mode :: control_mode
  mj_sim :: "(mj_model \<times> mj_data) option"
  mj_qadr :: "nat list"
  mj_vadr :: "nat list"
  mj_act :: "nat list"
  mj_site :: int
  mj_grip_act :: int

definition mk_mujoco ::
  "string option \<Rightarrow> nat \<Rightarrow> real \<Rightarrow> string option \<Rightarrow> string option \<Rightarrow> real \<Rightarrow> real \<Rightarrow> real \<Rightarrow> real \<Rightarrow> bool \<Rightarrow> mujoco" where
  "mk_mujoco model_path n_joints control_dt tcp_site gripper width_scale width_offset gain damping gravity_comp =
     \<lparr>mj_model_path = model_path, mj_n_joints = n_joints, mj_dt = control_dt, mj_tcp_site = tcp_site,
      mj_grip_name = gripper, mj_grip_scale = width_scale, mj_grip_offset = width_offset, mj_ik_gain = gain,
      mj_ik_damping = damping, mj_gravity_comp = gravity_comp, mj_connected = False, mj_mode = IDLE, mj_sim = None,
      mj_qadr = [], mj_vadr = [], mj_act = [], mj_site = - 1, mj_grip_act = - 1\<rparr>"

text \<open>The model and the data; \<open>None\<close> has no attributes. An empty name counts as none.\<close>

definition the_sim :: "(mujoco, mj_model \<times> mj_data) sem" where
  "the_sim = bindS (getS mj_sim) (\<lambda>x. case x of None \<Rightarrow> raiseS AttributeError | Some md \<Rightarrow> retS md)"

definition put_data :: "mj_data \<Rightarrow> (mujoco, unit) sem" where
  "put_data d = modS (\<lambda>b. b\<lparr>mj_sim := map_option (\<lambda>(m, _). (m, d)) (mj_sim b)\<rparr>)"

definition named_text :: "string option \<Rightarrow> string option" where
  "named_text x = (case x of Some s \<Rightarrow> (if s = '''' then None else Some s) | None \<Rightarrow> None)"

definition tcp_names :: "string list" where
  "tcp_names = [''tcp'', ''flange'', ''attachment_site'', ''ee'', ''gripper'', ''tool0'']"

definition find_site :: "mj_model \<Rightarrow> string option \<Rightarrow> int result" where
  "find_site m name =
     (case named_text name of
        Some s \<Rightarrow> (if mm_site_id m s < 0 then Inl ValueError else Inr (mm_site_id m s))
      | None \<Rightarrow>
          (case List.find (\<lambda>n. 0 \<le> mm_site_id m n) tcp_names of
             Some n \<Rightarrow> Inr (mm_site_id m n)
           | None \<Rightarrow> (if 0 < mm_nsite m then Inr (int (mm_nsite m) - 1) else Inl ValueError)))"

definition resolve_ids :: "mj_model \<Rightarrow> (mujoco, unit) sem" where
  "resolve_ids m =
     thenS (modS (\<lambda>b.
              (let act = [0..<min (mj_n_joints b) (mm_nu m)];
                   joints = map (\<lambda>a. mm_trn_joint m ! a) act
               in b\<lparr>mj_act := act, mj_qadr := map (\<lambda>j. mm_qposadr m ! j) joints,
                    mj_vadr := map (\<lambda>j. mm_dofadr m ! j) joints, mj_site := - 1\<rparr>)))
       (bindS (getS (\<lambda>b. find_site m (mj_tcp_site b))) (\<lambda>r.
        bindS (liftS r) (\<lambda>site.
          modS (\<lambda>b. b\<lparr>mj_site := site,
             mj_grip_act := (case named_text (mj_grip_name b) of None \<Rightarrow> - 1 | Some n \<Rightarrow> mm_actuator_id m n)\<rparr>))))"

definition mujoco_connect :: "mj_lib \<Rightarrow> (mujoco, unit) sem" where
  "mujoco_connect L =
     bindS (getS mj_model_path) (\<lambda>path.
       case named_text path of
         None \<Rightarrow> raiseS ValueError
       | Some p \<Rightarrow>
           bindS (liftS (ml_load L p)) (\<lambda>m.
           thenS (modS (\<lambda>b. b\<lparr>mj_sim := Some (m, ml_data L m)\<rparr>))
          (thenS (resolve_ids m)
          (thenS (put_data (ml_forward L m (ml_data L m)))
             (modS (\<lambda>b. b\<lparr>mj_connected := True\<rparr>))))))"

section \<open>Reading\<close>

definition pick :: "nat list \<Rightarrow> 'a list \<Rightarrow> 'a list" where
  "pick idx xs = map (\<lambda>i. xs ! i) idx"

definition dot :: "real list \<Rightarrow> real list \<Rightarrow> real" where
  "dot xs ys = sum_list (map2 (*) xs ys)"

definition mat_vec :: "matrix \<Rightarrow> real list \<Rightarrow> real list" where
  "mat_vec M x = map (\<lambda>row. dot row x) M"

definition site_pose :: "mj_data \<Rightarrow> int \<Rightarrow> pose" where
  "site_pose d site = \<lparr>pos = md_site_xpos d (nat site), rot = md_site_quat d (nat site)\<rparr>"

definition mujoco_read_state :: "mj_lib \<Rightarrow> (mujoco, robot_state) sem" where
  "mujoco_read_state L =
     bindS the_sim (\<lambda>(m, d0).
     (let d = ml_forward L m d0 in
      thenS (put_data d)
     (bindS (getS (\<lambda>b. b)) (\<lambda>b.
      (let dq = pick (mj_vadr b) (md_qvel d);
           (jacp, jacr) = ml_jac_site L m d (nat (mj_site b));
           speed = (\<lambda>J. mat_vec (map (pick (mj_vadr b)) J) dq)
       in if 0 \<le> mj_grip_act b \<and> mj_grip_scale b = 0 then raiseS ZeroDivisionError
          else retS (default_state
            \<lparr>st_stamp := md_time d, st_q := pick (mj_qadr b) (md_qpos d), st_dq := dq,
             st_tau := (if mm_nu m = 0 then replicate (mj_n_joints b) 0 else pick (mj_act b) (md_actuator_force d)),
             st_tcp_pose := site_pose d (mj_site b), st_tcp_vel := speed jacp @ speed jacr, st_wrench := replicate 6 0,
             st_gripper_width := (if 0 \<le> mj_grip_act b
                then (md_ctrl d ! nat (mj_grip_act b) - mj_grip_offset b) / mj_grip_scale b else 0),
             st_control_mode := mj_mode b\<rparr>))))))"

definition mujoco_set_mode :: "control_mode \<Rightarrow> mode_opts \<Rightarrow> (mujoco, unit) sem" where
  "mujoco_set_mode mode opts = modS (\<lambda>b. b\<lparr>mj_mode := mode\<rparr>)"

section \<open>Moving\<close>

definition substeps :: "mj_model \<Rightarrow> mujoco \<Rightarrow> nat result" where
  "substeps m b =
     (if mm_timestep m = 0 then Inl ZeroDivisionError else Inr (nat (max 1 (py_round (mj_dt b / mm_timestep m)))))"

text \<open>One step: with gravity compensation the bias forces just computed are applied before integrating.\<close>

definition step_once :: "mj_lib \<Rightarrow> bool \<Rightarrow> mj_model \<Rightarrow> mj_data \<Rightarrow> mj_data" where
  "step_once L compensate m d =
     (if compensate
      then let d1 = ml_step1 L m d in ml_step2 L m (d1\<lparr>md_qfrc_applied := md_qfrc_bias d1\<rparr>)
      else ml_step L m d)"

definition step_n :: "mj_lib \<Rightarrow> (mujoco, unit) sem" where
  "step_n L =
     bindS the_sim (\<lambda>(m, d).
     bindS (getS (\<lambda>b. (substeps m b, mj_gravity_comp b))) (\<lambda>(r, compensate).
     bindS (liftS r) (\<lambda>n. put_data ((step_once L compensate m ^^ n) d))))"

text \<open>A target is clipped where the actuator has a range.\<close>

definition clip_to :: "real \<times> real \<Rightarrow> real \<Rightarrow> real" where
  "clip_to r x = (if fst r < snd r then np_clip x (fst r) (snd r) else x)"

definition clip_targets :: "(real \<times> real) list \<Rightarrow> real list \<Rightarrow> real list result" where
  "clip_targets ranges q =
     (if length q = length ranges then Inr (map2 clip_to ranges q)
      else if length q = 1 then Inr (map (\<lambda>r. clip_to r (hd q)) ranges)
      else Inl ValueError)"

definition assign_at :: "nat list \<Rightarrow> real list \<Rightarrow> real list \<Rightarrow> real list" where
  "assign_at idx vals xs = fold (\<lambda>(i, v) xs. xs[i := v]) (zip idx vals) xs"

definition mujoco_stream_joint :: "mj_lib \<Rightarrow> real list \<Rightarrow> (mujoco, unit) sem" where
  "mujoco_stream_joint L q =
     bindS the_sim (\<lambda>(m, d).
     bindS (getS (\<lambda>b. b)) (\<lambda>b.
     bindS (liftS (clip_targets (pick (mj_act b) (mm_ctrlrange m)) (take (mj_n_joints b) q))) (\<lambda>q'.
     thenS (put_data (d\<lparr>md_ctrl := assign_at (mj_act b) q' (md_ctrl d)\<rparr>)) (step_n L))))"

text \<open>The inverse-kinematics step: \<open>gain * J\<^sup>T (J J\<^sup>T + damping\<^sup>2 I)\<^sup>-\<^sup>1 err\<close>.\<close>

definition gram :: "matrix \<Rightarrow> matrix" where
  "gram J = map (\<lambda>r. map (dot r) J) J"

definition add_diag :: "real \<Rightarrow> matrix \<Rightarrow> matrix" where
  "add_diag c M = map (\<lambda>(i, row). row[i := row ! i + c]) (enumerate 0 M)"

definition tr_vec :: "matrix \<Rightarrow> nat \<Rightarrow> real list \<Rightarrow> real list" where
  "tr_vec J n y = map (\<lambda>j. dot (map (\<lambda>row. row ! j) J) y) [0..<n]"

definition pose_error :: "pose \<Rightarrow> pose \<Rightarrow> real list" where
  "pose_error target cur =
     (let dp = pos target - pos cur; dr = quat_to_rotvec (quat_mul (rot target) (quat_conj (rot cur)))
      in [vx dp, vy dp, vz dp, vx dr, vy dr, vz dr])"

definition ik_step :: "mj_lib \<Rightarrow> real \<Rightarrow> real \<Rightarrow> matrix \<Rightarrow> nat \<Rightarrow> real list \<Rightarrow> real list result" where
  "ik_step L gain damping J n err =
     bindR (ml_solve L (add_diag (damping\<^sup>2) (gram J)) err) (\<lambda>y. Inr (map (\<lambda>x. gain * x) (tr_vec J n y)))"

definition mujoco_stream_cartesian :: "mj_lib \<Rightarrow> pose \<Rightarrow> real list option \<Rightarrow> (mujoco, unit) sem" where
  "mujoco_stream_cartesian L target wrench =
     bindS the_sim (\<lambda>(m, d).
     bindS (getS (\<lambda>b. b)) (\<lambda>b.
     (let (jacp, jacr) = ml_jac_site L m d (nat (mj_site b));
          J = map (pick (mj_vadr b)) jacp @ map (pick (mj_vadr b)) jacr
      in bindS (liftS (ik_step L (mj_ik_gain b) (mj_ik_damping b) J (length (mj_vadr b))
                         (pose_error target (site_pose d (mj_site b))))) (\<lambda>dq.
           mujoco_stream_joint L (map2 (+) (pick (mj_qadr b) (md_qpos d)) dq)))))"

definition mujoco_move_gripper :: "mj_lib \<Rightarrow> gripper_command \<Rightarrow> (mujoco, unit) sem" where
  "mujoco_move_gripper L cmd =
     bindS (getS (\<lambda>b. b)) (\<lambda>b.
       if mj_grip_act b < 0 then retS ()
       else bindS the_sim (\<lambda>(m, d).
              (let a = nat (mj_grip_act b);
                   width = (if g_grasp cmd then 0 else g_width cmd);
                   (lo, hi) = mm_ctrlrange m ! a;
                   ctrl = mj_grip_scale b * width + mj_grip_offset b
               in thenS (put_data (d\<lparr>md_ctrl := (md_ctrl d)[a := (if lo < hi then min (max ctrl lo) hi else ctrl)]\<rparr>))
                    (step_n L))))"

definition mujoco_stop :: "(mujoco, unit) sem" where
  "mujoco_stop = modS (\<lambda>b. b\<lparr>mj_mode := IDLE\<rparr>)"

text \<open>Homing writes the configuration; it checks that the simulation exists.\<close>

definition mujoco_home :: "mj_lib \<Rightarrow> real list option \<Rightarrow> (mujoco, unit) sem" where
  "mujoco_home L q_home =
     bindS (getS (\<lambda>b. b)) (\<lambda>b.
       case (q_home, mj_sim b) of
         (Some q, Some (m, d)) \<Rightarrow>
           bindS (liftS (let v = take (mj_n_joints b) q in
                         if length v = length (mj_qadr b) then Inr v
                         else if length v = 1 then Inr (replicate (length (mj_qadr b)) (hd v)) else Inl ValueError)) (\<lambda>v.
             put_data (ml_forward L m
               (d\<lparr>md_qpos := assign_at (mj_qadr b) v (md_qpos d),
                  md_qvel := assign_at (mj_vadr b) (replicate (length (mj_vadr b)) 0) (md_qvel d)\<rparr>)))
       | _ \<Rightarrow> retS ())"

definition mujoco_backend :: "mj_lib \<Rightarrow> mujoco backend" where
  "mujoco_backend L = \<lparr>bk_connect = mujoco_connect L, bk_disconnect = modS (\<lambda>b. b\<lparr>mj_connected := False\<rparr>),
     bk_is_connected = mj_connected, bk_read_state = mujoco_read_state L, bk_set_mode = mujoco_set_mode,
     bk_stream_cartesian = mujoco_stream_cartesian L, bk_stream_joint = mujoco_stream_joint L,
     bk_move_gripper = mujoco_move_gripper L, bk_stop = mujoco_stop, bk_zero_ft_sensor = base_zero_ft_sensor,
     bk_set_contact_wrench_limit = base_set_contact_wrench_limit, bk_in_fault = base_in_fault,
     bk_home = mujoco_home L\<rparr>"

end
