(* ===== verification/Mujoco_Proofs.thy ===== *)
theory Mujoco_Proofs
  imports Mujoco
begin

text \<open>
  The simulator's motions: the targets handed to the physics are within the actuators' ranges, the
  inverse-kinematics step does not increase the linearised error, and the mode has no influence on
  either.
\<close>

section \<open>Targets\<close>

lemma assign_at_length [simp]: "length (assign_at idx vals xs) = length xs"
proof -
  have "length (fold (\<lambda>(i, v) xs. xs[i := v]) ps xs) = length xs" for ps
    by (induction ps arbitrary: xs) (auto split: prod.split)
  then show ?thesis by (simp add: assign_at_def)
qed

lemma assign_at_other: "a \<notin> set idx \<Longrightarrow> assign_at idx vals xs ! a = xs ! a"
proof -
  have "a \<notin> fst ` set ps \<Longrightarrow> fold (\<lambda>(i, v) xs. xs[i := v]) ps xs ! a = xs ! a" for ps
    by (induction ps arbitrary: xs) (auto split: prod.split)
  moreover assume "a \<notin> set idx"
  then have "a \<notin> fst ` set (zip idx vals)" by (auto dest: set_zip_leftD)
  ultimately show ?thesis by (simp add: assign_at_def)
qed

lemma assign_at_upto:
  "length vals = k \<Longrightarrow> k \<le> length xs \<Longrightarrow> a < k \<Longrightarrow> assign_at [0..<k] vals xs ! a = vals ! a"
proof (induction k arbitrary: vals a)
  case (Suc k)
  obtain vs v where vals: "vals = vs @ [v]" "length vs = k" using Suc.prems(1) by (metis length_Suc_conv_rev)
  have "assign_at [0..<Suc k] vals xs = (assign_at [0..<k] vs xs)[k := v]" using vals by (simp add: assign_at_def)
  moreover have "a < k \<Longrightarrow> assign_at [0..<k] vs xs ! a = vs ! a" using Suc.IH [OF vals(2)] Suc.prems by simp
  ultimately show ?case using Suc.prems vals by (auto simp: nth_list_update nth_append not_less_eq less_antisym)
qed simp

lemma clip_to_range: "fst r < snd r \<Longrightarrow> fst r \<le> clip_to r x \<and> clip_to r x \<le> snd r"
  by (simp add: clip_to_def np_clip_def)

lemma clip_targets_range:
  assumes "clip_targets ranges q = Inr q'"
  shows "length q' = length ranges"
    "i < length ranges \<Longrightarrow> fst (ranges ! i) < snd (ranges ! i) \<Longrightarrow> fst (ranges ! i) \<le> q' ! i \<and> q' ! i \<le> snd (ranges ! i)"
  using assms by (auto simp: clip_targets_def clip_to_range split: if_splits)

lemma sim_simps:
  "mj_sim b = Some (m, d) \<Longrightarrow> the_sim b = (Inr (m, d), b)"
  "mj_sim b = None \<Longrightarrow> the_sim b = (Inl AttributeError, b)"
  "put_data d' b = (Inr (), b\<lparr>mj_sim := map_option (\<lambda>(m, _). (m, d')) (mj_sim b)\<rparr>)"
  by (simp_all add: the_sim_def bindS_def sem_simps put_data_def)

lemma substeps_sim: "substeps m (b\<lparr>mj_sim := x\<rparr>) = substeps m b"
  by (simp add: substeps_def cong: if_cong)

lemma step_n_ends:
  assumes "mj_sim b = Some (m, d)" "step_n L b = (Inr (), b')"
  shows "\<exists>n. substeps m b = Inr n \<and> b' = b\<lparr>mj_sim := Some (m, (step_once L (mj_gravity_comp b) m ^^ n) d)\<rparr>"
  using assms by (auto simp: step_n_def bindS_def sem_simps sim_simps split: sum.splits)

definition in_range :: "mj_model \<Rightarrow> mj_data \<Rightarrow> nat \<Rightarrow> bool" where
  "in_range m d a \<longleftrightarrow> (fst (mm_ctrlrange m ! a) < snd (mm_ctrlrange m ! a)
     \<longrightarrow> fst (mm_ctrlrange m ! a) \<le> md_ctrl d ! a \<and> md_ctrl d ! a \<le> snd (mm_ctrlrange m ! a))"

lemma stream_joint_within:
  assumes "mujoco_stream_joint L q b = (Inr (), b')" "mj_sim b = Some (m, d)" "mj_act b = [0..<k]" "k \<le> length (md_ctrl d)"
  shows "\<exists>ctrl n. substeps m b = Inr n
    \<and> b' = b\<lparr>mj_sim := Some (m, (step_once L (mj_gravity_comp b) m ^^ n) (d\<lparr>md_ctrl := ctrl\<rparr>))\<rparr>
    \<and> (\<forall>a<k. in_range m (d\<lparr>md_ctrl := ctrl\<rparr>) a) \<and> (\<forall>a\<ge>k. ctrl ! a = md_ctrl d ! a)"
proof -
  obtain q' where q': "clip_targets (pick [0..<k] (mm_ctrlrange m)) (take (mj_n_joints b) q) = Inr q'"
      "step_n L (b\<lparr>mj_sim := Some (m, d\<lparr>md_ctrl := assign_at [0..<k] q' (md_ctrl d)\<rparr>)\<rparr>) = (Inr (), b')"
    using assms(1-3) by (auto simp: mujoco_stream_joint_def bindS_def sem_simps sim_simps split: sum.splits)
  have len: "length q' = k" using clip_targets_range(1) [OF q'(1)] by (simp add: pick_def)
  have "in_range m (d\<lparr>md_ctrl := assign_at [0..<k] q' (md_ctrl d)\<rparr>) a" if "a < k" for a
    using clip_targets_range(2) [OF q'(1), of a] assign_at_upto [OF len assms(4) that] that by (simp add: in_range_def pick_def)
  moreover have "\<forall>a\<ge>k. assign_at [0..<k] q' (md_ctrl d) ! a = md_ctrl d ! a" by (simp add: assign_at_other)
  moreover obtain n where "substeps m b = Inr n"
      "b' = b\<lparr>mj_sim := Some (m, (step_once L (mj_gravity_comp b) m ^^ n) (d\<lparr>md_ctrl := assign_at [0..<k] q' (md_ctrl d)\<rparr>))\<rparr>"
    using step_n_ends [OF _ q'(2)] by (auto simp: substeps_sim)
  ultimately show ?thesis by blast
qed

lemma stream_cartesian_joint:
  assumes "mujoco_stream_cartesian L p w b = (Inr (), b')" "mj_sim b = Some (m, d)"
  shows "\<exists>q. mujoco_stream_joint L q b = (Inr (), b')"
  using assms by (auto simp: mujoco_stream_cartesian_def bindS_def sem_simps sim_simps Let_def split: sum.splits prod.splits)

text \<open>C30: Whatever pose or configuration is streamed, and however far the inverse kinematics wants to move, the physics is
  stepped with arm targets inside the range of every limited actuator and with the other actuators' targets as they were;
  nothing else of the simulation is written, and it advances at least one step.\<close>

theorem sim_targets_in_range:
  assumes "mj_sim b = Some (m, d)" "mj_act b = [0..<k]" "k \<le> length (md_ctrl d)"
    and "mujoco_stream_joint L q b = (Inr (), b') \<or> mujoco_stream_cartesian L p w b = (Inr (), b')"
  shows "\<exists>ctrl n. 1 \<le> n \<and> b' = b\<lparr>mj_sim := Some (m, (step_once L (mj_gravity_comp b) m ^^ n) (d\<lparr>md_ctrl := ctrl\<rparr>))\<rparr>
    \<and> (\<forall>a<k. fst (mm_ctrlrange m ! a) < snd (mm_ctrlrange m ! a)
         \<longrightarrow> fst (mm_ctrlrange m ! a) \<le> ctrl ! a \<and> ctrl ! a \<le> snd (mm_ctrlrange m ! a))
    \<and> (\<forall>a\<ge>k. ctrl ! a = md_ctrl d ! a)"
proof -
  obtain q' where "mujoco_stream_joint L q' b = (Inr (), b')" using assms(4) stream_cartesian_joint [OF _ assms(1)] by blast
  from stream_joint_within [OF this assms(1-3)]
  obtain ctrl n where s: "substeps m b = Inr n"
      "b' = b\<lparr>mj_sim := Some (m, (step_once L (mj_gravity_comp b) m ^^ n) (d\<lparr>md_ctrl := ctrl\<rparr>))\<rparr>"
      "\<forall>a<k. in_range m (d\<lparr>md_ctrl := ctrl\<rparr>) a" "\<forall>a\<ge>k. ctrl ! a = md_ctrl d ! a"
    by blast
  have "1 \<le> n" using s(1) by (auto simp: substeps_def split: if_splits)
  with s(2-4) show ?thesis unfolding in_range_def by (intro exI [of _ ctrl] exI [of _ n]) simp
qed

text \<open>A simulation of one limited joint under a library that leaves the data alone.\<close>

definition demo_model :: mj_model where
  "demo_model = \<lparr>mm_nu = 1, mm_nsite = 1, mm_trn_joint = [0], mm_qposadr = [0], mm_dofadr = [0], mm_ctrlrange = [(- 1, 1)],
     mm_timestep = 1 / 100, mm_site_id = (\<lambda>_. 0), mm_actuator_id = (\<lambda>_. - 1)\<rparr>"

definition demo_data :: mj_data where
  "demo_data = \<lparr>md_time = 0, md_qpos = [0], md_qvel = [0], md_ctrl = [0], md_actuator_force = [0], md_qfrc_bias = [0],
     md_qfrc_applied = [0], md_site_xpos = (\<lambda>_. 0), md_site_quat = (\<lambda>_. Quat 1 0 0 0)\<rparr>"

definition demo_lib :: mj_lib where
  "demo_lib = \<lparr>ml_load = (\<lambda>_. Inr demo_model), ml_data = (\<lambda>_. demo_data), ml_forward = (\<lambda>_ d. d), ml_step = (\<lambda>_ d. d),
     ml_step1 = (\<lambda>_ d. d), ml_step2 = (\<lambda>_ d. d), ml_jac_site = (\<lambda>_ _ _. ([], [])),
     ml_solve = (\<lambda>A b. Inr (map2 (\<lambda>i x. x / A ! i ! i) [0..<length b] b))\<rparr>"

definition demo_sim :: mujoco where
  "demo_sim = (mk_mujoco (Some ''arm.xml'') 1 (1 / 100) None None 1 0 1 (1 / 1000) False)
     \<lparr>mj_sim := Some (demo_model, demo_data), mj_act := [0], mj_qadr := [0], mj_vadr := [0], mj_site := 0\<rparr>"

lemma demo_sim_streams: "\<exists>b'. mujoco_stream_joint demo_lib [5] demo_sim = (Inr (), b')"
  by (simp add: mujoco_stream_joint_def step_n_def bindS_def sem_simps sim_simps demo_sim_def demo_model_def
      mk_mujoco_def clip_targets_def pick_def substeps_def)

lemma sim_targets_in_range_witness:
  "\<exists>b' d'. mujoco_stream_joint demo_lib [5] demo_sim = (Inr (), b') \<and> mj_sim b' = Some (demo_model, d')
    \<and> md_ctrl d' ! 0 \<le> 1"
proof -
  obtain b' where b': "mujoco_stream_joint demo_lib [5] demo_sim = (Inr (), b')" using demo_sim_streams by blast
  have sim: "mj_sim demo_sim = Some (demo_model, demo_data)" "mj_act demo_sim = [0..<1]" "1 \<le> length (md_ctrl demo_data)"
    by (simp_all add: demo_sim_def demo_data_def)
  have step: "(step_once demo_lib c demo_model ^^ n) d = d" if "\<not> c" for n c d
    using that by (induction n) (simp_all add: step_once_def demo_lib_def)
  have still: "\<not> mj_gravity_comp demo_sim" by (simp add: demo_sim_def mk_mujoco_def)
  obtain ctrl n where "b' = demo_sim\<lparr>mj_sim := Some (demo_model,
        (step_once demo_lib (mj_gravity_comp demo_sim) demo_model ^^ n) (demo_data\<lparr>md_ctrl := ctrl\<rparr>))\<rparr>"
      "\<forall>a<1. fst (mm_ctrlrange demo_model ! a) < snd (mm_ctrlrange demo_model ! a)
         \<longrightarrow> fst (mm_ctrlrange demo_model ! a) \<le> ctrl ! a \<and> ctrl ! a \<le> snd (mm_ctrlrange demo_model ! a)"
    using sim_targets_in_range [OF sim disjI1 [OF b']] by blast
  then show ?thesis using b' by (simp add: step [OF still]) (simp add: demo_model_def)
qed

text \<open>The mode has no influence: a stop changes nothing else, and a stream after it goes on as before.\<close>

lemma stop_lets_through:
  "mujoco_stream_joint L q (b\<lparr>mj_mode := IDLE\<rparr>) = (case mujoco_stream_joint L q b of (out, b') \<Rightarrow> (out, b'\<lparr>mj_mode := IDLE\<rparr>))"
proof -
  have sub: "substeps m (b\<lparr>mj_mode := IDLE\<rparr>) = substeps m b" for m b
    by (simp add: substeps_def cong: if_cong)
  show ?thesis
    by (cases "mj_sim b")
       (auto simp: mujoco_stream_joint_def step_n_def bindS_def sem_simps sim_simps sub substeps_sim split: sum.splits)
qed

section \<open>The inverse-kinematics step\<close>

lemma dot_sum: "length xs = n \<Longrightarrow> length ys = n \<Longrightarrow> dot xs ys = (\<Sum>i<n. xs ! i * ys ! i)"
  by (simp add: dot_def sum_list_sum_nth atLeast0LessThan)

definition shaped :: "matrix \<Rightarrow> nat \<Rightarrow> bool" where
  "shaped J n \<longleftrightarrow> list_all (\<lambda>row. length row = n) J"

lemma shaped_row: "shaped J n \<Longrightarrow> i < length J \<Longrightarrow> length (J ! i) = n"
  by (simp add: shaped_def list_all_length)

lemma lengths [simp]: "length (mat_vec M x) = length M" "length (tr_vec J n y) = n" "length (gram J) = length J"
    "length (add_diag c M) = length M"
  by (simp_all add: mat_vec_def tr_vec_def gram_def add_diag_def)

lemma tr_vec_nth: "length y = length J \<Longrightarrow> j < n \<Longrightarrow> tr_vec J n y ! j = (\<Sum>i<length J. J ! i ! j * y ! i)"
  by (simp add: tr_vec_def dot_sum)

lemma mat_vec_nth: "shaped J n \<Longrightarrow> length x = n \<Longrightarrow> i < length J \<Longrightarrow> mat_vec J x ! i = (\<Sum>j<n. J ! i ! j * x ! j)"
  by (simp add: mat_vec_def dot_sum shaped_row)

text \<open>\<open>(J J\<^sup>T + c I) y = J (J\<^sup>T y) + c y\<close>, and \<open>J (J\<^sup>T y)\<close> has a non-negative product with \<open>y\<close>.\<close>

lemma gram_vec:
  assumes "shaped J n" "length y = length J" "i < length J"
  shows "mat_vec (add_diag c (gram J)) y ! i = mat_vec J (tr_vec J n y) ! i + c * y ! i"
proof -
  let ?k = "length J"
  have entry: "add_diag c (gram J) ! i = (map (dot (J ! i)) J)[i := dot (J ! i) (J ! i) + c]"
    using assms(3) by (simp add: add_diag_def gram_def nth_enumerate_eq)
  have row: "add_diag c (gram J) ! i ! l = dot (J ! i) (J ! l) + (if l = i then c else 0)" if "l < ?k" for l
    using assms(3) that by (simp add: entry nth_list_update)
  have "mat_vec (add_diag c (gram J)) y ! i = dot (add_diag c (gram J) ! i) y" using assms(3) by (simp add: mat_vec_def)
  also have "\<dots> = (\<Sum>l<?k. add_diag c (gram J) ! i ! l * y ! l)"
    by (rule dot_sum) (simp_all add: entry assms(2))
  also have "\<dots> = (\<Sum>l<?k. dot (J ! i) (J ! l) * y ! l) + (\<Sum>l<?k. (if l = i then c else 0) * y ! l)"
    by (simp add: row ring_distribs sum.distrib)
  also have "(\<Sum>l<?k. (if l = i then c else 0) * y ! l) = c * y ! i"
    using assms(3) by (simp add: if_distrib [of "\<lambda>x. x * _"] cong: if_cong)
  also have "(\<Sum>l<?k. dot (J ! i) (J ! l) * y ! l) = (\<Sum>l<?k. \<Sum>j<n. J ! i ! j * (J ! l ! j * y ! l))"
    using assms(1,3) by (simp add: dot_sum shaped_row sum_distrib_right mult.assoc)
  also have "\<dots> = (\<Sum>j<n. \<Sum>l<?k. J ! i ! j * (J ! l ! j * y ! l))" by (rule sum.swap)
  also have "\<dots> = mat_vec J (tr_vec J n y) ! i"
    using assms by (simp add: mat_vec_nth tr_vec_nth sum_distrib_left)
  finally show ?thesis .
qed

lemma gram_pos:
  assumes "shaped J n" "length y = length J"
  shows "0 \<le> (\<Sum>i<length J. mat_vec J (tr_vec J n y) ! i * y ! i)"
proof -
  let ?u = "tr_vec J n y"
  have "(\<Sum>i<length J. mat_vec J ?u ! i * y ! i) = (\<Sum>i<length J. \<Sum>j<n. J ! i ! j * ?u ! j * y ! i)"
    using assms(1) by (simp add: mat_vec_nth sum_distrib_right)
  also have "\<dots> = (\<Sum>j<n. \<Sum>i<length J. J ! i ! j * ?u ! j * y ! i)" by (rule sum.swap)
  also have "\<dots> = (\<Sum>j<n. ?u ! j * ?u ! j)"
    using assms by (intro sum.cong refl) (simp add: tr_vec_nth sum_distrib_left mult.commute mult.left_commute)
  finally show ?thesis by (simp add: sum_nonneg)
qed

lemma scaled_step: "length y = length J \<Longrightarrow> shaped J n \<Longrightarrow> i < length J \<Longrightarrow>
    mat_vec J (map (\<lambda>x. g * x) (tr_vec J n y)) ! i = g * mat_vec J (tr_vec J n y) ! i"
  by (simp add: mat_vec_nth sum_distrib_left mult.left_commute)

text \<open>What the step relies on of \<open>np.linalg.solve\<close>: a solution it returns solves the system.\<close>

definition solves :: "mj_lib \<Rightarrow> matrix \<Rightarrow> bool" where
  "solves L A \<longleftrightarrow> (\<forall>b y. length b = length A \<longrightarrow> ml_solve L A b = Inr y \<longrightarrow> length y = length A \<and> mat_vec A y = b)"

text \<open>C29: The damped least-squares step helps: when the solver solves its system, the joint step removes its part of the pose
  error to first order, so what remains of the linearised error is no larger than the error, for every Jacobian,
  singular ones included, every damping and every gain between none and two.\<close>

theorem ik_step_helps:
  assumes "shaped J n" "length err = length J" "0 \<le> gain" "gain \<le> 2"
    and "solves L (add_diag (damping\<^sup>2) (gram J))" "ik_step L gain damping J n err = Inr dq"
  shows "length dq = n
    \<and> (\<Sum>i<length J. (err ! i - mat_vec J dq ! i)\<^sup>2) \<le> (\<Sum>i<length J. (err ! i)\<^sup>2)"
proof -
  obtain y where y: "ml_solve L (add_diag (damping\<^sup>2) (gram J)) err = Inr y" "dq = map (\<lambda>x. gain * x) (tr_vec J n y)"
    using assms(6) by (auto simp: ik_step_def bindR_eq_Inr)
  have len: "length y = length J" and sol: "mat_vec (add_diag (damping\<^sup>2) (gram J)) y = err"
    using assms(2,5) y(1) by (auto simp: solves_def)
  let ?k = "length J" and ?c = "damping\<^sup>2"
  define p where "p i = mat_vec J (tr_vec J n y) ! i" for i
  have err: "err ! i = p i + ?c * y ! i" if "i < ?k" for i
    using gram_vec [OF assms(1) len that, of ?c] by (simp add: sol p_def)
  have left: "mat_vec J dq ! i = gain * p i" if "i < ?k" for i
    unfolding y(2) p_def by (rule scaled_step [OF len assms(1) that])
  have pos: "0 \<le> (\<Sum>i<?k. p i * y ! i)" using gram_pos [OF assms(1) len] by (simp add: p_def)
  have gap: "(err ! i)\<^sup>2 - (err ! i - mat_vec J dq ! i)\<^sup>2 = gain * (2 - gain) * (p i)\<^sup>2 + 2 * gain * ?c * (p i * y ! i)"
    if "i < ?k" for i
    unfolding err [OF that] left [OF that] by (simp add: power2_eq_square algebra_simps)
  have "(\<Sum>i<?k. (err ! i)\<^sup>2) - (\<Sum>i<?k. (err ! i - mat_vec J dq ! i)\<^sup>2)
      = (\<Sum>i<?k. gain * (2 - gain) * (p i)\<^sup>2 + 2 * gain * ?c * (p i * y ! i))"
    by (simp add: sum_subtractf [symmetric] gap)
  also have "\<dots> = gain * (2 - gain) * (\<Sum>i<?k. (p i)\<^sup>2) + 2 * gain * ?c * (\<Sum>i<?k. p i * y ! i)"
    by (simp add: sum.distrib sum_distrib_left)
  also have "\<dots> \<ge> 0" using assms(3,4) by (intro add_nonneg_nonneg mult_nonneg_nonneg pos sum_nonneg) auto
  finally have "(\<Sum>i<?k. (err ! i - mat_vec J dq ! i)\<^sup>2) \<le> (\<Sum>i<?k. (err ! i)\<^sup>2)" by simp
  then show ?thesis by (simp add: y(2))
qed

lemma ik_step_helps_witness:
  "\<exists>dq. ik_step demo_lib 1 1 [[1], [0]] 1 [2, 3] = Inr dq
    \<and> (\<Sum>i<2. ([2, 3] ! i - mat_vec [[1], [0]] dq ! i)\<^sup>2) \<le> (\<Sum>i<2. ([2, 3] ! i :: real)\<^sup>2)"
proof -
  have A: "add_diag (1\<^sup>2) (gram [[1], [0]]) = [[2, 0], [0, 1]]"
    by (simp add: add_diag_def gram_def dot_def)
  have "solves demo_lib (add_diag (1\<^sup>2) (gram [[1], [0]]))"
    unfolding A solves_def
  proof (intro allI impI)
    fix b y :: "real list"
    assume b: "length b = length [[2, 0], [0, 1 :: real]]" "ml_solve demo_lib [[2, 0], [0, 1]] b = Inr y"
    then obtain u v where "b = [u, v]" by (auto simp: length_Suc_conv)
    then show "length y = length [[2, 0], [0, 1 :: real]] \<and> mat_vec [[2, 0], [0, 1]] y = b"
      using b(2) by (auto simp: demo_lib_def mat_vec_def dot_def upt_rec)
  qed
  moreover obtain dq where "ik_step demo_lib 1 1 [[1], [0]] 1 [2, 3] = Inr dq"
    by (simp add: ik_step_def demo_lib_def bindR_def)
  ultimately show ?thesis
    using ik_step_helps [of "[[1], [0]]" 1 "[2, 3]" 1 demo_lib 1 dq] by (simp add: shaped_def numeral_2_eq_2)
qed

end
