(* ===== verification/Ros_Overlap.thy ===== *)
theory Ros_Overlap
  imports Chunk_Goals Ros_Node
begin

text \<open>
  The callbacks of the ROS 2 node share one robot without a lock and run on several threads: a jog's chunk and a
  goal's chunk can be between the same two statements. A tick is cut here where the filter has accepted its setpoint
  and the pose has not been streamed yet. Uninterrupted the two halves are \<open>filter_tick\<close>; interleaved, the poses
  streamed are no longer the ones the filter bounded from one another.
\<close>

record callback_tick =
  ct_env :: exec_env
  ct_sp :: setpoint
  ct_state :: robot_state
  ct_x :: locals

definition ct_filter :: "callback_tick \<Rightarrow> ('b robot, safety_result) sem" where
  "ct_filter T = onF (filter_cartesian (sp_pose (ct_sp T)) (ct_state T) (Some (e_wrench_cap (ct_env T))))"

definition ct_act :: "'b backend \<Rightarrow> callback_tick \<Rightarrow> safety_result \<Rightarrow> ('b robot, locals \<times> bool) sem" where
  "ct_act B T sr =
     (case sr_pose sr of
        Some cmd \<Rightarrow>
          (if \<not> sr_ok sr then stop_run B (reason_value (sr_reason sr)) (ct_x T)
           else stream_tick B (ct_env T) (ct_sp T) (ct_state T) cmd
                  (if sr_clipped sr then (ct_x T)\<lparr>x_result := (x_result (ct_x T))\<lparr>er_clipped := True\<rparr>\<rparr> else ct_x T))
      | None \<Rightarrow> stop_run B (reason_value (sr_reason sr)) (ct_x T))"

lemma tick_halves: "filter_tick B (ct_env T) (ct_sp T) (ct_state T) (ct_x T) = bindS (ct_filter T) (ct_act B T)"
  by (simp add: filter_tick_def ct_filter_def ct_act_def [abs_def])

text \<open>One after the other, and the second overtaking the first between its halves.\<close>

definition in_turn :: "'b backend \<Rightarrow> callback_tick \<Rightarrow> callback_tick \<Rightarrow> ('b robot, unit) sem" where
  "in_turn B T U = thenS (bindS (ct_filter T) (ct_act B T)) (thenS (bindS (ct_filter U) (ct_act B U)) (retS ()))"

definition overtaking :: "'b backend \<Rightarrow> callback_tick \<Rightarrow> callback_tick \<Rightarrow> ('b robot, unit) sem" where
  "overtaking B T U =
     bindS (ct_filter T) (\<lambda>t. bindS (ct_filter U) (\<lambda>u. thenS (ct_act B U u) (thenS (ct_act B T t) (retS ()))))"

lemma act_streams:
  fixes r :: "'b trace robot"
  assumes "sr_ok sr" "sr_pose sr = Some t" "\<not> sr_clipped sr"
  shows "wpS (ct_act (traced B) T sr) (\<lambda>_ r'. streamed (cmds r') = streamed (cmds r) @ [t]) (\<lambda>_ _. True) r"
  using assms by (auto simp: ct_act_def intro: wpS_mono [OF stream_tick_streams])

lemma act_course:
  fixes r :: "'b trace robot"
  assumes "sr_ok sr" "sr_pose sr = Some t" "\<not> sr_clipped sr" "on_course p dt c r"
  shows "wpS (ct_act (traced B) T sr) (\<lambda>_. on_course p dt c) (\<lambda>_ _. True) r"
  using assms course_calm [OF stream_tick_calm assms(4)] by (simp add: ct_act_def)

lemma in_turn_streams:
  fixes r :: "'b trace robot"
  assumes "on_course p dt s r" "fits p dt s (sp_pose (ct_sp T))" "fits p dt (sp_pose (ct_sp T)) (sp_pose (ct_sp U))"
    and "p_max_linear_accel p = None"
    and "np_any_abs_gt (st_wrench (ct_state T)) (e_wrench_cap (ct_env T)) = Inr False"
    and "np_any_abs_gt (st_wrench (ct_state U)) (e_wrench_cap (ct_env U)) = Inr False"
  shows "wpS (in_turn (traced B) T U)
    (\<lambda>_ r'. streamed (cmds r') = streamed (cmds r) @ [sp_pose (ct_sp T), sp_pose (ct_sp U)]) (\<lambda>_ _. True) r"
proof -
  have tick: "wpS (bindS (ct_filter V) (ct_act (traced B) V))
      (\<lambda>_ r'. streamed (cmds r') = streamed (cmds r0) @ [sp_pose (ct_sp V)] \<and> on_course p dt (sp_pose (ct_sp V)) r') (\<lambda>_ _. True) r0"
    if c: "on_course p dt c r0" "fits p dt c (sp_pose (ct_sp V))" "np_any_abs_gt (st_wrench (ct_state V)) (e_wrench_cap (ct_env V)) = Inr False"
    for c V and r0 :: "'b trace robot"
  proof -
    obtain t r1 where t: "ct_filter V r0 = (Inr t, r1)" "sr_ok t" "sr_pose t = Some (sp_pose (ct_sp V))" "\<not> sr_clipped t"
        and r1: "on_course p dt (sp_pose (ct_sp V)) r1" "r_b r1 = r_b r0"
      using filter_passes [OF c(1,2) assms(4) c(3)] unfolding ct_filter_def by blast
    show ?thesis using act_streams [OF t(2-4), of B V r1] act_course [OF t(2-4) r1(1), of B V] t(1) r1(2)
      by (auto simp: wpS_def bindS_def cmds_def split: prod.splits sum.splits)
  qed
  show ?thesis unfolding in_turn_def
    by (rule wpS_thenI [OF tick [OF assms(1,2,5)]], rule wpS_thenI, rule wpS_mono [OF tick [OF _ assms(3,6)]])
      (auto simp: wpS_base)
qed

text \<open>
  Two setpoints on course from \<open>s\<close>, the second from the first: in turn they are streamed in this order. Overtaken,
  the second follows \<open>s\<close> directly, although nothing bounded it from there, and then the first takes the arm back.
\<close>

lemma halves_stream:
  fixes r :: "'b trace robot"
  assumes "on_course p dt s r" "fits p dt s (sp_pose (ct_sp T))" "fits p dt (sp_pose (ct_sp T)) (sp_pose (ct_sp U))"
    and "p_max_linear_accel p = None"
    and "np_any_abs_gt (st_wrench (ct_state T)) (e_wrench_cap (ct_env T)) = Inr False"
    and "np_any_abs_gt (st_wrench (ct_state U)) (e_wrench_cap (ct_env U)) = Inr False"
  shows "wpS (overtaking (traced B) T U)
    (\<lambda>_ r'. streamed (cmds r') = streamed (cmds r) @ [sp_pose (ct_sp U), sp_pose (ct_sp T)]) (\<lambda>_ _. True) r"
proof -
  obtain t r1 where t: "ct_filter T r = (Inr t, r1)" "sr_ok t" "sr_pose t = Some (sp_pose (ct_sp T))" "\<not> sr_clipped t"
      and r1: "on_course p dt (sp_pose (ct_sp T)) r1" "r_b r1 = r_b r"
    using filter_passes [OF assms(1,2,4,5)] unfolding ct_filter_def by blast
  obtain u r2 where u: "ct_filter U r1 = (Inr u, r2)" "sr_ok u" "sr_pose u = Some (sp_pose (ct_sp U))" "\<not> sr_clipped u" "r_b r2 = r_b r1"
    using filter_passes [OF r1(1) assms(3,4,6)] unfolding ct_filter_def by blast
  have "streamed (cmds r2) = streamed (cmds r)" using u(5) r1(2) by (simp add: cmds_def)
  then have "wpS (thenS (ct_act (traced B) U u) (thenS (ct_act (traced B) T t) (retS ())))
      (\<lambda>_ r'. streamed (cmds r') = streamed (cmds r) @ [sp_pose (ct_sp U), sp_pose (ct_sp T)]) (\<lambda>_ _. True) r2"
    using act_streams [OF u(2-4), of B U r2] act_streams [OF t(2-4), of B T]
    by (intro wpS_thenI [OF act_streams [OF u(2-4)]] wpS_thenI [OF wpS_mono [OF act_streams [OF t(2-4)]]]) (auto simp: wpS_base)
  then show ?thesis using t(1) u(1) by (simp add: overtaking_def wpS_def bindS_def)
qed

text \<open>At a hundred ticks a second under the default profile, two steps of two millimetres: overtaken, a step of four where two and a
  half are allowed.\<close>

definition along :: "real \<Rightarrow> pose" where
  "along x = \<lparr>pos = Vec3 x 0 (3/10), rot = quat_id\<rparr>"

lemma fits_along: "25/100 \<le> x \<Longrightarrow> x \<le> y \<Longrightarrow> y \<le> 75/100 \<Longrightarrow> y - x \<le> 2/1000 \<Longrightarrow> fits default_profile (1/100) (along x) (along y)"
proof -
  assume xy: "25/100 \<le> x" "x \<le> y" "y \<le> 75/100" "y - x \<le> 2/1000"
  have "near_box default_profile (pos (along y))"
    using xy by (intro in_box_near) (simp add: along_def out_of_box_def ws_lo_def ws_hi_def default_profile_def)
  moreover have "norm (pos (along y) - pos (along x)) = y - x" using xy by (simp add: along_def norm_vec3_def minus_vec3_def)
  ultimately show "fits default_profile (1/100) (along x) (along y)"
    using xy by (simp add: fits_def in_spec_def mk_filter_def) (simp add: along_def default_profile_def)
qed

lemma caps_outrun:
  "fits default_profile (1/100) (along (500/1000)) (along (502/1000))"
  "fits default_profile (1/100) (along (502/1000)) (along (504/1000))"
  "p_max_linear_speed default_profile * (1/100) < norm (pos (along (504/1000)) - pos (along (500/1000)))"
  by (simp_all add: fits_along) (simp add: along_def default_profile_def norm_vec3_def minus_vec3_def)

end
