(* ===== verification/Front_Ends.thy ===== *)
theory Front_Ends
  imports Gym_Env Recede Cli Assets Host_Lock
begin

text \<open>
  The small parts around the components: the context managers of the host lock and of the servo loop, the input
  devices of \<^verbatim>\<open>teleop/spacemouse.py\<close>, the spaces of \<^verbatim>\<open>envs/gym_env.py\<close> without Gymnasium, the features of
  \<^verbatim>\<open>adapters/lerobot_robot.py\<close>, the confirmation at the console, the policy client as a callable, the viewer's
  choice of a model in \<^verbatim>\<open>cli.py\<close>, the names the packages resolve lazily, and the check of the vendor's version.
  Devices, the keyboard, imports and files are parameters.
\<close>

section \<open>Context managers\<close>

definition with_host_lock :: "int \<Rightarrow> real \<Rightarrow> (host_lock \<times> host_world, 'a) sem \<Rightarrow> (host_lock \<times> host_world, 'a) sem" where
  "with_host_lock me now body =
     thenS (hl_acquire me None False now) (finallyS body (\<lambda>out. thenS (hl_release me) (retS out)))"

definition with_servo :: "'b backend \<Rightarrow> real \<Rightarrow> ('b servo, 'a) sem \<Rightarrow> ('b servo, 'a) sem" where
  "with_servo B now body =
     thenS (servo_start B now) (finallyS body (\<lambda>out. thenS (servo_stop B) (retS out)))"

text \<open>A block that is left with a value has given the lock back; a block that was entered leaves no loop alive, whatever it raises.\<close>

lemma hl_release_gives_back: "hl_release me lw = (Inr x, lw') \<Longrightarrow> \<not> hl_held (fst lw')"
  by (auto simp: hl_release_def split: if_splits sum.splits)

lemma with_host_lock_released: "with_host_lock me now body lw = (Inr x, lw') \<Longrightarrow> \<not> hl_held (fst lw')"
  by (auto simp: with_host_lock_def thenS_eq finallyS_def sem_simps dest: hl_release_gives_back split: prod.splits sum.splits)

lemma servo_stop_ends: "\<not> servo_alive (snd (servo_stop B s))"
  by (simp add: servo_stop_def thenS_eq sem_simps servo_alive_def onR_def split: prod.split)

lemma with_servo_ends: "fst (servo_start B now s) = Inr u \<Longrightarrow> \<not> servo_alive (snd (with_servo B now body s))"
proof -
  assume "fst (servo_start B now s) = Inr u"
  then obtain s1 where s1: "servo_start B now s = (Inr u, s1)" by (cases "servo_start B now s") auto
  obtain out s2 where s2: "body s1 = (out, s2)" by force
  show ?thesis using servo_stop_ends [of B s2] s1 s2
    by (auto simp: with_servo_def thenS_eq finallyS_def sem_simps split: prod.splits sum.splits)
qed

section \<open>Input devices\<close>

text \<open>
  A bench: the clock's successive readings, the time the scripted source was opened, whether the device is open, and
  the rest.
\<close>

record 'r bench =
  bn_clock :: "nat \<Rightarrow> real"
  bn_reads :: nat
  bn_t0 :: real
  bn_mouse :: bool
  bn_rest :: 'r

definition clock_now :: "('r bench, real) sem" where
  "clock_now b = (Inr (bn_clock b (bn_reads b)), b\<lparr>bn_reads := Suc (bn_reads b)\<rparr>)"

definition on_rest :: "('r, 'a) sem \<Rightarrow> ('r bench, 'a) sem" where
  "on_rest m b = (case m (bn_rest b) of (x, r) \<Rightarrow> (x, b\<lparr>bn_rest := r\<rparr>))"

definition scripted_source :: "(real \<Rightarrow> mouse) option \<Rightarrow> 'r bench source" where
  "scripted_source fn =
     \<lparr>so_open = bindS clock_now (\<lambda>t. modS (\<lambda>b. b\<lparr>bn_t0 := t\<rparr>)), so_close = retS (),
      so_read = bindS clock_now (\<lambda>t. bindS (getS bn_t0) (\<lambda>t0.
        retS ((case fn of None \<Rightarrow> scripted_default | Some f \<Rightarrow> f) (t - t0))))\<rparr>"

record axes =
  ax_x :: real
  ax_y :: real
  ax_z :: real
  ax_roll :: real
  ax_pitch :: real
  ax_yaw :: real
  ax_buttons :: "int list option"

record 'r mouse_lib =
  ml_open :: "('r, bool) sem"
  ml_read :: "('r, axes) sem"
  ml_close :: "('r, unit) sem"

definition mouse_of_axes :: "axes \<Rightarrow> mouse" where
  "mouse_of_axes st = \<lparr>ms_translation = Vec3 (ax_x st) (ax_y st) (ax_z st), ms_rotation = Vec3 (ax_roll st) (ax_pitch st) (ax_yaw st),
     ms_buttons = (case ax_buttons st of None \<Rightarrow> [] | Some bs \<Rightarrow> bs)\<rparr>"

text \<open>The library may not be installed.\<close>

definition device_source :: "'r mouse_lib option \<Rightarrow> 'r bench source" where
  "device_source lib =
     \<lparr>so_open =
        (case lib of
           None \<Rightarrow> raiseS RuntimeError
         | Some M \<Rightarrow> bindS (on_rest (ml_open M)) (\<lambda>ok.
             if \<not> ok then raiseS RuntimeError else modS (\<lambda>b. b\<lparr>bn_mouse := True\<rparr>))),
      so_close =
        bindS (getS bn_mouse) (\<lambda>open'.
          case lib of Some M \<Rightarrow> (if open' then on_rest (ml_close M) else retS ()) | None \<Rightarrow> retS ()),
      so_read =
        bindS (getS bn_mouse) (\<lambda>open'.
          case lib of
            Some M \<Rightarrow> (if open' then bindS (on_rest (ml_read M)) (\<lambda>st. retS (mouse_of_axes st)) else raiseS AttributeError)
          | None \<Rightarrow> raiseS AttributeError)\<rparr>"

text \<open>The script holds the deadman, deflects by three tenths at every moment, and presses nothing.\<close>

lemma scripted_holds:
  "magnitude (scripted_default t) = 3 / 10" "deadman_ok default_tele (scripted_default t) = Inr True"
  "button (ms_buttons (scripted_default t)) (tp_gripper_button default_tele) = Inr False"
proof -
  have "(3 / 10 * cos t)\<^sup>2 + (3 / 10 * sin t)\<^sup>2 = (3 / 10)\<^sup>2"
    unfolding power_mult_distrib distrib_left [symmetric] by simp
  then show "magnitude (scripted_default t) = 3 / 10"
    by (simp add: magnitude_def scripted_default_def norm_vec3_def real_sqrt_unique)
qed (simp_all add: deadman_ok_def button_def default_tele_def scripted_default_def)

text \<open>A device that was not opened is not read and not closed.\<close>

lemma device_unopened:
  "\<not> bn_mouse b \<Longrightarrow> so_read (device_source lib) b = (Inl AttributeError, b)"
  "\<not> bn_mouse b \<Longrightarrow> so_close (device_source lib) b = (Inr (), b)"
  by (simp_all add: device_source_def bindS_def sem_simps split: option.split)

section \<open>Spaces without Gymnasium\<close>

record box =
  bx_low :: "real list"
  bx_high :: "real list"

definition mk_box :: "real \<Rightarrow> real \<Rightarrow> nat \<Rightarrow> box" where
  "mk_box low high n = \<lparr>bx_low = replicate n low, bx_high = replicate n high\<rparr>"

definition box_contains :: "box \<Rightarrow> real list \<Rightarrow> bool result" where
  "box_contains b x =
     bindR (np_map2 (\<lambda>x l. l \<le> x) x (bx_low b)) (\<lambda>above.
       if \<not> list_all id above then Inr False
       else bindR (np_map2 (\<lambda>x h. x \<le> h) x (bx_high b)) (\<lambda>below. Inr (list_all id below)))"

text \<open>\<open>u\<close>: the generator's numbers in the unit interval.\<close>

definition box_sample :: "box \<Rightarrow> real list \<Rightarrow> real list" where
  "box_sample b u = map2 (\<lambda>(l, h) t. l + t * (h - l)) (zip (bx_low b) (bx_high b)) u"

definition action_space :: box where
  "action_space = mk_box (- 1) 1 7"

definition spacemouse_intervention :: "bool \<Rightarrow> 'w env \<Rightarrow> 'w wrapped result" where
  "spacemouse_intervention have_gym e =
     (if \<not> have_gym then Inl ImportError else Inr \<lparr>wr_env = e, wr_gripper_open = None, wr_prev_button = False\<rparr>)"

text \<open>What the environment makes of an action lies in the action space, and so does a sample of it.\<close>

lemma box_contains_mk: "length x = n \<Longrightarrow> box_contains (mk_box l h n) x = Inr (\<forall>v \<in> set x. l \<le> v \<and> v \<le> h)"
proof -
  have "map2 f x (replicate n c) = map (\<lambda>v. f v c) x" if "length x = n" for f :: "real \<Rightarrow> real \<Rightarrow> bool" and c
    using that by (auto intro!: nth_equalityI)
  then show "length x = n \<Longrightarrow> ?thesis" by (auto simp: box_contains_def mk_box_def list_all_iff)
qed

lemma clipped_in_space: "clip_action a = Inr a' \<Longrightarrow> box_contains action_space a' = Inr True"
  by (auto simp: clip_action_def action_space_def box_contains_mk np_clip_def split: if_splits)

lemma sample_in_space:
  assumes "length u = 7" "\<forall>t \<in> set u. 0 \<le> t \<and> t \<le> 1"
  shows "box_contains action_space (box_sample action_space u) = Inr True"
proof -
  have "box_sample action_space u = map (\<lambda>t. - 1 + t * 2) u"
    using assms(1) by (auto simp: box_sample_def action_space_def mk_box_def intro!: nth_equalityI)
  then show ?thesis using assms by (simp add: action_space_def box_contains_mk)
qed

section \<open>Features of the dataset adapter\<close>

definition observation_features :: "string list" where "observation_features = OBS_KEYS"

definition action_features :: "string list" where "action_features = ACTION_KEYS"

definition is_calibrated :: "'w adapter \<Rightarrow> bool" where "is_calibrated L = True"

definition register_with_lerobot :: bool where "register_with_lerobot = False"

text \<open>What is recorded has exactly the features announced, in their order.\<close>

lemma indexed_keys: "indexed name xs n = Inr obs \<Longrightarrow> map fst obs = map (keyed name) [0..<n]"
proof -
  have "mapR (\<lambda>i. if i < length xs then Inr (keyed name i, xs ! i) else Inl IndexError) is = Inr obs
      \<Longrightarrow> map fst obs = map (keyed name) is" for "is"
    by (induction "is" arbitrary: obs) (auto simp: bindR_eq_Inr split: if_splits)
  then show "indexed name xs n = Inr obs \<Longrightarrow> map fst obs = map (keyed name) [0..<n]" by (simp add: indexed_def)
qed

lemma observation_has_features: "get_observation A L = (Inr obs, L') \<Longrightarrow> map fst obs = observation_features"
  by (auto simp: get_observation_def bindS_def sem_simps bindR_eq_Inr observation_features_def OBS_KEYS_def
      dest!: indexed_keys split: prod.splits sum.splits)

lemma action_has_features: "send_action A T a L = (Inr sent, L') \<Longrightarrow> map fst sent = action_features"
  by (auto simp: send_action_def bindS_def thenS_eq sem_simps bindR_eq_Inr clip_action_def action_features_def ACTION_KEYS_def
      split: prod.splits sum.splits if_splits)

section \<open>The console and the policy client\<close>

record confirm_note =
  cn_step :: nat
  cn_waypoints :: nat
  cn_first :: vec3
  cn_last :: vec3
  cn_grips :: nat
  cn_caps :: "real \<times> real"

definition confirm_note_of :: "nat \<Rightarrow> chunk \<Rightarrow> confirm_note result" where
  "confirm_note_of step c =
     (if ck_waypoints c = [] then Inl IndexError
      else Inr \<lparr>cn_step = step, cn_waypoints = length (ck_waypoints c), cn_first = wp_position (hd (ck_waypoints c)),
                cn_last = wp_position (last (ck_waypoints c)),
                cn_grips = length (filter (\<lambda>w. wp_gripper w \<noteq> None) (ck_waypoints c)),
                cn_caps = (ck_max_tcp_linear_speed c, ck_max_tcp_angular_speed c)\<rparr>)"

text \<open>\<open>ask\<close> shows the note and reads a line.\<close>

definition console_confirm :: "(confirm_note \<Rightarrow> ('w, string) sem) \<Rightarrow> 'w on_propose" where
  "console_confirm ask step c =
     bindS (liftS (confirm_note_of step c)) (\<lambda>n. bindS (ask n) (\<lambda>a. retS (str_lower (strip a) = ''y'')))"

text \<open>Only a \<open>y\<close> lets the chunk through: an empty line does not.\<close>

lemma confirm_empty: "ask n w = (Inr a, w') \<Longrightarrow> confirm_note_of step c = Inr n \<Longrightarrow> list_all py_space a \<Longrightarrow>
    console_confirm ask step c w = (Inr False, w')"
proof -
  assume a: "ask n w = (Inr a, w')" "confirm_note_of step c = Inr n" "list_all py_space a"
  then have "dropWhile py_space a = []" by (metis dropWhile_eq_Nil_conv list_all_iff)
  then have "str_lower (strip a) = []" by (simp only: strip_def strip_chars_def str_lower_def) simp
  then show "console_confirm ask step c w = (Inr False, w')" using a by (simp add: console_confirm_def bindS_def sem_simps)
qed

record policy_client =
  pc_url :: string
  pc_instruction :: "string option"
  pc_timeout :: real

definition mk_policy_client :: "string \<Rightarrow> string option \<Rightarrow> real option \<Rightarrow> policy_client" where
  "mk_policy_client url instruction timeout =
     \<lparr>pc_url = url, pc_instruction = instruction, pc_timeout = (case timeout of None \<Rightarrow> 30 | Some t \<Rightarrow> t)\<rparr>"

definition policy_call ::
  "(string \<Rightarrow> real \<Rightarrow> json \<Rightarrow> ('w, json) sem) \<Rightarrow> policy_client \<Rightarrow> robot_state \<Rightarrow> ('w, chunk option) sem" where
  "policy_call post p = infer (post (pc_url p) (pc_timeout p)) (pc_instruction p)"

section \<open>The viewer's model\<close>

definition viz_model :: "(bool \<Rightarrow> string option) \<Rightarrow> string option \<Rightarrow> bool \<Rightarrow> bool \<Rightarrow> string option" where
  "viz_model ensure model no_model fetch_assets =
     (if model = None \<and> \<not> no_model then ensure fetch_assets else model)"

definition viz_url :: "string \<Rightarrow> int \<Rightarrow> string" where
  "viz_url host port =
     ''http://'' @ (if host = ''0.0.0.0'' \<or> host = ''::'' then ''localhost'' else host) @ '':'' @ show_int port"

text \<open>Nothing is downloaded unless it was asked for: without the option, what could be fetched makes no difference.\<close>

lemma never_downloads_silently:
  "viz_model (ensure_rizon_urdf d generate fetched m) model no_model False
    = viz_model (ensure_rizon_urdf d generate fetched' m) model no_model False"
  by (simp add: viz_model_def ensure_rizon_urdf_def)

section \<open>Names and versions\<close>

text \<open>What a package binds when it is imported, and what it resolves on access.\<close>

definition package_lazy :: "(string \<times> string) list" where
  "package_lazy = [(''RemoteRobot'', ''client.remote_robot''), (''FlexivControlServer'', ''server.server''),
     (''FlexivRealEnv'', ''envs.gym_env'')]"

definition package_getattr :: "string \<Rightarrow> string result" where
  "package_getattr name = (case map_of package_lazy name of None \<Rightarrow> Inl AttributeError | Some m \<Rightarrow> Inr m)"

definition viz_exports :: "string list" where
  "viz_exports = [''RobotViz'', ''ChunkPreview'', ''GripperEvent'', ''effective_caps'', ''plan_chunk_preview'', ''pose_distance'',
     ''time_colors'', ''workspace_box_edges'']"

definition viz_eager :: "string list" where
  "viz_eager = [''ChunkPreview'', ''GripperEvent'', ''effective_caps'', ''plan_chunk_preview'', ''pose_distance'', ''time_colors'',
     ''workspace_box_edges'']"

definition viz_getattr :: "bool \<Rightarrow> string \<Rightarrow> string result" where
  "viz_getattr installed name =
     (if name = ''RobotViz'' then (if installed then Inr ''viz.app'' else Inl ImportError) else Inl AttributeError)"

text \<open>Every name the viewer's package exports resolves, the drawing class only where its libraries are installed.\<close>

lemma viz_names_resolve: "name \<in> set viz_exports \<Longrightarrow> name \<in> set viz_eager \<or> viz_getattr True name = Inr ''viz.app''"
  by (auto simp: viz_exports_def viz_eager_def viz_getattr_def)

text \<open>Whether a version of the vendor's library is warned about.\<close>

definition warn_rdk_version :: "string option \<Rightarrow> bool" where
  "warn_rdk_version v =
     (case v of
        None \<Rightarrow> False
      | Some t \<Rightarrow> t \<noteq> '''' \<and> (case py_int (hd (split_on CHR ''.'' t)) of None \<Rightarrow> False | Some major \<Rightarrow> major \<noteq> 1))"

definition get_attr :: "(string \<rightharpoonup> 'a) \<Rightarrow> string list \<Rightarrow> 'a \<Rightarrow> 'a" where
  "get_attr obj names dflt =
     (case List.find (\<lambda>n. obj n \<noteq> None) names of None \<Rightarrow> dflt | Some n \<Rightarrow> the (obj n))"

end
