(* ===== verification/Spec2Isabelle.thy ===== *)
theory Spec2Isabelle
  imports Flexiv_Contract Close_Gate Host_Lock Wire Recede Server_Threads Server_Life Config_Proofs Gym_Proofs Viz_Proofs Ros_Proofs Chunk_Frame Chunk_Goals Mirror Urdf_Build Rizon_Gn01 Mujoco_Proofs Ros_Overlap Front_Ends
begin

text \<open>
  \<^bold>\<open>A verification development of flexiv_control.\<close>

  \<^verbatim>\<open>flexiv_control\<close> drives a seven-joint arm with a gripper from planners, policies and people. A client hands
  over a short chunk of waypoints; the \<^verbatim>\<open>Robot\<close> interpolates it at its control rate, passes every setpoint
  through a safety filter, streams it to a backend (the vendor's RDK, MuJoCo or a kinematic simulator) and
  reports what happened. A server offers the same calls to other processes under a lease, with a reactive
  servo loop as the alternative to blocking chunks. Around this core are a receding-horizon runner, a
  teleoperation loop, a Gym environment and a dataset adapter, a browser viewer with a go/no-go gate, a ROS 2
  bridge and a command line.

  Source files are named from \<^verbatim>\<open>src/src/flexiv_control/\<close> on.

  \<^bold>\<open>How the code is modelled.\<close> An operation on a mutable object is a function of type \<open>('s, 'a) sem\<close>: from the
  object's attributes to a result or an exception, and the attributes after it (\<open>Py_Prelude\<close>). \<open>bindS\<close>, \<open>thenS\<close>,
  \<open>catchS\<close> and \<open>finallyS\<close> are sequencing, \<^verbatim>\<open>try/except\<close> and \<^verbatim>\<open>try/finally\<close>; an early return or a raise of the source is
  a branch of the definition. Classes are records, enumerations are datatypes, Python's integers are \<open>int\<close> and its
  floats are reals; numpy's shape errors and its broadcasting are written out. A \<^verbatim>\<open>while\<close> loop that may not end is a
  partial function whose value \<open>None\<close> is not returning (\<open>while_from\<close> of \<open>Py_Loop\<close>); a wait with a time limit is given
  the number of its polls. Clock readings, readings of a device, the moments at which another thread asks for a stop
  and the clicks of an operator are arguments or part of the initial state, so that every theorem holds for all of
  them. The commands a backend gets are observed by wrapping it (\<open>traced\<close> of \<open>Backend\<close>): the trace lists every reading,
  mode, stream, gripper command and stop in order.

  \<^bold>\<open>Theories and sources.\<close>

  \<^item> Foundations: \<open>Py_Prelude\<close> (exceptions, state, numpy), \<open>Py_Text\<close> (strings and number literals), \<open>Py_Loop\<close>,
    \<open>Vectors\<close> (3-vectors and quaternions as normed spaces), \<open>Json\<close> (values on the wire and in logs).
  \<^item> Data and geometry: \<open>Transforms\<close> (\<^verbatim>\<open>transforms.py\<close>), \<open>Robot_Types\<close> (\<^verbatim>\<open>types.py\<close>), \<open>Action_Chunk\<close>
    (\<^verbatim>\<open>action_chunk.py\<close>), \<open>Interpolation\<close> and \<open>Interpolation_Proofs\<close> (\<^verbatim>\<open>interpolation.py\<close>), \<open>Config\<close> and \<open>Config_Proofs\<close>
    (\<^verbatim>\<open>config.py\<close> and the loading of profiles).
  \<^item> Safety: \<open>Safety_Filter\<close> and \<open>Safety_Proofs\<close> (\<^verbatim>\<open>safety.py\<close>).
  \<^item> Backends: \<open>Backend\<close> (\<^verbatim>\<open>backends/base.py\<close>, \<^verbatim>\<open>backends/fake.py\<close>), \<open>Flexiv_Rdk\<close>, \<open>Flexiv_Proofs\<close> and \<open>Flexiv_Contract\<close>
    (\<^verbatim>\<open>backends/flexiv_rdk.py\<close>), \<open>Mujoco\<close> and \<open>Mujoco_Proofs\<close> (\<^verbatim>\<open>backends/mujoco.py\<close>).
  \<^item> The robot: \<open>Robot_Facade\<close> (\<^verbatim>\<open>robot.py\<close>), \<open>Robot_Build\<close> (its construction, \<^verbatim>\<open>backends/__init__.py\<close>), and what its
    executors do: \<open>Robot_Proofs\<close>, \<open>Close_Gate\<close>, \<open>Chunk_Reports\<close>, \<open>Chunk_Frame\<close>, \<open>Chunk_Goals\<close>, \<open>Call_Bounds\<close>.
  \<^item> The server: \<open>Arbiter\<close>, \<open>Lease\<close> (\<^verbatim>\<open>server/lease.py\<close>), \<open>Host_Lock\<close> (\<^verbatim>\<open>server/host_lock.py\<close>), \<open>Servo_Loop\<close>
    (\<^verbatim>\<open>server/control_loop.py\<close>), \<open>Protocol\<close> (\<^verbatim>\<open>server/protocol.py\<close>), \<open>Server\<close>, \<open>Server_Proofs\<close>, \<open>Server_Threads\<close> and
    \<open>Server_Life\<close> (\<^verbatim>\<open>server/server.py\<close>).
  \<^item> Clients: \<open>Remote\<close> and \<open>Remote_Proofs\<close> (\<^verbatim>\<open>client/remote_robot.py\<close>, \<^verbatim>\<open>policy_client.py\<close>), \<open>Wire\<close> (the socket under them), \<open>Clients\<close> (the calls local
    and remote robots share), \<open>Recede\<close> (\<^verbatim>\<open>recede.py\<close>), \<open>Teleop\<close> and \<open>Teleop_Proofs\<close> (\<^verbatim>\<open>teleop/spacemouse.py\<close>), \<open>Gym_Env\<close> and
    \<open>Gym_Proofs\<close> (\<^verbatim>\<open>envs/gym_env.py\<close>, \<^verbatim>\<open>adapters/lerobot_robot.py\<close>).
  \<^item> Viewer: \<open>Preview\<close> and \<open>Preview_Proofs\<close> (\<^verbatim>\<open>viz/preview.py\<close>), \<open>Viz_App\<close> and \<open>Viz_Proofs\<close> (\<^verbatim>\<open>viz/app.py\<close>), \<open>Assets\<close>
    and \<open>Urdf_Build\<close> (\<^verbatim>\<open>viz/assets.py\<close>).
  \<^item> Simulation model: \<open>Rizon_Gn01\<close> (\<^verbatim>\<open>sim/build_rizon_gn01.py\<close>).
  \<^item> Entry points: \<open>Ros_Node\<close>, \<open>Ros_Proofs\<close> and \<open>Ros_Overlap\<close> (\<^verbatim>\<open>control_node.py\<close> of the ROS 2 package), \<open>Cli\<close> (\<^verbatim>\<open>cli.py\<close>) and \<open>Mirror\<close>
    (its viewer command over the client over the server); \<open>Front_Ends\<close> holds the small parts around the components: context
    managers, input devices, spaces and features, the console, lazily resolved names.

  Definitions keep the names of the source's functions where they can; a method that is long in the source is a group of
  definitions in the order of its statements, as the tick loop of \<^verbatim>\<open>execute_cartesian_chunk\<close> is \<open>enter_cartesian\<close>,
  \<open>run_chunk\<close>, \<open>chunk_loop\<close>, \<open>chunk_tick\<close>, \<open>filter_tick\<close>, \<open>stream_tick\<close> and \<open>finish_pending\<close>.

  \<^bold>\<open>Interfaces.\<close>

  \<^item> \<open>robot_backend\<close> (\<open>Backend\<close>): what the robot relies on of a backend that answers. The simulator provides it, alone and
    traced; the arm's backend provides it over a vendor library that behaves as documented (\<open>arm_answers\<close>). The MuJoCo
    backend does not: its stop lets streams through.
  \<^item> \<open>command_gate\<close> (\<open>Safety_Proofs\<close>): a filter whose accepted commands stay near their reference, provided by the
    Cartesian and by the joint filter; a whole stream is bounded once for both.
  \<^item> \<open>arbiter\<close> (\<open>Arbiter\<close>): one holder at a time, provided by the lease and by the host lock.
  \<^item> \<open>responder\<close> (\<open>Wire\<close>): every line is answered under its own number, provided by the server's dispatcher.
  \<^item> \<open>codec\<close> (\<open>Protocol\<close>): what is written is read back, provided by the seven kinds of message.
  \<^item> \<open>watched_robot\<close> (\<open>Viz_Proofs\<close>): the two calls a viewer makes, provided by the local robot and by the client of a
    server.

  \<^bold>\<open>What the lemmas show.\<close>

  \<^item> Motion. The interpolator's and the filter's streams move at most the caps from tick to tick and, without the acceleration cap, stay in the
    workspace box; a chunk call over any backend streams only such poses, whatever the backend reports and whenever a stop
    comes; so do sequences of calls by a receding-horizon run, an episode and the servo loop with any clients. A chunk
    within the profile passes the filter unchanged. A call that succeeds unclipped stops at each waypoint in turn, and a
    chunk within the profile is never stopped by its own motion: it visits every waypoint unless a stop request, a fault or
    contact ends it.
  \<^item> Reports and stops. A failed call has stopped the backend; a stop reported has been consumed; the relaxed contact
    guard is set back; a grasp waits until the arm is on track; on the arm's backend every chunk call ends in a
    report while the arm answers. The frame of a chunk is never read.
  \<^item> Arbitration. Whatever the interleaving of connections and the loop's thread, the robot has one writer; requests
    without the lease or against the loop are refused; a stop is heard whatever the lock does; the lease changes owner only
    through a moment without one; the host lock is exclusive when acquisitions do not overlap, and not otherwise; a foreground server gives it back on exit,
    but not when starting fails half-way.
  \<^item> Agreement. The remote robot's calls are the local robot's; messages and configuration files are read as they were
    written; the environment and the adapter are the same client; a preview is what runs. A reply is never taken for another
    request's, however late it comes; but a call that is refused on a connection that fell behind is executed.
  \<^item> People. Teleoperation moves only with the deadman held and toggles the gripper once per press; a confirmation is asked
    before the chunk it is for; a viewer only reads, locally and over a server; a jog is bounded by full deflection over the
    time that passed.
  \<^item> Simulation. The physics gets targets in range, the inverse-kinematics step never increases the linearised error, and
    flattening the gripper's mimic joints changes nothing; the generated document names its meshes absolutely and reads
    back with the flattened joints, and a combined arm and gripper model can be written anywhere.
  \<^item> Where the code does something else than it says, the theorem states what it does: a chunk's frame, a cancelled
    goal, a refused call, the go/no-go gate's staleness check, the backend of a configuration file, the force target that survives a stop, the callbacks that overtake one another.

  \<^bold>\<open>Bounds and termination.\<close> Recursion is structural or has a measure, fuel is nowhere needed. The receding-horizon and
  the teleoperation loop may run forever in the source and are \<open>while_from\<close>; with a step limit they return. The mimic
  chains are followed eight times, as in the source, and the theorem asks that this is enough. Numbers are compared with
  the source's own tolerances, which appear as constants.

  \<^bold>\<open>Assumptions.\<close> They stand in the theorems: the vendor's interface behaves as documented (\<open>arm_answers\<close>), a linear
  solver's solution solves its system (\<open>solves\<close>), a profile's caps are not negative, the rate is positive, a chunk passed its
  constructor (\<open>chunk_wf\<close>). Each has a witness on a concrete robot, arm, file or message.

  \<^bold>\<open>Not modelled.\<close>

  \<^item> Rounding, overflow, nan and infinity of floating-point numbers: a theorem about a bound is about the exact
    computation. Python's dictionaries are maps or lists of pairs in insertion order.
  \<^item> JSON's and YAML's text (PyYAML is a parameter; the package's own parser is modelled on its text), partial lines. A time
    limit that passes is modelled in \<open>Wire\<close>; elsewhere an exchange is atomic, as \<open>prompt_call\<close> shows it to be when it is
    answered in time.
  \<^item> Third-party code: the RDK, MuJoCo, numpy's solver, the device reader, rclpy, viser, xacro, the file system and the XML parser are
    parameters or, where they only show something, left out.
  \<^item> Threads are modelled where their order matters: the server's connections and its loop, the stop request during a
    chunk, two ticks of the ROS 2 node's callbacks. Within one request, tick or callback steps are otherwise whole.
    Pacing sleeps have no effect on the state.
  \<^item> Gymnasium's own bookkeeping and 32-bit observations; the texts the command line and the viewer print; logging.
  \<^item> The examples, launch files and message definitions.
\<close>

end
